(* ===== verification/Prelude.thy ===== *)
theory Prelude
  imports Main "HOL-Library.AList" "HOL-Library.Char_ord" "HOL-Library.List_Lexorder"
begin

text \<open>
  Shared vocabulary of the development: the exceptions the services raise, Python's ordered
  dictionaries (association lists with the order of first insertion, over the library theory
  \<open>AList\<close>), and the state-and-exception operations in which the stateful components are
  written, with a small calculus for invariants (\<open>keeps\<close>) that the component theories use.
\<close>

section \<open>Exceptions and results\<close>

datatype exn =
    ValueError string
  | KeyError
  | TypeError
  | WarmPoolStateError string
  | WarmPoolProvisioningError string "exn option"
  | SessionCapacityError string
  | SessionNotFoundError
  | BrowserLaunchError string
  | VncError string
  | TargetPortError string
  | TokenValidationError string
  | AuthenticationError string
  | RunnerCommandError string
  | GatewayRequestError string
  | AsyncTimeoutError string
  | AssertionError
  | HTTPException nat string
  | OtherError string

type_synonym 'a res = "exn + 'a"

definition res_bind :: "'a res \<Rightarrow> ('a \<Rightarrow> 'b res) \<Rightarrow> 'b res" where
  "res_bind r f = (case r of Inl e \<Rightarrow> Inl e | Inr x \<Rightarrow> f x)"

lemma res_bind_simps [simp]:
  "res_bind (Inl e) f = Inl e"
  "res_bind (Inr x) f = f x"
  by (simp_all add: res_bind_def)

lemma res_bind_eq_Inr [simp]:
  "res_bind r f = Inr y \<longleftrightarrow> (\<exists>x. r = Inr x \<and> f x = Inr y)"
  by (cases r) auto

lemma res_bind_eq_Inl:
  "res_bind r f = Inl e \<longleftrightarrow> r = Inl e \<or> (\<exists>x. r = Inr x \<and> f x = Inl e)"
  by (cases r) auto

text \<open>An early \<open>raise\<close> behind a condition.\<close>

definition ensure :: "bool \<Rightarrow> exn \<Rightarrow> unit res" where
  "ensure b e = (if b then Inr () else Inl e)"

lemma ensure_simps [simp]:
  "ensure True e = Inr ()"
  "ensure False e = Inl e"
  "ensure b e = Inr u \<longleftrightarrow> b"
  by (auto simp: ensure_def)

section \<open>Operations on a state that may raise\<close>

text \<open>
  A method that reads and writes the object's state is a function from the state to its result
  (an exception or a value) and the state it leaves behind. The state survives an exception:
  whatever the method wrote before raising stays written.
\<close>

type_synonym ('s, 'a) op = "'s \<Rightarrow> 'a res \<times> 's"

definition ret :: "'a \<Rightarrow> ('s, 'a) op" where
  "ret x = (\<lambda>s. (Inr x, s))"

definition raise :: "exn \<Rightarrow> ('s, 'a) op" where
  "raise e = (\<lambda>s. (Inl e, s))"

definition lift_res :: "'a res \<Rightarrow> ('s, 'a) op" where
  "lift_res r = (\<lambda>s. (r, s))"

definition gets :: "('s \<Rightarrow> 'a) \<Rightarrow> ('s, 'a) op" where
  "gets f = (\<lambda>s. (Inr (f s), s))"

definition modify :: "('s \<Rightarrow> 's) \<Rightarrow> ('s, unit) op" where
  "modify f = (\<lambda>s. (Inr (), f s))"

definition bindm :: "('s, 'a) op \<Rightarrow> ('a \<Rightarrow> ('s, 'b) op) \<Rightarrow> ('s, 'b) op" where
  "bindm m f = (\<lambda>s. case m s of (Inl e, s') \<Rightarrow> (Inl e, s') | (Inr x, s') \<Rightarrow> f x s')"

definition thenm :: "('s, 'a) op \<Rightarrow> ('s, 'b) op \<Rightarrow> ('s, 'b) op" where
  "thenm m k = bindm m (\<lambda>_. k)"

text \<open>\<open>try: m except e: h e\<close>: the handler runs in the state the failure left.\<close>

definition catchm :: "('s, 'a) op \<Rightarrow> (exn \<Rightarrow> ('s, 'a) op) \<Rightarrow> ('s, 'a) op" where
  "catchm m h = (\<lambda>s. case m s of (Inl e, s') \<Rightarrow> h e s' | (Inr x, s') \<Rightarrow> (Inr x, s'))"

text \<open>\<open>with contextlib.suppress(Exception): m\<close>.\<close>

definition suppress :: "('s, 'a) op \<Rightarrow> ('s, unit) op" where
  "suppress m = (\<lambda>s. (Inr (), snd (m s)))"

text \<open>The outcome of \<open>m\<close> as a value: \<open>try: ... except Exception as exc: ... else: ...\<close>.\<close>

definition attempt :: "('s, 'a) op \<Rightarrow> ('s, 'a res) op" where
  "attempt m = (\<lambda>s. (Inr (fst (m s)), snd (m s)))"

text \<open>\<open>try: m finally: k\<close>: \<open>k\<close> runs either way and its exception wins.\<close>

definition finallym :: "('s, 'a) op \<Rightarrow> ('s, unit) op \<Rightarrow> ('s, 'a) op" where
  "finallym m k = (\<lambda>s. case m s of (r, s') \<Rightarrow>
     (case k s' of (Inl e, s'') \<Rightarrow> (Inl e, s'') | (Inr _, s'') \<Rightarrow> (r, s'')))"

text \<open>An operation of a sub-object: \<open>g\<close> reads it, \<open>p\<close> writes it back.\<close>

definition zoom :: "('s \<Rightarrow> 't) \<Rightarrow> ('t \<Rightarrow> 's \<Rightarrow> 's) \<Rightarrow> ('t, 'a) op \<Rightarrow> ('s, 'a) op" where
  "zoom g p m = (\<lambda>s. (fst (m (g s)), p (snd (m (g s))) s))"

text \<open>\<open>if b: m\<close> with no \<open>else\<close>.\<close>

definition whenm :: "bool \<Rightarrow> ('s, unit) op \<Rightarrow> ('s, unit) op" where
  "whenm b m = (if b then m else ret ())"

text \<open>A sequential \<open>for x in xs\<close> whose body may raise.\<close>

fun for_each :: "'x list \<Rightarrow> ('x \<Rightarrow> ('s, unit) op) \<Rightarrow> ('s, unit) op" where
  "for_each [] f = ret ()"
| "for_each (x # xs) f = thenm (f x) (for_each xs f)"

lemmas op_defs = ret_def raise_def lift_res_def gets_def modify_def bindm_def thenm_def
  catchm_def suppress_def whenm_def attempt_def finallym_def zoom_def

lemma bindm_run:
  "m s = (Inr x, s') \<Longrightarrow> bindm m f s = f x s'"
  "m s = (Inl e, s') \<Longrightarrow> bindm m f s = (Inl e, s')"
  by (simp_all add: bindm_def)

lemma op_run:
  "ret x s = (Inr x, s)"
  "raise e s = (Inl e, s)"
  "lift_res r s = (r, s)"
  by (simp_all add: op_defs)

lemma op_run_simps [simp]:
  "modify g s = (Inr (), g s)"
  "gets g1 s = (Inr (g1 s), s)"
  "bindm (gets g2) f2 s = f2 (g2 s) s"
  "bindm (ret y) f3 s = f3 y s"
  "bindm (modify g) f4 s = f4 () (g s)"
  "bindm (raise e) f5 s = (Inl e, s)"
  "bindm (lift_res (Inr z)) f6 s = f6 z s"
  "bindm (lift_res (Inl e)) f7 s = (Inl e, s)"
  by (simp_all add: op_defs)

lemma op_run_then_simps [simp]:
  "thenm (modify g) k1 s = k1 (g s)"
  "thenm (ret y) k2 s = k2 s"
  "thenm (raise e) k3 s = (Inl e, s)"
  "thenm (gets g4) k4 s = k4 s"
  by (simp_all add: op_defs)

lemma op_assoc [simp]:
  "thenm (thenm a1 b1) k1 s = thenm a1 (thenm b1 k1) s"
  "bindm (thenm a2 b2) h2 s = thenm a2 (bindm b2 h2) s"
  "thenm (bindm a3 c3) k3 s = bindm a3 (\<lambda>x. thenm (c3 x) k3) s"
  "bindm (bindm a4 c4) h4 s = bindm a4 (\<lambda>x. bindm (c4 x) h4) s"
  by (auto simp: op_defs split: prod.splits sum.splits)

text \<open>
  Running an operation on a concrete state: the equations expose the outcome of the first step, and
  the congruences keep the continuation as it is until that outcome is known.
\<close>

lemma exec_op:
  "bindm m1 f s = (case m1 s of (r, s') \<Rightarrow> (case r of Inl e \<Rightarrow> (Inl e, s') | Inr x \<Rightarrow> f x s'))"
  "thenm m2 k s = (case m2 s of (r, s') \<Rightarrow> (case r of Inl e \<Rightarrow> (Inl e, s') | Inr x \<Rightarrow> k s'))"
  "catchm m3 h s = (case m3 s of (r, s') \<Rightarrow> (case r of Inl e \<Rightarrow> h e s' | Inr x \<Rightarrow> (Inr x, s')))"
  "attempt m4 s = (case m4 s of (r, s') \<Rightarrow> (Inr r, s'))"
  "suppress m5 s = (case m5 s of (r, s') \<Rightarrow> (Inr (), s'))"
  "whenm b w s = (if b then w s else (Inr (), s))"
  "zoom g p m6 s = (case m6 (g s) of (r, t) \<Rightarrow> (r, p t s))"
  "finallym m7 l s = (case m7 s of (r, s') \<Rightarrow>
     (case l s' of (r', s'') \<Rightarrow> (case r' of Inl e \<Rightarrow> (Inl e, s'') | Inr _ \<Rightarrow> (r, s''))))"
  by (simp_all add: op_defs split: prod.splits sum.splits)

lemma exec_cong:
  "m = m' \<Longrightarrow> bindm m f = bindm m' f"
  "n = n' \<Longrightarrow> thenm n k = thenm n' k"
  "n = n' \<Longrightarrow> catchm n h = catchm n' h"
  by simp_all

subsection \<open>Invariants of operations\<close>

text \<open>
  \<open>keeps I m\<close>: whichever way \<open>m\<close> ends, by a result or by an exception, it leaves a state that
  satisfies \<open>I\<close> if it started in one.
\<close>

definition keeps :: "('s \<Rightarrow> bool) \<Rightarrow> ('s, 'a) op \<Rightarrow> bool" where
  "keeps I m \<longleftrightarrow> (\<forall>s. I s \<longrightarrow> I (snd (m s)))"

named_theorems keep_rules

lemma keepsI: "(\<And>s. I s \<Longrightarrow> I (snd (m s))) \<Longrightarrow> keeps I m"
  by (simp add: keeps_def)

lemma keepsD: "keeps I m \<Longrightarrow> I s \<Longrightarrow> I (snd (m s))"
  by (simp add: keeps_def)

lemma keeps_run: "keeps I m \<Longrightarrow> I s \<Longrightarrow> m s = (r, s') \<Longrightarrow> I s'"
  by (metis keepsD snd_conv)

lemma keeps_pure [keep_rules]:
  "keeps I (ret x)"
  "keeps I (raise e)"
  "keeps I (lift_res r)"
  "keeps I (gets f)"
  by (simp_all add: keeps_def op_defs)

lemma keeps_modify: "(\<And>s. I s \<Longrightarrow> I (f s)) \<Longrightarrow> keeps I (modify f)"
  by (simp add: keeps_def)

lemma keeps_bindm [keep_rules]:
  assumes "keeps I m" and "\<And>x. keeps I (f x)"
  shows "keeps I (bindm m f)"
proof (rule keepsI)
  fix s assume "I s"
  with assms(1) have *: "I (snd (m s))" by (rule keepsD)
  show "I (snd (bindm m f s))"
  proof (cases "m s")
    case (Pair r s')
    with * assms(2) show ?thesis
      by (cases r) (auto simp: bindm_def keeps_def)
  qed
qed

lemma keeps_thenm [keep_rules]: "keeps I m \<Longrightarrow> keeps I k \<Longrightarrow> keeps I (thenm m k)"
  unfolding thenm_def by (rule keeps_bindm)

lemma keeps_catchm [keep_rules]:
  assumes "keeps I m" and "\<And>e. keeps I (h e)"
  shows "keeps I (catchm m h)"
proof (rule keepsI)
  fix s assume "I s"
  with assms(1) have *: "I (snd (m s))" by (rule keepsD)
  show "I (snd (catchm m h s))"
  proof (cases "m s")
    case (Pair r s')
    with * assms(2) show ?thesis
      by (cases r) (auto simp: catchm_def keeps_def)
  qed
qed

lemma keeps_suppress [keep_rules]: "keeps I m \<Longrightarrow> keeps I (suppress m)"
  by (simp add: keeps_def suppress_def)

lemma keeps_attempt [keep_rules]: "keeps I m \<Longrightarrow> keeps I (attempt m)"
  by (simp add: keeps_def attempt_def)

lemma keeps_finallym [keep_rules]: "keeps I m \<Longrightarrow> keeps I k \<Longrightarrow> keeps I (finallym m k)"
  by (fastforce simp: keeps_def finallym_def split: prod.splits sum.splits)

lemma keeps_zoom:
  assumes "keeps J m" and "\<And>s. I s \<Longrightarrow> J (g s)" and "\<And>s t. I s \<Longrightarrow> J t \<Longrightarrow> I (p t s)"
  shows "keeps I (zoom g p m)"
  using assms by (simp add: keeps_def zoom_def)

lemma keeps_whenm [keep_rules]: "keeps I m \<Longrightarrow> keeps I (whenm b m)"
  by (simp add: whenm_def keeps_pure)

lemma keeps_if [keep_rules]:
  "keeps I m \<Longrightarrow> keeps I k \<Longrightarrow> keeps I (if b then m else k)"
  by simp

lemma keeps_option [keep_rules]:
  "keeps I m \<Longrightarrow> (\<And>x. keeps I (f x)) \<Longrightarrow> keeps I (case o' of None \<Rightarrow> m | Some x \<Rightarrow> f x)"
  by (cases o') simp_all

lemma keeps_sum [keep_rules]:
  "(\<And>e. keeps I (h e)) \<Longrightarrow> (\<And>x. keeps I (f x)) \<Longrightarrow>
    keeps I (case r of Inl e \<Rightarrow> h e | Inr x \<Rightarrow> f x)"
  by (cases r) simp_all

lemma keeps_prod [keep_rules]:
  "(\<And>x y. keeps I (f x y)) \<Longrightarrow> keeps I (case p of (x, y) \<Rightarrow> f x y)"
  by (cases p) simp

lemma keeps_for_each [keep_rules]:
  "(\<And>x. x \<in> set xs \<Longrightarrow> keeps I (f x)) \<Longrightarrow> keeps I (for_each xs f)"
  by (induction xs) (auto intro: keep_rules)

subsection \<open>Weakest preconditions\<close>

text \<open>
  \<open>wp m Q E s\<close>: run from \<open>s\<close>, \<open>m\<close> either returns a value and a state that satisfy \<open>Q\<close> or raises
  an exception in a state that satisfies \<open>E\<close>. The equations of \<open>wp_simps\<close> execute an operation
  symbolically; a called operation contributes its own specification through \<open>wp_mono\<close>.
\<close>

definition wp :: "('s, 'a) op \<Rightarrow> ('a \<Rightarrow> 's \<Rightarrow> bool) \<Rightarrow> (exn \<Rightarrow> 's \<Rightarrow> bool) \<Rightarrow> 's \<Rightarrow> bool" where
  "wp m Q E s = (case m s of (Inr x, s') \<Rightarrow> Q x s' | (Inl e, s') \<Rightarrow> E e s')"

named_theorems wp_simps

lemma wp_ops [wp_simps]:
  "wp (ret x1) Q1 E1 s = Q1 x1 s"
  "wp (raise e) Q2 E2 s = E2 e s"
  "wp (gets g) Q3 E3 s = Q3 (g s) s"
  "wp (modify h) Q4 E4 s = Q4 () (h s)"
  "wp (lift_res r) Q5 E5 s = (case r of Inl e \<Rightarrow> E5 e s | Inr x \<Rightarrow> Q5 x s)"
  by (simp_all add: wp_def op_defs split: sum.splits)

lemma wp_bindm [wp_simps]: "wp (bindm m f) Q E s = wp m (\<lambda>x. wp (f x) Q E) E s"
  by (simp add: wp_def bindm_def split: prod.splits sum.splits)

lemma wp_thenm [wp_simps]: "wp (thenm m k) Q E s = wp m (\<lambda>_. wp k Q E) E s"
  by (simp add: thenm_def wp_bindm)

lemma wp_catchm [wp_simps]: "wp (catchm m h) Q E s = wp m Q (\<lambda>e. wp (h e) Q E) s"
  by (simp add: wp_def catchm_def split: prod.splits sum.splits)

lemma wp_attempt [wp_simps]:
  "wp (attempt m) Q E s = wp m (\<lambda>x. Q (Inr x)) (\<lambda>e. Q (Inl e)) s"
  by (simp add: wp_def attempt_def split: prod.splits sum.splits)

lemma wp_suppress [wp_simps]: "wp (suppress m) Q E s = wp m (\<lambda>_. Q ()) (\<lambda>_. Q ()) s"
  by (simp add: wp_def suppress_def split: prod.splits sum.splits)

lemma wp_whenm [wp_simps]: "wp (whenm b m) Q E s = (if b then wp m Q E s else Q () s)"
  by (simp add: wp_def whenm_def ret_def)

lemma wp_finallym [wp_simps]:
  "wp (finallym m k) Q E s = wp m (\<lambda>x. wp k (\<lambda>_. Q x) E) (\<lambda>e. wp k (\<lambda>_. E e) E) s"
  by (simp add: wp_def finallym_def split: prod.splits sum.splits)

lemma wp_zoom [wp_simps]:
  "wp (zoom g p m) Q E s = wp m (\<lambda>x t. Q x (p t s)) (\<lambda>e t. E e (p t s)) (g s)"
  by (simp add: wp_def zoom_def split: prod.splits sum.splits)

lemma wp_if [wp_simps]: "wp (if b then m else k) Q E s = (if b then wp m Q E s else wp k Q E s)"
  by simp

lemma wp_option [wp_simps]:
  "wp (case v of None \<Rightarrow> m | Some x \<Rightarrow> f x) Q E s = (case v of None \<Rightarrow> wp m Q E s | Some x \<Rightarrow> wp (f x) Q E s)"
  by (cases v) simp_all

lemma wp_sum [wp_simps]:
  "wp (case v of Inl e \<Rightarrow> h e | Inr x \<Rightarrow> f x) Q E s =
    (case v of Inl e \<Rightarrow> wp (h e) Q E s | Inr x \<Rightarrow> wp (f x) Q E s)"
  by (cases v) simp_all

lemma wp_mono:
  "wp m Q E s \<Longrightarrow> (\<And>x t. Q x t \<Longrightarrow> Q' x t) \<Longrightarrow> (\<And>e t. E e t \<Longrightarrow> E' e t) \<Longrightarrow> wp m Q' E' s"
  by (auto simp: wp_def split: prod.splits sum.splits)

lemma wp_conj:
  "wp m Q E s \<Longrightarrow> wp m Q' E' s \<Longrightarrow> wp m (\<lambda>x t. Q x t \<and> Q' x t) (\<lambda>e t. E e t \<and> E' e t) s"
  by (auto simp: wp_def split: prod.splits sum.splits)

lemma wp_keeps: "keeps I m \<longleftrightarrow> (\<forall>s. I s \<longrightarrow> wp m (\<lambda>_. I) (\<lambda>_. I) s)"
  by (auto simp: keeps_def wp_def split: prod.splits sum.splits) (metis snd_conv sum.exhaust surj_pair)

lemma keeps_wpI: "(\<And>s. I s \<Longrightarrow> wp m (\<lambda>_. I) (\<lambda>_. I) s) \<Longrightarrow> keeps I m"
  by (simp add: wp_keeps)

lemma keeps_wpD: "keeps I m \<Longrightarrow> I s \<Longrightarrow> wp m (\<lambda>_. I) (\<lambda>_. I) s"
  by (simp add: wp_keeps)

lemma wp_run: "wp m Q E s \<Longrightarrow> m s = (r, s') \<Longrightarrow> (case r of Inr x \<Rightarrow> Q x s' | Inl e \<Rightarrow> E e s')"
  by (cases r) (auto simp: wp_def)

section \<open>Reachable states\<close>

text \<open>
  Every component with state is a set of steps; its invariant holds initially and is kept by
  each step, hence in every state the component can reach.
\<close>

inductive reachable :: "('s \<Rightarrow> bool) \<Rightarrow> ('s \<Rightarrow> 's \<Rightarrow> bool) \<Rightarrow> 's \<Rightarrow> bool"
  for init step where
  reach_init: "init s \<Longrightarrow> reachable init step s"
| reach_step: "reachable init step s \<Longrightarrow> step s t \<Longrightarrow> reachable init step t"

locale transition_invariant =
  fixes init :: "'s \<Rightarrow> bool"
    and step :: "'s \<Rightarrow> 's \<Rightarrow> bool"
    and inv :: "'s \<Rightarrow> bool"
  assumes inv_init: "init s \<Longrightarrow> inv s"
    and inv_step: "inv s \<Longrightarrow> step s t \<Longrightarrow> inv t"
begin

lemma reachable_inv: "reachable init step s \<Longrightarrow> inv s"
  by (induction rule: reachable.induct) (auto intro: inv_init inv_step)

lemma reachable_consequence: "reachable init step s \<Longrightarrow> (\<And>t. inv t \<Longrightarrow> P t) \<Longrightarrow> P s"
  using reachable_inv by blast

end

section \<open>Ordered dictionaries\<close>

text \<open>
  A Python dictionary is an association list with distinct keys. \<open>AList.update\<close> is
  \<open>d[k] = v\<close> (an existing key keeps its place, a new one goes to the end), \<open>AList.delete\<close> is
  \<open>d.pop(k, None)\<close>, \<open>map_of\<close> is \<open>d.get(k)\<close>, and \<open>dict_merge d e\<close> is \<open>{**d, **e}\<close> or \<open>d.update(e)\<close>.
\<close>

type_synonym ('k, 'v) dict = "('k \<times> 'v) list"

abbreviation dict_ok :: "('k, 'v) dict \<Rightarrow> bool" where
  "dict_ok d \<equiv> distinct (map fst d)"

abbreviation keys :: "('k, 'v) dict \<Rightarrow> 'k set" where
  "keys d \<equiv> fst ` set d"

fun dict_merge :: "('k, 'v) dict \<Rightarrow> ('k, 'v) dict \<Rightarrow> ('k, 'v) dict" where
  "dict_merge d [] = d"
| "dict_merge d ((k, v) # e) = dict_merge (AList.update k v d) e"

text \<open>\<open>d.setdefault(k, v)\<close>.\<close>

definition dict_setdefault :: "'k \<Rightarrow> 'v \<Rightarrow> ('k, 'v) dict \<Rightarrow> ('k, 'v) dict" where
  "dict_setdefault k v d = (if map_of d k = None then AList.update k v d else d)"

lemma map_of_update [simp]: "map_of (AList.update k v d) = (map_of d)(k \<mapsto> v)"
  by (rule update_conv')

lemma map_of_delete [simp]: "map_of (AList.delete k d) = (map_of d)(k := None)"
  by (rule delete_conv')

lemma keys_update [simp]: "keys (AList.update k v d) = insert k (keys d)"
  by (simp add: dom_map_of_conv_image_fst [symmetric])

lemma keys_delete [simp]: "keys (AList.delete k d) = keys d - {k}"
  by (simp add: dom_map_of_conv_image_fst [symmetric])

lemma dict_ok_update [simp]: "dict_ok d \<Longrightarrow> dict_ok (AList.update k v d)"
  by (rule distinct_update)

lemma dict_ok_delete [simp]: "dict_ok d \<Longrightarrow> dict_ok (AList.delete k d)"
  by (rule distinct_delete)

lemma dict_ok_setdefault [simp]: "dict_ok d \<Longrightarrow> dict_ok (dict_setdefault k v d)"
  by (simp add: dict_setdefault_def)

lemma dict_merge_lookup:
  "dict_ok e \<Longrightarrow> map_of (dict_merge d e) k = (case map_of e k of None \<Rightarrow> map_of d k | Some v \<Rightarrow> Some v)"
proof (induction d e rule: dict_merge.induct)
  case (1 d)
  then show ?case by simp
next
  case (2 d k' v e)
  then have "map_of e k' = None"
    by (simp add: map_of_eq_None_iff)
  with 2 show ?case by (auto split: option.splits)
qed

lemma dict_ok_merge [simp]: "dict_ok d \<Longrightarrow> dict_ok (dict_merge d e)"
  by (induction d e rule: dict_merge.induct) auto

lemma map_of_None_keys: "map_of d k = None \<longleftrightarrow> k \<notin> keys d"
  by (rule map_of_eq_None_iff)

lemma map_of_Some_keys: "map_of d k = Some v \<Longrightarrow> k \<in> keys d"
  by (metis map_of_None_keys option.distinct(1))

lemma keys_map_of: "k \<in> keys d \<longleftrightarrow> (\<exists>v. map_of d k = Some v)"
  by (metis map_of_None_keys not_Some_eq)

text \<open>Lookups stay lookups: the simplifier does not turn them into membership.\<close>

declare map_of_eq_Some_iff [simp del] Some_eq_map_of_iff [simp del]

text \<open>The values of a dictionary with distinct keys are those its keys look up.\<close>

lemma dict_member_lookup: "dict_ok d \<Longrightarrow> (k, v) \<in> set d \<longleftrightarrow> map_of d k = Some v"
  by (metis map_of_eq_Some_iff)

lemma dict_values: "dict_ok d \<Longrightarrow> snd ` set d = ran (map_of d)"
  by (rule ran_distinct [symmetric])

lemma update_not_in: "k \<notin> keys d \<Longrightarrow> AList.update k v d = d @ [(k, v)]"
  by (induction d) auto

lemma delete_update_fresh: "k \<notin> keys d \<Longrightarrow> AList.delete k (AList.update k v d) = d"
  by (simp add: delete_update_same)

end
