(* ===== verification/Py_Values.thy ===== *)
theory Py_Values
  imports Prelude
begin

text \<open>
  The built-in values and string operations of Python that the services use: \<open>str.strip\<close>,
  \<open>str.lower\<close>, \<open>str.split\<close>, \<open>str.partition\<close>, \<open>int()\<close>, \<open>str()\<close>, aware and naive timestamps, and the
  values of a JSON-like metadata dictionary. They are the language's, not the repository's: no
  definition here is mapped to a source line.

  A Python string is the list of the bytes of its UTF-8 encoding. White space and letter case are
  those of ASCII; of the characters beyond it only the encoding is represented.
\<close>

section \<open>Strings\<close>

definition is_space :: "char \<Rightarrow> bool" where
  "is_space c = (of_char c \<in> {9, 10, 11, 12, 13, 28, 29, 30, 31, 32 :: nat})"

definition lstrip :: "string \<Rightarrow> string" where
  "lstrip s = dropWhile is_space s"

definition rstrip_by :: "(char \<Rightarrow> bool) \<Rightarrow> string \<Rightarrow> string" where
  "rstrip_by p s = rev (dropWhile p (rev s))"

definition strip :: "string \<Rightarrow> string" where
  "strip s = rstrip_by is_space (lstrip s)"

definition lower_char :: "char \<Rightarrow> char" where
  "lower_char c = (let n = (of_char c :: nat) in
     if 65 \<le> n \<and> n \<le> 90 then char_of (n + 32) else c)"

definition lower :: "string \<Rightarrow> string" where
  "lower = map lower_char"

text \<open>\<open>s.split(c)\<close> for a one-character separator.\<close>

fun split_on :: "char \<Rightarrow> string \<Rightarrow> string list" where
  "split_on c [] = [[]]"
| "split_on c (x # xs) =
     (if x = c then [] # split_on c xs
      else case split_on c xs of [] \<Rightarrow> [[x]] | w # ws \<Rightarrow> (x # w) # ws)"

text \<open>\<open>s.partition(c)\<close>: the text before the first \<open>c\<close>, whether there is one, the text after.\<close>

fun partition_at :: "char \<Rightarrow> string \<Rightarrow> string \<times> bool \<times> string" where
  "partition_at c [] = ([], False, [])"
| "partition_at c (x # xs) =
     (if x = c then ([], True, xs)
      else case partition_at c xs of (a, f, b) \<Rightarrow> (x # a, f, b))"

fun join_with :: "string \<Rightarrow> string list \<Rightarrow> string" where
  "join_with sep [] = []"
| "join_with sep [w] = w"
| "join_with sep (w # ws) = w @ sep @ join_with sep ws"

definition starts_with :: "string \<Rightarrow> string \<Rightarrow> bool" where
  "starts_with p s = (take (length p) s = p)"

fun contains :: "string \<Rightarrow> string \<Rightarrow> bool" where
  "contains p [] = (p = [])"
| "contains p (c # s) = (starts_with p (c # s) \<or> contains p s)"

text \<open>\<open>f"'{s}'"\<close>.\<close>

definition quoted :: "string \<Rightarrow> string" where
  "quoted s = [CHR 39] @ s @ [CHR 39]"

lemma dropWhile_idem: "dropWhile p (dropWhile p xs) = dropWhile p xs"
  by (induction xs) auto

lemma rstrip_by_idem: "rstrip_by p (rstrip_by p s) = rstrip_by p s"
  by (simp add: rstrip_by_def dropWhile_idem)

lemma rstrip_by_last: "rstrip_by p s \<noteq> [] \<Longrightarrow> \<not> p (last (rstrip_by p s))"
  by (simp add: rstrip_by_def last_rev hd_dropWhile)

lemma rstrip_by_Cons: "\<not> p c \<Longrightarrow> rstrip_by p (c # s) = c # rstrip_by p s"
  by (induction s rule: rev_induct) (auto simp: rstrip_by_def dropWhile_append)

lemma lstrip_rstrip: "lstrip (rstrip_by is_space (lstrip s)) = rstrip_by is_space (lstrip s)"
proof (cases "lstrip s")
  case Nil
  show ?thesis unfolding Nil by (simp add: lstrip_def rstrip_by_def)
next
  case (Cons c t)
  then have c: "\<not> is_space c"
    unfolding lstrip_def by (metis dropWhile_eq_Cons_conv)
  then show ?thesis
    unfolding Cons by (simp add: lstrip_def rstrip_by_Cons)
qed

lemma strip_idem [simp]: "strip (strip s) = strip s"
  by (simp add: strip_def lstrip_rstrip rstrip_by_idem)

lemma strip_Nil [simp]: "strip [] = []"
  by (simp add: strip_def rstrip_by_def lstrip_def)

definition trimmed :: "string \<Rightarrow> bool" where
  "trimmed v = (v \<noteq> [] \<and> strip v = v)"

lemma trimmed_strip: "trimmed v \<Longrightarrow> strip v = v"
  by (simp add: trimmed_def)

lemma trimmed_strip_iff [simp]: "trimmed (strip v) \<longleftrightarrow> strip v \<noteq> []"
  by (simp add: trimmed_def)

lemma starts_with_append: "starts_with p (p @ s)"
  by (simp add: starts_with_def)

lemma starts_with_Cons: "starts_with [c] s \<longleftrightarrow> s \<noteq> [] \<and> hd s = c"
  by (cases s) (auto simp: starts_with_def)

section \<open>Decimal numerals\<close>

definition digit :: "nat \<Rightarrow> char" where
  "digit n = char_of (48 + n)"

definition is_digit :: "char \<Rightarrow> bool" where
  "is_digit c = (48 \<le> (of_char c :: nat) \<and> (of_char c :: nat) \<le> 57)"

definition digit_val :: "char \<Rightarrow> nat" where
  "digit_val c = of_char c - 48"

fun nat_str :: "nat \<Rightarrow> string" where
  "nat_str n = (if n < 10 then [digit n] else nat_str (n div 10) @ [digit (n mod 10)])"

declare nat_str.simps [simp del]

definition int_str :: "int \<Rightarrow> string" where
  "int_str i = (if i < 0 then CHR ''-'' # nat_str (nat (- i)) else nat_str (nat i))"

definition nat_of_digits :: "string \<Rightarrow> nat" where
  "nat_of_digits s = foldl (\<lambda>a c. 10 * a + digit_val c) 0 s"

lemma digit_val_digit: "n < 10 \<Longrightarrow> digit_val (digit n) = n"
  by (simp add: digit_val_def digit_def)

lemma is_digit_digit: "n < 10 \<Longrightarrow> is_digit (digit n)"
  by (simp add: is_digit_def digit_def)

lemma nat_of_digits_nat_str: "nat_of_digits (nat_str n) = n"
proof (induction n rule: nat_str.induct)
  case (1 n)
  show ?case
  proof (cases "n < 10")
    case True
    then show ?thesis
      by (simp add: nat_str.simps [of n] nat_of_digits_def digit_val_digit)
  next
    case False
    with 1 show ?thesis
      by (simp add: nat_str.simps [of n] nat_of_digits_def digit_val_digit)
  qed
qed

lemma nat_str_inj: "nat_str m = nat_str n \<Longrightarrow> m = n"
  by (metis nat_of_digits_nat_str)

lemma nat_str_digits: "c \<in> set (nat_str n) \<Longrightarrow> is_digit c"
proof (induction n rule: nat_str.induct)
  case (1 n)
  then show ?case
    by (cases "n < 10") (auto simp: nat_str.simps [of n] is_digit_digit)
qed

lemma nat_str_nonempty [simp]: "nat_str n \<noteq> []"
  by (simp add: nat_str.simps [of n])

lemma int_str_inj: "int_str i = int_str j \<Longrightarrow> i = j"
proof -
  assume eq: "int_str i = int_str j"
  have minus: "CHR ''-'' \<notin> set (nat_str n)" for n
    using nat_str_digits [of "CHR ''-''" n] by (auto simp: is_digit_def)
  have no_head: "nat_str n \<noteq> CHR ''-'' # t" for n t
    using minus [of n] by auto
  show ?thesis
  proof (cases "i < 0"; cases "j < 0")
    assume "i < 0" "j < 0"
    with eq show ?thesis by (simp add: int_str_def) (drule nat_str_inj, simp)
  next
    assume "i < 0" "\<not> j < 0"
    with eq no_head show ?thesis by (simp add: int_str_def) metis
  next
    assume "\<not> i < 0" "j < 0"
    with eq no_head show ?thesis by (simp add: int_str_def)
  next
    assume "\<not> i < 0" "\<not> j < 0"
    with eq show ?thesis by (simp add: int_str_def) (drule nat_str_inj, simp)
  qed
qed

lemma int_str_no_colon: "CHR '':'' \<notin> set (int_str i)"
  using nat_str_digits [of "CHR '':''"] by (auto simp: int_str_def is_digit_def)

text \<open>
  \<open>int(s)\<close>: surrounding white space, an optional sign, decimal digits with single underscores
  between them; \<open>None\<close> where Python raises \<open>ValueError\<close>.
\<close>

fun digits_rest :: "nat \<Rightarrow> string \<Rightarrow> nat option" where
  "digits_rest acc [] = Some acc"
| "digits_rest acc (c # cs) =
     (if is_digit c then digits_rest (10 * acc + digit_val c) cs
      else if c = CHR ''_'' then
        (case cs of [] \<Rightarrow> None
         | d # ds \<Rightarrow> if is_digit d then digits_rest (10 * acc + digit_val d) ds else None)
      else None)"

fun py_nat :: "string \<Rightarrow> nat option" where
  "py_nat [] = None"
| "py_nat (c # cs) = (if is_digit c then digits_rest (digit_val c) cs else None)"

definition py_int :: "string \<Rightarrow> int option" where
  "py_int s = (case strip s of [] \<Rightarrow> None
     | c # cs \<Rightarrow> if c = CHR ''-'' then map_option (\<lambda>n. - int n) (py_nat cs)
                 else if c = CHR ''+'' then map_option int (py_nat cs)
                 else map_option int (py_nat (c # cs)))"

lemma digits_rest_digits:
  "(\<And>c. c \<in> set s \<Longrightarrow> is_digit c) \<Longrightarrow>
    digits_rest acc s = Some (foldl (\<lambda>a c. 10 * a + digit_val c) acc s)"
  by (induction s arbitrary: acc) auto

lemma py_nat_nat_str: "py_nat (nat_str n) = Some n"
proof -
  obtain c cs where c: "nat_str n = c # cs"
    by (cases "nat_str n") auto
  have d: "is_digit c" "\<And>x. x \<in> set cs \<Longrightarrow> is_digit x"
    using nat_str_digits [of _ n] by (auto simp: c)
  have "digits_rest (digit_val c) cs = Some (nat_of_digits (nat_str n))"
    using d by (simp add: digits_rest_digits nat_of_digits_def c)
  then have "digits_rest (digit_val c) cs = Some n"
    unfolding nat_of_digits_nat_str .
  with d show ?thesis
    unfolding c by simp
qed

section \<open>Timestamps\<close>

text \<open>
  A \<open>datetime\<close> with a time zone is its instant in microseconds since the epoch; one without is
  its wall-clock reading. Comparing one of each raises \<open>TypeError\<close>. The range of the type
  (years 1 to 9999) is not modelled.
\<close>

datatype datetime = Aware int | Naive int

fun is_aware :: "datetime \<Rightarrow> bool" where
  "is_aware (Aware _) = True"
| "is_aware (Naive _) = False"

fun dt_le :: "datetime \<Rightarrow> datetime \<Rightarrow> bool res" where
  "dt_le (Aware a) (Aware b) = Inr (a \<le> b)"
| "dt_le (Naive a) (Naive b) = Inr (a \<le> b)"
| "dt_le _ _ = Inl TypeError"

fun dt_less :: "datetime \<Rightarrow> datetime \<Rightarrow> bool res" where
  "dt_less (Aware a) (Aware b) = Inr (a < b)"
| "dt_less (Naive a) (Naive b) = Inr (a < b)"
| "dt_less _ _ = Inl TypeError"

fun dt_add_seconds :: "datetime \<Rightarrow> int \<Rightarrow> datetime" where
  "dt_add_seconds (Aware a) n = Aware (a + n * 1000000)"
| "dt_add_seconds (Naive a) n = Naive (a + n * 1000000)"

fun instant :: "datetime \<Rightarrow> int" where
  "instant (Aware a) = a"
| "instant (Naive a) = a"

lemma is_aware_cases: "is_aware t \<Longrightarrow> (\<And>a. t = Aware a \<Longrightarrow> P) \<Longrightarrow> P"
  by (cases t) auto

lemma is_aware_add [simp]: "is_aware (dt_add_seconds t n) = is_aware t"
  by (cases t) auto

lemma dt_aware [simp]:
  "is_aware s \<Longrightarrow> is_aware t \<Longrightarrow> dt_le s t = Inr (instant s \<le> instant t)"
  "is_aware s \<Longrightarrow> is_aware t \<Longrightarrow> dt_less s t = Inr (instant s < instant t)"
  by (cases s; cases t; simp)+

lemma instant_add [simp]: "instant (dt_add_seconds t n) = instant t + n * 1000000"
  by (cases t) auto

section \<open>Metadata values\<close>

text \<open>
  The values of a JSON document as Python holds them. A float is carried by its shortest
  representation, which determines it.
\<close>

datatype pyval =
    PNone
  | PBool bool
  | PInt int
  | PFloat string
  | PStr string
  | PList "pyval list"
  | PDict "(string \<times> pyval) list"

definition hex_digit :: "nat \<Rightarrow> char" where
  "hex_digit n = (if n < 10 then char_of (48 + n) else char_of (87 + n))"

text \<open>\<open>n\<close> in hexadecimal, with exactly \<open>k\<close> digits.\<close>

fun hex_fixed :: "nat \<Rightarrow> nat \<Rightarrow> string" where
  "hex_fixed 0 n = []"
| "hex_fixed (Suc k) n = hex_fixed k (n div 16) @ [hex_digit (n mod 16)]"

definition repr_char :: "char \<Rightarrow> char \<Rightarrow> string" where
  "repr_char q c = (let n = (of_char c :: nat) in
     if c = q \<or> c = CHR 92 then [CHR 92, c]
     else if n = 9 then [CHR 92, CHR ''t'']
     else if n = 10 then [CHR 92, CHR ''n'']
     else if n = 13 then [CHR 92, CHR ''r'']
     else if n < 32 \<or> n = 127
       then [CHR 92, CHR ''x'', hex_digit (n div 16), hex_digit (n mod 16)]
     else [c])"

definition repr_string :: "string \<Rightarrow> string" where
  "repr_string s = (let q = (if CHR 39 \<in> set s \<and> CHR 34 \<notin> set s then CHR 34 else CHR 39)
     in [q] @ concat (map (repr_char q) s) @ [q])"

fun py_repr :: "pyval \<Rightarrow> string" where
  "py_repr PNone = ''None''"
| "py_repr (PBool b) = (if b then ''True'' else ''False'')"
| "py_repr (PInt i) = int_str i"
| "py_repr (PFloat s) = s"
| "py_repr (PStr s) = repr_string s"
| "py_repr (PList vs) = ''['' @ join_with '', '' (map py_repr vs) @ '']''"
| "py_repr (PDict kvs) =
     ''{'' @ join_with '', '' (map (\<lambda>(k, v). repr_string k @ '': '' @ py_repr v) kvs) @ ''}''"

definition py_str :: "pyval \<Rightarrow> string" where
  "py_str v = (case v of PStr s \<Rightarrow> s | _ \<Rightarrow> py_repr v)"

definition truthy :: "pyval \<Rightarrow> bool" where
  "truthy v = (case v of PNone \<Rightarrow> False | PBool b \<Rightarrow> b | PInt i \<Rightarrow> i \<noteq> 0
     | PFloat s \<Rightarrow> s \<noteq> ''0.0'' \<and> s \<noteq> ''-0.0'' | PStr s \<Rightarrow> s \<noteq> [] | PList vs \<Rightarrow> vs \<noteq> []
     | PDict d \<Rightarrow> d \<noteq> [])"

section \<open>UTF-8\<close>

definition byte :: "char \<Rightarrow> nat" where
  "byte c = of_char c"

definition cont :: "char \<Rightarrow> bool" where
  "cont c = (128 \<le> byte c \<and> byte c \<le> 191)"

text \<open>Whether a byte string decodes as UTF-8 (no overlong form, no surrogate, nothing above U+10FFFF).\<close>

fun utf8_ok :: "string \<Rightarrow> bool" where
  "utf8_ok (a # b # c # d # s) =
     (if byte a < 128 then utf8_ok (b # c # d # s)
      else if 194 \<le> byte a \<and> byte a \<le> 223 then cont b \<and> utf8_ok (c # d # s)
      else if 224 \<le> byte a \<and> byte a \<le> 239
      then cont b \<and> cont c \<and> (byte a = 224 \<longrightarrow> 160 \<le> byte b) \<and> (byte a = 237 \<longrightarrow> byte b \<le> 159) \<and>
           utf8_ok (d # s)
      else 240 \<le> byte a \<and> byte a \<le> 244 \<and> cont b \<and> cont c \<and> cont d \<and>
           (byte a = 240 \<longrightarrow> 144 \<le> byte b) \<and> (byte a = 244 \<longrightarrow> byte b \<le> 143) \<and> utf8_ok s)"
| "utf8_ok [a, b, c] =
     (if byte a < 128 then utf8_ok [b, c]
      else if 194 \<le> byte a \<and> byte a \<le> 223 then cont b \<and> byte c < 128
      else 224 \<le> byte a \<and> byte a \<le> 239 \<and> cont b \<and> cont c \<and>
           (byte a = 224 \<longrightarrow> 160 \<le> byte b) \<and> (byte a = 237 \<longrightarrow> byte b \<le> 159))"
| "utf8_ok [a, b] =
     (if byte a < 128 then byte b < 128 else 194 \<le> byte a \<and> byte a \<le> 223 \<and> cont b)"
| "utf8_ok [a] = (byte a < 128)"
| "utf8_ok [] = True"

end
