(* ===== verification/Py_Urls.thy ===== *)
theory Py_Urls
  imports Py_Values
begin

text \<open>
  The functions of Python's \<open>urllib.parse\<close> that the gateway and the VNC proxy call on URLs:
  \<open>urlparse\<close>/\<open>urlsplit\<close>, \<open>urlunparse\<close>/\<open>urlunsplit\<close>, \<open>quote_plus\<close>/\<open>unquote\<close>, \<open>urlencode\<close> and
  \<open>parse_qsl\<close>. A URL is a string; a validated pydantic \<open>AnyUrl\<close> is the string \<open>str()\<close> gives for it.
  The facts proved are the two that the token handling rests on: the query written into a URL is
  the query a parser finds in it, and \<open>parse_qsl\<close> reads back the pairs \<open>urlencode\<close> wrote.
  As in the standard library, percent-decoding is of bytes; the replacement of ill-formed UTF-8
  sequences and the check of the address inside square brackets are not represented.
\<close>

type_synonym url = string

section \<open>Percent coding\<close>

definition is_alpha :: "char \<Rightarrow> bool" where
  "is_alpha c = (let n = (of_char c :: nat) in 65 \<le> n \<and> n \<le> 90 \<or> 97 \<le> n \<and> n \<le> 122)"

definition unreserved :: "char \<Rightarrow> bool" where
  "unreserved c = (is_alpha c \<or> is_digit c \<or> c \<in> set ''_.-~'')"

definition hex_up :: "nat \<Rightarrow> char" where
  "hex_up n = (if n < 10 then char_of (48 + n) else char_of (55 + n))"

definition hex_val :: "char \<Rightarrow> nat option" where
  "hex_val c = (let n = (of_char c :: nat) in
     if 48 \<le> n \<and> n \<le> 57 then Some (n - 48)
     else if 65 \<le> n \<and> n \<le> 70 then Some (n - 55)
     else if 97 \<le> n \<and> n \<le> 102 then Some (n - 87)
     else None)"

definition quote_char :: "char \<Rightarrow> string" where
  "quote_char c = (if unreserved c then [c]
     else if c = CHR '' '' then ''+''
     else [CHR ''%'', hex_up (of_char c div 16), hex_up (of_char c mod 16)])"

definition quote_plus :: "string \<Rightarrow> string" where
  "quote_plus s = concat (map quote_char s)"

fun unquote :: "string \<Rightarrow> string" where
  "unquote (c # h # l # s) =
     (if c = CHR ''%'' then
        (case (hex_val h, hex_val l) of
           (Some a, Some b) \<Rightarrow> char_of (16 * a + b) # unquote s
         | _ \<Rightarrow> c # unquote (h # l # s))
      else c # unquote (h # l # s))"
| "unquote s = s"

definition plus_to_space :: "string \<Rightarrow> string" where
  "plus_to_space = map (\<lambda>c. if c = CHR ''+'' then CHR '' '' else c)"

lemma unquote_plain: "c \<noteq> CHR ''%'' \<Longrightarrow> unquote (c # s) = c # unquote s"
  by (cases s; cases "tl s") auto

lemma hex_val_up: "n < 16 \<Longrightarrow> hex_val (hex_up n) = Some n"
  by (cases "n < 10") (simp_all add: hex_val_def hex_up_def)

lemma unreserved_not_special:
  "unreserved c \<Longrightarrow> c \<noteq> CHR ''%'' \<and> c \<noteq> CHR ''+'' \<and> c \<noteq> CHR ''&'' \<and> c \<noteq> CHR ''='' \<and>
     c \<noteq> CHR ''#'' \<and> c \<noteq> CHR ''?'' \<and> c \<noteq> CHR '' ''"
  by (auto simp: unreserved_def is_alpha_def is_digit_def)

lemma hex_up_unreserved: "n < 16 \<Longrightarrow> unreserved (hex_up n)"
  by (simp add: unreserved_def is_alpha_def is_digit_def hex_up_def)

lemma quote_char_chars:
  "x \<in> set (quote_char c) \<Longrightarrow> unreserved x \<or> x = CHR ''+'' \<or> x = CHR ''%''"
proof -
  have "(of_char c :: nat) div 16 < 16"
    using nat_of_char_less_256 [of c] by (simp add: less_mult_imp_div_less)
  then show "x \<in> set (quote_char c) \<Longrightarrow> unreserved x \<or> x = CHR ''+'' \<or> x = CHR ''%''"
    by (auto simp: quote_char_def hex_up_unreserved split: if_splits)
qed

lemma quote_plus_chars:
  "x \<in> set (quote_plus s) \<Longrightarrow> unreserved x \<or> x = CHR ''+'' \<or> x = CHR ''%''"
  using quote_char_chars by (auto simp: quote_plus_def)

lemma quote_plus_no: "c \<in> {CHR ''&'', CHR ''='', CHR ''#'', CHR ''?''} \<Longrightarrow> c \<notin> set (quote_plus s)"
  using quote_plus_chars [of c s] unreserved_not_special [of c] by auto

lemma unquote_quote_char:
  "unquote (plus_to_space (quote_char c) @ s) = c # unquote s"
proof -
  have hi: "(of_char c :: nat) div 16 < 16"
    using nat_of_char_less_256 [of c] by (simp add: less_mult_imp_div_less)
  have lo: "(of_char c :: nat) mod 16 < 16"
    by simp
  consider "unreserved c" | "c = CHR '' ''" | "\<not> unreserved c" "c \<noteq> CHR '' ''"
    by blast
  then show ?thesis
  proof cases
    case 1
    then show ?thesis
      using unreserved_not_special [of c]
      by (simp add: quote_char_def plus_to_space_def unquote_plain)
  next
    case 2
    then show ?thesis
      by (simp add: quote_char_def plus_to_space_def unquote_plain unreserved_def is_alpha_def
          is_digit_def)
  next
    case 3
    have "hex_up ((of_char c :: nat) div 16) \<noteq> CHR ''+''" "hex_up ((of_char c :: nat) mod 16) \<noteq> CHR ''+''"
      using hex_up_unreserved [OF hi] hex_up_unreserved [OF lo] unreserved_not_special by blast+
    with 3 show ?thesis
      by (simp add: quote_char_def plus_to_space_def hex_val_up [OF hi] hex_val_up [OF lo])
  qed
qed

lemma unquote_quote_plus: "unquote (plus_to_space (quote_plus s)) = s"
proof (induction s)
  case Nil
  then show ?case by (simp add: quote_plus_def plus_to_space_def)
next
  case (Cons c s)
  have "plus_to_space (quote_plus (c # s)) = plus_to_space (quote_char c) @ plus_to_space (quote_plus s)"
    by (simp add: quote_plus_def plus_to_space_def)
  then show ?case
    by (simp add: unquote_quote_char Cons)
qed

section \<open>Query strings\<close>

definition urlencode :: "(string \<times> string) list \<Rightarrow> string" where
  "urlencode items = join_with ''&'' (map (\<lambda>(k, v). quote_plus k @ ''='' @ quote_plus v) items)"

definition decode_field :: "string \<Rightarrow> string" where
  "decode_field s = unquote (plus_to_space s)"

fun parse_fields :: "bool \<Rightarrow> string list \<Rightarrow> (string \<times> string) list" where
  "parse_fields keep [] = []"
| "parse_fields keep (f # fs) =
     (if f = [] then parse_fields keep fs
      else case partition_at (CHR ''='') f of (k, found, v) \<Rightarrow>
        if (found \<and> v \<noteq> []) \<or> keep
        then (decode_field k, decode_field v) # parse_fields keep fs
        else parse_fields keep fs)"

text \<open>\<open>parse_qsl(qs, keep_blank_values=keep)\<close>.\<close>

definition parse_qsl :: "bool \<Rightarrow> string \<Rightarrow> (string \<times> string) list" where
  "parse_qsl keep qs = parse_fields keep (split_on (CHR ''&'') qs)"

lemma split_on_no: "c \<notin> set w \<Longrightarrow> split_on c w = [w]"
  by (induction w) auto

lemma split_on_append: "c \<notin> set w \<Longrightarrow> split_on c (w @ c # s) = w # split_on c s"
  by (induction w) auto

lemma split_on_join:
  "ws \<noteq> [] \<Longrightarrow> (\<And>w. w \<in> set ws \<Longrightarrow> c \<notin> set w) \<Longrightarrow> split_on c (join_with [c] ws) = ws"
proof (induction "[c]" ws rule: join_with.induct)
  case 1
  then show ?case by simp
next
  case (2 w)
  then show ?case by (simp add: split_on_no)
next
  case (3 w w' ws)
  then show ?case by (simp add: split_on_append)
qed

lemma partition_at_append:
  "c \<notin> set a \<Longrightarrow> partition_at c (a @ c # b) = (a, True, b)"
  by (induction a) auto

lemma parse_fields_encoded:
  "parse_fields True (map (\<lambda>(k, v). quote_plus k @ ''='' @ quote_plus v) items) = items"
proof (induction items)
  case Nil
  then show ?case by simp
next
  case (Cons kv items)
  obtain k v where kv: "kv = (k, v)" by force
  have "CHR ''='' \<notin> set (quote_plus k)"
    by (rule quote_plus_no) simp
  then have "partition_at (CHR ''='') (quote_plus k @ ''='' @ quote_plus v)
    = (quote_plus k, True, quote_plus v)"
    by (simp add: partition_at_append)
  with Cons show ?case
    by (simp add: kv decode_field_def unquote_quote_plus)
qed

theorem parse_qsl_urlencode: "parse_qsl True (urlencode items) = items"
proof (cases items)
  case Nil
  then show ?thesis by (simp add: urlencode_def parse_qsl_def)
next
  case (Cons kv kvs)
  have "split_on (CHR ''&'') (urlencode items)
    = map (\<lambda>(k, v). quote_plus k @ ''='' @ quote_plus v) items"
    unfolding urlencode_def
    using quote_plus_no [of "CHR ''&''"] Cons by (intro split_on_join) auto
  then show ?thesis
    unfolding parse_qsl_def by (simp only: parse_fields_encoded)
qed

definition query_char :: "char \<Rightarrow> bool" where
  "query_char c = (unreserved c \<or> c \<in> set ''+%&='')"

lemma set_join_with: "set (join_with sep ws) \<subseteq> (\<Union>w \<in> set ws. set w) \<union> set sep"
  by (induction sep ws rule: join_with.induct) auto

lemma urlencode_chars: "c \<in> set (urlencode items) \<Longrightarrow> query_char c"
  using set_join_with [of "''&''" "map (\<lambda>(k, v). quote_plus k @ ''='' @ quote_plus v) items"]
    quote_plus_chars
  by (fastforce simp: urlencode_def query_char_def)

section \<open>Parsing and printing URLs\<close>

record url_parts =
  u_scheme :: string
  u_netloc :: string
  u_path :: string
  u_params :: string
  u_query :: string
  u_fragment :: string

definition is_control_or_space :: "char \<Rightarrow> bool" where
  "is_control_or_space c = ((of_char c :: nat) \<le> 32)"

definition unsafe_char :: "char \<Rightarrow> bool" where
  "unsafe_char c = ((of_char c :: nat) \<in> {9, 10, 13})"

definition scheme_char :: "char \<Rightarrow> bool" where
  "scheme_char c = (is_alpha c \<or> is_digit c \<or> c \<in> set ''+-.'')"

text \<open>The scheme in front of the first colon, if there is one, and the rest.\<close>

definition split_scheme :: "string \<Rightarrow> string \<times> string" where
  "split_scheme s = (case partition_at (CHR '':'') s of (a, found, b) \<Rightarrow>
     if found \<and> a \<noteq> [] \<and> is_alpha (hd a) \<and> list_all scheme_char a then (lower a, b) else ([], s))"

definition path_start :: "char \<Rightarrow> bool" where
  "path_start c = (c = CHR ''/'' \<or> c = CHR ''?'' \<or> c = CHR ''#'')"

definition split_netloc :: "string \<Rightarrow> string \<times> string" where
  "split_netloc s = (if starts_with ''//'' s
     then (takeWhile (\<lambda>c. \<not> path_start c) (drop 2 s), dropWhile (\<lambda>c. \<not> path_start c) (drop 2 s))
     else ([], s))"

definition bracket_mismatch :: "string \<Rightarrow> bool" where
  "bracket_mismatch n = ((CHR ''['' \<in> set n) \<noteq> (CHR '']'' \<in> set n))"

definition split_fragment :: "string \<Rightarrow> string \<times> string" where
  "split_fragment s = (case partition_at (CHR ''#'') s of (a, _, b) \<Rightarrow> (a, b))"

definition split_query :: "string \<Rightarrow> string \<times> string" where
  "split_query s = (case partition_at (CHR ''?'') s of (a, _, b) \<Rightarrow> (a, b))"

definition clean_url :: "string \<Rightarrow> string" where
  "clean_url s = filter (\<lambda>c. \<not> unsafe_char c) (dropWhile is_control_or_space s)"

definition uses_params :: "string list" where
  "uses_params = ['''', ''ftp'', ''hdl'', ''prospero'', ''http'', ''https'', ''shttp'', ''rtsp'',
     ''rtsps'', ''rtspu'', ''sip'', ''sips'', ''mms'', ''sftp'', ''tel'']"

text \<open>The parameters of the last path segment.\<close>

definition split_params :: "string \<Rightarrow> string \<Rightarrow> string \<times> string" where
  "split_params scheme p = (if scheme \<in> set uses_params \<and> CHR '';'' \<in> set p then
     (let segs = split_on (CHR ''/'') p;
          (a, _, b) = partition_at (CHR '';'') (last segs)
      in (join_with ''/'' (butlast segs @ [a]), b))
     else (p, []))"

definition urlparse :: "string \<Rightarrow> url_parts res" where
  "urlparse s =
     (let (scheme, r1) = split_scheme (clean_url s);
          (netloc, r2) = split_netloc r1;
          (r3, fragment) = split_fragment r2;
          (r4, query) = split_query r3;
          (path, params) = split_params scheme r4
      in if bracket_mismatch netloc then Inl (ValueError ''Invalid IPv6 URL'')
         else Inr \<lparr>u_scheme = scheme, u_netloc = netloc, u_path = path, u_params = params,
                   u_query = query, u_fragment = fragment\<rparr>)"

definition uses_netloc :: "string list" where
  "uses_netloc = ['''', ''ftp'', ''http'', ''gopher'', ''nntp'', ''telnet'', ''imap'', ''wais'', ''file'',
     ''mms'', ''https'', ''shttp'', ''snews'', ''prospero'', ''rtsp'', ''rtsps'', ''rtspu'', ''rsync'', ''svn'',
     ''svn+ssh'', ''sftp'', ''nfs'', ''git'', ''git+ssh'', ''ws'', ''wss'', ''itms-services'']"

text \<open>What \<open>urlunparse\<close> writes before the query.\<close>

definition url_head :: "url_parts \<Rightarrow> string" where
  "url_head u =
     (let p = (if u_params u = [] then u_path u else u_path u @ '';'' @ u_params u);
          p = (if u_netloc u \<noteq> [] \<or>
                  (u_scheme u \<noteq> [] \<and> u_scheme u \<in> set uses_netloc \<and> \<not> starts_with ''//'' p)
               then ''//'' @ u_netloc u @ (if p \<noteq> [] \<and> hd p \<noteq> CHR ''/'' then ''/'' @ p else p)
               else p)
      in (if u_scheme u = [] then p else u_scheme u @ '':'' @ p))"

definition url_tail :: "string \<Rightarrow> string \<Rightarrow> string" where
  "url_tail q f = (if q = [] then [] else ''?'' @ q) @ (if f = [] then [] else ''#'' @ f)"

definition urlunparse :: "url_parts \<Rightarrow> string" where
  "urlunparse u = url_head u @ url_tail (u_query u) (u_fragment u)"

lemmas url_split_defs = split_scheme_def split_netloc_def split_fragment_def split_query_def

subsection \<open>The query survives printing and parsing\<close>

definition no_marks :: "string \<Rightarrow> bool" where
  "no_marks s = (CHR ''?'' \<notin> set s \<and> CHR ''#'' \<notin> set s)"

text \<open>A tail starts at a mark, which no part in front of the query contains.\<close>

definition is_tail :: "string \<Rightarrow> bool" where
  "is_tail r = (r = [] \<or> hd r = CHR ''?'' \<or> hd r = CHR ''#'')"

lemma no_marks_simps [simp]:
  "no_marks []"
  "no_marks (c # s) \<longleftrightarrow> c \<noteq> CHR ''?'' \<and> c \<noteq> CHR ''#'' \<and> no_marks s"
  "no_marks (s @ t) \<longleftrightarrow> no_marks s \<and> no_marks t"
  by (auto simp: no_marks_def)

lemma no_marks_subset: "no_marks s \<Longrightarrow> set t \<subseteq> set s \<Longrightarrow> no_marks t"
  by (auto simp: no_marks_def)

lemma partition_at_parts:
  "partition_at c s = (a, f, b) \<Longrightarrow> c \<notin> set a \<and> (if f then s = a @ c # b else s = a \<and> b = [])"
  by (induction s arbitrary: a f b) (auto split: if_splits prod.splits)

lemma partition_at_none: "c \<notin> set s \<Longrightarrow> partition_at c s = (s, False, [])"
  by (induction s) auto

lemma dropWhile_tail:
  "(r = [] \<or> \<not> p (hd r)) \<Longrightarrow> dropWhile p (s @ r) = dropWhile p s @ r"
  by (induction s) (auto simp: dropWhile_eq_self_iff)

lemma takeWhile_tail:
  "(r = [] \<or> \<not> p (hd r)) \<Longrightarrow> takeWhile p (s @ r) = takeWhile p s"
  by (induction s) (auto simp: takeWhile_eq_Nil_iff)

lemma clean_url_tail:
  "is_tail r \<Longrightarrow> clean_url (s @ r) = clean_url s @ filter (\<lambda>c. \<not> unsafe_char c) r"
  by (subst clean_url_def, subst dropWhile_tail)
    (auto simp: clean_url_def is_tail_def is_control_or_space_def)

lemma split_scheme_tail:
  assumes "no_marks s" and r: "is_tail r"
  shows "split_scheme (s @ r) = (fst (split_scheme s), snd (split_scheme s) @ r)"
proof (cases "CHR '':'' \<in> set s")
  case True
  then obtain a b where s: "s = a @ CHR '':'' # b" and a: "CHR '':'' \<notin> set a"
    by (meson split_list_first)
  then show ?thesis
    by (simp add: split_scheme_def partition_at_append)
next
  case False
  have s: "split_scheme s = ([], s)"
    by (simp add: split_scheme_def partition_at_none False)
  obtain a f b where p: "partition_at (CHR '':'') (s @ r) = (a, f, b)"
    by (metis prod_cases3)
  have "\<not> (f \<and> list_all scheme_char a)"
  proof
    assume f: "f \<and> list_all scheme_char a"
    with partition_at_parts [OF p] have eq: "s @ r = a @ CHR '':'' # b" by simp
    with False have "\<exists>a'. a = s @ a' \<and> r = a' @ CHR '':'' # b"
      by (auto simp: append_eq_append_conv2 append_eq_Cons_conv)
    then obtain a' where a': "a = s @ a'" "r = a' @ CHR '':'' # b"
      by blast
    with r have "a' \<noteq> [] \<and> (hd a' = CHR ''?'' \<or> hd a' = CHR ''#'')"
      by (cases a') (auto simp: is_tail_def)
    moreover have "list_all scheme_char a'"
      using f a' by simp
    ultimately show False
      by (cases a') (auto simp: scheme_char_def is_alpha_def is_digit_def)
  qed
  then have "split_scheme (s @ r) = ([], s @ r)"
    by (auto simp: split_scheme_def p)
  then show ?thesis
    by (simp add: s)
qed

lemma split_netloc_tail:
  assumes "is_tail r"
  shows "split_netloc (s @ r) = (fst (split_netloc s), snd (split_netloc s) @ r)"
proof -
  have "starts_with ''//'' (s @ r) = starts_with ''//'' s"
  proof (cases s)
    case Nil
    then show ?thesis using assms by (cases r) (auto simp: starts_with_def is_tail_def)
  next
    case (Cons c t)
    then show ?thesis using assms
      by (cases t; cases r) (auto simp: starts_with_def is_tail_def)
  qed
  moreover have "starts_with ''//'' s \<Longrightarrow> drop 2 (s @ r) = drop 2 s @ r"
    by (cases s; cases "tl s") (auto simp: starts_with_def)
  moreover have "r = [] \<or> path_start (hd r)"
    using assms by (auto simp: is_tail_def path_start_def)
  ultimately show ?thesis
    by (auto simp: split_netloc_def takeWhile_tail dropWhile_tail)
qed

lemma split_tail:
  assumes "no_marks s" and q: "CHR ''#'' \<notin> set q" and t: "t = [] \<or> t = CHR ''#'' # t'"
  shows "fst (split_fragment (s @ (if q = [] then [] else ''?'' @ q) @ t))
      = s @ (if q = [] then [] else ''?'' @ q)"
    and "split_query (s @ (if q = [] then [] else ''?'' @ q)) = (s, q)"
proof -
  let ?s = "s @ (if q = [] then [] else ''?'' @ q)"
  have s: "CHR ''#'' \<notin> set s" "CHR ''?'' \<notin> set s"
    using assms(1) by (auto simp: no_marks_def)
  have "CHR ''#'' \<notin> set ?s"
    using s q by simp
  then have "fst (split_fragment (?s @ t)) = ?s"
    using t by (auto simp: split_fragment_def partition_at_none partition_at_append
        simp del: append_assoc)
  then show "fst (split_fragment (s @ (if q = [] then [] else ''?'' @ q) @ t)) = ?s"
    by simp
  show "split_query ?s = (s, q)"
    using s by (simp add: split_query_def partition_at_none partition_at_append)
qed

lemma scheme_char_lower: "scheme_char c \<Longrightarrow> lower_char c \<noteq> CHR ''?'' \<and> lower_char c \<noteq> CHR ''#''"
proof -
  assume c: "scheme_char c"
  have "(of_char (lower_char c) :: nat) \<noteq> 63 \<and> (of_char (lower_char c) :: nat) \<noteq> 35"
    using c by (auto simp: lower_char_def Let_def scheme_char_def is_alpha_def is_digit_def)
  then show ?thesis by auto
qed

lemma split_scheme_no_marks:
  assumes "split_scheme s = (a, b)"
  shows "no_marks a \<and> set b \<subseteq> set s"
proof -
  obtain x f y where p: "partition_at (CHR '':'') s = (x, f, y)"
    by (metis prod_cases3)
  from partition_at_parts [OF p] assms scheme_char_lower show ?thesis
    by (fastforce simp: split_scheme_def p no_marks_def lower_def list_all_iff split: if_splits)
qed

lemma split_netloc_no_marks:
  assumes "split_netloc s = (a, b)"
  shows "no_marks a" and "set b \<subseteq> set s"
proof -
  show "no_marks a"
    using assms by (auto simp: split_netloc_def no_marks_def path_start_def split: if_splits
        dest: set_takeWhileD)
  show "set b \<subseteq> set s"
    using assms set_drop_subset [of 2 s]
    by (auto simp: split_netloc_def split: if_splits dest!: set_dropWhileD)
qed

lemma split_on_sub: "w \<in> set (split_on c s) \<Longrightarrow> set w \<subseteq> set s"
  by (induction s arbitrary: w) (fastforce split: if_splits list.splits)+

lemma split_params_no_marks:
  assumes "split_params scheme p = (a, b)" and "no_marks p"
  shows "no_marks a \<and> no_marks b"
proof (cases "scheme \<in> set uses_params \<and> CHR '';'' \<in> set p")
  case True
  obtain x f y where part: "partition_at (CHR '';'') (last (split_on (CHR ''/'') p)) = (x, f, y)"
    by (metis prod_cases3)
  have ne: "split_on (CHR ''/'') p \<noteq> []"
    by (cases p) (auto split: list.splits)
  have segs: "set w \<subseteq> set p" if "w \<in> set (split_on (CHR ''/'') p)" for w
    using split_on_sub that .
  have last: "set x \<subseteq> set p \<and> set y \<subseteq> set p"
    using partition_at_parts [OF part] segs [OF last_in_set [OF ne]] by (auto split: if_splits)
  have ab: "a = join_with ''/'' (butlast (split_on (CHR ''/'') p) @ [x])" "b = y"
    using assms(1) True by (simp_all add: split_params_def part)
  have "set a \<subseteq> set p \<union> {CHR ''/''}"
    using set_join_with [of "''/''" "butlast (split_on (CHR ''/'') p) @ [x]"] last segs
    unfolding ab by (fastforce dest: in_set_butlastD)
  with assms(2) last show ?thesis
    by (auto simp: ab(2) no_marks_def)
next
  case False
  with assms show ?thesis by (auto simp: split_params_def)
qed

definition parts_clean :: "url_parts \<Rightarrow> bool" where
  "parts_clean u = (no_marks (u_scheme u) \<and> no_marks (u_netloc u) \<and> no_marks (u_path u) \<and>
     no_marks (u_params u))"

lemma urlparse_clean:
  assumes "urlparse s = Inr u"
  shows "parts_clean u"
proof -
  obtain scheme r1 where s1: "split_scheme (clean_url s) = (scheme, r1)" by force
  obtain netloc r2 where s2: "split_netloc r1 = (netloc, r2)" by force
  obtain r3 f where s3: "split_fragment r2 = (r3, f)" by force
  obtain r4 q where s4: "split_query r3 = (r4, q)" by force
  obtain path ps where s5: "split_params scheme r4 = (path, ps)" by force
  have "no_marks r4"
    using s3 s4 by (auto simp: split_fragment_def split_query_def no_marks_def split: prod.splits if_splits
        dest!: partition_at_parts)
  with split_params_no_marks [OF s5] split_scheme_no_marks [OF s1] split_netloc_no_marks [OF s2]
  show ?thesis
    using assms by (auto simp: urlparse_def s1 s2 s3 s4 s5 parts_clean_def split: if_splits)
qed

lemma url_head_no_marks: "parts_clean u \<Longrightarrow> no_marks (url_head u)"
  by (auto simp: parts_clean_def url_head_def Let_def)

lemma query_char_safe: "query_char c \<Longrightarrow> \<not> unsafe_char c \<and> c \<noteq> CHR ''#''"
  by (auto simp: query_char_def unreserved_def is_alpha_def is_digit_def unsafe_char_def Let_def)

text \<open>Whatever the rest of the URL is, the query an encoder wrote into it is read back.\<close>

theorem urlparse_urlunparse_query:
  assumes "parts_clean u" and qc: "\<And>c. c \<in> set (u_query u) \<Longrightarrow> query_char c"
    and p: "urlparse (urlunparse u) = Inr p"
  shows "u_query p = u_query u"
proof -
  define q where "q = u_query u"
  define t where "t = (if u_fragment u = [] then [] else ''#'' @ u_fragment u)"
  define t' where "t' = filter (\<lambda>c. \<not> unsafe_char c) t"
  define h where "h = clean_url (url_head u)"
  let ?r = "(if q = [] then [] else ''?'' @ q) @ t'"
  have marks: "\<not> unsafe_char (CHR ''?'')" "\<not> unsafe_char (CHR ''#'')"
    by (simp_all add: unsafe_char_def)
  have fq: "filter (\<lambda>c. \<not> unsafe_char c) q = q"
    using qc query_char_safe by (auto simp: filter_id_conv q_def)
  have "is_tail (url_tail (u_query u) (u_fragment u))"
    by (simp add: is_tail_def url_tail_def)
  then have clean: "clean_url (urlunparse u) = h @ ?r"
    using marks fq by (simp add: urlunparse_def clean_url_tail url_tail_def t'_def t_def h_def q_def)
  have t': "t' = [] \<or> t' = CHR ''#'' # filter (\<lambda>c. \<not> unsafe_char c) (u_fragment u)"
    using marks by (simp add: t'_def t_def)
  have tail: "is_tail ?r"
    using t' by (auto simp: is_tail_def)
  have "no_marks h"
    using url_head_no_marks [OF assms(1)]
    by (rule no_marks_subset) (auto simp: h_def clean_url_def dest: set_dropWhileD)
  obtain scheme r1 where s1: "split_scheme h = (scheme, r1)" by force
  obtain netloc r2 where s2: "split_netloc r1 = (netloc, r2)" by force
  have "no_marks r2"
    using \<open>no_marks h\<close> split_scheme_no_marks [OF s1] split_netloc_no_marks(2) [OF s2]
    by (meson no_marks_subset)
  moreover have "CHR ''#'' \<notin> set q"
    using qc query_char_safe by (auto simp: q_def)
  ultimately have f: "fst (split_fragment (r2 @ ?r)) = r2 @ (if q = [] then [] else ''?'' @ q)"
    and sq: "split_query (r2 @ (if q = [] then [] else ''?'' @ q)) = (r2, q)"
    using split_tail [OF _ _ t'] by blast+
  obtain fr where sf: "split_fragment (r2 @ ?r) = (r2 @ (if q = [] then [] else ''?'' @ q), fr)"
    using f by (metis prod.collapse)
  have "urlparse (urlunparse u) = (let (path, params) = split_params scheme r2 in
      if bracket_mismatch netloc then Inl (ValueError ''Invalid IPv6 URL'')
      else Inr \<lparr>u_scheme = scheme, u_netloc = netloc, u_path = path, u_params = params,
                u_query = q, u_fragment = fr\<rparr>)"
    unfolding urlparse_def clean split_scheme_tail [OF \<open>no_marks h\<close> tail] s1 fst_conv snd_conv
      Let_def prod.case split_netloc_tail [OF tail] s2 sf sq by (rule refl)
  with p show ?thesis
    by (auto simp: q_def split: prod.splits if_splits)
qed

end
