(* ===== verification/Core_Models.thy ===== *)
theory Core_Models
  imports Py_Urls
begin

text \<open>
  The shared domain models (\<open>packages/core/core/models.py\<close>): runners, workstations, sessions, VNC
  details and the events about them, with their pydantic validators. A model class is a record; a
  \<open>validate_\<close> function takes the typed fields a constructor was given, in the state pydantic's
  coercion leaves them, runs the field constraints and validators in the order of the class and
  gives the validated instance or the \<open>ValueError\<close> of the first check that fails.

  A frozen model is changed by \<open>model_copy(update=...)\<close>, which does not validate. Such a copy can
  hold \<open>None\<close> in a field the class declares as required, and the runner's PATCH handler does
  build such sessions; the fields it can reach are therefore options in \<open>session\<close>, and a dumped
  proxy is the constructor \<open>ProxyDict\<close>.
\<close>

section \<open>Enumerations\<close>

datatype runner_state = RunnerSTARTING | RunnerIDLE | RunnerBUSY | RunnerDEGRADED | RunnerOFFLINE

datatype session_status = INIT | READY | TERMINATING | DEAD

datatype start_url_wait = WaitNONE | WaitDOM_CONTENT_LOADED | WaitLOAD

datatype workstation_state = PROVISIONING | AVAILABLE | ASSIGNED | UNAVAILABLE

datatype session_event_type = EvCREATED | EvUPDATED | EvENDED

datatype workstation_event_type =
  WsCREATED | WsUPDATED | WsRELEASED | WsSTATE_CHANGED | WsERROR | WsRECYCLED

fun status_rank :: "session_status \<Rightarrow> nat" where
  "status_rank INIT = 0"
| "status_rank READY = 1"
| "status_rank TERMINATING = 2"
| "status_rank DEAD = 3"

text \<open>The lifecycle order of the statuses; \<open>DEAD\<close> is the last one.\<close>

instantiation session_status :: linorder
begin

definition less_eq_session_status :: "session_status \<Rightarrow> session_status \<Rightarrow> bool" where
  "less_eq_session_status a b = (status_rank a \<le> status_rank b)"

definition less_session_status :: "session_status \<Rightarrow> session_status \<Rightarrow> bool" where
  "less_session_status a b = (status_rank a < status_rank b)"

instance
proof
  fix a b :: session_status
  show "a \<le> b \<Longrightarrow> b \<le> a \<Longrightarrow> a = b"
    by (cases a; cases b; simp add: less_eq_session_status_def)
qed (auto simp: less_eq_session_status_def less_session_status_def)

end

lemma status_le_DEAD [simp]: "s \<le> DEAD"
  by (cases s) (simp_all add: less_eq_session_status_def)

lemma DEAD_le_iff [simp]: "DEAD \<le> s \<longleftrightarrow> s = DEAD"
  by (cases s) (simp_all add: less_eq_session_status_def)

section \<open>Records\<close>

record proxy_settings =
  px_http :: "url option"
  px_https :: "url option"
  px_socks :: "url option"

datatype session_proxy = ProxyModel proxy_settings | ProxyDict proxy_settings

record vnc_details =
  vd_http_url :: "url option"
  vd_websocket_url :: "url option"
  vd_token :: "string option"
  vd_token_ttl :: "int option"

record runner =
  r_id :: string
  r_base_url :: url
  r_state :: runner_state
  r_total_slots :: int
  r_available_slots :: "int option"
  r_healthy :: bool
  r_supports_vnc :: bool
  r_vnc_http_url_template :: "string option"
  r_vnc_ws_url_template :: "string option"
  r_last_heartbeat_at :: "datetime option"
  r_capabilities :: "string set"

record workstation_meta =
  wm_id :: string
  wm_fingerprint_id :: string
  wm_state :: workstation_state
  wm_proxy_summary :: "string option"
  wm_metadata :: "(string, pyval) dict"

record session =
  s_id :: nat
  s_runner_id :: string
  s_status :: "session_status option"
  s_created_at :: datetime
  s_last_seen_at :: "datetime option"
  s_ended_at :: "datetime option"
  s_start_url :: "url option"
  s_start_url_wait :: "start_url_wait option"
  s_headless :: "bool option"
  s_idle_ttl :: "int option"
  s_browser :: "string option"
  s_labels :: "(string, string) dict"
  s_ws_endpoint :: "string option"
  s_ws_public_endpoint :: "string option"
  s_proxy :: "session_proxy option"
  s_vnc :: "vnc_details option"
  s_vnc_enabled :: "bool option"
  s_metadata :: "(string, pyval) dict"
  s_workstation_id :: "string option"
  s_workstation_fingerprint_id :: "string option"
  s_workstation :: "workstation_meta option"

record session_event =
  ev_id :: nat
  ev_type :: session_event_type
  ev_session :: session
  ev_occurred_at :: datetime
  ev_reason :: "string option"

record workstation_event =
  we_id :: nat
  we_type :: workstation_event_type
  we_workstation :: workstation_meta
  we_occurred_at :: datetime
  we_reason :: "string option"

definition updated_at :: "session \<Rightarrow> datetime option" where
  "updated_at s = s_last_seen_at s"

definition event_runner_id :: "session_event \<Rightarrow> string" where
  "event_runner_id e = s_runner_id (ev_session e)"

definition is_terminal :: "session_event \<Rightarrow> bool" where
  "is_terminal e = (s_status (ev_session e) = Some DEAD)"

section \<open>Field validators\<close>

text \<open>\<open>Field(min_length=1)\<close>, checked before the validator of the field runs.\<close>

definition min_length_1 :: "string \<Rightarrow> unit res" where
  "min_length_1 v = ensure (v \<noteq> []) (ValueError ''String should have at least 1 character'')"

definition trimmed_or :: "string \<Rightarrow> string \<Rightarrow> string res" where
  "trimmed_or msg v = (let trimmed = strip v in
     if trimmed = [] then Inl (ValueError msg) else Inr trimmed)"

definition optional :: "('a \<Rightarrow> 'a res) \<Rightarrow> 'a option \<Rightarrow> 'a option res" where
  "optional f v = (case v of None \<Rightarrow> Inr None | Some x \<Rightarrow> res_bind (f x) (\<lambda>y. Inr (Some y)))"

definition strip_identifier :: "string \<Rightarrow> string res" where
  "strip_identifier v = trimmed_or ''id must not be empty or whitespace only'' v"

definition trim_identifiers :: "string \<Rightarrow> string res" where
  "trim_identifiers v = trimmed_or ''workstation identifiers must not be blank'' v"

definition trim_proxy_summary :: "string option \<Rightarrow> string option res" where
  "trim_proxy_summary v = optional (trimmed_or ''proxy_summary must contain non-whitespace characters'') v"

definition trim_token :: "string option \<Rightarrow> string option res" where
  "trim_token v = optional (trimmed_or ''token must contain non-whitespace characters'') v"

definition trim_runner_id :: "string \<Rightarrow> string res" where
  "trim_runner_id v = trimmed_or ''runner_id must not be empty or whitespace only'' v"

definition trim_browser :: "string \<Rightarrow> string res" where
  "trim_browser v = trimmed_or ''browser must not be empty'' v"

definition clean_ws_endpoint :: "string option \<Rightarrow> string option res" where
  "clean_ws_endpoint v = optional (trimmed_or ''ws_endpoint must not be blank when provided'') v"

definition trim_workstation_identifiers :: "string option \<Rightarrow> string option res" where
  "trim_workstation_identifiers v = optional (trimmed_or ''workstation identifiers must not be blank'') v"

definition trim_reason :: "string option \<Rightarrow> string option res" where
  "trim_reason v = optional (trimmed_or ''reason must contain non-whitespace characters'') v"

fun clean_labels :: "(string, string) dict \<Rightarrow> (string, string) dict \<Rightarrow> (string, string) dict res" where
  "clean_labels cleaned [] = Inr cleaned"
| "clean_labels cleaned ((k, v) # rest) =
     (if strip k = [] then Inl (ValueError ''label keys must be non-empty'')
      else clean_labels (AList.update (strip k) (strip v) cleaned) rest)"

definition validate_labels :: "(string, string) dict \<Rightarrow> (string, string) dict res" where
  "validate_labels v = clean_labels [] v"

lemmas trim_defs = strip_identifier_def trim_identifiers_def trim_proxy_summary_def trim_token_def
  trim_runner_id_def trim_browser_def clean_ws_endpoint_def trim_workstation_identifiers_def
  trim_reason_def

lemma trimmed_or_ok [simp]: "trimmed_or msg v = Inr w \<longleftrightarrow> strip v = w \<and> w \<noteq> []"
  by (auto simp: trimmed_or_def Let_def)

lemma trimmed_or_trimmed: "trimmed_or msg v = Inr w \<Longrightarrow> trimmed w"
  by (auto simp: trimmed_def)

lemma trimmed_or_id: "trimmed v \<Longrightarrow> trimmed_or msg v = Inr v"
  by (simp add: trimmed_def)

lemma optional_trimmed: "optional (trimmed_or msg) v = Inr w \<Longrightarrow> pred_option trimmed w"
  by (auto simp: optional_def trimmed_def split: option.splits)

lemma optional_trimmed_id: "pred_option trimmed v \<Longrightarrow> optional (trimmed_or msg) v = Inr v"
  by (cases v) (auto simp: optional_def trimmed_or_id res_bind_def trimmed_def)

section \<open>Model validators\<close>

definition ensure_at_least_one_proxy :: "proxy_settings \<Rightarrow> proxy_settings res" where
  "ensure_at_least_one_proxy p =
     (if px_http p = None \<and> px_https p = None \<and> px_socks p = None
      then Inl (ValueError ''at least one proxy URL must be provided when proxy settings are declared'')
      else Inr p)"

definition check_payload :: "vnc_details \<Rightarrow> vnc_details res" where
  "check_payload d =
     (if vd_http_url d = None \<and> vd_websocket_url d = None
      then Inl (ValueError ''at least one of http_url or websocket_url must be provided'')
      else if (case vd_token_ttl d of Some ttl \<Rightarrow> 300 < ttl | None \<Rightarrow> False)
      then Inl (ValueError ''token_ttl_seconds must be <= 300'')
      else if vd_token d \<noteq> None \<and> vd_token_ttl d = None
      then Inl (ValueError ''token_ttl_seconds must be provided when token is set'')
      else Inr d)"

definition validate_vnc_details :: "vnc_details \<Rightarrow> vnc_details res" where
  "validate_vnc_details d =
     res_bind (trim_token (vd_token d)) (\<lambda>token.
     res_bind (ensure (case vd_token_ttl d of Some ttl \<Rightarrow> 0 < ttl | None \<Rightarrow> True)
                (ValueError ''Input should be greater than 0'')) (\<lambda>_.
     check_payload (d\<lparr>vd_token := token\<rparr>)))"

text \<open>\<open>Runner._post_init\<close>: the free slots default to the total.\<close>

definition runner_post_init :: "runner \<Rightarrow> runner res" where
  "runner_post_init r =
     (let avail = (case r_available_slots r of None \<Rightarrow> r_total_slots r | Some a \<Rightarrow> a);
          r = r\<lparr>r_available_slots := Some avail\<rparr>
      in if avail < 0 then Inl (ValueError ''available_slots must be >= 0'')
         else if r_total_slots r < avail then Inl (ValueError ''available_slots cannot exceed total_slots'')
         else if r_state r = RunnerOFFLINE \<and> r_healthy r
         then Inl (ValueError ''offline runners cannot be marked healthy'')
         else if (case r_last_heartbeat_at r of Some t \<Rightarrow> \<not> is_aware t | None \<Rightarrow> False)
         then Inl (ValueError ''last_heartbeat_at must be timezone-aware'')
         else Inr r)"

definition validate_runner :: "runner \<Rightarrow> runner res" where
  "validate_runner r =
     res_bind (min_length_1 (r_id r)) (\<lambda>_.
     res_bind (strip_identifier (r_id r)) (\<lambda>ident.
     res_bind (ensure (0 < r_total_slots r) (ValueError ''Input should be greater than 0'')) (\<lambda>_.
     res_bind (ensure (case r_available_slots r of Some a \<Rightarrow> 0 \<le> a | None \<Rightarrow> True)
                (ValueError ''Input should be greater than or equal to 0'')) (\<lambda>_.
     runner_post_init (r\<lparr>r_id := ident\<rparr>)))))"

definition validate_workstation_meta :: "workstation_meta \<Rightarrow> workstation_meta res" where
  "validate_workstation_meta w =
     res_bind (min_length_1 (wm_id w)) (\<lambda>_.
     res_bind (trim_identifiers (wm_id w)) (\<lambda>ident.
     res_bind (min_length_1 (wm_fingerprint_id w)) (\<lambda>_.
     res_bind (trim_identifiers (wm_fingerprint_id w)) (\<lambda>fp.
     res_bind (trim_proxy_summary (wm_proxy_summary w)) (\<lambda>summary.
     Inr (w\<lparr>wm_id := ident, wm_fingerprint_id := fp, wm_proxy_summary := summary\<rparr>))))))"

text \<open>A required field: \<open>None\<close> is not of its type.\<close>

definition required :: "'a option \<Rightarrow> 'a res" where
  "required v = (case v of None \<Rightarrow> Inl (ValueError ''Input should be a valid value'') | Some x \<Rightarrow> Inr x)"

definition optional_min_length :: "string option \<Rightarrow> unit res" where
  "optional_min_length v = (case v of None \<Rightarrow> Inr () | Some s \<Rightarrow> min_length_1 s)"

definition validate_temporal_relationships :: "session \<Rightarrow> session res" where
  "validate_temporal_relationships s =
     (case s_last_seen_at s of None \<Rightarrow> Inl TypeError
      | Some seen \<Rightarrow>
        if \<not> is_aware (s_created_at s) then Inl (ValueError ''created_at must be timezone-aware'')
        else if \<not> is_aware seen then Inl (ValueError ''last_seen_at must be timezone-aware'')
        else if (case s_ended_at s of Some t \<Rightarrow> \<not> is_aware t | None \<Rightarrow> False)
        then Inl (ValueError ''ended_at must be timezone-aware'')
        else if instant seen < instant (s_created_at s)
        then Inl (ValueError ''last_seen_at must be greater than or equal to created_at'')
        else if (case s_ended_at s of Some t \<Rightarrow> instant t < instant (s_created_at s) | None \<Rightarrow> False)
        then Inl (ValueError ''ended_at cannot be before created_at'')
        else Inr s)"

definition validate_workstation_consistency :: "session \<Rightarrow> session res" where
  "validate_workstation_consistency s =
     (case s_workstation s of None \<Rightarrow> Inr s
      | Some w \<Rightarrow>
        if s_workstation_id s \<noteq> None \<and> s_workstation_id s \<noteq> Some (wm_id w)
        then Inl (ValueError ''workstation.id must match workstation_id when both are provided'')
        else if s_workstation_fingerprint_id s \<noteq> None \<and>
                s_workstation_fingerprint_id s \<noteq> Some (wm_fingerprint_id w)
        then Inl (ValueError ''workstation.fingerprint_id must match workstation_fingerprint_id when both are provided'')
        else Inr s)"

definition validate_session :: "session \<Rightarrow> session res" where
  "validate_session s =
     res_bind (min_length_1 (s_runner_id s)) (\<lambda>_.
     res_bind (trim_runner_id (s_runner_id s)) (\<lambda>rid.
     res_bind (required (s_status s)) (\<lambda>_.
     res_bind (required (s_last_seen_at s)) (\<lambda>_.
     res_bind (required (s_start_url_wait s)) (\<lambda>_.
     res_bind (required (s_headless s)) (\<lambda>_.
     res_bind (required (s_idle_ttl s)) (\<lambda>ttl.
     res_bind (ensure (30 \<le> ttl \<and> ttl \<le> 3600) (ValueError ''idle_ttl_seconds out of range'')) (\<lambda>_.
     res_bind (required (s_browser s)) (\<lambda>b.
     res_bind (min_length_1 b) (\<lambda>_.
     res_bind (trim_browser b) (\<lambda>browser.
     res_bind (validate_labels (s_labels s)) (\<lambda>labels.
     res_bind (optional_min_length (s_ws_endpoint s)) (\<lambda>_.
     res_bind (clean_ws_endpoint (s_ws_endpoint s)) (\<lambda>ws.
     res_bind (optional_min_length (s_ws_public_endpoint s)) (\<lambda>_.
     res_bind (clean_ws_endpoint (s_ws_public_endpoint s)) (\<lambda>wsp.
     res_bind (optional_min_length (s_workstation_id s)) (\<lambda>_.
     res_bind (trim_workstation_identifiers (s_workstation_id s)) (\<lambda>wid.
     res_bind (optional_min_length (s_workstation_fingerprint_id s)) (\<lambda>_.
     res_bind (trim_workstation_identifiers (s_workstation_fingerprint_id s)) (\<lambda>wfp.
     res_bind (validate_temporal_relationships
       (s\<lparr>s_runner_id := rid, s_browser := Some browser, s_labels := labels, s_ws_endpoint := ws,
         s_ws_public_endpoint := wsp, s_workstation_id := wid, s_workstation_fingerprint_id := wfp\<rparr>))
     validate_workstation_consistency))))))))))))))))))))"

definition validate_session_event :: "session_event \<Rightarrow> session_event res" where
  "validate_session_event e =
     (if \<not> is_aware (ev_occurred_at e) then Inl (ValueError ''occurred_at must be timezone-aware'')
      else if ev_type e = EvCREATED \<and> s_status (ev_session e) \<notin> {Some INIT, Some READY}
      then Inl (ValueError ''created events must reference INIT or READY sessions'')
      else if ev_type e = EvENDED \<and> s_status (ev_session e) \<noteq> Some DEAD
      then Inl (ValueError ''ended events must reference DEAD sessions'')
      else Inr e)"

definition validate_workstation_event :: "workstation_event \<Rightarrow> workstation_event res" where
  "validate_workstation_event e =
     res_bind (trim_reason (we_reason e)) (\<lambda>reason.
       if \<not> is_aware (we_occurred_at e) then Inl (ValueError ''occurred_at must be timezone-aware'')
       else Inr (e\<lparr>we_reason := reason\<rparr>))"

section \<open>What a validated instance satisfies\<close>

definition vnc_details_ok :: "vnc_details \<Rightarrow> bool" where
  "vnc_details_ok d =
     ((vd_http_url d \<noteq> None \<or> vd_websocket_url d \<noteq> None) \<and>
      pred_option trimmed (vd_token d) \<and>
      pred_option (\<lambda>ttl. 0 < ttl \<and> ttl \<le> 300) (vd_token_ttl d) \<and>
      (vd_token d \<noteq> None \<longrightarrow> vd_token_ttl d \<noteq> None))"

definition runner_ok :: "runner \<Rightarrow> bool" where
  "runner_ok r =
     (trimmed (r_id r) \<and> 0 < r_total_slots r \<and>
      (\<exists>a. r_available_slots r = Some a \<and> 0 \<le> a \<and> a \<le> r_total_slots r) \<and>
      (r_state r = RunnerOFFLINE \<longrightarrow> \<not> r_healthy r) \<and>
      pred_option is_aware (r_last_heartbeat_at r))"

definition labels_ok :: "(string, string) dict \<Rightarrow> bool" where
  "labels_ok l = (dict_ok l \<and> (\<forall>(k, v) \<in> set l. trimmed k \<and> strip v = v))"

definition workstation_meta_ok :: "workstation_meta \<Rightarrow> bool" where
  "workstation_meta_ok w = (trimmed (wm_id w) \<and> trimmed (wm_fingerprint_id w) \<and>
     pred_option trimmed (wm_proxy_summary w))"

definition session_ok :: "session \<Rightarrow> bool" where
  "session_ok s =
     (trimmed (s_runner_id s) \<and> s_status s \<noteq> None \<and> s_start_url_wait s \<noteq> None \<and>
      s_headless s \<noteq> None \<and>
      (\<exists>ttl. s_idle_ttl s = Some ttl \<and> 30 \<le> ttl \<and> ttl \<le> 3600) \<and>
      (\<exists>b. s_browser s = Some b \<and> trimmed b) \<and>
      labels_ok (s_labels s) \<and>
      pred_option trimmed (s_ws_endpoint s) \<and> pred_option trimmed (s_ws_public_endpoint s) \<and>
      pred_option trimmed (s_workstation_id s) \<and>
      pred_option trimmed (s_workstation_fingerprint_id s) \<and>
      is_aware (s_created_at s) \<and>
      (\<exists>t. s_last_seen_at s = Some t \<and> is_aware t \<and> instant (s_created_at s) \<le> instant t) \<and>
      pred_option (\<lambda>t. is_aware t \<and> instant (s_created_at s) \<le> instant t) (s_ended_at s) \<and>
      pred_option (\<lambda>w. (s_workstation_id s = None \<or> s_workstation_id s = Some (wm_id w)) \<and>
        (s_workstation_fingerprint_id s = None \<or>
         s_workstation_fingerprint_id s = Some (wm_fingerprint_id w))) (s_workstation s))"

lemma labels_ok_update:
  assumes "labels_ok acc" and "strip k \<noteq> []"
  shows "labels_ok (AList.update (strip k) (strip v) acc)"
proof -
  have ok: "dict_ok acc" using assms(1) by (simp add: labels_ok_def)
  have "trimmed x \<and> strip y = y" if "(x, y) \<in> set (AList.update (strip k) (strip v) acc)" for x y
  proof -
    have "map_of (AList.update (strip k) (strip v) acc) x = Some y"
      by (rule map_of_is_SomeI [OF dict_ok_update [OF ok] that])
    then have "x = strip k \<and> y = strip v \<or> (x, y) \<in> set acc"
      by (auto split: if_splits dest: map_of_SomeD)
    then show ?thesis
    proof
      assume "x = strip k \<and> y = strip v"
      then show ?thesis by (simp add: trimmed_def assms(2))
    next
      assume "(x, y) \<in> set acc"
      then show ?thesis using assms(1) unfolding labels_ok_def by fast
    qed
  qed
  then show ?thesis
    unfolding labels_ok_def using dict_ok_update [OF ok] by blast
qed

lemma clean_labels_ok:
  "clean_labels acc l = Inr l' \<Longrightarrow> labels_ok acc \<Longrightarrow> labels_ok l'"
  by (induction acc l rule: clean_labels.induct) (auto simp: labels_ok_update split: if_splits)

lemma validate_labels_ok: "validate_labels l = Inr l' \<Longrightarrow> labels_ok l'"
  unfolding validate_labels_def by (erule clean_labels_ok) (simp add: labels_ok_def)

lemma clean_labels_id:
  "labels_ok l \<Longrightarrow> keys l \<inter> keys acc = {} \<Longrightarrow> clean_labels acc l = Inr (acc @ l)"
proof (induction acc l rule: clean_labels.induct)
  case (1 acc)
  then show ?case by simp
next
  case (2 acc k v rest)
  then have "strip k = k" "strip v = v" "k \<noteq> []" "k \<notin> keys acc" "k \<notin> keys rest" "labels_ok rest"
    by (auto simp: labels_ok_def trimmed_def)
  with 2 show ?case by (simp add: update_not_in)
qed

lemma validate_labels_id: "labels_ok l \<Longrightarrow> validate_labels l = Inr l"
  unfolding validate_labels_def using clean_labels_id [of l "[]"] by simp

lemma min_length_trimmed: "trimmed v \<Longrightarrow> min_length_1 v = Inr ()"
  by (simp add: min_length_1_def trimmed_def)

lemma optional_min_length_trimmed: "pred_option trimmed v \<Longrightarrow> optional_min_length v = Inr ()"
  by (cases v) (auto simp: optional_min_length_def min_length_trimmed)

lemma required_ok [simp]: "required v = Inr x \<longleftrightarrow> v = Some x"
  by (cases v) (auto simp: required_def)

lemma temporal_ok: "validate_temporal_relationships s = Inr s' \<Longrightarrow> s' = s"
  by (auto simp: validate_temporal_relationships_def split: option.splits if_splits)

lemma consistency_ok: "validate_workstation_consistency s = Inr s' \<Longrightarrow> s' = s"
  by (auto simp: validate_workstation_consistency_def split: option.splits if_splits)

lemma session_ok_temporal: "session_ok s \<Longrightarrow> validate_temporal_relationships s = Inr s"
  by (auto simp: session_ok_def validate_temporal_relationships_def split: option.splits)

lemma session_ok_consistency: "session_ok s \<Longrightarrow> validate_workstation_consistency s = Inr s"
  by (auto simp: session_ok_def validate_workstation_consistency_def split: option.splits)

lemma validate_session_id: "session_ok s \<Longrightarrow> validate_session s = Inr s"
proof -
  assume ok: "session_ok s"
  then obtain st w h ttl b seen where f: "s_status s = Some st" "s_start_url_wait s = Some w"
    "s_headless s = Some h" "s_idle_ttl s = Some ttl" "30 \<le> ttl \<and> ttl \<le> 3600"
    "s_browser s = Some b" "trimmed b" "s_last_seen_at s = Some seen"
    by (auto simp: session_ok_def)
  have t: "trimmed (s_runner_id s)" "labels_ok (s_labels s)"
    "pred_option trimmed (s_ws_endpoint s)" "pred_option trimmed (s_ws_public_endpoint s)"
    "pred_option trimmed (s_workstation_id s)" "pred_option trimmed (s_workstation_fingerprint_id s)"
    using ok by (auto simp: session_ok_def)
  have same: "s\<lparr>s_runner_id := s_runner_id s, s_browser := Some b, s_labels := s_labels s,
      s_ws_endpoint := s_ws_endpoint s, s_ws_public_endpoint := s_ws_public_endpoint s,
      s_workstation_id := s_workstation_id s,
      s_workstation_fingerprint_id := s_workstation_fingerprint_id s\<rparr> = s"
    using f by simp
  show ?thesis
    unfolding validate_session_def
    by (simp only: f t required_def option.case ensure_simps res_bind_simps trim_defs min_length_trimmed
        trimmed_or_id validate_labels_id optional_min_length_trimmed optional_trimmed_id same
        session_ok_temporal [OF ok] session_ok_consistency [OF ok] simp_thms)
qed

lemma validate_session_sound: "validate_session s = Inr s' \<Longrightarrow> session_ok s'"
proof -
  assume "validate_session s = Inr s'"
  then obtain rid st seen w h ttl b browser labels ws wsp wid wfp s1 where
    f: "trim_runner_id (s_runner_id s) = Inr rid" "s_status s = Some st" "s_last_seen_at s = Some seen"
      "s_start_url_wait s = Some w" "s_headless s = Some h" "s_idle_ttl s = Some ttl"
      "30 \<le> ttl \<and> ttl \<le> 3600" "trim_browser b = Inr browser" "validate_labels (s_labels s) = Inr labels"
      "clean_ws_endpoint (s_ws_endpoint s) = Inr ws"
      "clean_ws_endpoint (s_ws_public_endpoint s) = Inr wsp"
      "trim_workstation_identifiers (s_workstation_id s) = Inr wid"
      "trim_workstation_identifiers (s_workstation_fingerprint_id s) = Inr wfp"
    and v: "validate_temporal_relationships
       (s\<lparr>s_runner_id := rid, s_browser := Some browser, s_labels := labels, s_ws_endpoint := ws,
         s_ws_public_endpoint := wsp, s_workstation_id := wid, s_workstation_fingerprint_id := wfp\<rparr>) = Inr s1"
      "validate_workstation_consistency s1 = Inr s'"
    unfolding validate_session_def by (simp only: res_bind_eq_Inr required_ok ensure_simps) blast
  note s1 = temporal_ok [OF v(1)] and s' = consistency_ok [OF v(2)]
  have t: "trimmed rid" "trimmed browser" "pred_option trimmed ws" "pred_option trimmed wsp"
    "pred_option trimmed wid" "pred_option trimmed wfp" "labels_ok labels"
    using f optional_trimmed trimmed_or_trimmed validate_labels_ok unfolding trim_defs by metis+
  show ?thesis
    using f t v unfolding s1 s'
    by (auto simp: session_ok_def validate_temporal_relationships_def s1 f
        validate_workstation_consistency_def split: option.splits if_splits)
qed

text \<open>
  C38: Constructing a \<open>Session\<close> gives an instance that satisfies the whole contract of the class
  (identifiers trimmed and not blank, the idle TTL between 30 and 3600 seconds, label keys distinct
  and not blank, every timestamp aware and not before the creation, workstation identifiers that
  agree with the attached metadata), and validating that instance again changes nothing.
\<close>

theorem validated_session:
  assumes "validate_session s = Inr s'"
  shows "session_ok s' \<and> validate_session s' = Inr s'"
  using validate_session_sound [OF assms] validate_session_id by blast

text \<open>
  Constructing \<open>SessionVncDetails\<close> succeeds exactly with a URL, with a time to live of 1 to 300
  seconds if there is one, and with one whenever there is a token that is not blank; the stored
  token is trimmed, and validating the instance again changes nothing.
\<close>

theorem validated_vnc_details:
  assumes "validate_vnc_details d = Inr d'"
  shows "vnc_details_ok d' \<and> validate_vnc_details d' = Inr d' \<and>
    d' = d\<lparr>vd_token := map_option strip (vd_token d)\<rparr>"
proof -
  from assms obtain token where token: "trim_token (vd_token d) = Inr token"
    and ttl: "case vd_token_ttl d of Some ttl \<Rightarrow> 0 < ttl | None \<Rightarrow> True"
    and check: "check_payload (d\<lparr>vd_token := token\<rparr>) = Inr d'"
    by (auto simp: validate_vnc_details_def)
  have d': "d' = d\<lparr>vd_token := token\<rparr>"
    using check by (auto simp: check_payload_def split: if_splits)
  have t: "pred_option trimmed token" "token = map_option strip (vd_token d)"
    using token optional_trimmed
    by (auto simp: trim_token_def optional_def split: option.splits)
  have "vnc_details_ok d'"
    using t ttl check unfolding d'
    by (auto simp: vnc_details_ok_def check_payload_def split: option.splits if_splits)
  moreover have "validate_vnc_details d' = Inr d'"
    using ttl check t(1) unfolding d'
    by (simp add: validate_vnc_details_def trim_token_def optional_trimmed_id)
  ultimately show ?thesis using d' t(2) by blast
qed

text \<open>
  Constructing a \<open>Runner\<close> gives a trimmed identifier, a slot count between zero and the total
  (the total when none was given), and never a healthy runner that is offline; validating the
  instance again changes nothing.
\<close>

theorem validated_runner:
  assumes "validate_runner r = Inr r'"
  shows "runner_ok r' \<and> validate_runner r' = Inr r' \<and>
    r_available_slots r' = Some (case r_available_slots r of None \<Rightarrow> r_total_slots r | Some a \<Rightarrow> a)"
proof -
  have ok: "runner_ok r'"
    using assms by (auto simp: validate_runner_def runner_post_init_def runner_ok_def strip_identifier_def
        trimmed_def Let_def split: if_splits option.splits)
  then obtain a where "r_available_slots r' = Some a" "0 \<le> a" "a \<le> r_total_slots r'"
    by (auto simp: runner_ok_def)
  with ok have "validate_runner r' = Inr r'"
    by (auto simp: validate_runner_def runner_post_init_def runner_ok_def strip_identifier_def
        min_length_trimmed trimmed_or_id Let_def split: option.splits)
  moreover have "r_available_slots r' =
      Some (case r_available_slots r of None \<Rightarrow> r_total_slots r | Some a \<Rightarrow> a)"
    using assms by (cases "r_available_slots r")
      (auto simp: validate_runner_def runner_post_init_def Let_def split: if_splits)
  ultimately show ?thesis using ok by blast
qed

section \<open>Concrete instances\<close>

definition example_vnc :: vnc_details where
  "example_vnc = \<lparr>vd_http_url = Some ''http://vnc/view'', vd_websocket_url = None,
     vd_token = Some '' opaque '', vd_token_ttl = Some 120\<rparr>"

definition example_runner :: runner where
  "example_runner = \<lparr>r_id = '' r1 '', r_base_url = ''http://runner:8080'', r_state = RunnerIDLE,
     r_total_slots = 4, r_available_slots = None, r_healthy = True, r_supports_vnc = True,
     r_vnc_http_url_template = None, r_vnc_ws_url_template = None,
     r_last_heartbeat_at = None, r_capabilities = {}\<rparr>"

definition example_session :: session where
  "example_session = \<lparr>s_id = 1, s_runner_id = ''r1'', s_status = Some INIT,
     s_created_at = Aware 0, s_last_seen_at = Some (Aware 0), s_ended_at = None,
     s_start_url = None, s_start_url_wait = Some WaitLOAD, s_headless = Some False,
     s_idle_ttl = Some 300, s_browser = Some ''camoufox'', s_labels = [('' env '', '' staging '')],
     s_ws_endpoint = None, s_ws_public_endpoint = None, s_proxy = None, s_vnc = None,
     s_vnc_enabled = None, s_metadata = [], s_workstation_id = None,
     s_workstation_fingerprint_id = None, s_workstation = None\<rparr>"

lemma validated_session_witness:
  "\<exists>s'. validate_session example_session = Inr s' \<and> s_labels s' = [(''env'', ''staging'')] \<and>
    session_ok s' \<and> validate_session s' = Inr s'"
proof -
  define s' where "s' = projr (validate_session example_session)"
  have "validate_session example_session = Inr s'" "s_labels s' = [(''env'', ''staging'')]"
    unfolding s'_def by code_simp+
  with validated_session [of example_session s'] show ?thesis by blast
qed

lemma validated_vnc_details_witness:
  "\<exists>d'. validate_vnc_details example_vnc = Inr d' \<and> vd_token d' = Some ''opaque'' \<and> vnc_details_ok d'"
proof -
  define d' where "d' = projr (validate_vnc_details example_vnc)"
  have "validate_vnc_details example_vnc = Inr d'" "vd_token d' = Some ''opaque''"
    unfolding d'_def by code_simp+
  with validated_vnc_details [of example_vnc d'] show ?thesis by blast
qed

lemma validated_runner_witness:
  "\<exists>r'. validate_runner example_runner = Inr r' \<and> runner_ok r' \<and> r_available_slots r' = Some 4"
proof -
  define r' where "r' = projr (validate_runner example_runner)"
  have "validate_runner example_runner = Inr r'"
    unfolding r'_def
    by (simp add: example_runner_def validate_runner_def min_length_1_def strip_identifier_def
        trimmed_or_def runner_post_init_def strip_def lstrip_def rstrip_by_def is_space_def)
  with validated_runner [of example_runner r'] show ?thesis
    by (auto simp: example_runner_def)
qed

end
