(* ===== verification/Browser.thy ===== *)
theory Browser
  imports Py_Values
begin

text \<open>
  Launching and stopping the Playwright server processes of the runner
  (\<open>services/runner/app/browser.py\<close>). The operating system's answers are data: \<open>os_env\<close> says for
  the n-th process whether it starts, what it prints and whether it has exited, so a run of any
  length is determined by the record and every outcome is covered by quantifying over it. The
  set \<open>pw_live\<close> holds the processes that were started and not yet seen to be gone. Cancellation of a
  running coroutine is outside the model.
\<close>

section \<open>Processes\<close>

datatype signal = SIGTERM | SIGKILL

record proc_world =
  pw_next :: nat
  pw_live :: "nat set"
  pw_launches :: "(string list \<times> (string, string) dict) list"
  pw_signals :: "(nat \<times> signal) list"

text \<open>
  What the operating system does for one launch: the exception of
  \<open>create_subprocess_exec\<close>, whether there is a stdout pipe, the outcome of reading the first line,
  the exit code once the line is read. Reading may time out or raise something else: \<open>readline\<close>
  raises \<open>ValueError\<close> for a line longer than the 64 KiB limit of the stream.
\<close>

datatype line_read = LineTimeout | LineError exn | Line string

text \<open>
  \<open>json.loads\<close> on the line: a \<open>JSONDecodeError\<close>, another exception (\<open>RecursionError\<close> on deep nesting,
  \<open>ValueError\<close> on an integer with too many digits), or a value.
\<close>

datatype json_read = JsonInvalid | JsonError exn | JsonValue pyval

record launch_script =
  ls_spawn :: "exn option"
  ls_stdout :: bool
  ls_line :: line_read
  ls_exit :: "int option"

record os_env =
  os_environ :: "(string, string) dict"
  os_script :: "nat \<Rightarrow> launch_script"
  os_json :: "string \<Rightarrow> json_read"
  os_camoufox_path :: string
  os_exited :: "nat \<Rightarrow> bool"
  os_kill_error :: "nat \<Rightarrow> exn option"
  os_graceful :: "nat \<Rightarrow> bool"

record browser_handle =
  bh_ws_endpoint :: string
  bh_process :: nat

definition bh_pid :: "browser_handle \<Rightarrow> int" where
  "bh_pid h = int (bh_process h)"

definition process_gone :: "nat \<Rightarrow> (proc_world, unit) op" where
  "process_gone p = modify (\<lambda>w. w\<lparr>pw_live := pw_live w - {p}\<rparr>)"

definition send_signal :: "signal \<Rightarrow> nat \<Rightarrow> (proc_world, unit) op" where
  "send_signal g p = modify (\<lambda>w. w\<lparr>pw_signals := pw_signals w @ [(p, g)]\<rparr>)"

text \<open>\<open>BrowserSessionHandle.shutdown\<close>.\<close>

definition shutdown :: "os_env \<Rightarrow> bool \<Rightarrow> browser_handle \<Rightarrow> (proc_world, unit) op" where
  "shutdown env force h =
     (let p = bh_process h in
      if os_exited env p then process_gone p
      else case os_kill_error env p of Some e \<Rightarrow> raise e
      | None \<Rightarrow>
        if force then thenm (send_signal SIGKILL p) (process_gone p)
        else thenm (send_signal SIGTERM p)
          (if os_graceful env p then process_gone p
           else thenm (send_signal SIGKILL p) (process_gone p)))"

text \<open>\<open>_terminate_process(process, force=True)\<close>; the launcher passes no other \<open>force\<close>.\<close>

definition terminate_process :: "os_env \<Rightarrow> nat \<Rightarrow> (proc_world, unit) op" where
  "terminate_process env p =
     (if os_exited env p then process_gone p
      else case os_kill_error env p of Some e \<Rightarrow> raise e
      | None \<Rightarrow> thenm (send_signal SIGKILL p) (process_gone p))"

section \<open>Launching\<close>

definition resolve_playwright_browser_name :: "string \<Rightarrow> string" where
  "resolve_playwright_browser_name name =
     (let key = lower (strip name) in if key = ''camoufox'' then ''firefox'' else name)"

definition launch_command :: "os_env \<Rightarrow> string \<Rightarrow> string list" where
  "launch_command env browser =
     [case map_of (os_environ env) ''PLAYWRIGHT_CLI'' of Some cli \<Rightarrow> cli | None \<Rightarrow> ''playwright'',
      ''launch-server'', ''--browser'', resolve_playwright_browser_name browser]"

definition launch_env ::
  "os_env \<Rightarrow> bool \<Rightarrow> (string, string) dict \<Rightarrow> (string, string) dict \<Rightarrow> (string, string) dict" where
  "launch_env env headless extra flags =
     (let e = AList.update ''CAMOUFOX_BINARY'' (os_camoufox_path env) (os_environ env);
          e = (if headless then dict_setdefault ''CAMOUFOX_HEADLESS'' ''virtual'' e else e);
          e = (if extra \<noteq> [] then dict_merge e extra else e)
      in if flags \<noteq> [] then dict_merge e flags else e)"

text \<open>\<open>re.search(r"wss?://[^\s\x1b]+", text)\<close>.\<close>

definition ws_at :: "string \<Rightarrow> string option" where
  "ws_at s =
     (let n = (if starts_with ''ws://'' s then 5 else if starts_with ''wss://'' s then 6 else 0);
          body = takeWhile (\<lambda>c. \<not> is_space c \<and> c \<noteq> CHR 27) (drop n s)
      in if n = 0 \<or> body = [] then None else Some (take n s @ body))"

fun search_ws :: "string \<Rightarrow> string option" where
  "search_ws [] = None"
| "search_ws (c # s) = (case ws_at (c # s) of Some m \<Rightarrow> Some m | None \<Rightarrow> search_ws s)"

definition non_blank_endpoint :: "pyval \<Rightarrow> string res" where
  "non_blank_endpoint v = (case v of
     PStr s \<Rightarrow> if strip s = [] then Inl (BrowserLaunchError ''wsEndpoint payload is empty'') else Inr (strip s)
   | _ \<Rightarrow> Inl (BrowserLaunchError ''wsEndpoint payload is empty''))"

text \<open>
  The endpoint in the first line of the server's output. The exceptions of the decoder other than
  \<open>JSONDecodeError\<close> are not handled by the code: \<open>json_escapes\<close> tells them from the errors it raises
  itself after it has terminated the process.
\<close>

definition json_escapes :: "os_env \<Rightarrow> string \<Rightarrow> bool" where
  "json_escapes env raw = (utf8_ok raw \<and> (case os_json env raw of JsonError _ \<Rightarrow> True | _ \<Rightarrow> False))"

definition read_endpoint :: "os_env \<Rightarrow> string \<Rightarrow> string res" where
  "read_endpoint env raw =
     (if \<not> utf8_ok raw then Inl (BrowserLaunchError ''wsEndpoint payload contains invalid UTF-8'')
      else res_bind
        (case os_json env raw of
           JsonError e \<Rightarrow> Inl e
         | JsonInvalid \<Rightarrow>
             (case search_ws (strip raw) of
                Some m \<Rightarrow> Inr (PStr m)
              | None \<Rightarrow> Inl (BrowserLaunchError ''Invalid wsEndpoint payload from Playwright''))
         | JsonValue payload \<Rightarrow>
             (case (case payload of PDict d \<Rightarrow> map_of d ''wsEndpoint'' | _ \<Rightarrow> None) of
                Some v \<Rightarrow> if truthy v then Inr v
                          else Inl (BrowserLaunchError ''Playwright JSON payload missing wsEndpoint'')
              | None \<Rightarrow> Inl (BrowserLaunchError ''Playwright JSON payload missing wsEndpoint'')))
        non_blank_endpoint)"

definition launch_browser ::
  "os_env \<Rightarrow> string \<Rightarrow> bool \<Rightarrow> (string, string) dict \<Rightarrow> (string, string) dict \<Rightarrow>
    (proc_world, browser_handle) op" where
  "launch_browser env browser headless extra flags =
     bindm (gets pw_next) (\<lambda>p.
     thenm (modify (\<lambda>w. w\<lparr>pw_next := Suc p,
       pw_launches := pw_launches w @ [(launch_command env browser, launch_env env headless extra flags)]\<rparr>))
     (case ls_spawn (os_script env p) of
        Some e \<Rightarrow> raise (if e = OtherError ''FileNotFoundError''
                         then BrowserLaunchError ''Playwright CLI is not available'' else e)
      | None \<Rightarrow>
        thenm (modify (\<lambda>w. w\<lparr>pw_live := insert p (pw_live w)\<rparr>))
        (if \<not> ls_stdout (os_script env p)
         then thenm (terminate_process env p) (raise (BrowserLaunchError ''Playwright stdout pipe is not available''))
         else case ls_line (os_script env p) of
           LineTimeout \<Rightarrow> thenm (terminate_process env p)
                     (raise (BrowserLaunchError ''Timed out waiting for Playwright wsEndpoint''))
         | LineError e \<Rightarrow> raise e
         | Line raw \<Rightarrow>
           if raw = []
           then thenm (terminate_process env p)
                  (raise (BrowserLaunchError ''Playwright exited without providing wsEndpoint''))
           else case read_endpoint env raw of
             Inl e \<Rightarrow> if json_escapes env raw then raise e else thenm (terminate_process env p) (raise e)
           | Inr endpoint \<Rightarrow>
             if ls_exit (os_script env p) \<noteq> None
             then thenm (process_gone p) (raise (BrowserLaunchError ''Playwright exited prematurely''))
             else ret \<lparr>bh_ws_endpoint = endpoint, bh_process = p\<rparr>)))"

section \<open>What a launch leaves behind\<close>

definition world_ok :: "proc_world \<Rightarrow> bool" where
  "world_ok w = (\<forall>p \<in> pw_live w. p < pw_next w)"

lemmas proc_defs = process_gone_def send_signal_def terminate_process_def

lemma non_blank_trimmed: "non_blank_endpoint v = Inr e \<Longrightarrow> trimmed e"
  by (cases v) (auto simp: non_blank_endpoint_def split: if_splits)

lemma read_endpoint_trimmed: "read_endpoint env raw = Inr e \<Longrightarrow> trimmed e"
  by (auto simp: read_endpoint_def dest: non_blank_trimmed split: if_splits)

text \<open>The launch of process \<open>p\<close> breaks off: an exception the launcher does not handle, the process running.\<close>

definition breaks_off :: "os_env \<Rightarrow> nat \<Rightarrow> bool" where
  "breaks_off env p = (ls_spawn (os_script env p) = None \<and> ls_stdout (os_script env p) \<and>
     (case ls_line (os_script env p) of
        LineTimeout \<Rightarrow> False
      | LineError _ \<Rightarrow> True
      | Line raw \<Rightarrow> raw \<noteq> [] \<and> json_escapes env raw))"

definition unkillable :: "os_env \<Rightarrow> nat \<Rightarrow> bool" where
  "unkillable env p = (os_kill_error env p \<noteq> None)"

lemma escaped_endpoint: "json_escapes env raw \<Longrightarrow> \<exists>e. read_endpoint env raw = Inl e"
  by (auto simp: json_escapes_def read_endpoint_def split: json_read.splits)

text \<open>The outcomes of a launch: what it returns and which processes it leaves.\<close>

lemma launch_browser_effect:
  assumes "world_ok w" and "launch_browser env browser headless extra flags w = (r, w')"
  shows "world_ok w' \<and> pw_next w' = Suc (pw_next w) \<and> pw_next w \<notin> pw_live w \<and>
    (case r of
       Inl _ \<Rightarrow> pw_live w' = (if breaks_off env (pw_next w) then insert (pw_next w) (pw_live w) else pw_live w) \<or>
         pw_live w' = insert (pw_next w) (pw_live w) \<and> unkillable env (pw_next w)
     | Inr h \<Rightarrow> bh_process h = pw_next w \<and> pw_live w' = insert (pw_next w) (pw_live w) \<and> trimmed (bh_ws_endpoint h))"
proof -
  let ?p = "pw_next w" and ?sc = "os_script env (pw_next w)"
  have new: "?p \<notin> pw_live w" using assms(1) by (auto simp: world_ok_def)
  then have minus: "insert ?p (pw_live w) - {?p} = pw_live w" by simp
  have ok: "Ball (pw_live w) (\<lambda>q. q < Suc ?p)" using assms(1) by (auto simp: world_ok_def)
  note run = assms(2) [unfolded launch_browser_def]
  note facts = op_run proc_defs world_ok_def breaks_off_def unkillable_def new minus ok
  show ?thesis
  proof (cases "ls_spawn ?sc")
    case (Some e)
    with run show ?thesis by (auto simp: facts)
  next
    case spawned: None
    show ?thesis
    proof (cases "ls_stdout ?sc")
      case False
      with spawned run show ?thesis by (auto simp: facts split: if_splits option.splits)
    next
      case piped: True
      show ?thesis
      proof (cases "ls_line ?sc")
        case LineTimeout
        with spawned piped run show ?thesis by (auto simp: facts split: if_splits option.splits)
      next
        case (LineError e)
        with spawned piped run show ?thesis by (auto simp: facts)
      next
        case (Line raw)
        show ?thesis
        proof (cases "read_endpoint env raw")
          case (Inl e)
          with Line spawned piped run show ?thesis by (auto simp: facts split: if_splits option.splits)
        next
          case (Inr endpoint)
          then have "\<not> json_escapes env raw" "trimmed endpoint"
            using escaped_endpoint [of env raw] by (auto simp: read_endpoint_trimmed)
          with Inr Line spawned piped run show ?thesis by (auto simp: facts split: if_splits option.splits)
        qed
      qed
    qed
  qed
qed

text \<open>
  C10: What a launch leaves behind. One that returns leaves exactly one new process, the one in the handle,
  with an endpoint that is trimmed and not empty. One that raises leaves none of its own running,
  unless the exception came from reading the line (anything but the timeout) or from the JSON decoder
  (anything but \<open>JSONDecodeError\<close>), which the code does not handle and which always leaves the process
  running, or the operating system refuses to kill the process. Cancellation is not modelled.
\<close>

theorem launch_browser_no_leak:
  assumes "world_ok w" and "launch_browser env browser headless extra flags w = (r, w')"
  shows "case r of
      Inr h \<Rightarrow> bh_process h = pw_next w \<and> bh_process h \<notin> pw_live w \<and>
        pw_live w' = insert (bh_process h) (pw_live w) \<and> trimmed (bh_ws_endpoint h)
    | Inl _ \<Rightarrow> (\<not> breaks_off env (pw_next w) \<and> \<not> unkillable env (pw_next w) \<longrightarrow> pw_live w' = pw_live w) \<and>
        (breaks_off env (pw_next w) \<longrightarrow> pw_live w' = insert (pw_next w) (pw_live w)) \<and>
        pw_live w' \<subseteq> insert (pw_next w) (pw_live w)"
proof (cases r)
  case (Inl e)
  then show ?thesis using launch_browser_effect [OF assms] by (cases "breaks_off env (pw_next w)") (simp_all, (metis order_refl subset_insertI)+)
next
  case (Inr h)
  then show ?thesis using launch_browser_effect [OF assms] by simp
qed

lemma shutdown_effect:
  "shutdown env force h w = (r, w') \<Longrightarrow>
    pw_next w' = pw_next w \<and>
    (case r of Inl e \<Rightarrow> os_kill_error env (bh_process h) = Some e \<and> w' = w
     | Inr _ \<Rightarrow> pw_live w' = pw_live w - {bh_process h})"
  by (auto simp: shutdown_def op_run Let_def proc_defs split: option.splits if_splits)

lemma shutdown_world_ok: "world_ok w \<Longrightarrow> world_ok (snd (shutdown env force h w))"
proof -
  assume ok: "world_ok w"
  obtain r w' where run: "shutdown env force h w = (r, w')" by force
  from shutdown_effect [OF run] ok show ?thesis
    by (cases r) (simp_all add: run world_ok_def)
qed

section \<open>A concrete launch\<close>

definition demo_os :: os_env where
  "demo_os = \<lparr>os_environ = [(''PATH'', ''/bin'')],
     os_script = (\<lambda>n. \<lparr>ls_spawn = None, ls_stdout = True,
       ls_line = (if n = 1 then LineTimeout else Line ''listening on ws://127.0.0.1:9/abc ok''), ls_exit = None\<rparr>),
     os_json = (\<lambda>_. JsonInvalid), os_camoufox_path = ''/usr/bin/camoufox'',
     os_exited = (\<lambda>_. False), os_kill_error = (\<lambda>_. None), os_graceful = (\<lambda>_. True)\<rparr>"

definition empty_world :: proc_world where
  "empty_world = \<lparr>pw_next = 0, pw_live = {}, pw_launches = [], pw_signals = []\<rparr>"

lemma world_ok_empty [simp]: "world_ok empty_world"
  by (simp add: world_ok_def empty_world_def)

text \<open>A server that prints a line without an end: the launch raises \<open>ValueError\<close> and its process keeps running.\<close>

lemma long_line_leaks:
  "\<exists>w. launch_browser (demo_os\<lparr>os_script := \<lambda>n. (os_script demo_os n)\<lparr>ls_line := LineError (ValueError ''limit'')\<rparr>\<rparr>)
     ''camoufox'' True [] [] empty_world = (Inl (ValueError ''limit''), w) \<and> pw_live w = {0}"
  by (auto simp: launch_browser_def op_run demo_os_def empty_world_def)

lemma launch_browser_no_leak_witness:
  "(\<exists>h w'. launch_browser demo_os ''camoufox'' True [] [] empty_world = (Inr h, w') \<and>
     bh_ws_endpoint h = ''ws://127.0.0.1:9/abc'' \<and> pw_live w' = {0}) \<and>
   (\<exists>e w'. launch_browser demo_os ''camoufox'' True [] [] (empty_world\<lparr>pw_next := 1\<rparr>) = (Inl e, w') \<and>
     pw_live w' = {})"
proof -
  have r: "read_endpoint demo_os ''listening on ws://127.0.0.1:9/abc ok'' = Inr ''ws://127.0.0.1:9/abc''"
    by code_simp
  obtain h w' where l: "launch_browser demo_os ''camoufox'' True [] [] empty_world = (Inr h, w')"
    "bh_ws_endpoint h = ''ws://127.0.0.1:9/abc''"
    using r by (simp add: launch_browser_def op_run demo_os_def empty_world_def)
  have ok: "world_ok (empty_world\<lparr>pw_next := 1\<rparr>)" by (simp add: world_ok_def empty_world_def)
  obtain e u where f: "launch_browser demo_os ''camoufox'' True [] [] (empty_world\<lparr>pw_next := 1\<rparr>) = (Inl e, u)"
    by (simp add: launch_browser_def op_run demo_os_def empty_world_def proc_defs)
  have "pw_live u = {}"
    using launch_browser_no_leak [OF ok f]
    by (simp add: empty_world_def breaks_off_def unkillable_def demo_os_def)
  with f launch_browser_no_leak [OF world_ok_empty l(1)] l show ?thesis
    by (auto simp: empty_world_def)
qed

end
