(* ===== verification/Warm_Pool.thy ===== *)
theory Warm_Pool
  imports Core_Models Browser
begin

text \<open>
  The pool of pre-warmed browsers (\<open>services/runner/app/warm_pool.py\<close> and its configuration,
  \<open>services/runner/app/config/warm_pool.py\<close>). A slot is a record; each public coroutine is one
  operation on the pool's state, the slot's lock making it atomic. What lies outside the program
  is in \<open>pool_env\<close>: the operating system, the navigator, the directory factory and the event
  transport, each of which can fail at its n-th call. Delays are whole milliseconds.

  The text values of a workstation's extra configuration are strings or absent here.
\<close>

section \<open>Configuration\<close>

record workstation_entry =
  wc_id :: string
  wc_label :: "string option"
  wc_tags :: "string list"
  wc_extra :: "(string, string) dict"

fun scan_ids :: "string set \<Rightarrow> string set \<Rightarrow> workstation_entry list \<Rightarrow> string set" where
  "scan_ids seen duplicates [] = duplicates"
| "scan_ids seen duplicates (entry # rest) =
     (if wc_id entry \<in> seen then scan_ids seen (insert (wc_id entry) duplicates) rest
      else scan_ids (insert (wc_id entry) seen) duplicates rest)"

definition validate_unique_ids :: "workstation_entry list \<Rightarrow> workstation_entry list res" where
  "validate_unique_ids ws =
     (let duplicates = scan_ids {} {} ws in
      if duplicates \<noteq> {}
      then Inl (ValueError (''warm pool workstation ids must be unique: '' @
             join_with '', '' (sorted_list_of_set duplicates)))
      else Inr ws)"

lemma scan_ids_spec:
  "scan_ids seen dups ws = {} \<longleftrightarrow>
    dups = {} \<and> distinct (map wc_id ws) \<and> seen \<inter> wc_id ` set ws = {}"
  by (induction seen dups ws rule: scan_ids.induct) auto

lemma validate_unique_ids_ok: "validate_unique_ids ws = Inr ws' \<longleftrightarrow> ws' = ws \<and> distinct (map wc_id ws)"
  by (auto simp: validate_unique_ids_def scan_ids_spec Let_def)

section \<open>Slots\<close>

datatype warm_state = WarmIDLE | WarmRESERVED | WarmBUSY | WarmRECYCLING | WarmDRAINING | WarmERROR

fun warm_state_value :: "warm_state \<Rightarrow> string" where
  "warm_state_value WarmIDLE = ''idle''"
| "warm_state_value WarmRESERVED = ''reserved''"
| "warm_state_value WarmBUSY = ''busy''"
| "warm_state_value WarmRECYCLING = ''recycling''"
| "warm_state_value WarmDRAINING = ''draining''"
| "warm_state_value WarmERROR = ''error''"

fun warm_to_public_state :: "warm_state \<Rightarrow> workstation_state" where
  "warm_to_public_state WarmIDLE = AVAILABLE"
| "warm_to_public_state WarmRESERVED = PROVISIONING"
| "warm_to_public_state WarmBUSY = ASSIGNED"
| "warm_to_public_state WarmRECYCLING = PROVISIONING"
| "warm_to_public_state WarmDRAINING = UNAVAILABLE"
| "warm_to_public_state WarmERROR = UNAVAILABLE"

record warm_slot =
  ws_workstation :: workstation_entry
  ws_fingerprint :: "string option"
  ws_proxy_url :: "string option"
  ws_prefs_rel_path :: "string option"
  ws_state :: warm_state
  ws_handle :: "browser_handle option"
  ws_temp_dir :: "nat option"
  ws_last_error :: "exn option"
  ws_launch_env :: "(string, string) dict"

record warm_snapshot =
  sn_workstation_id :: string
  sn_fingerprint :: "string option"
  sn_proxy_url :: "string option"
  sn_state :: warm_state

record warm_reservation =
  rv_snapshot :: warm_snapshot
  rv_handle :: browser_handle
  rv_environment :: "(string, string) dict"

record warm_statistics =
  st_total :: nat
  st_idle :: nat
  st_busy :: nat
  st_error :: nat
  st_draining :: bool

definition slot_snapshot :: "warm_slot \<Rightarrow> warm_snapshot" where
  "slot_snapshot sl = \<lparr>sn_workstation_id = wc_id (ws_workstation sl), sn_fingerprint = ws_fingerprint sl,
     sn_proxy_url = ws_proxy_url sl, sn_state = ws_state sl\<rparr>"

section \<open>The pool's state and environment\<close>

record warm_pool =
  wp_procs :: proc_world
  wp_config :: "workstation_entry list option"
  wp_slots :: "(string, warm_slot) dict"
  wp_draining :: bool
  wp_next_dir :: nat
  wp_dirs :: "nat set"
  wp_sleeps :: "int list"
  wp_events :: "workstation_event list"
  wp_publishes :: nat
  wp_gauges :: "nat \<times> nat \<times> nat \<times> nat"
  wp_nav_errors :: nat
  wp_proxy_errors :: nat
  wp_recycles :: nat

record pool_env =
  pe_os :: os_env
  pe_loader :: "workstation_entry list option res"
  pe_flags :: "(string, string) dict"
  pe_prefs_path :: "string option"
  pe_prewarm :: bool
  pe_start_url :: "url option"
  pe_start_wait_ms :: int
  pe_navigate :: "nat \<Rightarrow> exn option"
  pe_tempdir :: "nat \<Rightarrow> exn option"
  pe_dir_path :: "nat \<Rightarrow> string"
  pe_max_retries :: nat
  pe_base_delay :: int
  pe_has_publisher :: bool
  pe_publish :: "nat \<Rightarrow> exn option"
  pe_now :: int

type_synonym 'a pool_op = "(warm_pool, 'a) op"

definition procs_op :: "(proc_world, 'a) op \<Rightarrow> 'a pool_op" where
  "procs_op m = zoom wp_procs (\<lambda>w s. s\<lparr>wp_procs := w\<rparr>) m"

definition set_slot :: "string \<Rightarrow> (warm_slot \<Rightarrow> warm_slot) \<Rightarrow> unit pool_op" where
  "set_slot wid f = modify (\<lambda>s. s\<lparr>wp_slots := AList.map_entry wid f (wp_slots s)\<rparr>)"

definition require_slot :: "string \<Rightarrow> warm_slot pool_op" where
  "require_slot wid = (\<lambda>s. case map_of (wp_slots s) wid of
     Some sl \<Rightarrow> (Inr sl, s)
   | None \<Rightarrow> (Inl (WarmPoolStateError (''unknown workstation '' @ quoted wid)), s))"

section \<open>Counting\<close>

fun count_slots :: "warm_slot list \<Rightarrow> nat \<times> nat \<times> nat \<Rightarrow> nat \<times> nat \<times> nat" where
  "count_slots [] acc = acc"
| "count_slots (sl # rest) (idle, busy, err) =
     (if ws_state sl = WarmIDLE then count_slots rest (Suc idle, busy, err)
      else if ws_state sl \<in> {WarmRESERVED, WarmBUSY, WarmRECYCLING, WarmDRAINING}
      then count_slots rest (idle, Suc busy, err)
      else if ws_state sl = WarmERROR then count_slots rest (idle, busy, Suc err)
      else count_slots rest (idle, busy, err))"

definition collect_state_counts :: "(string, warm_slot) dict \<Rightarrow> nat \<times> nat \<times> nat \<times> nat" where
  "collect_state_counts slots =
     (case count_slots (map snd slots) (0, 0, 0) of (idle, busy, err) \<Rightarrow> (length slots, idle, busy, err))"

definition update_state_metrics :: "unit pool_op" where
  "update_state_metrics = modify (\<lambda>s. s\<lparr>wp_gauges := collect_state_counts (wp_slots s)\<rparr>)"

definition list_slots :: "warm_pool \<Rightarrow> warm_snapshot list" where
  "list_slots s = map (\<lambda>(_, sl). slot_snapshot sl) (wp_slots s)"

definition get_statistics :: "warm_pool \<Rightarrow> warm_statistics" where
  "get_statistics s = (case collect_state_counts (wp_slots s) of (tot, idle, busy, err) \<Rightarrow>
     \<lparr>st_total = tot, st_idle = idle, st_busy = busy, st_error = err, st_draining = wp_draining s\<rparr>)"

definition record_recycle_duration :: "'a pool_op \<Rightarrow> 'a pool_op" where
  "record_recycle_duration m = finallym m (modify (\<lambda>s. s\<lparr>wp_recycles := Suc (wp_recycles s)\<rparr>))"

section \<open>Events\<close>

fun exn_name :: "exn \<Rightarrow> string" where
  "exn_name (ValueError _) = ''ValueError''"
| "exn_name (WarmPoolProvisioningError _ _) = ''WarmPoolProvisioningError''"
| "exn_name (WarmPoolStateError _) = ''WarmPoolStateError''"
| "exn_name (BrowserLaunchError _) = ''BrowserLaunchError''"
| "exn_name (OtherError n) = n"
| "exn_name _ = ''Exception''"

fun exn_text :: "exn \<Rightarrow> string" where
  "exn_text (ValueError m) = m"
| "exn_text (WarmPoolProvisioningError m _) = m"
| "exn_text (WarmPoolStateError m) = m"
| "exn_text (BrowserLaunchError m) = m"
| "exn_text _ = ''''"

definition non_empty :: "string option \<Rightarrow> bool" where
  "non_empty v = (v \<noteq> None \<and> v \<noteq> Some [])"

definition build_workstation_meta ::
  "warm_snapshot \<Rightarrow> (string, pyval) dict option \<Rightarrow> workstation_meta res" where
  "build_workstation_meta sn metadata =
     (let extra = [(''warm_pool_state'', PStr (warm_state_value (sn_state sn)))];
          extra = (if non_empty (sn_proxy_url sn)
                   then dict_setdefault ''proxy_url'' (PStr (the (sn_proxy_url sn))) extra else extra);
          extra = (case metadata of None \<Rightarrow> extra | Some m \<Rightarrow> dict_merge extra m);
          fingerprint = (if non_empty (sn_fingerprint sn) then the (sn_fingerprint sn) else ''unknown'')
      in validate_workstation_meta
           \<lparr>wm_id = sn_workstation_id sn, wm_fingerprint_id = fingerprint,
            wm_state = warm_to_public_state (sn_state sn), wm_proxy_summary = sn_proxy_url sn,
            wm_metadata = extra\<rparr>)"

definition publish_event ::
  "pool_env \<Rightarrow> warm_snapshot \<Rightarrow> workstation_event_type \<Rightarrow> string \<Rightarrow> (string, pyval) dict option \<Rightarrow> unit pool_op" where
  "publish_event env sn ty reason metadata =
     (if \<not> pe_has_publisher env then ret ()
      else bindm (lift_res (build_workstation_meta sn metadata)) (\<lambda>m.
           bindm (gets wp_publishes) (\<lambda>n.
           bindm (lift_res (validate_workstation_event
             \<lparr>we_id = n, we_type = ty, we_workstation = m, we_occurred_at = Aware (pe_now env),
              we_reason = Some reason\<rparr>)) (\<lambda>ev.
           thenm (modify (\<lambda>s. s\<lparr>wp_publishes := Suc n\<rparr>))
           (case pe_publish env n of Some e \<Rightarrow> raise e
            | None \<Rightarrow> modify (\<lambda>s. s\<lparr>wp_events := wp_events s @ [ev]\<rparr>))))))"

definition emit_state_change ::
  "pool_env \<Rightarrow> warm_snapshot \<Rightarrow> string \<Rightarrow> (string, pyval) dict option \<Rightarrow> unit pool_op" where
  "emit_state_change env sn reason metadata = publish_event env sn WsSTATE_CHANGED reason metadata"

definition env_value :: "(string, string) dict \<Rightarrow> pyval" where
  "env_value d = PDict (map (\<lambda>(k, v). (k, PStr v)) d)"

definition emit_recycled :: "pool_env \<Rightarrow> string \<Rightarrow> warm_snapshot \<Rightarrow> string \<Rightarrow> unit pool_op" where
  "emit_recycled env wid sn reason =
     bindm (require_slot wid) (\<lambda>sl.
       publish_event env sn WsRECYCLED reason
         (if ws_launch_env sl \<noteq> [] then Some [(''launch_env'', env_value (ws_launch_env sl))] else None))"

definition emit_error :: "pool_env \<Rightarrow> string \<Rightarrow> warm_snapshot \<Rightarrow> string \<Rightarrow> unit pool_op" where
  "emit_error env wid sn reason =
     bindm (require_slot wid) (\<lambda>sl.
       publish_event env sn WsERROR reason
         (case ws_last_error sl of None \<Rightarrow> None
          | Some e \<Rightarrow> Some [(''error'', PStr (exn_text e)), (''error_type'', PStr (exn_name e))]))"

section \<open>Provisioning\<close>

definition make_temp_dir :: "pool_env \<Rightarrow> nat pool_op" where
  "make_temp_dir env =
     bindm (gets wp_next_dir) (\<lambda>n.
     case pe_tempdir env n of
       Some e \<Rightarrow> thenm (modify (\<lambda>s. s\<lparr>wp_next_dir := Suc n\<rparr>)) (raise e)
     | None \<Rightarrow> thenm (modify (\<lambda>s. s\<lparr>wp_next_dir := Suc n, wp_dirs := insert n (wp_dirs s)\<rparr>)) (ret n))"

definition safe_shutdown :: "pool_env \<Rightarrow> browser_handle option \<Rightarrow> unit pool_op" where
  "safe_shutdown env ho = (case ho of None \<Rightarrow> ret ()
     | Some h \<Rightarrow> suppress (procs_op (shutdown (pe_os env) True h)))"

definition teardown_slot :: "pool_env \<Rightarrow> string \<Rightarrow> unit pool_op" where
  "teardown_slot env wid =
     bindm (require_slot wid) (\<lambda>sl.
     thenm (safe_shutdown env (ws_handle sl))
     (thenm (set_slot wid (\<lambda>sl. sl\<lparr>ws_handle := None\<rparr>))
     (thenm (case ws_temp_dir sl of None \<Rightarrow> ret ()
             | Some d \<Rightarrow> modify (\<lambda>s. s\<lparr>wp_dirs := wp_dirs s - {d}\<rparr>))
     (set_slot wid (\<lambda>sl. sl\<lparr>ws_temp_dir := None\<rparr>)))))"

definition extra_text :: "workstation_entry \<Rightarrow> string \<Rightarrow> string option" where
  "extra_text entry key = map_of (wc_extra entry) key"

definition build_slot :: "pool_env \<Rightarrow> workstation_entry \<Rightarrow> warm_slot pool_op" where
  "build_slot env entry =
     bindm (make_temp_dir env) (\<lambda>d.
     ret \<lparr>ws_workstation = entry, ws_fingerprint = extra_text entry ''fingerprint_id'',
       ws_proxy_url = (if non_empty (extra_text entry ''proxy_url'') then extra_text entry ''proxy_url''
                       else extra_text entry ''proxy''),
       ws_prefs_rel_path = extra_text entry ''prefs_rel_path'', ws_state = WarmRECYCLING,
       ws_handle = None, ws_temp_dir = Some d, ws_last_error = None, ws_launch_env = []\<rparr>)"

definition put_if :: "bool \<Rightarrow> string \<Rightarrow> string \<Rightarrow> (string, string) dict \<Rightarrow> (string, string) dict" where
  "put_if b k v d = (if b then AList.update k v d else d)"

definition build_launch_env :: "pool_env \<Rightarrow> string \<Rightarrow> (string, string) dict pool_op" where
  "build_launch_env env wid =
     bindm (require_slot wid) (\<lambda>sl.
     let e = [(''CAMOUFOX_HEADLESS'', ''virtual''), (''CAMOUFOX_WORKSTATION_ID'', wc_id (ws_workstation sl))];
         e = (if pe_flags env \<noteq> [] then dict_merge e (pe_flags env) else e);
         e = put_if (non_empty (ws_fingerprint sl)) ''CAMOUFOX_FINGERPRINT_ID'' (the (ws_fingerprint sl)) e;
         e = put_if (non_empty (ws_proxy_url sl)) ''CAMOUFOX_PROXY_URL'' (the (ws_proxy_url sl)) e;
         e = put_if (non_empty (ws_prefs_rel_path sl)) ''CAMOUFOX_PREFS_REL_PATH'' (the (ws_prefs_rel_path sl)) e;
         e = put_if (pe_prefs_path env \<noteq> None) ''CAMOUFOX_PREFS_BASE_PATH'' (the (pe_prefs_path env)) e
     in thenm (case ws_temp_dir sl of Some _ \<Rightarrow> ret ()
               | None \<Rightarrow> bindm (make_temp_dir env) (\<lambda>d. set_slot wid (\<lambda>sl. sl\<lparr>ws_temp_dir := Some d\<rparr>)))
        (bindm (require_slot wid) (\<lambda>sl.
           ret (AList.update ''CAMOUFOX_PROFILE_DIR'' (pe_dir_path env (the (ws_temp_dir sl))) e))))"

definition spawn_browser :: "pool_env \<Rightarrow> string \<Rightarrow> (browser_handle \<times> (string, string) dict) pool_op" where
  "spawn_browser env wid =
     bindm (build_launch_env env wid) (\<lambda>e.
     bindm (catchm (procs_op (launch_browser (pe_os env) ''camoufox'' True e (pe_flags env)))
       (\<lambda>exc. case exc of
          BrowserLaunchError m \<Rightarrow>
            bindm (require_slot wid) (\<lambda>sl.
              thenm (whenm (non_empty (ws_proxy_url sl))
                      (modify (\<lambda>s. s\<lparr>wp_proxy_errors := Suc (wp_proxy_errors s)\<rparr>)))
                    (raise exc))
        | _ \<Rightarrow> raise exc))
     (\<lambda>h. ret (h, e)))"

definition sleep :: "int \<Rightarrow> unit pool_op" where
  "sleep ms = modify (\<lambda>s. s\<lparr>wp_sleeps := wp_sleeps s @ [ms]\<rparr>)"

definition maybe_prewarm :: "pool_env \<Rightarrow> browser_handle \<Rightarrow> unit pool_op" where
  "maybe_prewarm env h =
     (if \<not> pe_prewarm env \<or> pe_start_url env = None then ret ()
      else case pe_navigate env (bh_process h) of Some e \<Rightarrow> raise e
      | None \<Rightarrow> whenm (0 < pe_start_wait_ms env) (sleep (pe_start_wait_ms env)))"

text \<open>The retry loop with its remaining attempts, the current delay and the last error.\<close>

fun attempt_loop :: "pool_env \<Rightarrow> string \<Rightarrow> nat \<Rightarrow> int \<Rightarrow> exn option \<Rightarrow> browser_handle pool_op" where
  "attempt_loop env wid 0 delay last_error =
     raise (WarmPoolProvisioningError (''failed to provision warm workstation '' @ quoted wid) last_error)"
| "attempt_loop env wid (Suc k) delay last_error =
     bindm (attempt (spawn_browser env wid)) (\<lambda>r. case r of
       Inl exc \<Rightarrow> thenm (whenm (0 < k) (sleep delay))
                   (attempt_loop env wid k (if 0 < k then 2 * delay else delay) (Some exc))
     | Inr hv \<Rightarrow>
         bindm (attempt (maybe_prewarm env (fst hv))) (\<lambda>r2. case r2 of
           Inl exc \<Rightarrow>
             thenm (modify (\<lambda>s. s\<lparr>wp_nav_errors := Suc (wp_nav_errors s)\<rparr>))
             (thenm (safe_shutdown env (Some (fst hv)))
             (thenm (whenm (0 < k) (sleep delay))
               (attempt_loop env wid k (if 0 < k then 2 * delay else delay) (Some exc))))
         | Inr _ \<Rightarrow>
             thenm (set_slot wid (\<lambda>sl. sl\<lparr>ws_launch_env := snd hv\<rparr>)) (ret (fst hv))))"

definition attempt_launch :: "pool_env \<Rightarrow> string \<Rightarrow> browser_handle pool_op" where
  "attempt_launch env wid = attempt_loop env wid (pe_max_retries env) (pe_base_delay env) None"

definition provision_slot :: "pool_env \<Rightarrow> string \<Rightarrow> unit pool_op" where
  "provision_slot env wid =
     bindm (attempt (attempt_launch env wid)) (\<lambda>r. case r of
       Inl exc \<Rightarrow>
         (case exc of
            WarmPoolProvisioningError m cause \<Rightarrow>
              thenm (set_slot wid (\<lambda>sl. sl\<lparr>ws_last_error := Some (case cause of Some c \<Rightarrow> c | None \<Rightarrow> exc),
                                          ws_state := WarmERROR\<rparr>))
              (thenm update_state_metrics (raise exc))
          | _ \<Rightarrow> raise exc)
     | Inr h \<Rightarrow>
         thenm (set_slot wid (\<lambda>sl. sl\<lparr>ws_handle := Some h, ws_state := WarmIDLE, ws_last_error := None\<rparr>))
         update_state_metrics)"

section \<open>Public operations\<close>

definition init_pool :: "proc_world \<Rightarrow> workstation_entry list option \<Rightarrow> warm_pool" where
  "init_pool procs config =
     \<lparr>wp_procs = procs, wp_config = config, wp_slots = [], wp_draining = False, wp_next_dir = 0,
      wp_dirs = {}, wp_sleeps = [], wp_events = [], wp_publishes = 0, wp_gauges = (0, 0, 0, 0),
      wp_nav_errors = 0, wp_proxy_errors = 0, wp_recycles = 0\<rparr>"

definition start_failed :: "pool_env \<Rightarrow> string \<Rightarrow> exn \<Rightarrow> unit pool_op" where
  "start_failed env wid exc =
     (case exc of
        WarmPoolProvisioningError _ _ \<Rightarrow>
          thenm update_state_metrics
          (bindm (require_slot wid) (\<lambda>sl. emit_error env wid (slot_snapshot sl) ''provisioning-failed''))
      | _ \<Rightarrow> raise exc)"

definition start_slot :: "pool_env \<Rightarrow> string \<Rightarrow> unit pool_op" where
  "start_slot env wid =
     catchm
       (thenm (provision_slot env wid)
       (thenm update_state_metrics
       (bindm (require_slot wid) (\<lambda>sl. emit_state_change env (slot_snapshot sl) ''provisioned'' None))))
       (start_failed env wid)"

definition start_entry :: "pool_env \<Rightarrow> workstation_entry \<Rightarrow> unit pool_op" where
  "start_entry env entry =
     bindm (build_slot env entry) (\<lambda>sl.
     thenm (modify (\<lambda>s. s\<lparr>wp_slots := AList.update (wc_id entry) sl (wp_slots s)\<rparr>))
     (thenm update_state_metrics
     (start_slot env (wc_id entry))))"

definition start_pool :: "pool_env \<Rightarrow> unit pool_op" where
  "start_pool env =
     thenm (bindm (gets wp_config) (\<lambda>c. case c of Some _ \<Rightarrow> ret ()
       | None \<Rightarrow> bindm (lift_res (pe_loader env)) (\<lambda>l. modify (\<lambda>s. s\<lparr>wp_config := l\<rparr>))))
     (bindm (gets wp_config) (\<lambda>c. case c of
        None \<Rightarrow> update_state_metrics
      | Some entries \<Rightarrow> if entries = [] then update_state_metrics else for_each entries (start_entry env)))"

fun first_idle :: "(string, warm_slot) dict \<Rightarrow> string option" where
  "first_idle [] = None"
| "first_idle ((wid, sl) # rest) = (if ws_state sl = WarmIDLE then Some wid else first_idle rest)"

definition select_idle_slot :: "string option \<Rightarrow> string pool_op" where
  "select_idle_slot requested =
     (if non_empty requested then
        bindm (require_slot (the requested)) (\<lambda>sl.
          if ws_state sl = WarmIDLE then ret (the requested)
          else raise (WarmPoolStateError (''workstation '' @ quoted (the requested) @ '' is not idle'')))
      else bindm (gets (\<lambda>s. first_idle (wp_slots s))) (\<lambda>w. case w of
          Some wid \<Rightarrow> ret wid
        | None \<Rightarrow> raise (WarmPoolStateError ''no idle warm workstations available'')))"

text \<open>The part of \<open>reserve_slot\<close> that holds the slot's lock, and the event after it.\<close>

definition reserve_locked :: "pool_env \<Rightarrow> string \<Rightarrow> warm_reservation pool_op" where
  "reserve_locked env wid =
     bindm (require_slot wid) (\<lambda>sl.
     if ws_state sl \<noteq> WarmIDLE
     then raise (WarmPoolStateError (''workstation '' @ quoted wid @ '' is not idle''))
     else case ws_handle sl of
       None \<Rightarrow> raise (WarmPoolStateError (''workstation '' @ quoted wid @ '' is not provisioned''))
     | Some h \<Rightarrow>
         thenm (set_slot wid (\<lambda>sl. sl\<lparr>ws_state := WarmRESERVED\<rparr>))
         (thenm update_state_metrics
         (let sn = slot_snapshot (sl\<lparr>ws_state := WarmRESERVED\<rparr>) in
          thenm (emit_state_change env sn ''reserved'' (Some [(''launch_env'', env_value (ws_launch_env sl))]))
          (ret \<lparr>rv_snapshot = sn, rv_handle = h, rv_environment = ws_launch_env sl\<rparr>))))"

definition reserve_slot :: "pool_env \<Rightarrow> string option \<Rightarrow> warm_reservation pool_op" where
  "reserve_slot env requested =
     bindm (gets wp_draining) (\<lambda>draining.
     if draining then raise (WarmPoolStateError ''warm pool is draining'')
     else bindm (select_idle_slot requested) (reserve_locked env))"

text \<open>A transition that changes nothing but the slot's state.\<close>

definition move_slot ::
  "pool_env \<Rightarrow> string \<Rightarrow> warm_state \<Rightarrow> warm_state \<Rightarrow> string \<Rightarrow> string \<Rightarrow> warm_snapshot pool_op" where
  "move_slot env wid from to message reason =
     bindm (require_slot wid) (\<lambda>sl.
     if ws_state sl \<noteq> from then raise (WarmPoolStateError (''workstation '' @ quoted wid @ message))
     else thenm (set_slot wid (\<lambda>sl. sl\<lparr>ws_state := to\<rparr>))
          (thenm update_state_metrics
          (let sn = slot_snapshot (sl\<lparr>ws_state := to\<rparr>) in
           thenm (emit_state_change env sn reason None) (ret sn))))"

definition mark_busy :: "pool_env \<Rightarrow> string \<Rightarrow> warm_snapshot pool_op" where
  "mark_busy env wid = move_slot env wid WarmRESERVED WarmBUSY '' is not reserved'' ''busy''"

definition cancel_reservation :: "pool_env \<Rightarrow> string \<Rightarrow> warm_snapshot pool_op" where
  "cancel_reservation env wid =
     move_slot env wid WarmRESERVED WarmIDLE '' is not reserved'' ''reservation-cancelled''"

text \<open>
  Tearing a slot down and provisioning it again, shared by release, enable and restart: they
  differ in the states they start from and in the reasons of their events.
\<close>

definition recycle_failed :: "pool_env \<Rightarrow> string \<Rightarrow> warm_snapshot \<Rightarrow> string \<Rightarrow> string \<Rightarrow> exn \<Rightarrow> 'a pool_op" where
  "recycle_failed env wid recycling reason failed exc =
     (case exc of
        WarmPoolProvisioningError _ _ \<Rightarrow>
          thenm (set_slot wid (\<lambda>sl. sl\<lparr>ws_state := WarmERROR\<rparr>))
          (thenm update_state_metrics
          (bindm (require_slot wid) (\<lambda>sl.
           thenm (emit_state_change env recycling reason None)
           (thenm (emit_error env wid (slot_snapshot sl) failed)
           (raise exc)))))
      | _ \<Rightarrow> raise exc)"

definition reprovision :: "pool_env \<Rightarrow> string \<Rightarrow> warm_snapshot \<Rightarrow> string \<Rightarrow> string \<Rightarrow> (warm_snapshot \<times> warm_snapshot) pool_op" where
  "reprovision env wid recycling reason failed =
     bindm (attempt (provision_slot env wid)) (\<lambda>r. case r of
       Inl exc \<Rightarrow> recycle_failed env wid recycling reason failed exc
     | Inr _ \<Rightarrow> bindm (require_slot wid) (\<lambda>sl. ret (recycling, slot_snapshot sl)))"

definition recycle_locked ::
  "pool_env \<Rightarrow> string \<Rightarrow> warm_state list \<Rightarrow> string \<Rightarrow> string \<Rightarrow> string \<Rightarrow> (warm_snapshot \<times> warm_snapshot) pool_op" where
  "recycle_locked env wid allowed verb reason failed =
     bindm (require_slot wid) (\<lambda>sl.
     if ws_state sl \<notin> set allowed
     then raise (WarmPoolStateError (''workstation '' @ quoted wid @ '' cannot be '' @ verb @
            '' from '' @ warm_state_value (ws_state sl)))
     else
       thenm (set_slot wid (\<lambda>sl. sl\<lparr>ws_state := WarmRECYCLING\<rparr>))
       (thenm update_state_metrics
       (thenm (teardown_slot env wid)
       (thenm (bindm (make_temp_dir env) (\<lambda>d. set_slot wid (\<lambda>sl. sl\<lparr>ws_temp_dir := Some d\<rparr>)))
       (reprovision env wid (slot_snapshot (sl\<lparr>ws_state := WarmRECYCLING\<rparr>)) reason failed)))))"

definition recycle_slot ::
  "pool_env \<Rightarrow> string \<Rightarrow> warm_state list \<Rightarrow> string \<Rightarrow> string \<Rightarrow> string \<Rightarrow> string \<Rightarrow> warm_snapshot pool_op" where
  "recycle_slot env wid allowed verb reason failed finished =
     bindm (require_slot wid) (\<lambda>_.
     bindm (record_recycle_duration (recycle_locked env wid allowed verb reason failed)) (\<lambda>sns.
       thenm (emit_state_change env (fst sns) reason None)
       (thenm (emit_recycled env wid (snd sns) finished)
       (thenm update_state_metrics (ret (snd sns))))))"

definition release_slot :: "pool_env \<Rightarrow> string \<Rightarrow> warm_snapshot pool_op" where
  "release_slot env wid =
     recycle_slot env wid [WarmBUSY, WarmRESERVED] ''recycled'' ''recycling'' ''recycle-failed'' ''released''"

definition enable_slot :: "pool_env \<Rightarrow> string \<Rightarrow> warm_snapshot pool_op" where
  "enable_slot env wid =
     recycle_slot env wid [WarmDRAINING, WarmERROR] ''enabled'' ''enable'' ''enable-failed'' ''enabled''"

definition restart_slot :: "pool_env \<Rightarrow> string \<Rightarrow> warm_snapshot pool_op" where
  "restart_slot env wid =
     recycle_slot env wid [WarmIDLE, WarmERROR] ''restarted'' ''restart'' ''restart-failed'' ''restarted''"

fun drain_all :: "pool_env \<Rightarrow> string list \<Rightarrow> warm_snapshot list pool_op" where
  "drain_all env [] = ret []"
| "drain_all env (wid # wids) =
     thenm (set_slot wid (\<lambda>sl. sl\<lparr>ws_state := WarmDRAINING\<rparr>))
     (thenm (teardown_slot env wid)
     (bindm (require_slot wid) (\<lambda>sl.
      thenm update_state_metrics
      (bindm (drain_all env wids) (\<lambda>sns. ret (slot_snapshot sl # sns))))))"

definition drain :: "pool_env \<Rightarrow> warm_snapshot list pool_op" where
  "drain env =
     thenm (modify (\<lambda>s. s\<lparr>wp_draining := True\<rparr>))
     (bindm (gets (\<lambda>s. map fst (wp_slots s))) (\<lambda>wids.
      bindm (drain_all env wids) (\<lambda>sns.
      thenm (for_each sns (\<lambda>sn. emit_state_change env sn ''drain'' None))
      (thenm update_state_metrics (ret sns)))))"

definition drain_slot :: "pool_env \<Rightarrow> string \<Rightarrow> warm_snapshot pool_op" where
  "drain_slot env wid =
     bindm (require_slot wid) (\<lambda>sl.
     if ws_state sl \<notin> {WarmIDLE, WarmERROR}
     then raise (WarmPoolStateError (''workstation '' @ quoted wid @ '' cannot be drained from '' @
            warm_state_value (ws_state sl)))
     else thenm (set_slot wid (\<lambda>sl. sl\<lparr>ws_state := WarmDRAINING\<rparr>))
          (thenm (teardown_slot env wid)
          (bindm (require_slot wid) (\<lambda>sl.
           thenm update_state_metrics
           (thenm (emit_state_change env (slot_snapshot sl) ''drain-slot'' None)
           (ret (slot_snapshot sl)))))))"

end
