(* ===== verification/Py_Netloc.thy ===== *)
theory Py_Netloc
  imports Py_Urls
begin

text \<open>
  The host, port and user information that \<open>urllib.parse\<close> reads from a network location, as the
  properties \<open>hostname\<close>, \<open>port\<close>, \<open>username\<close> and \<open>password\<close> of a parsed URL return them, and the
  network location a program writes from a host and a port.
\<close>

text \<open>\<open>s.rpartition(c)\<close> without the separator: before the last \<open>c\<close>, whether there is one, after it.\<close>

definition rpartition_at :: "char \<Rightarrow> string \<Rightarrow> string \<times> bool \<times> string" where
  "rpartition_at c s = (case partition_at c (rev s) of (a, found, b) \<Rightarrow> (rev b, found, rev a))"

definition netloc_userinfo :: "string \<Rightarrow> string option \<times> string option" where
  "netloc_userinfo netloc = (case rpartition_at (CHR ''@'') netloc of (userinfo, have_info, _) \<Rightarrow>
     if have_info
     then (case partition_at (CHR '':'') userinfo of (user, have_password, password) \<Rightarrow>
             (Some user, if have_password then Some password else None))
     else (None, None))"

definition netloc_hostinfo :: "string \<Rightarrow> string \<times> string option" where
  "netloc_hostinfo netloc = (case rpartition_at (CHR ''@'') netloc of (_, _, hostinfo) \<Rightarrow>
     case partition_at (CHR ''['') hostinfo of (_, have_open_br, bracketed) \<Rightarrow>
     let (host, port) =
       (if have_open_br
        then (case partition_at (CHR '']'') bracketed of (host, _, rest) \<Rightarrow>
                (host, snd (snd (partition_at (CHR '':'') rest))))
        else (case partition_at (CHR '':'') hostinfo of (host, _, port) \<Rightarrow> (host, port)))
     in (host, if port = [] then None else Some port))"

definition netloc_username :: "string \<Rightarrow> string option" where
  "netloc_username netloc = fst (netloc_userinfo netloc)"

definition netloc_password :: "string \<Rightarrow> string option" where
  "netloc_password netloc = snd (netloc_userinfo netloc)"

text \<open>The host in lower case; an IPv6 zone keeps its case.\<close>

definition netloc_hostname :: "string \<Rightarrow> string option" where
  "netloc_hostname netloc = (case fst (netloc_hostinfo netloc) of host \<Rightarrow>
     if host = [] then None
     else (case partition_at (CHR ''%'') host of (name, percent, zone) \<Rightarrow>
             Some (lower name @ (if percent then ''%'' else []) @ zone)))"

definition netloc_port :: "string \<Rightarrow> int option res" where
  "netloc_port netloc = (case snd (netloc_hostinfo netloc) of
     None \<Rightarrow> Inr None
   | Some port \<Rightarrow>
       if list_all is_digit port
       then (let n = int (nat_of_digits port) in
             if n \<le> 65535 then Inr (Some n) else Inl (ValueError ''Port out of range 0-65535''))
       else Inl (ValueError ''Port could not be cast to integer value''))"

lemma partition_at_absent [simp]: "c \<notin> set s \<Longrightarrow> partition_at c s = (s, False, [])"
  by (rule partition_at_none)

lemma rpartition_at_absent: "c \<notin> set s \<Longrightarrow> rpartition_at c s = ([], False, s)"
  by (simp add: rpartition_at_def)

lemma rpartition_at_append: "c \<notin> set b \<Longrightarrow> rpartition_at c (a @ c # b) = (a, True, b)"
  by (simp add: rpartition_at_def partition_at_append)

text \<open>The user information in front of the last \<open>@\<close> does not change host and port.\<close>

lemma netloc_hostinfo_user:
  "CHR ''@'' \<notin> set h \<Longrightarrow> netloc_hostinfo (u @ CHR ''@'' # h) = netloc_hostinfo h"
  by (simp add: netloc_hostinfo_def rpartition_at_append rpartition_at_absent)

definition plain_host :: "string \<Rightarrow> bool" where
  "plain_host h = (h \<noteq> [] \<and> list_all (\<lambda>c. unreserved c \<or> c = CHR '':'') h \<and> lower h = h)"

lemma plain_host_chars:
  "plain_host h \<Longrightarrow> c \<in> set h \<Longrightarrow> c \<notin> set ''@[]%/?#'' \<and> \<not> unsafe_char c"
  by (auto simp: plain_host_def list_all_iff unreserved_def is_alpha_def is_digit_def unsafe_char_def Let_def)

text \<open>How a host is written in front of a port: an IPv6 address in brackets.\<close>

definition host_part :: "string \<Rightarrow> string" where
  "host_part h = (if CHR '':'' \<in> set h \<and> \<not> starts_with ''['' h then ''['' @ h @ '']'' else h)"

lemma int_str_digits: "0 \<le> n \<Longrightarrow> list_all is_digit (int_str n) \<and> nat_of_digits (int_str n) = nat n"
  using nat_str_digits [of _ "nat n"] by (auto simp: int_str_def list_all_iff nat_of_digits_nat_str)

lemma int_str_not: "0 \<le> n \<Longrightarrow> c \<in> set (int_str n) \<Longrightarrow> is_digit c"
  using int_str_digits [of n] by (auto simp: list_all_iff)

lemma netloc_hostinfo_host_part:
  assumes "plain_host h" and "0 \<le> n"
  shows "netloc_hostinfo (host_part h @ '':'' @ int_str n) = (h, Some (int_str n))"
proof -
  have marks: "c \<notin> set (int_str n)" if "c \<in> set ''@[]:''" for c
    using int_str_not [OF assms(2), of c] that by (auto simp: is_digit_def)
  have nonempty: "int_str n \<noteq> []" using assms(2) by (simp add: int_str_def)
  have h: "c \<notin> set h" if "c \<in> set ''@[]''" for c
    using plain_host_chars [OF assms(1), of c] that by auto
  show ?thesis
  proof (cases "CHR '':'' \<in> set h")
    case True
    have "\<not> starts_with ''['' h" using h [of "CHR ''[''"] assms(1)
      by (cases h) (auto simp: starts_with_Cons plain_host_def)
    with True show ?thesis using h marks nonempty
      by (simp add: netloc_hostinfo_def host_part_def rpartition_at_absent partition_at_append)
  next
    case False
    then show ?thesis using h marks nonempty
      by (simp add: netloc_hostinfo_def host_part_def rpartition_at_absent partition_at_append)
  qed
qed

text \<open>A program that writes a host and a port with optional user information reads them back.\<close>

lemma netloc_read_back:
  assumes "plain_host h" and "0 \<le> n" and "n \<le> 65535" and u: "u = [] \<or> u = w @ ''@''"
  shows "netloc_hostname (u @ host_part h @ '':'' @ int_str n) = Some h"
    and "netloc_port (u @ host_part h @ '':'' @ int_str n) = Inr (Some n)"
proof -
  have "CHR ''@'' \<notin> set (host_part h @ '':'' @ int_str n)"
    using plain_host_chars [OF assms(1)] int_str_not [OF assms(2), of "CHR ''@''"]
    by (auto simp: host_part_def is_digit_def)
  then have "netloc_hostinfo (u @ host_part h @ '':'' @ int_str n) = (h, Some (int_str n))"
    using u netloc_hostinfo_host_part [OF assms(1,2)] netloc_hostinfo_user by auto
  moreover have "CHR ''%'' \<notin> set h" "lower h = h" "h \<noteq> []"
    using assms(1) plain_host_chars [OF assms(1)] by (auto simp: plain_host_def)
  ultimately show "netloc_hostname (u @ host_part h @ '':'' @ int_str n) = Some h"
    and "netloc_port (u @ host_part h @ '':'' @ int_str n) = Inr (Some n)"
    using assms(2,3) int_str_digits [OF assms(2)]
    by (simp_all add: netloc_hostname_def netloc_port_def)
qed

section \<open>The network location survives printing and parsing\<close>

definition scheme_ok :: "string \<Rightarrow> bool" where
  "scheme_ok s = (s \<noteq> [] \<and> is_alpha (hd s) \<and> list_all scheme_char s \<and> lower s = s)"

definition netloc_ok :: "string \<Rightarrow> bool" where
  "netloc_ok n = list_all (\<lambda>c. \<not> path_start c \<and> \<not> unsafe_char c) n"

lemma netloc_ok_simps [simp]:
  "netloc_ok []"
  "netloc_ok (a @ b) \<longleftrightarrow> netloc_ok a \<and> netloc_ok b"
  "netloc_ok (c # b) \<longleftrightarrow> \<not> path_start c \<and> \<not> unsafe_char c \<and> netloc_ok b"
  by (auto simp: netloc_ok_def)

lemma netloc_ok_subset: "netloc_ok n \<Longrightarrow> set m \<subseteq> set n \<Longrightarrow> netloc_ok m"
  by (auto simp: netloc_ok_def list_all_iff)

lemma is_digit_plain: "is_digit c \<Longrightarrow> \<not> path_start c \<and> \<not> unsafe_char c"
  by (auto simp: is_digit_def path_start_def unsafe_char_def)

lemma is_alpha_printable: "is_alpha c \<Longrightarrow> \<not> is_control_or_space c"
  by (auto simp: is_alpha_def is_control_or_space_def Let_def)

lemma scheme_char_not: "scheme_char c \<Longrightarrow> c \<noteq> CHR '':'' \<and> \<not> unsafe_char c"
  by (auto simp: scheme_char_def is_alpha_def is_digit_def unsafe_char_def Let_def)

text \<open>A path without a leading slash gets one behind a network location.\<close>

lemma urlparse_netloc_path:
  assumes s: "scheme_ok (u_scheme u)" and n: "netloc_ok (u_netloc u)" "u_netloc u \<noteq> []"
    and path: "u_path u \<noteq> []" and p: "urlparse (urlunparse u) = Inr p"
  shows "u_scheme p = u_scheme u \<and> u_netloc p = u_netloc u"
proof -
  let ?s = "u_scheme u" and ?n = "u_netloc u"
  obtain c q where q: "u_path u = c # q" using path by (cases "u_path u") auto
  have "\<exists>r. urlunparse u = ?s @ '':'' @ ''//'' @ ?n @ CHR ''/'' # r"
    using s n(2) by (simp add: urlunparse_def url_head_def scheme_ok_def q Let_def)
  then obtain r where u: "urlunparse u = ?s @ '':'' @ ''//'' @ ?n @ CHR ''/'' # r" by blast
  define r' where "r' = filter (\<lambda>c. \<not> unsafe_char c) r"
  have fs: "filter (\<lambda>c. \<not> unsafe_char c) ?s = ?s" "CHR '':'' \<notin> set ?s"
    using s scheme_char_not by (auto simp: scheme_ok_def filter_id_conv list_all_iff)
  have fn: "filter (\<lambda>c. \<not> unsafe_char c) ?n = ?n"
    using n(1) by (auto simp: netloc_ok_def filter_id_conv list_all_iff)
  have marks: "\<not> unsafe_char (CHR '':'')" "\<not> unsafe_char (CHR ''/'')"
    by (simp_all add: unsafe_char_def)
  have "dropWhile is_control_or_space (urlunparse u) = urlunparse u"
    using s is_alpha_printable by (cases ?s) (auto simp: u scheme_ok_def)
  then have clean: "clean_url (urlunparse u) = ?s @ CHR '':'' # CHR ''/'' # CHR ''/'' # ?n @ CHR ''/'' # r'"
    using marks by (simp add: clean_url_def u fs fn r'_def)
  have sch: "split_scheme (?s @ CHR '':'' # CHR ''/'' # CHR ''/'' # ?n @ CHR ''/'' # r') = (?s, CHR ''/'' # CHR ''/'' # ?n @ CHR ''/'' # r')"
    using s fs by (simp add: split_scheme_def partition_at_append scheme_ok_def)
  have "takeWhile (\<lambda>c. \<not> path_start c) (?n @ CHR ''/'' # r') = ?n"
    using n(1) by (subst takeWhile_append2) (auto simp: netloc_ok_def list_all_iff path_start_def)
  then have net: "fst (split_netloc (CHR ''/'' # CHR ''/'' # ?n @ CHR ''/'' # r')) = ?n"
    by (simp add: split_netloc_def starts_with_def)
  show ?thesis
    using p net by (auto simp: urlparse_def clean sch Let_def split: prod.splits if_splits)
qed

lemma urlparse_netloc_back:
  assumes "scheme_ok (u_scheme u)" and "netloc_ok (u_netloc u)" and "u_netloc u \<noteq> []"
    and "starts_with ''/'' (u_path u)" and "urlparse (urlunparse u) = Inr p"
  shows "u_scheme p = u_scheme u \<and> u_netloc p = u_netloc u"
  using assms by (intro urlparse_netloc_path) (auto simp: starts_with_def)

lemma lower_lower_char: "lower_char (lower_char c) = lower_char c"
  by (auto simp: lower_char_def Let_def)

lemma scheme_char_lower_ok:
  "scheme_char c \<Longrightarrow> scheme_char (lower_char c)" "is_alpha c \<Longrightarrow> is_alpha (lower_char c)"
  by (auto simp: lower_char_def Let_def scheme_char_def is_alpha_def is_digit_def)

lemma urlparse_parts_ok:
  assumes "urlparse s = Inr u"
  shows "(u_scheme u = [] \<or> scheme_ok (u_scheme u)) \<and> netloc_ok (u_netloc u)"
proof -
  obtain a f b where part: "partition_at (CHR '':'') (clean_url s) = (a, f, b)" by (metis prod_cases3)
  obtain scheme r1 where s1: "split_scheme (clean_url s) = (scheme, r1)" by force
  obtain netloc r2 where s2: "split_netloc r1 = (netloc, r2)" by force
  have scheme: "scheme = [] \<or> scheme_ok scheme"
    using s1 by (auto simp: split_scheme_def part scheme_ok_def lower_def hd_map list_all_iff
        scheme_char_lower_ok lower_lower_char split: if_splits)
  have "set r1 \<subseteq> set (clean_url s)" using split_scheme_no_marks [OF s1] by blast
  then have "c \<in> set r1 \<Longrightarrow> \<not> unsafe_char c" for c by (auto simp: clean_url_def)
  then have "netloc_ok netloc"
    using s2 by (auto simp: split_netloc_def netloc_ok_def list_all_iff split: if_splits
        dest: set_takeWhileD in_set_dropD)
  with scheme show ?thesis
    using assms by (auto simp: urlparse_def s1 s2 Let_def split: prod.splits if_splits)
qed

section \<open>Splitting without path parameters\<close>

text \<open>\<open>urlsplit\<close> and \<open>urlunsplit\<close>: the parameters stay in the path.\<close>

definition urlsplit :: "string \<Rightarrow> url_parts res" where
  "urlsplit s =
     (let (scheme, r1) = split_scheme (clean_url s);
          (netloc, r2) = split_netloc r1;
          (r3, fragment) = split_fragment r2;
          (path, query) = split_query r3
      in if bracket_mismatch netloc then Inl (ValueError ''Invalid IPv6 URL'')
         else Inr \<lparr>u_scheme = scheme, u_netloc = netloc, u_path = path, u_params = [],
                   u_query = query, u_fragment = fragment\<rparr>)"

definition urlunsplit :: "url_parts \<Rightarrow> string" where
  "urlunsplit u = urlunparse (u\<lparr>u_params := []\<rparr>)"

text \<open>A host written without a port is read back without one.\<close>

lemma netloc_read_back_host:
  assumes "plain_host h"
  shows "netloc_hostname (host_part h) = Some h" and "netloc_port (host_part h) = Inr None"
proof -
  have h: "c \<notin> set h" if "c \<in> set ''@[]%''" for c
    using plain_host_chars [OF assms, of c] that by auto
  have "netloc_hostinfo (host_part h) = (h, None)"
  proof (cases "CHR '':'' \<in> set h")
    case True
    have "\<not> starts_with ''['' h" using h [of "CHR ''[''"] assms
      by (cases h) (auto simp: starts_with_Cons plain_host_def)
    with True show ?thesis using h
      by (simp add: netloc_hostinfo_def host_part_def rpartition_at_absent partition_at_append)
  next
    case False
    then show ?thesis using h
      by (simp add: netloc_hostinfo_def host_part_def rpartition_at_absent)
  qed
  moreover have "lower h = h" "h \<noteq> []" using assms by (auto simp: plain_host_def)
  ultimately show "netloc_hostname (host_part h) = Some h" and "netloc_port (host_part h) = Inr None"
    using h by (simp_all add: netloc_hostname_def netloc_port_def)
qed

end
