(* ===== verification/Interfaces.thy ===== *)
theory Interfaces
  imports Prelude
begin

text \<open>
  The contracts between components, stated once: \<open>lease\<close> is what a client of a pool of exclusive
  resources relies on. Each is interpreted on the operations of the component that provides it.
\<close>

text \<open>
  \<open>held\<close> is the set of resources handed out. Acquiring gives one that was not, or changes
  nothing; releasing never fails and gives back at most the resource named.
\<close>

locale lease =
  fixes inv :: "'s \<Rightarrow> bool"
    and held :: "'s \<Rightarrow> 'a set"
    and acquire :: "('s, 'a) op"
    and release :: "'a \<Rightarrow> ('s, unit) op"
  assumes acquire_law: "inv s \<Longrightarrow>
      wp acquire (\<lambda>x t. inv t \<and> x \<notin> held s \<and> held t = insert x (held s)) (\<lambda>_ t. t = s) s"
    and release_law: "inv s \<Longrightarrow>
      wp (release x) (\<lambda>_ t. inv t \<and> held t = held s - {x}) (\<lambda>_ _. False) s"
begin

lemma acquire_then:
  assumes "inv s"
    and "\<And>x t. inv t \<Longrightarrow> x \<notin> held s \<Longrightarrow> held t = insert x (held s) \<Longrightarrow> wp (k x) Q E t"
    and "\<And>e. E e s"
  shows "wp (bindm acquire k) Q E s"
  unfolding wp_bindm by (rule wp_mono [OF acquire_law [OF assms(1)]]) (auto intro: assms(2,3))

lemma release_then:
  assumes "inv t" and "held t = insert x H" and "x \<notin> H"
    and "\<And>u. inv u \<Longrightarrow> held u = H \<Longrightarrow> wp k Q E u"
  shows "wp (thenm (release x) k) Q E t"
  unfolding wp_thenm by (rule wp_mono [OF release_law [OF assms(1)]]) (use assms(2-4) in auto)

text \<open>A resource released twice is given back once.\<close>

lemma release_twice:
  "inv s \<Longrightarrow> wp (thenm (release x) (release x)) (\<lambda>_ t. inv t \<and> held t = held s - {x}) (\<lambda>_ _. False) s"
  unfolding wp_thenm by (rule wp_mono, erule release_law) (auto intro: wp_mono [OF release_law])

text \<open>A failure handler that releases what was acquired and raises again has undone the acquisition.\<close>

lemma release_and_raise:
  "inv t \<Longrightarrow> held t = insert x H \<Longrightarrow> x \<notin> H \<Longrightarrow>
    wp (thenm (release x) (raise e)) Q (\<lambda>_ u. inv u \<and> held u = H) t"
  by (rule release_then [where H = H]) (auto simp: wp_ops)

end

text \<open>
  \<open>keyed_store\<close> is what the gateway relies on in its registries: an upsert files a record under the
  key of its argument, touches no other key, and changes nothing when it raises. \<open>shows a r\<close>: the
  record \<open>r\<close> presents the argument \<open>a\<close>.
\<close>

definition last_for :: "('a \<Rightarrow> 'k) \<Rightarrow> 'k \<Rightarrow> 'a list \<Rightarrow> 'a option" where
  "last_for key k xs = (case filter (\<lambda>a. key a = k) xs of [] \<Rightarrow> None | ys \<Rightarrow> Some (last ys))"

lemma last_for_simps [simp]:
  "last_for key k [] = None"
  "last_for key k (x # xs) = (case last_for key k xs of None \<Rightarrow> if key x = k then Some x else None | Some a \<Rightarrow> Some a)"
  by (auto simp: last_for_def split: list.split)

locale keyed_store =
  fixes look :: "'s \<Rightarrow> 'k \<Rightarrow> 'r option"
    and upsert :: "'a \<Rightarrow> ('s, 'r) op"
    and key :: "'a \<Rightarrow> 'k"
    and presents :: "'a \<Rightarrow> 'r \<Rightarrow> bool"
  assumes upsert_law: "wp (upsert a) (\<lambda>r t. look t = (look s)(key a \<mapsto> r) \<and> presents a r) (\<lambda>_ t. t = s) s"
begin

text \<open>After a sequence of upserts each key answers with the last one filed under it.\<close>

lemma upserts:
  "wp (for_each xs (\<lambda>a. thenm (upsert a) (ret ())))
    (\<lambda>_ t. \<forall>k. case last_for key k xs of None \<Rightarrow> look t k = look s k
       | Some a \<Rightarrow> \<exists>r. look t k = Some r \<and> presents a r) (\<lambda>_ _. True) s"
proof (induction xs arbitrary: s)
  case Nil
  then show ?case by (simp add: wp_ops)
next
  case (Cons x xs)
  show ?case
    unfolding for_each.simps wp_thenm
  proof (rule wp_mono [OF upsert_law [where s = s]], goal_cases)
    case (1 r t)
    have "wp (for_each xs (\<lambda>a. thenm (upsert a) (ret ())))
        (\<lambda>_ u. \<forall>k. case last_for key k (x # xs) of None \<Rightarrow> look u k = look s k
           | Some a \<Rightarrow> \<exists>r. look u k = Some r \<and> presents a r) (\<lambda>_ _. True) t"
    proof (rule wp_mono [OF Cons.IH [of t]], goal_cases)
      case (1 _ u)
      show ?case
      proof
        fix k
        show "case last_for key k (x # xs) of None \<Rightarrow> look u k = look s k
           | Some a \<Rightarrow> \<exists>r. look u k = Some r \<and> presents a r"
          using 1 [rule_format, of k] \<open>look t = (look s)(key x \<mapsto> r) \<and> presents x r\<close>
          by (cases "last_for key k xs") auto
      qed
    qed simp
    then show ?case by (simp only: wp_ops)
  qed simp
qed

end

end
