(* ===== verification/Vnc_Pool.thy ===== *)
theory Vnc_Pool
  imports Core_Models Py_Netloc Interfaces "HOL-Library.Multiset"
begin

text \<open>
  The VNC controller of the runner (\<open>services/runner/app/vnc.py\<close>): the pool of displays and
  ports, the pipeline of three helper processes behind a visual session, the waits for their
  sockets, the cleanup when a stage fails, and the URLs shown to the client. The operating system
  (spawning, killing, polling) and the settings are data in \<open>vnc_env\<close>; time is in milliseconds.
\<close>

section \<open>The resource pool\<close>

record vnc_slot =
  vs_display :: int
  vs_vnc_port :: int
  vs_ws_port :: int

record vnc_pool =
  vp_displays :: "int list"
  vp_vnc_ports :: "int list"
  vp_ws_ports :: "int list"
  vp_active :: "vnc_slot set"

definition init_vnc_pool :: "int list \<Rightarrow> int list \<Rightarrow> int list \<Rightarrow> vnc_pool" where
  "init_vnc_pool displays vnc_ports ws_ports =
     \<lparr>vp_displays = displays, vp_vnc_ports = vnc_ports, vp_ws_ports = ws_ports, vp_active = {}\<rparr>"

definition acquire :: "(vnc_pool, vnc_slot) op" where
  "acquire s =
     (case (vp_displays s, vp_vnc_ports s, vp_ws_ports s) of
        (d # ds, v # vs, w # ws) \<Rightarrow>
          (let slot = \<lparr>vs_display = d, vs_vnc_port = v, vs_ws_port = w\<rparr>
           in (Inr slot, s\<lparr>vp_displays := ds, vp_vnc_ports := vs, vp_ws_ports := ws,
                           vp_active := insert slot (vp_active s)\<rparr>))
      | _ \<Rightarrow> (Inl (VncError ''no VNC resources available''), s))"

definition release :: "vnc_slot option \<Rightarrow> (vnc_pool, unit) op" where
  "release slot = (case slot of
     None \<Rightarrow> ret ()
   | Some sl \<Rightarrow> modify (\<lambda>s. if sl \<notin> vp_active s then s
       else s\<lparr>vp_active := vp_active s - {sl}, vp_displays := vp_displays s @ [vs_display sl],
              vp_vnc_ports := vp_vnc_ports s @ [vs_vnc_port sl],
              vp_ws_ports := vp_ws_ports s @ [vs_ws_port sl]\<rparr>))"

section \<open>Helper processes\<close>

text \<open>
  One poll of a wait: how long the check took, whether the socket or port was there, the exit code of
  the process. \<open>ve_drain\<close> is the exception, if any, with which the task draining the output of a
  process has ended.
\<close>

record poll =
  po_lag :: nat
  po_ready :: bool
  po_exit :: "int option"

record vnc_env =
  ve_which :: "string \<Rightarrow> bool"
  ve_display_min :: int
  ve_display_max :: int
  ve_port_min :: int
  ve_port_max :: int
  ve_ws_port_min :: int
  ve_ws_port_max :: int
  ve_resolution :: string
  ve_assets :: "string option"
  ve_assets_is_dir :: bool
  ve_startup_timeout_ms :: int
  ve_http_base_url :: url
  ve_ws_base_url :: url
  ve_spawn :: "nat \<Rightarrow> exn option"
  ve_polls :: "nat \<Rightarrow> nat \<Rightarrow> poll"
  ve_kill :: "nat \<Rightarrow> exn option"
  ve_drain :: "nat \<Rightarrow> exn option"

record vnc_world =
  vw_pool :: vnc_pool
  vw_next :: nat
  vw_live :: "nat set"
  vw_commands :: "string list list"

type_synonym 'a vnc_op = "(vnc_world, 'a) op"

definition pool_op :: "(vnc_pool, 'a) op \<Rightarrow> 'a vnc_op" where
  "pool_op m = zoom vw_pool (\<lambda>p w. w\<lparr>vw_pool := p\<rparr>) m"

definition spawn_process :: "vnc_env \<Rightarrow> string list \<Rightarrow> nat vnc_op" where
  "spawn_process env args =
     bindm (gets vw_next) (\<lambda>p.
     thenm (modify (\<lambda>w. w\<lparr>vw_next := Suc p, vw_commands := vw_commands w @ [args]\<rparr>))
     (case ve_spawn env p of
        Some e \<Rightarrow> raise e
      | None \<Rightarrow> thenm (modify (\<lambda>w. w\<lparr>vw_live := insert p (vw_live w)\<rparr>)) (ret p)))"

text \<open>
  The two waiting loops have one shape: look, fail if the process is gone, fail at the deadline,
  sleep. The clock moves by the lag of the check and by the sleep.
\<close>

function poll_until :: "nat \<Rightarrow> (int \<Rightarrow> exn) \<Rightarrow> exn \<Rightarrow> (nat \<Rightarrow> poll) \<Rightarrow> int \<Rightarrow> int \<Rightarrow> nat \<Rightarrow> nat res" where
  "poll_until period exited timed_out polls deadline now i =
     (let now' = now + int (po_lag (polls i)) in
      if po_ready (polls i) then Inr i
      else case po_exit (polls i) of
        Some code \<Rightarrow> Inl (exited code)
      | None \<Rightarrow>
          if deadline \<le> now' then Inl timed_out
          else poll_until period exited timed_out polls deadline (now' + int (Suc period)) (Suc i))"
  by pat_completeness auto

termination
  by (relation "measure (\<lambda>(_, _, _, _, deadline, now, _). nat (deadline - now))") auto

declare poll_until.simps [simp del]

definition wait_for_display_socket :: "vnc_env \<Rightarrow> vnc_slot \<Rightarrow> nat \<Rightarrow> unit res" where
  "wait_for_display_socket env slot p =
     map_sum id (\<lambda>_. ()) (poll_until 49
       (\<lambda>code. VncError (''Xvfb exited with code '' @ int_str code @ '' before socket initialisation''))
       (VncError (''timed out waiting for Xvfb display :'' @ int_str (vs_display slot)))
       (ve_polls env p) (ve_startup_timeout_ms env) 0 0)"

definition wait_for_port :: "vnc_env \<Rightarrow> string \<Rightarrow> int \<Rightarrow> nat \<Rightarrow> unit res" where
  "wait_for_port env host port p =
     map_sum id (\<lambda>_. ()) (poll_until 99
       (\<lambda>code. VncError (''websockify exited with code '' @ int_str code))
       (VncError (''timed out waiting for websockify on '' @ host @ '':'' @ int_str port))
       (ve_polls env p) (ve_startup_timeout_ms env) 0 0)"

text \<open>Killing is suppressed exception by exception; a failed drain task is not.\<close>

definition stop_process :: "vnc_env \<Rightarrow> nat \<Rightarrow> unit vnc_op" where
  "stop_process env p = suppress (case ve_kill env p of
     Some e \<Rightarrow> raise e
   | None \<Rightarrow> modify (\<lambda>w. w\<lparr>vw_live := vw_live w - {p}\<rparr>))"

definition join_drain :: "vnc_env \<Rightarrow> nat \<Rightarrow> unit vnc_op" where
  "join_drain env p = (case ve_drain env p of Some e \<Rightarrow> raise e | None \<Rightarrow> ret ())"

definition terminate_processes :: "vnc_env \<Rightarrow> nat list \<Rightarrow> unit vnc_op" where
  "terminate_processes env ps =
     thenm (for_each (rev ps) (stop_process env)) (for_each ps (join_drain env))"

section \<open>URLs\<close>

definition or_else :: "string option \<Rightarrow> string \<Rightarrow> string" where
  "or_else v d = (case v of Some s \<Rightarrow> if s = [] then d else s | None \<Rightarrow> d)"

definition non_blank :: "string option \<Rightarrow> bool" where
  "non_blank v = (v \<noteq> None \<and> v \<noteq> Some [])"

definition ends_with :: "string \<Rightarrow> string \<Rightarrow> bool" where
  "ends_with p s = starts_with (rev p) (rev s)"

definition compose_userinfo :: "string \<Rightarrow> string" where
  "compose_userinfo netloc =
     (if non_blank (netloc_username netloc)
      then the (netloc_username netloc) @
        (if non_blank (netloc_password netloc) then '':'' @ the (netloc_password netloc) else []) @ ''@''
      else [])"

definition compose_path :: "string \<Rightarrow> string \<Rightarrow> string" where
  "compose_path base suffix =
     (let base_path = rstrip_by (\<lambda>c. c = CHR ''/'') base;
          combined = (if suffix \<noteq> [] then base_path @ suffix else if base_path \<noteq> [] then base_path else ''/'')
      in if starts_with ''/'' combined then combined else ''/'' @ combined)"

text \<open>Inside the outer \<open>Inr\<close>, \<open>None\<close> is the \<open>None\<close> of the source; a bad port raises.\<close>

definition compose_url :: "url \<Rightarrow> int \<Rightarrow> string \<Rightarrow> (string \<times> string) list \<Rightarrow> url option res" where
  "compose_url base port path_suffix query_params =
     (if base = [] then Inr None
      else case urlparse base of
        Inl _ \<Rightarrow> Inr None
      | Inr parsed \<Rightarrow>
          (let netloc = u_netloc parsed; hostname = or_else (netloc_hostname netloc) netloc in
           if hostname = [] then Inr None
           else res_bind (netloc_port netloc) (\<lambda>parsed_port.
             let scheme = (if u_scheme parsed \<noteq> [] then u_scheme parsed
                           else if ends_with ''.html'' path_suffix then ''https'' else ''ws'');
                 port_value = (case parsed_port of Some p \<Rightarrow> p | None \<Rightarrow> port);
                 items = parse_qsl True (u_query parsed) @ query_params
             in Inr (Some (urlunparse \<lparr>u_scheme = scheme,
                  u_netloc = compose_userinfo netloc @ host_part hostname @ '':'' @ int_str port_value,
                  u_path = compose_path (u_path parsed) path_suffix, u_params = [],
                  u_query = urlencode items, u_fragment = []\<rparr>)))))"

section \<open>The controller\<close>

text \<open>\<open>range(lo, hi + 1)\<close> for each of the three ranges.\<close>

definition init_controller :: "vnc_env \<Rightarrow> vnc_world res" where
  "init_controller env =
     (let missing = filter (\<lambda>b. \<not> ve_which env b) [''Xvfb'', ''x11vnc'', ''websockify''] in
      if missing \<noteq> []
      then Inl (VncError (''missing required VNC binaries: '' @ join_with '', '' (sort missing)))
      else Inr \<lparr>vw_pool = init_vnc_pool [ve_display_min env..ve_display_max env]
                  [ve_port_min env..ve_port_max env] [ve_ws_port_min env..ve_ws_port_max env],
                vw_next = 0, vw_live = {}, vw_commands = []\<rparr>)"

definition xvfb_args :: "vnc_env \<Rightarrow> vnc_slot \<Rightarrow> string list" where
  "xvfb_args env slot = [''Xvfb'', '':'' @ int_str (vs_display slot), ''-screen'', ''0'', ve_resolution env,
     ''+extension'', ''RANDR'', ''-nolisten'', ''tcp'']"

definition x11vnc_args :: "vnc_slot \<Rightarrow> string list" where
  "x11vnc_args slot = [''x11vnc'', ''-display'', '':'' @ int_str (vs_display slot), ''-shared'', ''-forever'',
     ''-rfbport'', int_str (vs_vnc_port slot), ''-localhost'', ''-nopw'', ''-quiet'']"

definition websockify_args :: "vnc_env \<Rightarrow> vnc_slot \<Rightarrow> string list" where
  "websockify_args env slot = [''websockify''] @
     (case ve_assets env of
        Some a \<Rightarrow> if a \<noteq> [] \<and> ve_assets_is_dir env then [''--web='' @ a] else []
      | None \<Rightarrow> []) @
     [int_str (vs_ws_port slot), ''127.0.0.1:'' @ int_str (vs_vnc_port slot)]"

record vnc_handle =
  vh_slot :: vnc_slot
  vh_display :: string
  vh_details :: vnc_details
  vh_processes :: "nat list"

text \<open>
  The body of the \<open>try\<close>: the state is the world and the local list of the processes started so far,
  which the handler reads.
\<close>

type_synonym 'a pipeline_op = "(vnc_world \<times> nat list, 'a) op"

definition stage :: "vnc_env \<Rightarrow> string list \<Rightarrow> nat pipeline_op" where
  "stage env args =
     bindm (zoom fst (\<lambda>w (_, ps). (w, ps)) (spawn_process env args)) (\<lambda>p.
     thenm (modify (\<lambda>(w, ps). (w, ps @ [p]))) (ret p))"

definition session_details :: "vnc_env \<Rightarrow> vnc_slot \<Rightarrow> vnc_details res" where
  "session_details env slot =
     res_bind (compose_url (ve_http_base_url env) (vs_ws_port slot) ''/vnc.html'' [(''path'', ''websockify'')])
       (\<lambda>http_url.
     res_bind (compose_url (ve_ws_base_url env) (vs_ws_port slot) ''/websockify'' []) (\<lambda>websocket_url.
     validate_vnc_details \<lparr>vd_http_url = http_url, vd_websocket_url = websocket_url,
       vd_token = None, vd_token_ttl = None\<rparr>))"

definition pipeline :: "vnc_env \<Rightarrow> vnc_slot \<Rightarrow> vnc_details pipeline_op" where
  "pipeline env slot =
     bindm (stage env (xvfb_args env slot)) (\<lambda>xvfb.
     thenm (lift_res (wait_for_display_socket env slot xvfb))
     (thenm (stage env (x11vnc_args slot))
     (bindm (stage env (websockify_args env slot)) (\<lambda>websockify.
      thenm (lift_res (wait_for_port env ''127.0.0.1'' (vs_ws_port slot) websockify))
      (lift_res (session_details env slot))))))"

definition with_local :: "'l \<Rightarrow> ('s \<times> 'l, 'a) op \<Rightarrow> ('s, 'a res \<times> 'l) op" where
  "with_local l m = (\<lambda>s. case m (s, l) of (r, (s', l')) \<Rightarrow> (Inr (r, l'), s'))"

definition allocate_failed :: "vnc_env \<Rightarrow> vnc_slot \<Rightarrow> nat list \<Rightarrow> exn \<Rightarrow> vnc_handle vnc_op" where
  "allocate_failed env slot ps e =
     thenm (terminate_processes env ps) (thenm (pool_op (release (Some slot))) (raise e))"

definition allocate :: "vnc_env \<Rightarrow> vnc_handle vnc_op" where
  "allocate env =
     bindm (pool_op acquire) (\<lambda>slot.
     bindm (with_local [] (pipeline env slot)) (\<lambda>(r, ps).
       case r of
         Inl e \<Rightarrow> allocate_failed env slot ps e
       | Inr details \<Rightarrow> ret \<lparr>vh_slot = slot, vh_display = '':'' @ int_str (vs_display slot),
           vh_details = details, vh_processes = ps\<rparr>))"

definition close_handle :: "vnc_env \<Rightarrow> vnc_handle \<Rightarrow> unit vnc_op" where
  "close_handle env h =
     finallym (terminate_processes env (vh_processes h)) (pool_op (release (Some (vh_slot h))))"

definition release_handle :: "vnc_env \<Rightarrow> vnc_handle option \<Rightarrow> unit vnc_op" where
  "release_handle env h = (case h of None \<Rightarrow> ret () | Some h \<Rightarrow> close_handle env h)"

definition browser_environment :: "vnc_handle \<Rightarrow> (string, string) dict" where
  "browser_environment h = [(''DISPLAY'', vh_display h)]"

section \<open>Every display and port is free or held, once\<close>

definition conserved :: "int list \<Rightarrow> int list \<Rightarrow> (vnc_slot \<Rightarrow> int) \<Rightarrow> vnc_slot set \<Rightarrow> bool" where
  "conserved xs free sel active = (distinct xs \<and> mset free + image_mset sel (mset_set active) = mset xs)"

definition vnc_pool_ok :: "int list \<Rightarrow> int list \<Rightarrow> int list \<Rightarrow> vnc_pool \<Rightarrow> bool" where
  "vnc_pool_ok ds vs ws p = (finite (vp_active p) \<and>
     conserved ds (vp_displays p) vs_display (vp_active p) \<and>
     conserved vs (vp_vnc_ports p) vs_vnc_port (vp_active p) \<and>
     conserved ws (vp_ws_ports p) vs_ws_port (vp_active p))"

lemma conserved_list:
  assumes "conserved xs free sel active" and "finite active"
  obtains l where "set l = active" "distinct l" "distinct (free @ map sel l)"
    "set (free @ map sel l) = set xs"
proof -
  obtain l where l: "set l = active" "distinct l"
    using finite_distinct_list [OF assms(2)] by blast
  then have "mset_set active = mset l" by (metis mset_set_set)
  with assms(1) have eq: "mset (free @ map sel l) = mset xs" "distinct xs"
    by (simp_all add: conserved_def)
  then show ?thesis
    using that [OF l] mset_eq_imp_distinct_iff [OF eq(1)] mset_eq_setD [OF eq(1)] by blast
qed

lemma conserved_once:
  assumes "conserved xs free sel active" and "finite active"
  shows "inj_on sel active \<and> sel ` active \<inter> set free = {} \<and> sel ` active \<union> set free = set xs"
proof -
  obtain l where "set l = active" "distinct (free @ map sel l)" "set (free @ map sel l) = set xs"
    using conserved_list [OF assms] by metis
  then show ?thesis by (auto simp: distinct_map)
qed

lemma conserved_fresh:
  "conserved xs (x # free) sel active \<Longrightarrow> finite active \<Longrightarrow> sel slot = x \<Longrightarrow> slot \<notin> active"
  using conserved_once [of xs "x # free" sel active] by auto

lemma conserved_take:
  "conserved xs (x # free) sel active \<Longrightarrow> finite active \<Longrightarrow> slot \<notin> active \<Longrightarrow> sel slot = x \<Longrightarrow>
    conserved xs free sel (insert slot active)"
  by (simp add: conserved_def)

lemma conserved_give:
  "conserved xs free sel active \<Longrightarrow> finite active \<Longrightarrow> slot \<in> active \<Longrightarrow>
    conserved xs (free @ [sel slot]) sel (active - {slot})"
  by (simp add: conserved_def mset_set.remove [of active slot] ac_simps)

lemma acquire_wp:
  "vnc_pool_ok ds vs ws p \<Longrightarrow> wp acquire
    (\<lambda>slot q. vnc_pool_ok ds vs ws q \<and> slot \<notin> vp_active p \<and> vp_active q = insert slot (vp_active p))
    (\<lambda>_ q. q = p) p"
  unfolding vnc_pool_ok_def wp_def acquire_def
  using conserved_fresh [of ds _ _ vs_display "vp_active p"]
  by (auto simp: Let_def conserved_take split: list.split)

lemma release_wp:
  "vnc_pool_ok ds vs ws p \<Longrightarrow> wp (release (Some slot))
    (\<lambda>_ q. vnc_pool_ok ds vs ws q \<and> vp_active q = vp_active p - {slot}) (\<lambda>_ _. False) p"
  by (auto simp: vnc_pool_ok_def release_def wp_ops conserved_give)

lemma upto_conserved: "distinct ds \<Longrightarrow> distinct vs \<Longrightarrow> distinct ws \<Longrightarrow>
    vnc_pool_ok ds vs ws (init_vnc_pool ds vs ws)"
  by (simp add: vnc_pool_ok_def conserved_def init_vnc_pool_def)

abbreviation world_slots :: "vnc_world \<Rightarrow> vnc_slot set" where
  "world_slots w \<equiv> vp_active (vw_pool w)"

definition ranges_ok :: "vnc_env \<Rightarrow> vnc_world \<Rightarrow> bool" where
  "ranges_ok env w = vnc_pool_ok [ve_display_min env..ve_display_max env]
     [ve_port_min env..ve_port_max env] [ve_ws_port_min env..ve_ws_port_max env] (vw_pool w)"

interpretation slots: lease "ranges_ok env" world_slots "pool_op acquire" "\<lambda>slot. pool_op (release (Some slot))"
  for env
proof
  show "ranges_ok env w \<Longrightarrow> wp (pool_op acquire)
      (\<lambda>x t. ranges_ok env t \<and> x \<notin> world_slots w \<and> world_slots t = insert x (world_slots w)) (\<lambda>_ t. t = w) w" for w
    unfolding pool_op_def wp_zoom ranges_ok_def by (rule wp_mono [OF acquire_wp]) auto
  show "ranges_ok env w \<Longrightarrow> wp (pool_op (release (Some x)))
      (\<lambda>_ t. ranges_ok env t \<and> world_slots t = world_slots w - {x}) (\<lambda>_ _. False) w" for w x
    unfolding pool_op_def wp_zoom ranges_ok_def by (rule wp_mono [OF release_wp]) auto
qed

section \<open>What the controller's operations do\<close>

text \<open>The pipeline in progress: the pool is untouched, its processes are new and running.\<close>

definition built :: "vnc_world \<Rightarrow> vnc_world \<times> nat list \<Rightarrow> bool" where
  "built w s = (vw_pool (fst s) = vw_pool w \<and> vw_live (fst s) = vw_live w \<union> set (snd s) \<and>
     vw_next w \<le> vw_next (fst s) \<and> (\<forall>p \<in> set (snd s). vw_next w \<le> p \<and> p < vw_next (fst s)) \<and>
     sorted_wrt (<) (snd s))"

definition vnc_world_ok :: "vnc_world \<Rightarrow> bool" where
  "vnc_world_ok w = (\<forall>p \<in> vw_live w. p < vw_next w)"

lemma stage_wp: "built w s \<Longrightarrow>
    wp (stage env args) (\<lambda>p t. built w t \<and> length (snd t) = Suc (length (snd s))) (\<lambda>_ t. built w t) s"
  by (cases s) (auto simp: stage_def spawn_process_def wp_simps built_def sorted_wrt_append
      split: option.split)

lemma pipeline_wp:
  assumes "built w s"
  shows "wp (pipeline env slot) (\<lambda>_ t. built w t \<and> length (snd t) = length (snd s) + 3) (\<lambda>_ t. built w t) s"
proof -
  note step = wp_mono [OF stage_wp]
  show ?thesis
    unfolding pipeline_def wp_bindm wp_thenm wp_ops
    by (rule step [OF assms]) (auto split: sum.split intro!: step)
qed

lemma stop_processes_wp:
  "wp (for_each ps (stop_process env))
    (\<lambda>_ t. vw_pool t = vw_pool w \<and> vw_next t = vw_next w \<and>
       vw_live t = vw_live w - {p \<in> set ps. ve_kill env p = None}) (\<lambda>_ _. False) w"
proof (induction ps arbitrary: w)
  case Nil
  then show ?case by (simp add: wp_ops)
next
  case (Cons p ps)
  have "wp (stop_process env p) (\<lambda>_ t. vw_pool t = vw_pool w \<and> vw_next t = vw_next w \<and>
      vw_live t = vw_live w - (if ve_kill env p = None then {p} else {})) (\<lambda>_ _. False) w"
    by (auto simp: stop_process_def wp_simps split: option.split)
  then show ?case
    unfolding for_each.simps wp_thenm
    by (rule wp_mono) (rule wp_mono [OF Cons.IH], auto)
qed

lemma join_drains_wp:
  "wp (for_each ps (join_drain env)) (\<lambda>_ t. t = w \<and> (\<forall>p \<in> set ps. ve_drain env p = None))
    (\<lambda>e t. t = w \<and> (\<exists>p \<in> set ps. ve_drain env p = Some e)) w"
proof (induction ps)
  case Nil
  then show ?case by (simp add: wp_ops)
next
  case (Cons p ps)
  show ?case
  proof (cases "ve_drain env p")
    case None
    then have "join_drain env p = ret ()" by (simp add: join_drain_def)
    then show ?thesis
      by (simp add: wp_thenm wp_ops) (rule wp_mono [OF Cons.IH], use None in auto)
  next
    case (Some e)
    then have "join_drain env p = raise e" by (simp add: join_drain_def)
    then show ?thesis unfolding for_each.simps wp_thenm by (simp add: wp_ops Some)
  qed
qed

definition stopped :: "vnc_env \<Rightarrow> nat list \<Rightarrow> vnc_world \<Rightarrow> vnc_world \<Rightarrow> bool" where
  "stopped env ps w t = (vw_pool t = vw_pool w \<and> vw_next t = vw_next w \<and>
     vw_live t = vw_live w - {p \<in> set ps. ve_kill env p = None})"

lemma terminate_wp:
  "wp (terminate_processes env ps)
    (\<lambda>_ t. stopped env ps w t \<and> (\<forall>p \<in> set ps. ve_drain env p = None))
    (\<lambda>_ t. stopped env ps w t \<and> (\<exists>p \<in> set ps. ve_drain env p \<noteq> None)) w"
  unfolding terminate_processes_def wp_thenm
  by (rule wp_mono [OF stop_processes_wp], rule wp_mono [OF join_drains_wp]) (auto simp: stopped_def)

text \<open>What is left running after a failed allocation: its processes that could not be killed.\<close>

definition allocation_failed :: "vnc_env \<Rightarrow> vnc_world \<Rightarrow> vnc_world \<Rightarrow> bool" where
  "allocation_failed env w t =
     (ranges_ok env t \<and> vw_next w \<le> vw_next t \<and> vw_live w \<subseteq> vw_live t \<and>
      (\<forall>p \<in> vw_live t - vw_live w. vw_next w \<le> p \<and> p < vw_next t \<and> ve_kill env p \<noteq> None) \<and>
      (world_slots t = world_slots w \<or>
        (\<exists>p slot. ve_drain env p \<noteq> None \<and> vw_next w \<le> p \<and> p < vw_next t \<and>
           world_slots t = insert slot (world_slots w))))"

definition allocated :: "vnc_env \<Rightarrow> vnc_world \<Rightarrow> vnc_handle \<Rightarrow> vnc_world \<Rightarrow> bool" where
  "allocated env w h t =
     (ranges_ok env t \<and> vw_next w \<le> vw_next t \<and> vh_slot h \<notin> world_slots w \<and>
      world_slots t = insert (vh_slot h) (world_slots w) \<and>
      vh_display h = '':'' @ int_str (vs_display (vh_slot h)) \<and>
      length (vh_processes h) = 3 \<and> distinct (vh_processes h) \<and>
      (\<forall>p \<in> set (vh_processes h). vw_next w \<le> p \<and> p < vw_next t) \<and>
      vw_live t = vw_live w \<union> set (vh_processes h))"

lemma with_local_wp: "wp (with_local l m) Q E s = wp m (\<lambda>x (s', l'). Q (Inr x, l') s') (\<lambda>e (s', l'). Q (Inl e, l') s') (s, l)"
  by (simp add: wp_def with_local_def split: prod.splits sum.splits)

lemma ranges_ok_pool: "vw_pool t = vw_pool w \<Longrightarrow> ranges_ok env t = ranges_ok env w"
  by (simp add: ranges_ok_def)

lemma allocate_failed_wp:
  assumes w: "ranges_ok env t" "world_slots t = insert slot (world_slots w)" "slot \<notin> world_slots w"
    and ok: "vnc_world_ok w" and next_eq: "vw_next t = vw_next w" "vw_live t = vw_live w"
    and b: "built t (u, ps)"
  shows "wp (allocate_failed env slot ps e) Q (\<lambda>_ v. allocation_failed env w v) u"
proof -
  have new: "vw_live w \<inter> set ps = {}"
    using b ok next_eq by (force simp: built_def vnc_world_ok_def)
  show ?thesis
    unfolding allocate_failed_def wp_thenm [of "terminate_processes _ _"]
  proof (rule wp_mono [OF terminate_wp]; elim conjE)
    fix x :: unit and v assume v: "stopped env ps u v" and drains: "\<forall>p \<in> set ps. ve_drain env p = None"
    have rv: "ranges_ok env v" "world_slots v = insert slot (world_slots w)"
      using w b v ranges_ok_pool [of v t env] by (auto simp: built_def stopped_def)
    have "wp (thenm (pool_op (release (Some slot))) (raise e)) Q
        (\<lambda>_ z. ranges_ok env z \<and> world_slots z = world_slots w) v"
      by (rule slots.release_and_raise [OF rv w(3)])
    moreover have "wp (thenm (pool_op (release (Some slot))) (raise e)) Q
        (\<lambda>_ z. vw_next z = vw_next v \<and> vw_live z = vw_live v) v"
      by (simp add: pool_op_def release_def wp_simps)
    ultimately have "wp (thenm (pool_op (release (Some slot))) (raise e)) (\<lambda>x z. Q x z \<and> Q x z)
        (\<lambda>_ z. (ranges_ok env z \<and> world_slots z = world_slots w) \<and> vw_next z = vw_next v \<and> vw_live z = vw_live v) v"
      by (rule wp_conj)
    then show "wp (thenm (pool_op (release (Some slot))) (raise e)) Q (\<lambda>_ v. allocation_failed env w v) v"
      by (rule wp_mono) (use b v ok next_eq new in \<open>auto simp: allocation_failed_def built_def stopped_def\<close>)
  next
    fix x :: exn and v assume v: "stopped env ps u v" and "\<exists>p \<in> set ps. ve_drain env p \<noteq> None"
    then obtain p where "p \<in> set ps" "ve_drain env p \<noteq> None" by blast
    then show "allocation_failed env w v"
      using b v new next_eq w ranges_ok_pool [of v t env]
      by (auto simp: allocation_failed_def built_def stopped_def intro!: exI [of _ p])
  qed
qed

lemma allocate_wp:
  assumes "ranges_ok env w" and ok: "vnc_world_ok w"
  shows "wp (allocate env) (\<lambda>h t. allocated env w h t) (\<lambda>_ t. allocation_failed env w t) w"
proof -
  have pool: "wp (pool_op acquire) (\<lambda>x t. (ranges_ok env t \<and> x \<notin> world_slots w \<and>
      world_slots t = insert x (world_slots w)) \<and> vw_next t = vw_next w \<and> vw_live t = vw_live w)
      (\<lambda>_ t. t = w \<and> True) w"
    by (rule wp_conj [OF slots.acquire_law [OF assms(1)]], unfold pool_op_def wp_zoom)
      (auto simp: wp_def acquire_def Let_def split: list.split)
  show ?thesis
    unfolding allocate_def wp_bindm
  proof (rule wp_mono [OF pool])
    fix slot t
    assume t: "(ranges_ok env t \<and> slot \<notin> world_slots w \<and> world_slots t = insert slot (world_slots w)) \<and>
      vw_next t = vw_next w \<and> vw_live t = vw_live w"
    have start: "built t (t, [])" by (simp add: built_def)
    show "wp (with_local [] (pipeline env slot)) (\<lambda>x. wp (case x of (r, ps) \<Rightarrow> (case r of
         Inl e \<Rightarrow> allocate_failed env slot ps e
       | Inr details \<Rightarrow> ret \<lparr>vh_slot = slot, vh_display = '':'' @ int_str (vs_display slot),
           vh_details = details, vh_processes = ps\<rparr>)) (allocated env w) (\<lambda>_. allocation_failed env w))
       (\<lambda>_. allocation_failed env w) t"
      unfolding with_local_wp
    proof (rule wp_mono [OF pipeline_wp [OF start]]; clarify)
      fix details u ps assume u: "built t (u, ps)" "length (snd (u, ps)) = length (snd (t, [])) + 3"
      then have "distinct ps" by (simp add: built_def strict_sorted_iff)
      with t u ranges_ok_pool [of u t env] show "wp (case Inr details of
           Inl e \<Rightarrow> allocate_failed env slot ps e
         | Inr details \<Rightarrow> ret \<lparr>vh_slot = slot, vh_display = '':'' @ int_str (vs_display slot),
             vh_details = details, vh_processes = ps\<rparr>) (allocated env w) (\<lambda>_. allocation_failed env w) u"
        by (simp add: wp_ops allocated_def built_def)
    next
      fix e u ps assume "built t (u, ps)"
      then show "wp (case Inl e of
           Inl e \<Rightarrow> allocate_failed env slot ps e
         | Inr details \<Rightarrow> ret \<lparr>vh_slot = slot, vh_display = '':'' @ int_str (vs_display slot),
             vh_details = details, vh_processes = ps\<rparr>) (allocated env w) (\<lambda>_. allocation_failed env w) u"
        unfolding sum.case using t ok by (intro allocate_failed_wp) auto
    qed
  qed (use assms(1) in \<open>auto simp: allocation_failed_def\<close>)
qed

definition closed :: "vnc_env \<Rightarrow> vnc_handle \<Rightarrow> vnc_world \<Rightarrow> vnc_world \<Rightarrow> bool" where
  "closed env h w t = (ranges_ok env t \<and> world_slots t = world_slots w - {vh_slot h} \<and>
     vw_next t = vw_next w \<and>
     vw_live t = vw_live w - {p \<in> set (vh_processes h). ve_kill env p = None})"

lemma close_wp:
  assumes "ranges_ok env w"
  shows "wp (close_handle env h) (\<lambda>_ t. closed env h w t \<and> (\<forall>p \<in> set (vh_processes h). ve_drain env p = None))
    (\<lambda>_ t. closed env h w t \<and> (\<exists>p \<in> set (vh_processes h). ve_drain env p \<noteq> None)) w"
proof -
  have rel: "wp (pool_op (release (Some (vh_slot h)))) (\<lambda>_ t. closed env h w t) (\<lambda>_ _. False) u"
    if "stopped env (vh_processes h) w u" for u
  proof -
    have "ranges_ok env u" using that assms ranges_ok_pool [of u w env] by (simp add: stopped_def)
    from slots.release_law [OF this, of "vh_slot h"]
    have "wp (pool_op (release (Some (vh_slot h)))) (\<lambda>_ z. (ranges_ok env z \<and>
        world_slots z = world_slots u - {vh_slot h}) \<and> vw_next z = vw_next u \<and> vw_live z = vw_live u)
        (\<lambda>_ _. False \<and> True) u"
      by (rule wp_conj) (simp add: pool_op_def release_def wp_simps)
    then show ?thesis
      by (rule wp_mono) (use that in \<open>simp_all add: closed_def stopped_def\<close>)
  qed
  show ?thesis
    unfolding close_handle_def wp_finallym
  proof (rule wp_mono [OF terminate_wp]; elim conjE)
    fix x :: unit and u assume "stopped env (vh_processes h) w u" "\<forall>p \<in> set (vh_processes h). ve_drain env p = None"
    then show "wp (pool_op (release (Some (vh_slot h))))
        (\<lambda>_ t. closed env h w t \<and> (\<forall>p \<in> set (vh_processes h). ve_drain env p = None))
        (\<lambda>_ t. closed env h w t \<and> (\<exists>p \<in> set (vh_processes h). ve_drain env p \<noteq> None)) u"
      by - (rule wp_mono [OF rel], auto)
  next
    fix e :: exn and u assume "stopped env (vh_processes h) w u" "\<exists>p \<in> set (vh_processes h). ve_drain env p \<noteq> None"
    then show "wp (pool_op (release (Some (vh_slot h))))
        (\<lambda>_ t. closed env h w t \<and> (\<exists>p \<in> set (vh_processes h). ve_drain env p \<noteq> None))
        (\<lambda>_ t. closed env h w t \<and> (\<exists>p \<in> set (vh_processes h). ve_drain env p \<noteq> None)) u"
      by - (rule wp_mono [OF rel], auto)
  qed
qed

end
