(* ===== verification/Browser_Flags.thy ===== *)
theory Browser_Flags
  imports Py_Values
begin

text \<open>
  Normalising and merging the browser flags of a session
  (\<open>services/runner/app/browser_flags.py\<close>). The keys of a metadata mapping are strings; \<open>None\<close> and an
  empty mapping are the empty dictionary.
\<close>

section \<open>Operations\<close>

definition flag_value :: "pyval \<Rightarrow> string" where
  "flag_value v = (case v of PBool b \<Rightarrow> (if b then ''1'' else ''0'') | _ \<Rightarrow> py_str v)"

fun normalise_into :: "(string, string) dict \<Rightarrow> (string, pyval) dict \<Rightarrow> (string, string) dict" where
  "normalise_into acc [] = acc"
| "normalise_into acc ((key, v) # rest) =
     (let name = strip key in
      if name = [] \<or> v = PNone then normalise_into acc rest
      else normalise_into (AList.update name (flag_value v) acc) rest)"

definition normalise_browser_flags :: "(string, pyval) dict \<Rightarrow> (string, string) dict" where
  "normalise_browser_flags flags = normalise_into [] flags"

fun merge_sources :: "(string, string) dict \<Rightarrow> (string, pyval) dict list \<Rightarrow> (string, string) dict" where
  "merge_sources merged [] = merged"
| "merge_sources merged (s # rest) =
     (if s = [] then merge_sources merged rest
      else merge_sources (dict_merge merged (normalise_browser_flags s)) rest)"

definition merge_browser_flags :: "(string, pyval) dict list \<Rightarrow> (string, string) dict" where
  "merge_browser_flags sources = merge_sources [] sources"

fun requires_additional_flags :: "(string, string) dict \<Rightarrow> (string, string) dict \<Rightarrow> bool" where
  "requires_additional_flags [] baseline = False"
| "requires_additional_flags ((key, v) # rest) baseline =
     (if map_of baseline key \<noteq> Some v then True else requires_additional_flags rest baseline)"

text \<open>A dictionary of strings passed where any mapping is accepted.\<close>

definition as_values :: "(string, string) dict \<Rightarrow> (string, pyval) dict" where
  "as_values d = map (\<lambda>(k, v). (k, PStr v)) d"

section \<open>Normal forms\<close>

text \<open>Distinct trimmed names that are not blank.\<close>

definition normal_flags :: "(string, string) dict \<Rightarrow> bool" where
  "normal_flags d = (dict_ok d \<and> (\<forall>k \<in> keys d. trimmed k))"

lemma normal_flags_update:
  "normal_flags d \<Longrightarrow> strip k \<noteq> [] \<Longrightarrow> normal_flags (AList.update (strip k) v d)"
  by (simp add: normal_flags_def)

lemma normalise_into_normal: "normal_flags acc \<Longrightarrow> normal_flags (normalise_into acc fs)"
  by (induction acc fs rule: normalise_into.induct) (auto simp: Let_def normal_flags_update)

lemma normal_flags_Nil [simp]: "normal_flags []"
  by (simp add: normal_flags_def)

lemma normalise_normal [simp]: "normal_flags (normalise_browser_flags fs)"
  unfolding normalise_browser_flags_def by (rule normalise_into_normal) simp

lemma normal_flags_ok [simp]: "normal_flags d \<Longrightarrow> dict_ok d"
  by (simp add: normal_flags_def)

lemma normal_flags_Cons:
  "normal_flags ((k, v) # d) \<longleftrightarrow> trimmed k \<and> k \<notin> keys d \<and> normal_flags d"
  by (auto simp: normal_flags_def)

lemma normal_flags_merge: "normal_flags d \<Longrightarrow> normal_flags e \<Longrightarrow> normal_flags (dict_merge d e)"
proof (induction d e rule: dict_merge.induct)
  case (1 d)
  then show ?case by simp
next
  case (2 d k v e)
  then have "trimmed k" "normal_flags e"
    by (simp_all add: normal_flags_Cons)
  with 2 normal_flags_update [of d k v] show ?case
    by (simp add: trimmed_def)
qed

lemma merge_sources_normal: "normal_flags acc \<Longrightarrow> normal_flags (merge_sources acc ss)"
  by (induction acc ss rule: merge_sources.induct) (auto simp: normal_flags_merge)

lemma normalise_into_values:
  "normal_flags d \<Longrightarrow> keys d \<inter> keys acc = {} \<Longrightarrow> normalise_into acc (as_values d) = acc @ d"
proof (induction d arbitrary: acc)
  case Nil
  then show ?case by (simp add: as_values_def)
next
  case (Cons kv d)
  obtain k v where kv: "kv = (k, v)" by force
  from Cons.prems have k: "trimmed k" "k \<notin> keys acc" "k \<notin> keys d" "normal_flags d"
    by (auto simp: kv normal_flags_Cons)
  then have "normalise_into (acc @ [(k, v)]) (as_values d) = (acc @ [(k, v)]) @ d"
    using Cons.prems by (intro Cons.IH) (auto simp: kv)
  then show ?case
    using trimmed_strip [OF k(1)] k
    by (simp add: kv as_values_def Let_def flag_value_def py_str_def update_not_in trimmed_def)
qed

lemma normalise_values: "normal_flags d \<Longrightarrow> normalise_browser_flags (as_values d) = d"
  unfolding normalise_browser_flags_def using normalise_into_values [of d "[]"] by simp

lemma requires_additional_flags_iff:
  "requires_additional_flags req base \<longleftrightarrow> (\<exists>(k, v) \<in> set req. map_of base k \<noteq> Some v)"
  by (induction req base rule: requires_additional_flags.induct) auto

text \<open>Flags a baseline covers add nothing to it.\<close>

lemma covered_merge:
  assumes "normal_flags base" "normal_flags req"
  shows "requires_additional_flags req base = (map_of (dict_merge base req) \<noteq> map_of base)"
proof -
  have "map_of (dict_merge base req) = map_of base \<longleftrightarrow>
      (\<forall>k v. map_of req k = Some v \<longrightarrow> map_of base k = Some v)"
    using assms by (force simp: fun_eq_iff dict_merge_lookup split: option.splits)
  moreover have "(k, v) \<in> set req \<longleftrightarrow> map_of req k = Some v" for k v
    using assms(2) by (intro dict_member_lookup) simp
  ultimately show ?thesis
    unfolding requires_additional_flags_iff by fast
qed

lemma merge_two:
  assumes "normal_flags base" and "normal_flags req"
  shows "merge_browser_flags [as_values base, as_values req] = dict_merge (dict_merge [] base) req"
proof -
  have empty: "as_values d = [] \<longleftrightarrow> d = []" for d
    by (simp add: as_values_def)
  show ?thesis
    using assms
    by (cases "base = []"; cases "req = []")
      (simp_all add: merge_browser_flags_def empty normalise_values)
qed

lemma merge_two_lookup:
  "normal_flags base \<Longrightarrow> normal_flags req \<Longrightarrow>
    map_of (merge_browser_flags [as_values base, as_values req]) k =
      (case map_of req k of None \<Rightarrow> map_of base k | Some v \<Rightarrow> Some v)"
  by (simp add: merge_two dict_merge_lookup split: option.split)

text \<open>
  A session needs a browser of its own exactly when adding its flags to the runner's required
  ones changes the effective flags: the warm pool, whose browsers run with the required flags, is
  used precisely for the sessions it serves unchanged.
\<close>

theorem custom_flags_exactly_when_needed:
  assumes "normal_flags required" and "requested = normalise_browser_flags raw"
  shows "requires_additional_flags requested required \<longleftrightarrow>
    map_of (merge_browser_flags [as_values required, as_values requested]) \<noteq> map_of required"
proof -
  have req: "normal_flags requested" by (simp add: assms(2))
  have "map_of (merge_browser_flags [as_values required, as_values requested]) =
      map_of (dict_merge required requested)"
    using assms(1) req by (auto simp: fun_eq_iff merge_two_lookup dict_merge_lookup)
  with covered_merge [OF assms(1) req] show ?thesis by simp
qed

lemma custom_flags_exactly_when_needed_witness:
  "requires_additional_flags (normalise_browser_flags [('' EXTRA '', PBool True)]) [(''A'', ''1'')] \<and>
   map_of (merge_browser_flags [as_values [(''A'', ''1'')],
     as_values (normalise_browser_flags [('' EXTRA '', PBool True)])]) \<noteq> map_of [(''A'', ''1'')]"
proof -
  have n: "normal_flags [(''A'', ''1'')]"
    by (simp add: normal_flags_def trimmed_def strip_def lstrip_def rstrip_by_def is_space_def)
  have "requires_additional_flags (normalise_browser_flags [('' EXTRA '', PBool True)]) [(''A'', ''1'')]"
    by code_simp
  with custom_flags_exactly_when_needed [OF n refl, of "[('' EXTRA '', PBool True)]"]
  show ?thesis by blast
qed

end
