(* ===== verification/Session_Manager.thy ===== *)
theory Session_Manager
  imports Warm_Pool Vnc_Pool Browser_Flags
begin

text \<open>
  The session manager of the runner (\<open>services/runner/app/session_manager.py\<close>): the component that
  composes the browser launcher, the warm pool and the VNC controller into sessions. Its state is
  \<open>manager\<close>, with the pool and the VNC controller inside; every method that holds the manager's
  lock is one operation. The settings, the clock (indexed by the number of readings) and the event
  publisher (indexed by the number of publications) are in \<open>manager_env\<close>.
\<close>

section \<open>Payloads\<close>

record create_payload =
  cp_status :: session_status
  cp_headless :: bool
  cp_idle_ttl :: int
  cp_start_url :: "url option"
  cp_start_url_wait :: start_url_wait
  cp_browser :: string
  cp_labels :: "(string, string) dict"
  cp_ws_endpoint :: "string option"
  cp_proxy :: "proxy_settings option"
  cp_vnc :: "vnc_details option"
  cp_vnc_enabled :: "bool option"
  cp_metadata :: "(string, pyval) dict"

text \<open>
  A partial update: the outer \<open>None\<close> is a field the caller did not set, \<open>Some None\<close> an explicit null.
\<close>

record update_payload =
  up_status :: "session_status option option"
  up_last_seen_at :: "datetime option option"
  up_ended_at :: "datetime option option"
  up_headless :: "bool option option"
  up_idle_ttl :: "int option option"
  up_start_url :: "url option option"
  up_start_url_wait :: "start_url_wait option option"
  up_browser :: "string option option"
  up_labels :: "(string, string) dict option option"
  up_ws_endpoint :: "string option option"
  up_proxy :: "proxy_settings option option"
  up_vnc :: "vnc_details option option"
  up_vnc_enabled :: "bool option option"
  up_metadata :: "(string, pyval) dict option option"
  up_reason :: "string option option"

definition no_update :: update_payload where
  "no_update = \<lparr>up_status = None, up_last_seen_at = None, up_ended_at = None, up_headless = None,
     up_idle_ttl = None, up_start_url = None, up_start_url_wait = None, up_browser = None,
     up_labels = None, up_ws_endpoint = None, up_proxy = None, up_vnc = None, up_vnc_enabled = None,
     up_metadata = None, up_reason = None\<rparr>"

section \<open>State and environment\<close>

datatype warm_mode = WARM_ONLY | COLD_ONLY | HYBRID

fun warm_mode_value :: "warm_mode \<Rightarrow> string" where
  "warm_mode_value WARM_ONLY = ''warm-only''"
| "warm_mode_value COLD_ONLY = ''cold-only''"
| "warm_mode_value HYBRID = ''hybrid''"

record manager =
  m_pool :: warm_pool
  m_vnc :: vnc_world
  m_sessions :: "(nat, session) dict"
  m_handles :: "(nat, browser_handle) dict"
  m_vnc_handles :: "(nat, vnc_handle) dict"
  m_warm_sessions :: "(nat, string) dict"
  m_warm_started :: bool
  m_active :: nat
  m_failures :: "string list"
  m_last_error :: "string option"
  m_next_expiry :: "datetime option"
  m_reaper_runs :: nat
  m_reaper_expired :: nat
  m_reaper_last :: "datetime option"
  m_reaper_on :: bool
  m_next_id :: nat
  m_ticks :: nat
  m_publishes :: nat
  m_events :: "session_event list"
  m_active_gauge :: nat
  m_vnc_gauge :: nat
  m_vnc_requests :: nat

record manager_env =
  me_pool_env :: pool_env
  me_vnc_env :: vnc_env
  me_has_pool :: bool
  me_has_vnc :: bool
  me_runner_id :: string
  me_vnc_enabled :: bool
  me_mode :: warm_mode
  me_required_flags :: "(string, string) dict"
  me_history :: nat
  me_clock :: "nat \<Rightarrow> datetime"
  me_publish :: "nat \<Rightarrow> exn option"

type_synonym 'a manager_op = "(manager, 'a) op"

definition init_manager :: "warm_pool \<Rightarrow> vnc_world \<Rightarrow> manager" where
  "init_manager pool vnc =
     \<lparr>m_pool = pool, m_vnc = vnc, m_sessions = [], m_handles = [], m_vnc_handles = [],
      m_warm_sessions = [], m_warm_started = False, m_active = 0, m_failures = [], m_last_error = None,
      m_next_expiry = None, m_reaper_runs = 0, m_reaper_expired = 0, m_reaper_last = None,
      m_reaper_on = False, m_next_id = 0, m_ticks = 0, m_publishes = 0, m_events = [],
      m_active_gauge = 0, m_vnc_gauge = 0, m_vnc_requests = 0\<rparr>"

definition on_pool :: "'a pool_op \<Rightarrow> 'a manager_op" where
  "on_pool m = zoom m_pool (\<lambda>p s. s\<lparr>m_pool := p\<rparr>) m"

definition on_vnc :: "'a vnc_op \<Rightarrow> 'a manager_op" where
  "on_vnc m = zoom m_vnc (\<lambda>v s. s\<lparr>m_vnc := v\<rparr>) m"

definition read_clock :: "manager_env \<Rightarrow> datetime manager_op" where
  "read_clock env = bindm (gets m_ticks) (\<lambda>n.
     thenm (modify (\<lambda>s. s\<lparr>m_ticks := Suc n\<rparr>)) (ret (me_clock env n)))"

definition new_session_id :: "nat manager_op" where
  "new_session_id = bindm (gets m_next_id) (\<lambda>n.
     thenm (modify (\<lambda>s. s\<lparr>m_next_id := Suc n\<rparr>)) (ret n))"

definition set_vnc_gauge :: "unit manager_op" where
  "set_vnc_gauge = modify (\<lambda>s. s\<lparr>m_vnc_gauge := length (m_vnc_handles s)\<rparr>)"

definition set_active_gauge :: "unit manager_op" where
  "set_active_gauge = modify (\<lambda>s. s\<lparr>m_active_gauge := m_active s\<rparr>)"

section \<open>VNC\<close>

definition sanitize_vnc_payload :: "vnc_details option \<Rightarrow> vnc_details option" where
  "sanitize_vnc_payload details = (case details of
     None \<Rightarrow> None
   | Some d \<Rightarrow> if vd_token d = None \<and> vd_token_ttl d = None then Some d
       else Some (d\<lparr>vd_token := None, vd_token_ttl := None\<rparr>))"

definition resolve_vnc ::
  "manager_env \<Rightarrow> create_payload \<Rightarrow> vnc_details option \<Rightarrow> (vnc_details option \<times> vnc_handle option) manager_op" where
  "resolve_vnc env cp sanitized =
     (if cp_headless cp \<or> \<not> me_vnc_enabled env then ret (None, None)
      else case sanitized of Some d \<Rightarrow> ret (Some d, None)
      | None \<Rightarrow>
          if \<not> me_has_vnc env then ret (None, None)
          else bindm (on_vnc (allocate (me_vnc_env env))) (\<lambda>h.
               thenm (modify (\<lambda>s. s\<lparr>m_vnc_requests := Suc (m_vnc_requests s)\<rparr>))
               (ret (Some (vh_details h), Some h))))"

definition release_vnc_handle :: "manager_env \<Rightarrow> nat \<Rightarrow> unit manager_op" where
  "release_vnc_handle env sid =
     bindm (gets (\<lambda>s. map_of (m_vnc_handles s) sid)) (\<lambda>h.
     thenm (modify (\<lambda>s. s\<lparr>m_vnc_handles := AList.delete sid (m_vnc_handles s)\<rparr>))
     (if h = None \<or> \<not> me_has_vnc env then ret ()
      else thenm (on_vnc (release_handle (me_vnc_env env) h)) set_vnc_gauge))"

definition discard_vnc_handle :: "manager_env \<Rightarrow> nat \<Rightarrow> vnc_handle option \<Rightarrow> unit manager_op" where
  "discard_vnc_handle env sid h =
     (if h = None then ret ()
      else bindm (gets (\<lambda>s. map_of (m_vnc_handles s) sid)) (\<lambda>stored.
        if stored \<noteq> None then release_vnc_handle env sid
        else thenm (whenm (me_has_vnc env) (on_vnc (release_handle (me_vnc_env env) h))) set_vnc_gauge))"

definition shutdown_all_vnc :: "manager_env \<Rightarrow> unit manager_op" where
  "shutdown_all_vnc env =
     (if \<not> me_has_vnc env then modify (\<lambda>s. s\<lparr>m_vnc_handles := [], m_vnc_gauge := 0\<rparr>)
      else bindm (gets m_vnc_handles) (\<lambda>handles.
        thenm (modify (\<lambda>s. s\<lparr>m_vnc_handles := []\<rparr>))
        (thenm (for_each handles (\<lambda>(_, h). suppress (on_vnc (release_handle (me_vnc_env env) (Some h)))))
        (modify (\<lambda>s. s\<lparr>m_vnc_gauge := 0\<rparr>)))))"

section \<open>Browsers\<close>

record browser_acquisition =
  ba_handle :: browser_handle
  ba_metadata :: "(string, pyval) dict"
  ba_reservation :: "warm_reservation option"

definition resolve_browser_flags ::
  "manager_env \<Rightarrow> (string, pyval) dict \<Rightarrow> (string, string) dict \<times> (string, string) dict" where
  "resolve_browser_flags env metadata =
     (let requested = (case map_of metadata ''browser_flags'' of
            Some (PDict d) \<Rightarrow> normalise_browser_flags d | _ \<Rightarrow> [])
      in (merge_browser_flags [as_values (me_required_flags env), as_values requested], requested))"

definition inject_browser_origin ::
  "manager_env \<Rightarrow> string \<Rightarrow> (string, pyval) dict \<Rightarrow> (string, pyval) dict \<Rightarrow> (string, pyval) dict" where
  "inject_browser_origin env kind details metadata =
     (let descriptor = dict_merge [(''kind'', PStr kind), (''mode'', PStr (warm_mode_value (me_mode env)))] details
      in case map_of metadata ''browser_origin'' of
           Some (PDict d) \<Rightarrow> AList.update ''browser_origin'' (PDict (dict_merge d descriptor)) metadata
         | _ \<Rightarrow> AList.update ''browser_origin'' (PDict descriptor) metadata)"

definition extract_requested_workstation :: "(string, pyval) dict \<Rightarrow> string option" where
  "extract_requested_workstation metadata =
     (case map_of metadata ''warm_pool'' of
        Some (PDict hint) \<Rightarrow>
          (case map_of hint ''workstation_id'' of
             Some (PStr v) \<Rightarrow> if strip v \<noteq> [] then Some (strip v) else None
           | _ \<Rightarrow> None)
      | _ \<Rightarrow> None)"

definition opt_value :: "string option \<Rightarrow> pyval" where
  "opt_value v = (case v of None \<Rightarrow> PNone | Some s \<Rightarrow> PStr s)"

definition merge_warm_pool_metadata ::
  "(string, pyval) dict \<Rightarrow> warm_reservation \<Rightarrow> (string, pyval) dict" where
  "merge_warm_pool_metadata metadata rv =
     (let warm = [(''workstation_id'', PStr (sn_workstation_id (rv_snapshot rv))),
                  (''fingerprint_id'', opt_value (sn_fingerprint (rv_snapshot rv))),
                  (''proxy_url'', opt_value (sn_proxy_url (rv_snapshot rv))),
                  (''launch_env'', env_value (rv_environment rv))]
      in case map_of metadata ''warm_pool'' of
           Some (PDict d) \<Rightarrow> AList.update ''warm_pool'' (PDict (dict_merge d warm)) metadata
         | _ \<Rightarrow> AList.update ''warm_pool'' (PDict warm) metadata)"

definition launch_cold_browser ::
  "manager_env \<Rightarrow> create_payload \<Rightarrow> vnc_handle option \<Rightarrow> (string, string) dict \<Rightarrow> browser_handle manager_op" where
  "launch_cold_browser env cp vh flags =
     catchm
       (on_pool (procs_op (launch_browser (pe_os (me_pool_env env)) (cp_browser cp) (cp_headless cp)
          (case vh of None \<Rightarrow> [] | Some h \<Rightarrow> browser_environment h) flags)))
       (\<lambda>e. case e of BrowserLaunchError _ \<Rightarrow> raise (SessionCapacityError ''failed to launch browser process'')
          | _ \<Rightarrow> raise e)"

definition safe_shutdown_cold_browser :: "manager_env \<Rightarrow> browser_handle \<Rightarrow> unit manager_op" where
  "safe_shutdown_cold_browser env h =
     suppress (on_pool (procs_op (shutdown (pe_os (me_pool_env env)) True h)))"

definition start_warm_pool :: "manager_env \<Rightarrow> unit manager_op" where
  "start_warm_pool env =
     bindm (gets m_warm_started) (\<lambda>started.
     if started then ret ()
     else thenm (on_pool (start_pool (me_pool_env env))) (modify (\<lambda>s. s\<lparr>m_warm_started := True\<rparr>)))"

definition reserve_warm_slot ::
  "manager_env \<Rightarrow> (string, pyval) dict \<Rightarrow> warm_reservation manager_op" where
  "reserve_warm_slot env metadata =
     (if \<not> me_has_pool env then raise (SessionCapacityError ''warm pool is not configured'')
      else thenm (start_warm_pool env)
        (catchm (on_pool (reserve_slot (me_pool_env env) (extract_requested_workstation metadata)))
          (\<lambda>e. case e of WarmPoolStateError _ \<Rightarrow> raise (SessionCapacityError ''no warm workstations available'')
             | _ \<Rightarrow> raise e)))"

definition acquire_cold ::
  "manager_env \<Rightarrow> create_payload \<Rightarrow> (string, pyval) dict \<Rightarrow> vnc_handle option \<Rightarrow>
    (string, string) dict \<Rightarrow> string \<Rightarrow> browser_acquisition manager_op" where
  "acquire_cold env cp metadata vh flags reason =
     bindm (launch_cold_browser env cp vh flags) (\<lambda>h.
     ret \<lparr>ba_handle = h,
       ba_metadata = inject_browser_origin env ''cold_launch'' [(''reason'', PStr reason)]
         (AList.delete ''warm_pool'' metadata),
       ba_reservation = None\<rparr>)"

definition warm_acquisition ::
  "manager_env \<Rightarrow> (string, pyval) dict \<Rightarrow> warm_reservation \<Rightarrow> browser_acquisition" where
  "warm_acquisition env metadata rv =
     \<lparr>ba_handle = rv_handle rv,
      ba_metadata = inject_browser_origin env ''warm_pool''
        ((''workstation_id'', PStr (sn_workstation_id (rv_snapshot rv))) #
         (case sn_fingerprint (rv_snapshot rv) of None \<Rightarrow> [] | Some f \<Rightarrow> [(''fingerprint_id'', PStr f)]))
        (merge_warm_pool_metadata metadata rv),
      ba_reservation = Some rv\<rparr>"

text \<open>
  The warm branch: no reservation falls back to a cold launch unless the mode forbids it; any other
  exception propagates.
\<close>

definition acquire_warm ::
  "manager_env \<Rightarrow> create_payload \<Rightarrow> (string, pyval) dict \<Rightarrow> vnc_handle option \<Rightarrow>
    (string, string) dict \<Rightarrow> browser_acquisition manager_op" where
  "acquire_warm env cp metadata vh flags =
     bindm (attempt (reserve_warm_slot env metadata)) (\<lambda>r. case r of
       Inr rv \<Rightarrow> ret (warm_acquisition env metadata rv)
     | Inl e \<Rightarrow> (case e of
         SessionCapacityError m \<Rightarrow>
           if me_mode env = WARM_ONLY then raise e
           else acquire_cold env cp metadata vh flags ''warm-pool-unavailable''
       | _ \<Rightarrow> raise e))"

definition acquire_browser_handle ::
  "manager_env \<Rightarrow> create_payload \<Rightarrow> (string, pyval) dict \<Rightarrow> vnc_handle option \<Rightarrow> browser_acquisition manager_op" where
  "acquire_browser_handle env cp metadata vh =
     (case resolve_browser_flags env metadata of (effective, requested) \<Rightarrow>
      let metadata = (if effective \<noteq> [] then AList.update ''browser_flags'' (env_value effective) metadata
                      else AList.delete ''browser_flags'' metadata);
          custom = requires_additional_flags requested (me_required_flags env)
      in if me_mode env = COLD_ONLY \<or> custom then
           (if me_mode env = WARM_ONLY
            then raise (SessionCapacityError ''warm pool cannot satisfy requested browser flags'')
            else acquire_cold env cp metadata vh effective
              (if me_mode env = COLD_ONLY then ''mode-cold-only'' else ''custom-browser-flags''))
         else if me_has_pool env then acquire_warm env cp metadata vh effective
         else if me_mode env = WARM_ONLY then raise (SessionCapacityError ''warm pool is not configured'')
         else acquire_cold env cp metadata vh effective ''warm-pool-disabled'')"

section \<open>Warm slots of sessions\<close>

fun map_warm_state :: "warm_state \<Rightarrow> workstation_state" where
  "map_warm_state WarmIDLE = AVAILABLE"
| "map_warm_state WarmBUSY = ASSIGNED"
| "map_warm_state WarmRESERVED = PROVISIONING"
| "map_warm_state WarmRECYCLING = PROVISIONING"
| "map_warm_state WarmDRAINING = UNAVAILABLE"
| "map_warm_state WarmERROR = UNAVAILABLE"

text \<open>The manager's own builder, used when the pool does not offer one.\<close>

definition fallback_workstation_meta ::
  "warm_snapshot \<Rightarrow> (string, pyval) dict option \<Rightarrow> workstation_meta res" where
  "fallback_workstation_meta sn metadata =
     (let extra = [(''warm_pool_state'', PStr (warm_state_value (sn_state sn)))];
          extra = (if non_empty (sn_proxy_url sn)
                   then dict_setdefault ''proxy_url'' (PStr (the (sn_proxy_url sn))) extra else extra);
          extra = (case metadata of None \<Rightarrow> extra | Some m \<Rightarrow> if m = [] then extra else dict_merge extra m);
          fingerprint = (if non_empty (sn_fingerprint sn) then the (sn_fingerprint sn) else ''unknown'')
      in validate_workstation_meta
           \<lparr>wm_id = sn_workstation_id sn, wm_fingerprint_id = fingerprint,
            wm_state = map_warm_state (sn_state sn), wm_proxy_summary = sn_proxy_url sn,
            wm_metadata = extra\<rparr>)"

definition session_workstation_meta ::
  "manager_env \<Rightarrow> warm_snapshot \<Rightarrow> (string, pyval) dict option \<Rightarrow> workstation_meta res" where
  "session_workstation_meta env sn metadata =
     (if me_has_pool env then build_workstation_meta sn metadata else fallback_workstation_meta sn metadata)"

definition cancel_warm_reservation :: "manager_env \<Rightarrow> string \<Rightarrow> unit manager_op" where
  "cancel_warm_reservation env wid =
     whenm (me_has_pool env)
       (catchm (thenm (on_pool (cancel_reservation (me_pool_env env) wid)) (ret ()))
         (\<lambda>e. case e of WarmPoolStateError _ \<Rightarrow> ret () | _ \<Rightarrow> raise e))"

definition mark_warm_slot_busy :: "manager_env \<Rightarrow> string \<Rightarrow> warm_snapshot manager_op" where
  "mark_warm_slot_busy env wid =
     (if \<not> me_has_pool env then raise (SessionCapacityError ''warm pool is not configured'')
      else catchm (on_pool (mark_busy (me_pool_env env) wid))
        (\<lambda>e. case e of WarmPoolStateError _ \<Rightarrow>
                raise (SessionCapacityError (''warm workstation '' @ quoted wid @ '' is no longer reserved''))
           | _ \<Rightarrow> raise e))"

definition push_failure :: "manager_env \<Rightarrow> string \<Rightarrow> unit manager_op" where
  "push_failure env msg = modify (\<lambda>s. s\<lparr>
     m_failures := drop (Suc (length (m_failures s)) - me_history env) (m_failures s @ [msg]),
     m_last_error := Some msg\<rparr>)"

definition release_warm_slot :: "manager_env \<Rightarrow> nat \<Rightarrow> unit manager_op" where
  "release_warm_slot env sid =
     whenm (me_has_pool env)
     (bindm (gets (\<lambda>s. map_of (m_warm_sessions s) sid)) (\<lambda>wid.
      thenm (modify (\<lambda>s. s\<lparr>m_warm_sessions := AList.delete sid (m_warm_sessions s)\<rparr>))
      (case wid of None \<Rightarrow> ret ()
       | Some w \<Rightarrow>
           catchm (thenm (on_pool (release_slot (me_pool_env env) w)) (ret ()))
             (\<lambda>e. case e of
                WarmPoolProvisioningError m c \<Rightarrow> thenm (push_failure env (exn_text e)) (raise e)
              | _ \<Rightarrow> raise e))))"

section \<open>Bookkeeping\<close>

abbreviation dead :: "session \<Rightarrow> bool" where
  "dead s \<equiv> s_status s = Some DEAD"

text \<open>The idle deadline of a session; a missing field raises.\<close>

definition idle_expiry :: "session \<Rightarrow> datetime res" where
  "idle_expiry s = (case (s_last_seen_at s, s_idle_ttl s) of
     (Some seen, Some ttl) \<Rightarrow> Inr (dt_add_seconds seen ttl)
   | _ \<Rightarrow> Inl TypeError)"

fun next_idle_expiry :: "datetime option \<Rightarrow> session list \<Rightarrow> datetime option res" where
  "next_idle_expiry nxt [] = Inr nxt"
| "next_idle_expiry nxt (s # rest) =
     (if dead s then next_idle_expiry nxt rest
      else res_bind (idle_expiry s) (\<lambda>candidate.
        case nxt of None \<Rightarrow> next_idle_expiry (Some candidate) rest
        | Some n \<Rightarrow> res_bind (dt_less candidate n) (\<lambda>sooner.
            next_idle_expiry (if sooner then Some candidate else nxt) rest)))"

definition session_list :: "manager \<Rightarrow> session list" where
  "session_list s = map snd (m_sessions s)"

definition recalculate_next_idle_expiry :: "unit manager_op" where
  "recalculate_next_idle_expiry =
     bindm (gets (\<lambda>s. next_idle_expiry None (session_list s))) (\<lambda>r.
     bindm (lift_res r) (\<lambda>n. modify (\<lambda>s. s\<lparr>m_next_expiry := n\<rparr>)))"

definition recalculate_active_sessions ::
  "session_status option \<Rightarrow> session_status option \<Rightarrow> unit manager_op" where
  "recalculate_active_sessions previous current =
     (let was_active = previous \<noteq> Some DEAD; is_active = current \<noteq> Some DEAD in
      thenm (modify (\<lambda>s.
        if was_active \<and> \<not> is_active then s\<lparr>m_active := m_active s - 1\<rparr>
        else if \<not> was_active \<and> is_active then s\<lparr>m_active := m_active s + 1\<rparr>
        else s)) set_active_gauge)"

definition publish ::
  "manager_env \<Rightarrow> session \<Rightarrow> session_event_type \<Rightarrow> string option \<Rightarrow> unit manager_op" where
  "publish env session ty reason =
     bindm (read_clock env) (\<lambda>now.
     bindm (gets m_publishes) (\<lambda>n.
     bindm (lift_res (validate_session_event
       \<lparr>ev_id = n, ev_type = ty, ev_session = session, ev_occurred_at = now, ev_reason = reason\<rparr>)) (\<lambda>ev.
     thenm (modify (\<lambda>s. s\<lparr>m_publishes := Suc n\<rparr>))
     (case me_publish env n of
        Some e \<Rightarrow> raise e
      | None \<Rightarrow> modify (\<lambda>s. s\<lparr>m_events := m_events s @ [ev]\<rparr>)))))"

definition should_cleanup_browser :: "session \<Rightarrow> session \<Rightarrow> bool" where
  "should_cleanup_browser previous current =
     (if s_id previous \<noteq> s_id current then False
      else case s_ws_endpoint previous of None \<Rightarrow> False
      | Some p \<Rightarrow> if dead current then True else s_ws_endpoint current \<noteq> Some p)"

definition should_cleanup_vnc :: "manager \<Rightarrow> session \<Rightarrow> session \<Rightarrow> bool" where
  "should_cleanup_vnc m previous current =
     (if s_id previous \<noteq> s_id current then False
      else if map_of (m_vnc_handles m) (s_id previous) = None then False
      else if dead current then True
      else if s_headless current = Some True then True
      else s_vnc current = None \<or> s_vnc_enabled current \<noteq> Some True)"

definition shutdown_browser :: "manager_env \<Rightarrow> nat \<Rightarrow> bool \<Rightarrow> unit manager_op" where
  "shutdown_browser env sid force =
     bindm (gets (\<lambda>s. map_of (m_warm_sessions s) sid)) (\<lambda>warm.
     bindm (gets (\<lambda>s. map_of (m_handles s) sid)) (\<lambda>handle.
     thenm (modify (\<lambda>s. s\<lparr>m_handles := AList.delete sid (m_handles s)\<rparr>))
     (case handle of None \<Rightarrow> ret ()
      | Some h \<Rightarrow> if warm \<noteq> None then ret ()
          else on_pool (procs_op (shutdown (pe_os (me_pool_env env)) force h)))))"

section \<open>Creating a session\<close>

text \<open>Giving back the browser of a session that was not stored.\<close>

definition undo_browser :: "manager_env \<Rightarrow> string option \<Rightarrow> browser_handle \<Rightarrow> unit manager_op" where
  "undo_browser env wid h = (case wid of
     Some w \<Rightarrow> cancel_warm_reservation env w
   | None \<Rightarrow> safe_shutdown_cold_browser env h)"

definition undo_create ::
  "manager_env \<Rightarrow> nat \<Rightarrow> string option \<Rightarrow> browser_handle \<Rightarrow> vnc_handle option \<Rightarrow> exn \<Rightarrow> 'a manager_op" where
  "undo_create env sid wid h vh e =
     thenm (undo_browser env wid h) (thenm (discard_vnc_handle env sid vh) (raise e))"

definition created_session ::
  "manager_env \<Rightarrow> create_payload \<Rightarrow> nat \<Rightarrow> datetime \<Rightarrow> browser_acquisition \<Rightarrow> vnc_details option \<Rightarrow>
    workstation_meta option \<Rightarrow> session res" where
  "created_session env cp sid now acq details meta =
     (let snapshot = map_option rv_snapshot (ba_reservation acq);
          metadata = dict_setdefault ''runner_browser_pid'' (PInt (bh_pid (ba_handle acq))) (ba_metadata acq);
          vnc_enabled = (case cp_vnc_enabled cp of
            None \<Rightarrow> details \<noteq> None \<and> \<not> cp_headless cp | Some b \<Rightarrow> b);
          vnc_enabled = (if cp_headless cp \<or> details = None then False else vnc_enabled)
      in validate_session
        \<lparr>s_id = sid, s_runner_id = me_runner_id env, s_status = Some (cp_status cp), s_created_at = now,
         s_last_seen_at = Some now, s_ended_at = None, s_start_url = cp_start_url cp,
         s_start_url_wait = Some (cp_start_url_wait cp), s_headless = Some (cp_headless cp),
         s_idle_ttl = Some (cp_idle_ttl cp), s_browser = Some (cp_browser cp), s_labels = cp_labels cp,
         s_ws_endpoint = Some (bh_ws_endpoint (ba_handle acq)), s_ws_public_endpoint = None,
         s_proxy = map_option ProxyModel (cp_proxy cp), s_vnc = details, s_vnc_enabled = Some vnc_enabled,
         s_metadata = metadata,
         s_workstation_id = map_option sn_workstation_id snapshot,
         s_workstation_fingerprint_id = (case snapshot of None \<Rightarrow> None | Some sn \<Rightarrow> sn_fingerprint sn),
         s_workstation = meta\<rparr>)"

definition mark_session_busy ::
  "manager_env \<Rightarrow> nat \<Rightarrow> string option \<Rightarrow> browser_handle \<Rightarrow> vnc_handle option \<Rightarrow> session \<Rightarrow> session manager_op" where
  "mark_session_busy env sid wid h vh session = (case wid of
     None \<Rightarrow> ret session
   | Some w \<Rightarrow>
       bindm (catchm (mark_warm_slot_busy env w)
         (\<lambda>e. case e of SessionCapacityError _ \<Rightarrow> undo_create env sid wid h vh e | _ \<Rightarrow> raise e)) (\<lambda>sn.
       bindm (lift_res (session_workstation_meta env sn None)) (\<lambda>meta.
       ret (session\<lparr>s_workstation := Some meta,
         s_workstation_fingerprint_id := (case sn_fingerprint sn of
            None \<Rightarrow> s_workstation_fingerprint_id session | Some f \<Rightarrow> Some f)\<rparr>))))"

definition store_session ::
  "nat \<Rightarrow> session \<Rightarrow> browser_handle \<Rightarrow> string option \<Rightarrow> vnc_handle option \<Rightarrow> unit manager_op" where
  "store_session sid session h wid vh =
     thenm (modify (\<lambda>s. s\<lparr>m_sessions := AList.update sid session (m_sessions s),
       m_handles := AList.update sid h (m_handles s),
       m_warm_sessions := (case wid of None \<Rightarrow> m_warm_sessions s
         | Some w \<Rightarrow> AList.update sid w (m_warm_sessions s)),
       m_vnc_handles := (case vh of None \<Rightarrow> m_vnc_handles s
         | Some v \<Rightarrow> AList.update sid v (m_vnc_handles s))\<rparr>))
     (thenm set_vnc_gauge
     (thenm recalculate_next_idle_expiry
     (whenm (\<not> dead session)
       (thenm (modify (\<lambda>s. s\<lparr>m_active := Suc (m_active s)\<rparr>)) set_active_gauge))))"

text \<open>The handler of a failed publication: forget the session and give everything back.\<close>

definition rollback_session ::
  "manager_env \<Rightarrow> nat \<Rightarrow> session \<Rightarrow> vnc_handle option \<Rightarrow> exn \<Rightarrow> unit manager_op" where
  "rollback_session env sid session vh e =
     thenm (modify (\<lambda>s. s\<lparr>m_sessions := AList.delete sid (m_sessions s)\<rparr>))
     (bindm (gets (\<lambda>s. map_of (m_handles s) sid)) (\<lambda>h.
     thenm (modify (\<lambda>s. s\<lparr>m_handles := AList.delete sid (m_handles s)\<rparr>))
     (bindm (gets (\<lambda>s. map_of (m_warm_sessions s) sid)) (\<lambda>warm.
     thenm (whenm (\<not> dead session) (modify (\<lambda>s. s\<lparr>m_active := m_active s - 1\<rparr>)))
     (thenm set_active_gauge
     (thenm (bindm (gets (\<lambda>s. map_of (m_vnc_handles s) sid)) (\<lambda>stored.
        suppress (if stored \<noteq> None then release_vnc_handle env sid else discard_vnc_handle env sid vh)))
     (thenm (suppress (if warm \<noteq> None then release_warm_slot env sid
        else case h of Some h \<Rightarrow> safe_shutdown_cold_browser env h | None \<Rightarrow> ret ()))
     (thenm set_vnc_gauge
     (thenm recalculate_next_idle_expiry (raise e))))))))))"

definition finish_create ::
  "manager_env \<Rightarrow> create_payload \<Rightarrow> nat \<Rightarrow> datetime \<Rightarrow> vnc_details option \<Rightarrow> vnc_handle option \<Rightarrow>
    browser_acquisition \<Rightarrow> session manager_op" where
  "finish_create env cp sid now details vh acq =
     (let wid = map_option (\<lambda>rv. sn_workstation_id (rv_snapshot rv)) (ba_reservation acq); h = ba_handle acq in
     bindm (case ba_reservation acq of None \<Rightarrow> ret None
       | Some rv \<Rightarrow> bindm (lift_res (session_workstation_meta env (rv_snapshot rv) None)) (\<lambda>m. ret (Some m))) (\<lambda>meta.
     bindm (catchm (lift_res (created_session env cp sid now acq details meta))
        (\<lambda>e. undo_create env sid wid h vh e)) (\<lambda>session.
     bindm (mark_session_busy env sid wid h vh session) (\<lambda>session.
     thenm (store_session sid session h wid vh)
     (thenm (catchm (publish env session EvCREATED None) (\<lambda>e. rollback_session env sid session vh e))
     (ret session))))))"

definition create_session :: "manager_env \<Rightarrow> create_payload \<Rightarrow> session manager_op" where
  "create_session env cp =
     bindm new_session_id (\<lambda>sid.
     bindm (read_clock env) (\<lambda>now.
     bindm (resolve_vnc env cp (sanitize_vnc_payload (cp_vnc cp))) (\<lambda>(details, vh).
     bindm (catchm (acquire_browser_handle env cp (cp_metadata cp) vh)
       (\<lambda>e. thenm (discard_vnc_handle env sid vh) (raise e))) (\<lambda>acq.
     finish_create env cp sid now details vh acq))))"

section \<open>Updating and ending a session\<close>

definition set_or :: "'a option \<Rightarrow> 'a \<Rightarrow> 'a" where
  "set_or v old = (case v of None \<Rightarrow> old | Some x \<Rightarrow> x)"

definition merge_field :: "('k, 'v) dict option option \<Rightarrow> ('k, 'v) dict \<Rightarrow> ('k, 'v) dict" where
  "merge_field v old = (case v of Some (Some d) \<Rightarrow> dict_merge old d | _ \<Rightarrow> old)"

text \<open>
  The copy of a session with the fields of an update, the times filled in from the clock. The
  copy is not validated.
\<close>

definition updated_session ::
  "session \<Rightarrow> update_payload \<Rightarrow> bool \<Rightarrow> datetime option \<Rightarrow> datetime option \<Rightarrow> session" where
  "updated_session existing up release_warm seen ended =
     (let ends = (up_status up = Some (Some DEAD));
          ws = (if ends \<and> up_ws_endpoint up = None then Some None else up_ws_endpoint up);
          next_headless = (case up_headless up of Some (Some b) \<Rightarrow> Some b | _ \<Rightarrow> s_headless existing);
          next_vnc = set_or (map_option sanitize_vnc_payload (up_vnc up)) (s_vnc existing)
      in existing\<lparr>
        s_status := set_or (up_status up) (s_status existing),
        s_last_seen_at := set_or (if up_last_seen_at up = None then Some seen else up_last_seen_at up)
          (s_last_seen_at existing),
        s_ended_at := (if ends \<and> (up_ended_at up = None \<or> up_ended_at up = Some None) then ended
          else set_or (up_ended_at up) (s_ended_at existing)),
        s_headless := set_or (up_headless up) (s_headless existing),
        s_idle_ttl := set_or (up_idle_ttl up) (s_idle_ttl existing),
        s_start_url := set_or (up_start_url up) (s_start_url existing),
        s_start_url_wait := set_or (up_start_url_wait up) (s_start_url_wait existing),
        s_browser := set_or (up_browser up) (s_browser existing),
        s_labels := merge_field (up_labels up) (s_labels existing),
        s_ws_endpoint := set_or ws (s_ws_endpoint existing),
        s_proxy := set_or (map_option (map_option ProxyDict) (up_proxy up)) (s_proxy existing),
        s_vnc := next_vnc,
        s_vnc_enabled := (if next_headless = Some True \<or> next_vnc = None then Some False
          else set_or (up_vnc_enabled up) (s_vnc_enabled existing)),
        s_metadata := merge_field (up_metadata up) (s_metadata existing),
        s_workstation_id := (if release_warm then None else s_workstation_id existing),
        s_workstation_fingerprint_id := (if release_warm then None else s_workstation_fingerprint_id existing),
        s_workstation := (if release_warm then None else s_workstation existing)\<rparr>)"

text \<open>The clock is read only where the update leaves a time open.\<close>

definition clock_if :: "manager_env \<Rightarrow> bool \<Rightarrow> datetime option manager_op" where
  "clock_if env b = (if b then bindm (read_clock env) (\<lambda>t. ret (Some t)) else ret None)"

definition update_effects ::
  "manager_env \<Rightarrow> nat \<Rightarrow> session \<Rightarrow> session \<Rightarrow> bool \<Rightarrow> string option \<Rightarrow> session manager_op" where
  "update_effects env sid existing session warm_tracked reason =
     thenm (modify (\<lambda>s. s\<lparr>m_sessions := AList.update sid session (m_sessions s)\<rparr>))
     (thenm (recalculate_active_sessions (s_status existing) (s_status session))
     (thenm recalculate_next_idle_expiry
     (thenm (whenm (should_cleanup_browser existing session) (shutdown_browser env sid (dead session)))
     (bindm (gets (\<lambda>s. should_cleanup_vnc s existing session)) (\<lambda>vnc.
     thenm (whenm vnc (release_vnc_handle env sid))
     (thenm (whenm (\<not> dead existing \<and> dead session \<and> warm_tracked) (release_warm_slot env sid))
     (thenm (publish env session (if dead session then EvENDED else EvUPDATED) reason)
     (ret session))))))))"

definition update_session :: "manager_env \<Rightarrow> nat \<Rightarrow> update_payload \<Rightarrow> session manager_op" where
  "update_session env sid up =
     bindm (gets (\<lambda>s. map_of (m_sessions s) sid)) (\<lambda>found. case found of
       None \<Rightarrow> raise SessionNotFoundError
     | Some existing \<Rightarrow>
         bindm (gets (\<lambda>s. map_of (m_warm_sessions s) sid \<noteq> None)) (\<lambda>warm_tracked.
         bindm (clock_if env (up_last_seen_at up = None)) (\<lambda>seen.
         bindm (clock_if env (up_status up = Some (Some DEAD) \<and>
             (up_ended_at up = None \<or> up_ended_at up = Some None))) (\<lambda>ended.
         update_effects env sid existing
           (updated_session existing up
             (warm_tracked \<and> \<not> dead existing \<and> up_status up = Some (Some DEAD)) seen ended)
           warm_tracked (set_or (up_reason up) None)))))"

definition end_payload :: "string option \<Rightarrow> datetime option \<Rightarrow> update_payload" where
  "end_payload reason ended_at = no_update\<lparr>up_status := Some (Some DEAD), up_ended_at := Some ended_at,
     up_vnc_enabled := Some (Some False), up_reason := Some reason, up_vnc := Some None,
     up_ws_endpoint := Some None\<rparr>"

definition end_session ::
  "manager_env \<Rightarrow> nat \<Rightarrow> string option \<Rightarrow> datetime option \<Rightarrow> session manager_op" where
  "end_session env sid reason ended_at = update_session env sid (end_payload reason ended_at)"

definition touch_session :: "manager_env \<Rightarrow> nat \<Rightarrow> session manager_op" where
  "touch_session env sid =
     bindm (read_clock env) (\<lambda>now. update_session env sid (no_update\<lparr>up_last_seen_at := Some (Some now)\<rparr>))"

definition get_session :: "nat \<Rightarrow> session manager_op" where
  "get_session sid = bindm (gets (\<lambda>s. map_of (m_sessions s) sid)) (\<lambda>found.
     case found of None \<Rightarrow> raise SessionNotFoundError | Some s \<Rightarrow> ret s)"

definition list_sessions :: "session list manager_op" where
  "list_sessions = gets session_list"

section \<open>Diagnostics\<close>

record manager_metrics =
  mm_active_sessions :: nat
  mm_failures :: "string list"
  mm_last_error :: "string option"
  mm_next_expiry :: "datetime option"
  mm_reaper_runs :: nat
  mm_reaper_expired :: nat
  mm_reaper_last :: "datetime option"

definition prewarm_failure_count :: "manager_metrics \<Rightarrow> nat" where
  "prewarm_failure_count m = length (mm_failures m)"

definition record_prewarm_failure :: "manager_env \<Rightarrow> string \<Rightarrow> unit manager_op" where
  "record_prewarm_failure env msg = push_failure env msg"

definition reset_prewarm_failures :: "unit manager_op" where
  "reset_prewarm_failures = modify (\<lambda>s. s\<lparr>m_failures := [], m_last_error := None\<rparr>)"

definition get_metrics :: "manager_metrics manager_op" where
  "get_metrics = gets (\<lambda>s. \<lparr>mm_active_sessions = m_active s, mm_failures = m_failures s,
     mm_last_error = m_last_error s, mm_next_expiry = m_next_expiry s,
     mm_reaper_runs = m_reaper_runs s, mm_reaper_expired = m_reaper_expired s,
     mm_reaper_last = m_reaper_last s\<rparr>)"

definition get_warm_pool_statistics :: "manager_env \<Rightarrow> manager \<Rightarrow> warm_statistics option" where
  "get_warm_pool_statistics env s = (if me_has_pool env then Some (get_statistics (m_pool s)) else None)"

section \<open>The idle reaper\<close>

text \<open>One pass over the sessions: the expired ones in order, and the next deadline of the others.\<close>

fun scan_expired ::
  "datetime \<Rightarrow> nat list \<Rightarrow> datetime option \<Rightarrow> session list \<Rightarrow> (nat list \<times> datetime option) res" where
  "scan_expired now expired nxt [] = Inr (expired, nxt)"
| "scan_expired now expired nxt (s # rest) =
     (if dead s then scan_expired now expired nxt rest
      else res_bind (idle_expiry s) (\<lambda>candidate.
        res_bind (dt_le candidate now) (\<lambda>due.
          if due then scan_expired now (expired @ [s_id s]) nxt rest
          else case nxt of None \<Rightarrow> scan_expired now expired (Some candidate) rest
            | Some n \<Rightarrow> res_bind (dt_less candidate n) (\<lambda>sooner.
                scan_expired now expired (if sooner then Some candidate else nxt) rest))))"

fun end_expired :: "manager_env \<Rightarrow> datetime \<Rightarrow> nat list \<Rightarrow> nat \<Rightarrow> nat manager_op" where
  "end_expired env now [] ended = ret ended"
| "end_expired env now (sid # rest) ended =
     bindm (attempt (end_session env sid (Some ''idle-timeout'') (Some now))) (\<lambda>r. case r of
       Inr _ \<Rightarrow> end_expired env now rest (Suc ended)
     | Inl e \<Rightarrow> if e = SessionNotFoundError then end_expired env now rest ended else raise e)"

definition reap_expired_sessions :: "manager_env \<Rightarrow> nat manager_op" where
  "reap_expired_sessions env =
     bindm (read_clock env) (\<lambda>now.
     bindm (gets (\<lambda>s. scan_expired now [] None (session_list s))) (\<lambda>r.
     bindm (lift_res r) (\<lambda>(expired, nxt).
     thenm (modify (\<lambda>s. s\<lparr>m_next_expiry := nxt, m_reaper_runs := Suc (m_reaper_runs s),
       m_reaper_last := Some now\<rparr>))
     (bindm (end_expired env now expired 0) (\<lambda>ended.
      thenm (modify (\<lambda>s. s\<lparr>m_reaper_expired := m_reaper_expired s + ended\<rparr>)) (ret ended))))))"

section \<open>Starting and stopping\<close>

definition start_manager :: "manager_env \<Rightarrow> unit manager_op" where
  "start_manager env =
     thenm (whenm (me_has_pool env) (start_warm_pool env))
     (bindm (gets m_reaper_on) (\<lambda>running.
      if running then ret () else modify (\<lambda>s. s\<lparr>m_reaper_on := True\<rparr>)))"

definition stop_manager :: "manager_env \<Rightarrow> unit manager_op" where
  "stop_manager env =
     bindm (gets (\<lambda>s. filter (\<lambda>sid. map_of (m_warm_sessions s) sid = None) (map fst (m_handles s)))) (\<lambda>cold.
     thenm (modify (\<lambda>s. s\<lparr>m_reaper_on := False, m_warm_started := False\<rparr>))
     (thenm (for_each cold (\<lambda>sid. shutdown_browser env sid True))
     (thenm (modify (\<lambda>s. s\<lparr>m_handles := []\<rparr>))
     (thenm (whenm (me_has_pool env)
        (thenm (on_pool (drain (me_pool_env env))) (modify (\<lambda>s. s\<lparr>m_warm_sessions := []\<rparr>))))
     (shutdown_all_vnc env)))))"

end
