(* ===== verification/Warm_Pool_Inv.thy ===== *)
theory Warm_Pool_Inv
  imports Warm_Pool
begin

text \<open>
  The invariant of the warm pool and its preservation by every operation, on the paths that raise
  as well as on those that return: browsers and slot states correspond, no process or temporary
  directory is left without a slot, and the gauges show the slots. \<open>mid\<close> is the same statement
  while an operation works on one slot: the other slots are fixed and the processes in transit
  are accounted for explicitly.
\<close>

section \<open>Views of the state\<close>

abbreviation look :: "warm_pool \<Rightarrow> string \<Rightarrow> warm_slot option" where
  "look s \<equiv> map_of (wp_slots s)"

abbreviation live :: "warm_pool \<Rightarrow> nat set" where
  "live s \<equiv> pw_live (wp_procs s)"

text \<open>
  The processes that may outlive their owner: the operating system refuses to kill them, or their
  launch broke off with an exception the launcher does not handle (\<open>breaks_off\<close>).
\<close>

definition left_behind :: "pool_env \<Rightarrow> nat set" where
  "left_behind env = {p. unkillable (pe_os env) p \<or> breaks_off (pe_os env) p}"

definition holding :: "warm_state \<Rightarrow> bool" where
  "holding st = (st \<in> {WarmIDLE, WarmRESERVED, WarmBUSY})"

definition procs_of :: "browser_handle option \<Rightarrow> nat set" where
  "procs_of ho = (case ho of None \<Rightarrow> {} | Some h \<Rightarrow> {bh_process h})"

definition owned_except :: "string \<Rightarrow> (string \<Rightarrow> warm_slot option) \<Rightarrow> nat set" where
  "owned_except wid K = {p. \<exists>w sl. w \<noteq> wid \<and> K w = Some sl \<and> p \<in> procs_of (ws_handle sl)}"

definition owned :: "(string \<Rightarrow> warm_slot option) \<Rightarrow> nat set" where
  "owned K = {p. \<exists>w sl. K w = Some sl \<and> p \<in> procs_of (ws_handle sl)}"

definition dirs_except :: "string \<Rightarrow> (string \<Rightarrow> warm_slot option) \<Rightarrow> nat set" where
  "dirs_except wid K = {d. \<exists>w sl. w \<noteq> wid \<and> K w = Some sl \<and> ws_temp_dir sl = Some d}"

definition dirs_of :: "(string \<Rightarrow> warm_slot option) \<Rightarrow> nat set" where
  "dirs_of K = {d. \<exists>w sl. K w = Some sl \<and> ws_temp_dir sl = Some d}"

definition gauges_ok :: "warm_pool \<Rightarrow> bool" where
  "gauges_ok s = (wp_gauges s = collect_state_counts (wp_slots s))"

definition slot_ok :: "nat set \<Rightarrow> (string \<Rightarrow> warm_slot option) \<Rightarrow> string \<Rightarrow> warm_slot \<Rightarrow> bool" where
  "slot_ok C K w sl =
     (wc_id (ws_workstation sl) = w \<and> (ws_handle sl \<noteq> None \<longleftrightarrow> holding (ws_state sl)) \<and>
      procs_of (ws_handle sl) \<inter> (C \<union> owned_except w K) = {})"

text \<open>\<open>C\<close> is the set of the processes the rest of the runner owns.\<close>

definition pool_inv :: "pool_env \<Rightarrow> nat set \<Rightarrow> warm_pool \<Rightarrow> bool" where
  "pool_inv env C s =
     (world_ok (wp_procs s) \<and> dict_ok (wp_slots s) \<and>
      (\<forall>w sl. look s w = Some sl \<longrightarrow> slot_ok C (look s) w sl) \<and>
      owned (look s) \<union> C \<subseteq> live s \<and> live s \<subseteq> owned (look s) \<union> C \<union> left_behind env \<and>
      wp_dirs s \<subseteq> dirs_of (look s) \<and> gauges_ok s)"

definition mid0 :: "pool_env \<Rightarrow> nat set \<Rightarrow> string \<Rightarrow> workstation_entry \<Rightarrow>
    (string \<Rightarrow> warm_slot option) \<Rightarrow> browser_handle option \<Rightarrow> nat set \<Rightarrow> warm_pool \<Rightarrow> bool" where
  "mid0 env C wid E K H X s =
     (world_ok (wp_procs s) \<and> dict_ok (wp_slots s) \<and>
      (\<forall>w. w \<noteq> wid \<longrightarrow> look s w = K w) \<and>
      (\<exists>sl. look s wid = Some sl \<and> ws_workstation sl = E \<and> ws_handle sl = H \<and>
         wp_dirs s \<subseteq> dirs_except wid K \<union> set_option (ws_temp_dir sl)) \<and>
      C \<union> owned_except wid K \<union> X \<subseteq> live s \<and>
      live s \<subseteq> C \<union> owned_except wid K \<union> X \<union> left_behind env \<and>
      X \<inter> (C \<union> owned_except wid K) = {})"

definition mid :: "pool_env \<Rightarrow> nat set \<Rightarrow> string \<Rightarrow> workstation_entry \<Rightarrow>
    (string \<Rightarrow> warm_slot option) \<Rightarrow> browser_handle option \<Rightarrow> nat set \<Rightarrow> warm_pool \<Rightarrow> bool" where
  "mid env C wid E K H X s = (mid0 env C wid E K H X s \<and> gauges_ok s)"

lemma procs_of_simps [simp]: "procs_of None = {}" "procs_of (Some h) = {bh_process h}"
  by (simp_all add: procs_of_def)

lemma owned_split:
  "K wid = Some sl \<Longrightarrow> owned K = owned_except wid K \<union> procs_of (ws_handle sl)"
  by (auto simp: owned_def owned_except_def) (metis option.inject)

lemma owned_none: "K wid = None \<Longrightarrow> owned K = owned_except wid K"
  by (auto simp: owned_def owned_except_def) (metis option.distinct(1))

lemma dirs_split:
  "K wid = Some sl \<Longrightarrow> dirs_of K = dirs_except wid K \<union> set_option (ws_temp_dir sl)"
  by (auto simp: dirs_of_def dirs_except_def) (metis option.inject)

lemma dirs_none: "K wid = None \<Longrightarrow> dirs_of K = dirs_except wid K"
  by (auto simp: dirs_of_def dirs_except_def) (metis option.distinct(1))

lemma owned_except_cong: "(\<And>w. w \<noteq> wid \<Longrightarrow> K w = K' w) \<Longrightarrow> owned_except wid K = owned_except wid K'"
  by (auto simp: owned_except_def)

lemma dirs_except_cong: "(\<And>w. w \<noteq> wid \<Longrightarrow> K w = K' w) \<Longrightarrow> dirs_except wid K = dirs_except wid K'"
  by (auto simp: dirs_except_def)

lemma map_of_map_entry [simp]:
  "map_of (AList.map_entry k f d) = (\<lambda>w. if w = k then map_option f (map_of d k) else map_of d w)"
  by (induction d) (auto simp: fun_eq_iff)

lemma map_fst_map_entry [simp]: "map fst (AList.map_entry k f d) = map fst d"
  by (induction d) auto

lemma dict_ok_map_entry [simp]: "dict_ok (AList.map_entry k f d) = dict_ok d"
  by (simp only: map_fst_map_entry)

section \<open>Counting\<close>

definition in_state :: "(warm_state \<Rightarrow> bool) \<Rightarrow> (string, warm_slot) dict \<Rightarrow> nat" where
  "in_state p slots = length (filter (\<lambda>(_, sl). p (ws_state sl)) slots)"

lemma count_slots_spec:
  "count_slots (map snd slots) (i, b, e) =
    (i + in_state (\<lambda>st. st = WarmIDLE) slots,
     b + in_state (\<lambda>st. st \<in> {WarmRESERVED, WarmBUSY, WarmRECYCLING, WarmDRAINING}) slots,
     e + in_state (\<lambda>st. st = WarmERROR) slots)"
proof (induction slots arbitrary: i b e)
  case Nil
  then show ?case by (simp add: in_state_def)
next
  case (Cons kv slots)
  obtain k sl where kv: "kv = (k, sl)" by force
  show ?case
    using Cons by (cases "ws_state sl") (simp_all add: kv in_state_def)
qed

lemma collect_counts_spec:
  "collect_state_counts slots =
    (length slots, in_state (\<lambda>st. st = WarmIDLE) slots,
     in_state (\<lambda>st. st \<in> {WarmRESERVED, WarmBUSY, WarmRECYCLING, WarmDRAINING}) slots,
     in_state (\<lambda>st. st = WarmERROR) slots)"
  by (simp add: collect_state_counts_def count_slots_spec)

lemma in_state_map_entry:
  "(\<And>sl. ws_state (f sl) = ws_state sl) \<Longrightarrow> in_state p (AList.map_entry w f slots) = in_state p slots"
  by (induction slots) (auto simp: in_state_def)

lemma counts_map_entry:
  "(\<And>sl. ws_state (f sl) = ws_state sl) \<Longrightarrow>
    collect_state_counts (AList.map_entry w f slots) = collect_state_counts slots"
  by (simp add: collect_counts_spec in_state_map_entry)
    (metis length_map map_fst_map_entry)

text \<open>Every slot is idle, busy or in error: the three counts add up to the total.\<close>

lemma counts_total:
  "collect_state_counts slots = (tot, idle, busy, err) \<Longrightarrow> tot = idle + busy + err"
proof -
  have "length slots = in_state (\<lambda>st. st = WarmIDLE) slots +
     in_state (\<lambda>st. st \<in> {WarmRESERVED, WarmBUSY, WarmRECYCLING, WarmDRAINING}) slots +
     in_state (\<lambda>st. st = WarmERROR) slots"
  proof (induction slots)
    case Nil
    then show ?case by (simp add: in_state_def)
  next
    case (Cons kv slots)
    obtain k sl where kv: "kv = (k, sl)" by force
    show ?case using Cons by (cases "ws_state sl") (simp_all add: kv in_state_def)
  qed
  then show "collect_state_counts slots = (tot, idle, busy, err) \<Longrightarrow> tot = idle + busy + err"
    by (simp add: collect_counts_spec)
qed

section \<open>Steps that leave the slots alone\<close>

definition same_core :: "warm_pool \<Rightarrow> warm_pool \<Rightarrow> bool" where
  "same_core s t = (wp_procs t = wp_procs s \<and> wp_slots t = wp_slots s \<and> wp_dirs t = wp_dirs s \<and>
     wp_gauges t = wp_gauges s \<and> wp_draining t = wp_draining s)"

definition quiet :: "'a pool_op \<Rightarrow> bool" where
  "quiet m = (\<forall>s. same_core s (snd (m s)))"

lemma same_core_refl [simp]: "same_core s s"
  by (simp add: same_core_def)

lemma same_core_inv: "same_core s t \<Longrightarrow> pool_inv env C t = pool_inv env C s"
  by (simp add: same_core_def pool_inv_def gauges_ok_def)

lemma same_core_mid: "same_core s t \<Longrightarrow> mid env C wid E K H X t = mid env C wid E K H X s"
  by (simp add: same_core_def mid_def mid0_def gauges_ok_def)

lemma same_core_look: "same_core s t \<Longrightarrow> wp_slots t = wp_slots s"
  by (simp add: same_core_def)

lemma wp_quiet:
  "quiet m \<Longrightarrow> (\<And>x t. same_core s t \<Longrightarrow> Q x t) \<Longrightarrow> (\<And>e t. same_core s t \<Longrightarrow> E e t) \<Longrightarrow> wp m Q E s"
proof -
  assume q: "quiet m" and Q: "\<And>x t. same_core s t \<Longrightarrow> Q x t" and E: "\<And>e t. same_core s t \<Longrightarrow> E e t"
  obtain r t where run: "m s = (r, t)" by force
  with q have "same_core s t" by (metis quiet_def snd_conv)
  with Q E run show "wp m Q E s" by (simp add: wp_def split: sum.splits)
qed

lemma quietI: "(\<And>s. wp m (\<lambda>_. same_core s) (\<lambda>_. same_core s) s) \<Longrightarrow> quiet m"
proof -
  assume w: "\<And>s. wp m (\<lambda>_. same_core s) (\<lambda>_. same_core s) s"
  have "same_core s (snd (m s))" for s
    using w [of s] by (cases "m s") (auto simp: wp_def split: sum.splits)
  then show "quiet m" by (simp add: quiet_def)
qed

lemma publish_quiet: "quiet (publish_event env sn ty reason metadata)"
  by (rule quietI) (auto simp: publish_event_def wp_simps same_core_def split: sum.splits option.splits)

lemma emit_state_change_quiet: "quiet (emit_state_change env sn reason metadata)"
  by (simp add: emit_state_change_def publish_quiet)

lemma require_slot_wp [wp_simps]:
  "wp (require_slot wid) Q E s = (case look s wid of Some sl \<Rightarrow> Q sl s
     | None \<Rightarrow> E (WarmPoolStateError (''unknown workstation '' @ quoted wid)) s)"
  by (simp add: wp_def require_slot_def split: option.splits)

lemma emit_recycled_quiet: "quiet (emit_recycled env wid sn reason)"
  by (rule quietI) (auto simp: emit_recycled_def wp_simps intro!: wp_quiet publish_quiet split: option.splits)

lemma emit_error_quiet: "quiet (emit_error env wid sn reason)"
  by (rule quietI) (auto simp: emit_error_def wp_simps intro!: wp_quiet publish_quiet split: option.splits)

lemma sleep_quiet: "quiet (sleep ms)"
  by (rule quietI) (simp add: sleep_def wp_simps same_core_def)

lemma maybe_prewarm_quiet: "quiet (maybe_prewarm env h)"
  by (rule quietI)
    (auto simp: maybe_prewarm_def wp_simps same_core_def sleep_def split: option.splits)

lemmas quiet_ops = publish_quiet emit_state_change_quiet emit_recycled_quiet emit_error_quiet
  sleep_quiet maybe_prewarm_quiet

lemmas emit_wps = wp_quiet [OF emit_state_change_quiet] wp_quiet [OF emit_recycled_quiet]
  wp_quiet [OF emit_error_quiet]

section \<open>One slot at a time\<close>

lemma mid0_slot:
  assumes "mid0 env C wid E K H X s" and "look s wid = Some sl"
  shows "ws_workstation sl = E" "ws_handle sl = H"
    "wp_dirs s \<subseteq> dirs_except wid K \<union> set_option (ws_temp_dir sl)"
  using assms by (auto simp: mid0_def)

lemma mid0_present: "mid0 env C wid E K H X s \<Longrightarrow> \<exists>sl. look s wid = Some sl"
  by (auto simp: mid0_def)

lemma mid0_set_slot:
  assumes "mid0 env C wid E K H X s"
    and "\<And>sl. ws_workstation (f sl) = ws_workstation sl" "\<And>sl. ws_temp_dir (f sl) = ws_temp_dir sl"
    and "\<And>sl. ws_handle sl = H \<Longrightarrow> ws_handle (f sl) = H'"
  shows "mid0 env C wid E K H' X (s\<lparr>wp_slots := AList.map_entry wid f (wp_slots s)\<rparr>)"
  using assms by (auto simp: mid0_def)

lemma mid_set_slot:
  assumes "mid env C wid E K H X s"
    and "\<And>sl. ws_workstation (f sl) = ws_workstation sl" "\<And>sl. ws_temp_dir (f sl) = ws_temp_dir sl"
    and "\<And>sl. ws_handle sl = H \<Longrightarrow> ws_handle (f sl) = H'" "\<And>sl. ws_state (f sl) = ws_state sl"
  shows "mid env C wid E K H' X (s\<lparr>wp_slots := AList.map_entry wid f (wp_slots s)\<rparr>)"
  using assms mid0_set_slot [of env C wid E K H X s f H']
  by (simp add: mid_def gauges_ok_def counts_map_entry)

lemma mid0_metrics:
  "mid0 env C wid E K H X s \<Longrightarrow>
    mid env C wid E K H X (s\<lparr>wp_gauges := collect_state_counts (wp_slots s)\<rparr>)"
  by (simp add: mid_def mid0_def gauges_ok_def)

lemma mid_mid0: "mid env C wid E K H X s \<Longrightarrow> mid0 env C wid E K H X s"
  by (simp add: mid_def)

lemma pool_inv_mid:
  assumes "pool_inv env C s" and sl: "look s wid = Some sl"
  shows "mid env C wid (ws_workstation sl) (look s) (ws_handle sl) (procs_of (ws_handle sl)) s"
  using assms owned_split [of "look s" wid sl, OF sl] dirs_split [of "look s" wid sl, OF sl]
  by (auto simp: pool_inv_def mid_def mid0_def slot_ok_def)

text \<open>An operation on one slot that ends well restores the invariant of all.\<close>

lemma mid_pool_inv:
  assumes m: "mid env C wid E K H (procs_of H) t" and sl: "look t wid = Some sl"
    and others: "\<And>w sl. w \<noteq> wid \<Longrightarrow> K w = Some sl \<Longrightarrow>
      wc_id (ws_workstation sl) = w \<and> (ws_handle sl \<noteq> None \<longleftrightarrow> holding (ws_state sl)) \<and>
      procs_of (ws_handle sl) \<inter> (C \<union> owned_except w (K(wid := None))) = {}"
    and E: "wc_id E = wid" and state: "H \<noteq> None \<longleftrightarrow> holding (ws_state sl)"
  shows "pool_inv env C t"
proof -
  have K: "look t w = K w" if "w \<noteq> wid" for w
    using m that by (auto simp: mid_def mid0_def)
  have oe: "owned_except wid (look t) = owned_except wid K"
    using K by (rule owned_except_cong)
  have de: "dirs_except wid (look t) = dirs_except wid K"
    using K by (rule dirs_except_cong)
  have mine: "ws_workstation sl = E" "ws_handle sl = H"
    using m sl by (auto simp: mid_def mid0_def)
  have X: "procs_of H \<inter> (C \<union> owned_except wid K) = {}"
    using m by (simp add: mid_def mid0_def)
  have ok: "slot_ok C (look t) w sl'" if w: "look t w = Some sl'" for w sl'
  proof (cases "w = wid")
    case True
    with w sl have "sl' = sl" by simp
    with True X state mine E show ?thesis by (simp add: slot_ok_def oe)
  next
    case False
    with w K have Kw: "K w = Some sl'" by simp
    have sub: "owned_except w (look t) \<subseteq> owned_except w (K(wid := None)) \<union> procs_of H"
    proof
      fix p assume "p \<in> owned_except w (look t)"
      then obtain v sv where v: "v \<noteq> w" "look t v = Some sv" "p \<in> procs_of (ws_handle sv)"
        by (auto simp: owned_except_def)
      show "p \<in> owned_except w (K(wid := None)) \<union> procs_of H"
        using v K [of v] sl mine by (cases "v = wid") (auto simp: owned_except_def)
    qed
    have "procs_of (ws_handle sl') \<subseteq> owned_except wid K"
      using Kw False by (auto simp: owned_except_def)
    with X others [OF False Kw] sub show ?thesis
      by (auto simp: slot_ok_def)
  qed
  show ?thesis
    using m ok owned_split [of "look t" wid sl, OF sl] dirs_split [of "look t" wid sl, OF sl] mine
    by (auto simp: pool_inv_def mid_def mid0_def oe de sl)
qed

lemma pool_inv_others:
  assumes "pool_inv env C s" "K w = Some sl" "\<And>w. w \<noteq> wid \<Longrightarrow> K w = look s w" "w \<noteq> wid"
  shows "wc_id (ws_workstation sl) = w \<and> (ws_handle sl \<noteq> None \<longleftrightarrow> holding (ws_state sl)) \<and>
      procs_of (ws_handle sl) \<inter> (C \<union> owned_except w (K(wid := None))) = {}"
proof -
  have "look s w = Some sl" using assms(2,3,4) by simp
  then have ok: "slot_ok C (look s) w sl" using assms(1) by (simp add: pool_inv_def)
  have "owned_except w (K(wid := None)) \<subseteq> owned_except w (look s)"
    using assms(3) by (auto simp: owned_except_def split: if_splits)
  with ok show ?thesis by (auto simp: slot_ok_def)
qed

lemma pool_inv_id: "pool_inv env C s \<Longrightarrow> look s wid = Some sl \<Longrightarrow> wc_id (ws_workstation sl) = wid"
  by (auto simp: pool_inv_def slot_ok_def)

text \<open>The shape of every transition proof: open one slot, work on it, close it.\<close>

lemma mid_close:
  assumes "pool_inv env C s" and "look s wid = Some sl0"
    and "mid env C wid (ws_workstation sl0) (look s) H (procs_of H) t"
    and "look t wid = Some sl" and "H \<noteq> None \<longleftrightarrow> holding (ws_state sl)"
  shows "pool_inv env C t"
  using assms(3,4) pool_inv_others [OF assms(1), of "look s"] pool_inv_id [OF assms(1,2)] assms(5)
  by (rule mid_pool_inv) auto

section \<open>Provisioning a slot\<close>

lemma mid_temp_dir:
  assumes "mid env C wid E K H X s" and "look s wid = Some sl" and "ws_temp_dir sl = None"
  shows "mid env C wid E K H X (s\<lparr>wp_next_dir := n, wp_dirs := insert d (wp_dirs s),
    wp_slots := AList.map_entry wid (\<lambda>sl. sl\<lparr>ws_temp_dir := Some d\<rparr>) (wp_slots s)\<rparr>)"
  using assms by (auto simp: mid_def mid0_def gauges_ok_def counts_map_entry)

lemma mid_next_dir: "mid env C wid E K H X (s\<lparr>wp_next_dir := n\<rparr>) = mid env C wid E K H X s"
  by (simp add: mid_def mid0_def gauges_ok_def)

lemma new_temp_dir_wp:
  assumes "mid env C wid E K H X s" and "look s wid = Some sl" and "ws_temp_dir sl = None"
    and "\<And>t. mid env C wid E K H X t \<Longrightarrow> Q () t" "\<And>e t. mid env C wid E K H X t \<Longrightarrow> Er e t"
  shows "wp (make_temp_dir env) (\<lambda>d. wp (set_slot wid (\<lambda>sl. sl\<lparr>ws_temp_dir := Some d\<rparr>)) Q Er) Er s"
  using assms mid_temp_dir [OF assms(1-3)]
  by (auto simp: make_temp_dir_def set_slot_def wp_simps mid_next_dir split: option.splits)

lemma build_launch_env_wp:
  assumes m: "mid env C wid E K H X s"
  shows "wp (build_launch_env env wid) (\<lambda>_. mid env C wid E K H X) (\<lambda>_. mid env C wid E K H X) s"
proof -
  obtain sl where sl: "look s wid = Some sl"
    using m mid0_present [OF mid_mid0] by blast
  have after: "wp (bindm (require_slot wid) (\<lambda>sl. ret (g sl))) (\<lambda>_. mid env C wid E K H X)
      (\<lambda>_. mid env C wid E K H X) t" if "mid env C wid E K H X t" for g t
    using that mid0_present [OF mid_mid0 [OF that]] by (auto simp: wp_simps)
  show ?thesis
  proof (cases "ws_temp_dir sl")
    case None
    show ?thesis
      unfolding build_launch_env_def Let_def
      by (simp only: wp_bindm [of "require_slot wid"] wp_thenm require_slot_wp sl option.case None
          wp_option wp_bindm [of "make_temp_dir env"])
        (rule new_temp_dir_wp [OF m sl None], simp_all add: after)
  next
    case (Some d)
    then show ?thesis
      using m by (simp add: build_launch_env_def Let_def wp_simps sl)
  qed
qed

lemma launch_outcomes:
  assumes "world_ok w" and "launch_browser (pe_os env) b hl ex fl w = (r, w')"
  shows "world_ok w' \<and> (case r of
      Inl _ \<Rightarrow> pw_live w' = pw_live w \<or> (\<exists>p \<in> left_behind env. pw_live w' = insert p (pw_live w))
    | Inr h \<Rightarrow> bh_process h \<notin> pw_live w \<and> pw_live w' = insert (bh_process h) (pw_live w))"
  using launch_browser_effect [OF assms]
  by (auto simp: left_behind_def simp del: insert_absorb split: sum.splits if_splits)

lemma launch_wp:
  assumes m: "mid env C wid E K H {} s"
  shows "wp (procs_op (launch_browser (pe_os env) b hl ex fl))
    (\<lambda>h. mid env C wid E K H {bh_process h}) (\<lambda>_. mid env C wid E K H {}) s"
proof -
  have "world_ok (wp_procs s)" using m by (simp add: mid_def mid0_def)
  note launch = launch_outcomes [OF this]
  obtain r w where run: "launch_browser (pe_os env) b hl ex fl (wp_procs s) = (r, w)" by force
  show ?thesis
  proof (cases r)
    case (Inl e)
    with launch [OF run] m show ?thesis
      by (auto simp: wp_def procs_op_def zoom_def run mid_def mid0_def gauges_ok_def)
  next
    case (Inr h)
    with launch [OF run] m show ?thesis
      by (auto simp: wp_def procs_op_def zoom_def run mid_def mid0_def gauges_ok_def)
  qed
qed

lemma spawn_browser_wp:
  assumes m: "mid env C wid E K H {} s"
  shows "wp (spawn_browser env wid) (\<lambda>hv. mid env C wid E K H {bh_process (fst hv)})
    (\<lambda>_. mid env C wid E K H {}) s"
proof -
  let ?M = "mid env C wid E K H {}"
  have fail: "wp (case exc of
          BrowserLaunchError m \<Rightarrow>
            bindm (require_slot wid) (\<lambda>sl.
              thenm (whenm (non_empty (ws_proxy_url sl))
                      (modify (\<lambda>s. s\<lparr>wp_proxy_errors := Suc (wp_proxy_errors s)\<rparr>)))
                    (raise exc))
        | _ \<Rightarrow> raise exc) Q (\<lambda>_. ?M) t" if "?M t" for exc Q and t :: warm_pool
    using that mid0_present [OF mid_mid0 [OF that]]
    by (cases exc) (auto simp: wp_simps mid_def mid0_def gauges_ok_def)
  have launch: "wp (catchm (procs_op (launch_browser (pe_os env) ''camoufox'' True ev (pe_flags env)))
       (\<lambda>exc. case exc of
          BrowserLaunchError m \<Rightarrow>
            bindm (require_slot wid) (\<lambda>sl.
              thenm (whenm (non_empty (ws_proxy_url sl))
                      (modify (\<lambda>s. s\<lparr>wp_proxy_errors := Suc (wp_proxy_errors s)\<rparr>)))
                    (raise exc))
        | _ \<Rightarrow> raise exc)) (\<lambda>h. mid env C wid E K H {bh_process h}) (\<lambda>_. ?M) t" if "?M t" for ev t
    unfolding wp_catchm by (rule wp_mono [OF launch_wp [OF that]]) (auto intro: fail)
  show ?thesis
    unfolding spawn_browser_def wp_bindm
    by (rule wp_mono [OF build_launch_env_wp [OF m]])
      (rule wp_mono [OF launch], auto simp: wp_simps)
qed

text \<open>Between a change of state and the update of the gauges, \<open>g\<close> is false.\<close>

definition midg :: "pool_env \<Rightarrow> nat set \<Rightarrow> string \<Rightarrow> workstation_entry \<Rightarrow> (string \<Rightarrow> warm_slot option) \<Rightarrow>
    browser_handle option \<Rightarrow> nat set \<Rightarrow> bool \<Rightarrow> warm_pool \<Rightarrow> bool" where
  "midg env C wid E K H X g s = (mid0 env C wid E K H X s \<and> (g \<longrightarrow> gauges_ok s))"

lemma midg_simps: "midg env C wid E K H X True = mid env C wid E K H X"
    "midg env C wid E K H X False = mid0 env C wid E K H X"
  by (simp_all add: fun_eq_iff midg_def mid_def)

lemma safe_shutdown_wpg:
  assumes m: "midg env C wid E K H (procs_of ho) g s"
  shows "wp (safe_shutdown env ho) (\<lambda>_. midg env C wid E K H {} g) (\<lambda>_. midg env C wid E K H {} g) s"
proof (cases ho)
  case None
  with m show ?thesis by (simp add: safe_shutdown_def wp_simps)
next
  case (Some h)
  have world: "world_ok (snd (shutdown (pe_os env) True h (wp_procs s)))"
    using m by (intro shutdown_world_ok) (simp add: midg_def mid0_def)
  obtain r w where run: "shutdown (pe_os env) True h (wp_procs s) = (r, w)" by force
  from shutdown_effect [OF run] m world show ?thesis
    by (cases r) (auto simp: Some safe_shutdown_def suppress_def wp_def procs_op_def zoom_def run
        midg_def mid0_def gauges_ok_def left_behind_def unkillable_def)
qed

lemmas safe_shutdown_wp = safe_shutdown_wpg [where g = True, unfolded midg_simps]

lemma safe_shutdown_returns: "wp (safe_shutdown env ho) (\<lambda>_ _. True) (\<lambda>_ _. False) s"
  by (cases ho) (simp_all add: safe_shutdown_def wp_simps wp_suppress, simp add: wp_def split: prod.splits sum.splits)

lemma mid_sleep: "mid env C wid E K H X (s\<lparr>wp_sleeps := ms\<rparr>) = mid env C wid E K H X s"
  by (simp add: mid_def mid0_def gauges_ok_def)

declare attempt_loop.simps [simp del]

lemma attempt_loop_wp:
  "mid env C wid E K None {} s \<Longrightarrow>
    wp (attempt_loop env wid k d err) (\<lambda>h. mid env C wid E K None {bh_process h})
      (\<lambda>e t. mid env C wid E K None {} t \<and> (\<exists>m c. e = WarmPoolProvisioningError m c)) s"
proof (induction k arbitrary: d err s)
  case 0
  then show ?case by (simp add: attempt_loop.simps wp_simps)
next
  case (Suc k)
  let ?M = "\<lambda>X. mid env C wid E K None X"
  have retry: "wp (thenm (whenm (0 < k) (sleep d)) (attempt_loop env wid k d' err'))
      (\<lambda>h. ?M {bh_process h}) (\<lambda>e t. ?M {} t \<and> (\<exists>m c. e = WarmPoolProvisioningError m c)) t"
    if "?M {} t" for d' err' t
    using that by (auto intro!: Suc.IH simp: wp_simps sleep_def mid_sleep attempt_loop.simps(1))
  have ok: "wp (thenm (set_slot wid (\<lambda>sl. sl\<lparr>ws_launch_env := v\<rparr>)) (ret h))
      (\<lambda>h. ?M {bh_process h}) Er t" if "?M {bh_process h} t" for v h Er t
    using mid_set_slot [OF that, of "\<lambda>sl. sl\<lparr>ws_launch_env := v\<rparr>" None]
    by (simp add: wp_simps set_slot_def)
  have fail: "wp (thenm (modify (\<lambda>s. s\<lparr>wp_nav_errors := Suc (wp_nav_errors s)\<rparr>))
       (thenm (safe_shutdown env (Some h))
       (thenm (whenm (0 < k) (sleep d)) (attempt_loop env wid k d' err'))))
      (\<lambda>h. ?M {bh_process h}) (\<lambda>e t. ?M {} t \<and> (\<exists>m c. e = WarmPoolProvisioningError m c)) t"
    if m: "?M {bh_process h} t" for h d' err' t
  proof -
    have m': "?M (procs_of (Some h)) (t\<lparr>wp_nav_errors := Suc (wp_nav_errors t)\<rparr>)"
      using m by (simp add: mid_def mid0_def gauges_ok_def)
    show ?thesis
      unfolding wp_thenm [of "modify _"] wp_ops wp_thenm [of "safe_shutdown _ _"]
      by (rule wp_mono [OF wp_conj [OF safe_shutdown_wp [OF m'] safe_shutdown_returns]])
        (auto intro: retry)
  qed
  have prewarm: "wp (attempt (maybe_prewarm env h)) (\<lambda>r. wp (case r of
        Inl exc \<Rightarrow> thenm (modify (\<lambda>s. s\<lparr>wp_nav_errors := Suc (wp_nav_errors s)\<rparr>))
           (thenm (safe_shutdown env (Some h))
           (thenm (whenm (0 < k) (sleep d))
             (attempt_loop env wid k (if 0 < k then 2 * d else d) (Some exc))))
      | Inr _ \<Rightarrow> thenm (set_slot wid (\<lambda>sl. sl\<lparr>ws_launch_env := v\<rparr>)) (ret h))
      (\<lambda>h. ?M {bh_process h}) (\<lambda>e t. ?M {} t \<and> (\<exists>m c. e = WarmPoolProvisioningError m c))) Er t"
    if m: "?M {bh_process h} t" for h v Er t
    unfolding wp_attempt
    by (rule wp_quiet [OF maybe_prewarm_quiet]; simp only: sum.case)
      (intro ok fail; simp add: same_core_mid [of t] m)+
  show ?case
    unfolding attempt_loop.simps wp_bindm [of "attempt _"] wp_attempt [of "spawn_browser _ _"]
    by (rule wp_mono [OF spawn_browser_wp [OF Suc.prems]])
      (simp_all add: wp_sum wp_bindm [of "attempt _"] prewarm retry del: if_weak_cong)
qed

section \<open>Tearing down and provisioning\<close>

text \<open>After provisioning, the slot is idle with a live browser or in error without one.\<close>

definition settled :: "pool_env \<Rightarrow> nat set \<Rightarrow> string \<Rightarrow> workstation_entry \<Rightarrow>
    (string \<Rightarrow> warm_slot option) \<Rightarrow> warm_state \<Rightarrow> warm_pool \<Rightarrow> bool" where
  "settled env C wid E K st t =
     (\<exists>sl. look t wid = Some sl \<and> ws_state sl = st \<and> (ws_handle sl \<noteq> None \<longleftrightarrow> holding st) \<and>
       mid env C wid E K (ws_handle sl) (procs_of (ws_handle sl)) t)"

lemma update_state_metrics_wp [wp_simps]:
  "wp update_state_metrics Q E s = Q () (s\<lparr>wp_gauges := collect_state_counts (wp_slots s)\<rparr>)"
  by (simp add: update_state_metrics_def wp_ops)

lemma set_slot_wp [wp_simps]:
  "wp (set_slot wid f) Q E s = Q () (s\<lparr>wp_slots := AList.map_entry wid f (wp_slots s)\<rparr>)"
  by (simp add: set_slot_def wp_ops)

lemma settledI:
  assumes m: "mid0 env C wid E K H X s"
    and f: "\<And>sl. ws_workstation (f sl) = ws_workstation sl" "\<And>sl. ws_temp_dir (f sl) = ws_temp_dir sl"
      "\<And>sl. ws_handle sl = H \<Longrightarrow> ws_handle (f sl) = H'" "\<And>sl. ws_state (f sl) = st"
    and "H' \<noteq> None \<longleftrightarrow> holding st" "X = procs_of H'"
  shows "settled env C wid E K st (s\<lparr>wp_slots := AList.map_entry wid f (wp_slots s),
    wp_gauges := collect_state_counts (AList.map_entry wid f (wp_slots s))\<rparr>)"
proof -
  let ?t = "s\<lparr>wp_slots := AList.map_entry wid f (wp_slots s),
    wp_gauges := collect_state_counts (AList.map_entry wid f (wp_slots s))\<rparr>"
  have "mid env C wid E K H' X ?t"
    using mid0_metrics [OF mid0_set_slot [OF m f(1,2,3)]] by simp
  moreover obtain sl where "look s wid = Some sl" "ws_handle sl = H"
    using m by (auto simp: mid0_def)
  ultimately show ?thesis
    using f(3) [of sl] f(4) assms(6,7) by (simp add: settled_def)
qed

lemma provision_slot_wp:
  assumes m: "mid env C wid E K None {} s"
  shows "wp (provision_slot env wid) (\<lambda>_. settled env C wid E K WarmIDLE)
    (\<lambda>e t. settled env C wid E K WarmERROR t \<and> (\<exists>m c. e = WarmPoolProvisioningError m c)) s"
proof -
  have ok: "settled env C wid E K WarmIDLE (t\<lparr>wp_slots := AList.map_entry wid
      (\<lambda>sl. sl\<lparr>ws_handle := Some h, ws_state := WarmIDLE, ws_last_error := None\<rparr>) (wp_slots t),
      wp_gauges := collect_state_counts (AList.map_entry wid
      (\<lambda>sl. sl\<lparr>ws_handle := Some h, ws_state := WarmIDLE, ws_last_error := None\<rparr>) (wp_slots t))\<rparr>)"
    if "mid env C wid E K None {bh_process h} t" for h t
    by (rule settledI [OF mid_mid0 [OF that], where H' = "Some h"]) (simp_all add: holding_def)
  have err: "settled env C wid E K WarmERROR (t\<lparr>wp_slots := AList.map_entry wid
      (\<lambda>sl. sl\<lparr>ws_last_error := le, ws_state := WarmERROR\<rparr>) (wp_slots t),
      wp_gauges := collect_state_counts (AList.map_entry wid
      (\<lambda>sl. sl\<lparr>ws_last_error := le, ws_state := WarmERROR\<rparr>) (wp_slots t))\<rparr>)"
    if "mid env C wid E K None {} t" for le t
    by (rule settledI [OF mid_mid0 [OF that], where H' = None]) (simp_all add: holding_def)
  show ?thesis
    unfolding provision_slot_def wp_bindm wp_attempt attempt_launch_def
    by (rule wp_mono [OF attempt_loop_wp [OF m]]) (auto simp: wp_simps ok err)
qed

lemma teardown_slot_wpg:
  assumes m: "midg env C wid E K H (procs_of H) g s"
    and Q: "\<And>t sl. midg env C wid E K None {} g t \<Longrightarrow> look t wid = Some sl \<Longrightarrow> ws_temp_dir sl = None \<Longrightarrow>
      ws_state sl = st \<Longrightarrow> Q () t"
    and st: "\<And>sl. look s wid = Some sl \<Longrightarrow> ws_state sl = st"
  shows "wp (teardown_slot env wid) Q Er s"
proof -
  obtain sl where sl: "look s wid = Some sl" and h: "ws_handle sl = H"
    using m by (auto simp: midg_def mid0_def)
  have "Q () (t\<lparr>wp_dirs := wp_dirs t - D, wp_slots := AList.map_entry wid (\<lambda>sl. sl\<lparr>ws_temp_dir := None\<rparr>)
      (AList.map_entry wid (\<lambda>sl. sl\<lparr>ws_handle := None\<rparr>) (wp_slots t))\<rparr>)"
    if t: "midg env C wid E K H {} g t" "wp_slots t = wp_slots s" and D: "D = set_option (ws_temp_dir sl)" for t D
  proof (rule Q)
    let ?t = "t\<lparr>wp_dirs := wp_dirs t - D, wp_slots := AList.map_entry wid (\<lambda>sl. sl\<lparr>ws_temp_dir := None\<rparr>)
      (AList.map_entry wid (\<lambda>sl. sl\<lparr>ws_handle := None\<rparr>) (wp_slots t))\<rparr>"
    show "midg env C wid E K None {} g ?t"
      using t sl D by (auto simp: midg_def mid0_def gauges_ok_def counts_map_entry)
    show "look ?t wid = Some (sl\<lparr>ws_handle := None, ws_temp_dir := None\<rparr>)"
      using t(2) sl by simp
  qed (use st [OF sl] in simp_all)
  note after = this
  have frame: "wp (safe_shutdown env H) (\<lambda>_ t. wp_slots t = wp_slots s) (\<lambda>_ _. False) s"
    by (cases H) (simp_all add: safe_shutdown_def procs_op_def wp_def suppress_def zoom_def ret_def)
  show ?thesis
    unfolding teardown_slot_def wp_bindm wp_thenm require_slot_wp sl option.case h
  proof (rule wp_mono [OF wp_conj [OF safe_shutdown_wpg [OF m] frame]])
    fix x t assume t: "midg env C wid E K H {} g t \<and> wp_slots t = wp_slots s"
    show "wp (set_slot wid (\<lambda>sl. sl\<lparr>ws_handle := None\<rparr>))
      (\<lambda>_. wp (case ws_temp_dir sl of None \<Rightarrow> ret () | Some d \<Rightarrow> modify (\<lambda>s. s\<lparr>wp_dirs := wp_dirs s - {d}\<rparr>))
        (\<lambda>_. wp (set_slot wid (\<lambda>sl. sl\<lparr>ws_temp_dir := None\<rparr>)) Q Er) Er) Er t"
    proof (cases "ws_temp_dir sl")
      case None
      with t after [of t "{}"] show ?thesis by (simp add: wp_simps)
    next
      case (Some d)
      with t after [of t "{d}"] show ?thesis by (simp add: wp_simps)
    qed
  qed simp
qed

lemmas teardown_slot_wp = teardown_slot_wpg [where g = True, unfolded midg_simps]

section \<open>The public operations\<close>

lemma settled_close:
  "pool_inv env C s \<Longrightarrow> look s wid = Some sl0 \<Longrightarrow>
    settled env C wid (ws_workstation sl0) (look s) st t \<Longrightarrow> pool_inv env C t"
  by (auto simp: settled_def intro: mid_close)

text \<open>The state of one slot moved, the others are as they were.\<close>

definition moved :: "warm_pool \<Rightarrow> warm_pool \<Rightarrow> string \<Rightarrow> warm_state set \<Rightarrow> warm_state set \<Rightarrow> bool" where
  "moved s t wid A B = ((\<exists>a b. look s wid = Some a \<and> look t wid = Some b \<and> ws_state a \<in> A \<and>
     ws_state b \<in> B) \<and> (\<forall>w. w \<noteq> wid \<longrightarrow> look t w = look s w))"

lemma settled_moved:
  "look s wid = Some sl0 \<Longrightarrow> ws_state sl0 \<in> A \<Longrightarrow> settled env C wid E (look s) st t \<Longrightarrow>
    st \<in> B \<Longrightarrow> moved s t wid A B"
  by (auto simp: settled_def moved_def mid_def mid0_def)

lemma moved_same_core: "same_core t t' \<Longrightarrow> moved s t' wid A B = moved s t wid A B"
  by (simp add: moved_def same_core_def)

lemma set_state_settled:
  assumes "pool_inv env C s" and "look s wid = Some sl" and "holding st = holding (ws_state sl)"
  shows "settled env C wid (ws_workstation sl) (look s) st
    (s\<lparr>wp_slots := AList.map_entry wid (\<lambda>sl. sl\<lparr>ws_state := st\<rparr>) (wp_slots s),
       wp_gauges := collect_state_counts (AList.map_entry wid (\<lambda>sl. sl\<lparr>ws_state := st\<rparr>) (wp_slots s))\<rparr>)"
  by (rule settledI [OF mid_mid0 [OF pool_inv_mid [OF assms(1,2)]], where H' = "ws_handle sl"])
    (use assms in \<open>auto simp: pool_inv_def slot_ok_def\<close>)

definition set_state :: "string \<Rightarrow> warm_state \<Rightarrow> warm_pool \<Rightarrow> (string, warm_slot) dict" where
  "set_state wid st s = AList.map_entry wid (\<lambda>sl. sl\<lparr>ws_state := st\<rparr>) (wp_slots s)"

lemma move_slot_wp:
  assumes inv: "pool_inv env C s" and "holding from = holding to"
  shows "wp (move_slot env wid from to msg reason)
    (\<lambda>sn t. pool_inv env C t \<and> wp_slots t = set_state wid to s \<and> moved s t wid {from} {to} \<and>
       sn_workstation_id sn = wid \<and> sn_state sn = to)
    (\<lambda>e t. pool_inv env C t \<and> (wp_slots t = wp_slots s \<and> (\<forall>sl. look s wid = Some sl \<longrightarrow> ws_state sl \<noteq> from) \<or>
       wp_slots t = set_state wid to s \<and> moved s t wid {from} {to})) s"
proof (cases "look s wid")
  case None
  with inv show ?thesis by (simp add: move_slot_def wp_simps)
next
  case (Some sl)
  show ?thesis
  proof (cases "ws_state sl = from")
    case False
    with Some inv show ?thesis by (simp add: move_slot_def wp_simps)
  next
    case True
    let ?t = "s\<lparr>wp_slots := AList.map_entry wid (\<lambda>sl. sl\<lparr>ws_state := to\<rparr>) (wp_slots s),
       wp_gauges := collect_state_counts (AList.map_entry wid (\<lambda>sl. sl\<lparr>ws_state := to\<rparr>) (wp_slots s))\<rparr>"
    have st: "settled env C wid (ws_workstation sl) (look s) to ?t"
      using set_state_settled [OF inv Some] True assms(2) by simp
    have t: "pool_inv env C ?t" "moved s ?t wid {from} {to}"
      using settled_close [OF inv Some st] settled_moved [OF Some _ st] True by auto
    have "pool_inv env C t' \<and> wp_slots t' = set_state wid to s \<and> moved s t' wid {from} {to}"
      if "same_core ?t t'" for t'
      using t that by (simp add: same_core_inv moved_same_core) (simp add: same_core_def set_state_def)
    note fin = this
    show ?thesis
      by (auto simp: move_slot_def wp_simps Some True Let_def slot_snapshot_def
          pool_inv_id [OF inv Some] intro!: emit_wps
          dest: fin)
  qed
qed

lemma first_idle_some: "first_idle d = Some wid \<Longrightarrow> dict_ok d \<Longrightarrow> \<exists>sl. map_of d wid = Some sl \<and> ws_state sl = WarmIDLE"
  by (induction d rule: first_idle.induct) (auto split: if_splits dest: map_of_Some_keys)

lemma select_idle_slot_wp:
  assumes ok: "dict_ok (wp_slots s)"
  shows "wp (select_idle_slot req)
    (\<lambda>wid t. t = s \<and> (\<exists>sl. look s wid = Some sl \<and> ws_state sl = WarmIDLE) \<and>
       (non_empty req \<longrightarrow> req = Some wid)) (\<lambda>_ t. t = s) s"
  using first_idle_some [OF _ ok]
  by (auto simp: select_idle_slot_def wp_simps non_empty_def split: option.splits)

text \<open>A successful reservation took one idle slot, the requested one if there was a request.\<close>

definition reserved :: "string option \<Rightarrow> warm_pool \<Rightarrow> warm_reservation \<Rightarrow> warm_pool \<Rightarrow> bool" where
  "reserved req s rv t =
     (\<exists>wid sl. look s wid = Some sl \<and> ws_state sl = WarmIDLE \<and> ws_handle sl = Some (rv_handle rv) \<and>
       rv_environment rv = ws_launch_env sl \<and>
       rv_snapshot rv = slot_snapshot (sl\<lparr>ws_state := WarmRESERVED\<rparr>) \<and>
       sn_workstation_id (rv_snapshot rv) = wid \<and> (non_empty req \<longrightarrow> req = Some wid) \<and>
       wp_slots t = set_state wid WarmRESERVED s \<and> moved s t wid {WarmIDLE} {WarmRESERVED})"

lemma reserve_locked_wp:
  assumes inv: "pool_inv env C s" and sl: "look s wid = Some sl" "ws_state sl = WarmIDLE"
    and req: "non_empty req \<longrightarrow> req = Some wid"
  shows "wp (reserve_locked env wid) (\<lambda>rv t. pool_inv env C t \<and> reserved req s rv t)
    (\<lambda>e t. pool_inv env C t \<and> (wp_slots t = wp_slots s \<or>
       (\<exists>wid. (non_empty req \<longrightarrow> req = Some wid) \<and> wp_slots t = set_state wid WarmRESERVED s \<and>
          moved s t wid {WarmIDLE} {WarmRESERVED}))) s"
proof (cases "ws_handle sl")
  case None
  with inv sl show ?thesis by (simp add: reserve_locked_def wp_simps)
next
  case (Some h)
  let ?t = "s\<lparr>wp_slots := AList.map_entry wid (\<lambda>sl. sl\<lparr>ws_state := WarmRESERVED\<rparr>) (wp_slots s),
     wp_gauges := collect_state_counts (AList.map_entry wid (\<lambda>sl. sl\<lparr>ws_state := WarmRESERVED\<rparr>) (wp_slots s))\<rparr>"
  have st: "settled env C wid (ws_workstation sl) (look s) WarmRESERVED ?t"
    using set_state_settled [OF inv sl(1), of WarmRESERVED] sl(2) by (simp add: holding_def)
  have t: "pool_inv env C ?t" "moved s ?t wid {WarmIDLE} {WarmRESERVED}"
    using settled_close [OF inv sl(1) st] settled_moved [OF sl(1) _ st] sl(2) by auto
  have "pool_inv env C t' \<and> wp_slots t' = set_state wid WarmRESERVED s \<and>
      moved s t' wid {WarmIDLE} {WarmRESERVED}" if "same_core ?t t'" for t'
    using t that by (simp add: same_core_inv moved_same_core) (simp add: same_core_def set_state_def)
  note fin = this
  have id: "sn_workstation_id (slot_snapshot (sl\<lparr>ws_state := WarmRESERVED\<rparr>)) = wid"
    by (simp add: slot_snapshot_def pool_inv_id [OF inv sl(1)])
  show ?thesis
    using req by (auto simp: reserve_locked_def wp_simps Let_def sl Some reserved_def id
        intro!: emit_wps dest!: fin)
qed

lemma reserve_slot_wp:
  assumes inv: "pool_inv env C s"
  shows "wp (reserve_slot env req) (\<lambda>rv t. pool_inv env C t \<and> reserved req s rv t)
    (\<lambda>e t. pool_inv env C t \<and> (wp_slots t = wp_slots s \<or>
       (\<exists>wid. (non_empty req \<longrightarrow> req = Some wid) \<and> wp_slots t = set_state wid WarmRESERVED s \<and>
          moved s t wid {WarmIDLE} {WarmRESERVED}))) s"
proof (cases "wp_draining s")
  case True
  with inv show ?thesis by (simp add: reserve_slot_def wp_simps)
next
  case False
  have ok: "dict_ok (wp_slots s)" using inv by (simp add: pool_inv_def)
  show ?thesis
    unfolding reserve_slot_def wp_bindm [of "gets _"] wp_ops if_not_P [OF False]
      wp_bindm [of "select_idle_slot _"]
    by (rule wp_mono [OF select_idle_slot_wp [OF ok]]) (auto intro: reserve_locked_wp inv simp: inv)
qed

lemma settled_same_core: "same_core t t' \<Longrightarrow> settled env C wid E K st t' = settled env C wid E K st t"
  by (simp add: settled_def same_core_mid) (simp add: same_core_def)

lemma settled_metrics:
  "settled env C wid E K st t \<Longrightarrow>
    settled env C wid E K st (t\<lparr>wp_gauges := collect_state_counts (wp_slots t)\<rparr>)"
  by (auto simp: settled_def mid_def mid0_def gauges_ok_def)

lemma settled_look: "settled env C wid E K st t \<Longrightarrow> \<exists>sl. look t wid = Some sl \<and> ws_state sl = st"
  by (auto simp: settled_def)

lemma recycle_failed_wp:
  assumes s: "settled env C wid E K WarmERROR s"
  shows "wp (recycle_failed env wid sn reason failed exc) Q (\<lambda>_. settled env C wid E K WarmERROR) s"
proof (cases "\<exists>m c. exc = WarmPoolProvisioningError m c")
  case True
  let ?t = "s\<lparr>wp_slots := AList.map_entry wid (\<lambda>sl. sl\<lparr>ws_state := WarmERROR\<rparr>) (wp_slots s),
      wp_gauges := collect_state_counts (AList.map_entry wid (\<lambda>sl. sl\<lparr>ws_state := WarmERROR\<rparr>) (wp_slots s))\<rparr>"
  have "mid env C wid E K None {} s"
    using s by (auto simp: settled_def holding_def)
  then have t: "settled env C wid E K WarmERROR ?t"
    by (intro settledI [OF mid_mid0, where H' = None]) (auto simp: holding_def)
  from True settled_look [OF t] show ?thesis
    by (auto simp: recycle_failed_def wp_simps t settled_same_core intro!: emit_wps)
next
  case False
  with s show ?thesis by (cases exc) (simp_all add: recycle_failed_def wp_simps)
qed

lemma reprovision_wp:
  assumes m: "mid env C wid E K None {} s"
  shows "wp (reprovision env wid sn reason failed)
    (\<lambda>_. settled env C wid E K WarmIDLE) (\<lambda>_. settled env C wid E K WarmERROR) s"
  unfolding reprovision_def wp_bindm [of "attempt _"] wp_attempt
  by (rule wp_mono [OF provision_slot_wp [OF m]])
    (use settled_look recycle_failed_wp in \<open>fastforce simp: wp_simps\<close>)+

text \<open>How release, enable and restart end: idle with a new browser, or without one, or not begun.\<close>

lemma recycle_locked_wp:
  assumes inv: "pool_inv env C s" and sl: "look s wid = Some sl"
  shows "wp (recycle_locked env wid allowed verb reason failed)
    (\<lambda>sns t. ws_state sl \<in> set allowed \<and> settled env C wid (ws_workstation sl) (look s) WarmIDLE t)
    (\<lambda>e t. t = s \<and> ws_state sl \<notin> set allowed \<or> ws_state sl \<in> set allowed \<and> (\<exists>st \<in> {WarmRECYCLING, WarmERROR}.
       settled env C wid (ws_workstation sl) (look s) st t)) s"
proof (cases "ws_state sl \<in> set allowed")
  case False
  with sl show ?thesis by (simp add: recycle_locked_def wp_simps)
next
  case True
  let ?E = "ws_workstation sl" and ?H = "ws_handle sl"
  let ?s = "s\<lparr>wp_slots := AList.map_entry wid (\<lambda>sl. sl\<lparr>ws_state := WarmRECYCLING\<rparr>) (wp_slots s)\<rparr>"
  let ?t = "?s\<lparr>wp_gauges := collect_state_counts (wp_slots ?s)\<rparr>"
  have "mid env C wid ?E (look s) ?H (procs_of ?H) ?t"
    by (rule mid0_metrics [OF mid0_set_slot [OF mid_mid0 [OF pool_inv_mid [OF inv sl]],
      of "\<lambda>sl. sl\<lparr>ws_state := WarmRECYCLING\<rparr>" ?H]]) simp_all
  note teardown = teardown_slot_wp [OF this, where st = WarmRECYCLING]
  have stop: "settled env C wid ?E (look s) WarmRECYCLING t"
    if "mid env C wid ?E (look s) None {} t" "look t wid = Some sl'" "ws_state sl' = WarmRECYCLING" for t sl'
    using that by (auto simp: settled_def mid_def mid0_def holding_def)
  have dir: "wp (thenm (bindm (make_temp_dir env) (\<lambda>d. set_slot wid (\<lambda>sl. sl\<lparr>ws_temp_dir := Some d\<rparr>)))
        (reprovision env wid sn reason failed)) Q Er t"
    if t: "mid env C wid ?E (look s) None {} t" "look t wid = Some sl'" "ws_temp_dir sl' = None"
      "ws_state sl' = WarmRECYCLING"
      and Q: "\<And>x t. settled env C wid ?E (look s) WarmIDLE t \<Longrightarrow> Q x t"
      and Er: "\<And>e t st. st \<in> {WarmRECYCLING, WarmERROR} \<Longrightarrow> settled env C wid ?E (look s) st t \<Longrightarrow> Er e t"
    for t sl' sn Q Er
  proof -
    have re: "wp (reprovision env wid sn reason failed) Q Er t'" if "mid env C wid ?E (look s) None {} t'" for t'
      by (rule wp_mono [OF reprovision_wp [OF that]]) (auto intro: Q Er [of WarmERROR])
    have keep: "Er e (t\<lparr>wp_next_dir := n\<rparr>)" for e n
      by (rule Er [of WarmRECYCLING], simp, rule stop) (use t in \<open>simp_all add: mid_next_dir\<close>)
    show ?thesis
      using mid_temp_dir [OF t(1,2,3)]
      by (auto simp: make_temp_dir_def wp_simps intro: re keep split: option.splits)
  qed
  show ?thesis
    by (simp only: recycle_locked_def wp_bindm [of "require_slot wid"] require_slot_wp sl option.case True
        not_True_eq_False if_False wp_thenm [of "set_slot a b" for a b] set_slot_wp
        wp_thenm [of update_state_metrics] update_state_metrics_wp wp_thenm [of "teardown_slot a b" for a b])
      (rule teardown, rule dir, assumption+, auto simp: sl)
qed

lemma recycles_core: "same_core t (t\<lparr>wp_recycles := n\<rparr>)"
  by (simp add: same_core_def)

lemma record_recycle_wp:
  assumes "wp m Q E s" and "\<And>x t t'. Q x t \<Longrightarrow> same_core t t' \<Longrightarrow> Q' x t'"
    and "\<And>e t t'. E e t \<Longrightarrow> same_core t t' \<Longrightarrow> E' e t'"
  shows "wp (record_recycle_duration m) Q' E' s"
  unfolding record_recycle_duration_def wp_finallym
  by (rule wp_mono [OF assms(1)]) (auto simp: wp_simps intro: assms recycles_core)

lemma recycle_slot_wp:
  assumes inv: "pool_inv env C s"
  shows "wp (recycle_slot env wid allowed verb reason failed finished)
    (\<lambda>sn t. pool_inv env C t \<and> moved s t wid (set allowed) {WarmIDLE})
    (\<lambda>e t. pool_inv env C t \<and> (wp_slots t = wp_slots s \<and>
         (\<forall>sl. look s wid = Some sl \<longrightarrow> ws_state sl \<notin> set allowed) \<or>
       moved s t wid (set allowed) {WarmIDLE, WarmRECYCLING, WarmERROR})) s"
proof (cases "look s wid")
  case None
  with inv show ?thesis by (simp add: recycle_slot_def wp_simps)
next
  case (Some sl)
  let ?S = "settled env C wid (ws_workstation sl) (look s)"
  note close = settled_close [OF inv Some] and mv = settled_moved [OF Some]
  have finish: "wp (thenm (emit_state_change env sn reason None)
       (thenm (emit_recycled env wid sn' finished) (thenm update_state_metrics (ret sn'))))
    (\<lambda>sn t. pool_inv env C t \<and> moved s t wid (set allowed) {WarmIDLE})
    (\<lambda>e t. pool_inv env C t \<and> moved s t wid (set allowed) {WarmIDLE, WarmRECYCLING, WarmERROR}) t"
    if t: "?S WarmIDLE t" "ws_state sl \<in> set allowed" for t sn sn'
  proof -
    have s: "?S WarmIDLE t'" if "same_core t t''" "same_core t'' t'" for t'' t'
      using t(1) that by (simp add: settled_same_core)
    have fin: "pool_inv env C t'" "moved s t' wid (set allowed) {WarmIDLE}"
      "moved s t' wid (set allowed) {WarmIDLE, WarmRECYCLING, WarmERROR}" if "?S WarmIDLE t'" for t'
      using close [OF that] mv [OF t(2) that] by auto
    show ?thesis
      using s t(1)
      by (auto simp: wp_thenm wp_ops update_state_metrics_wp settled_same_core intro!: emit_wps fin settled_metrics)
  qed
  show ?thesis
    unfolding recycle_slot_def wp_bindm [of "require_slot _"] require_slot_wp Some option.case
      wp_bindm [of "record_recycle_duration _"]
    by (rule record_recycle_wp [OF recycle_locked_wp [OF inv Some]])
      (use Some in \<open>auto simp: settled_same_core same_core_inv [of s] inv same_core_look
        intro: close mv intro!: wp_mono [OF finish]\<close>)
qed

lemma pool_inv_draining [simp]: "pool_inv env C (s\<lparr>wp_draining := b\<rparr>) = pool_inv env C s"
  by (simp add: pool_inv_def gauges_ok_def)

text \<open>Setting \<open>DRAINING\<close> and tearing the slot down; the gauges are updated after it.\<close>

lemma drain_one_wp:
  assumes inv: "pool_inv env C s" and sl: "look s wid = Some sl"
    and Q: "\<And>t sl'. settled env C wid (ws_workstation sl) (look s) WarmDRAINING
        (t\<lparr>wp_gauges := collect_state_counts (wp_slots t)\<rparr>) \<Longrightarrow> look t wid = Some sl' \<Longrightarrow> wp k Q Er t"
  shows "wp (thenm (set_slot wid (\<lambda>sl. sl\<lparr>ws_state := WarmDRAINING\<rparr>)) (thenm (teardown_slot env wid) k)) Q Er s"
proof -
  let ?E = "ws_workstation sl" and ?H = "ws_handle sl"
  let ?s = "s\<lparr>wp_slots := AList.map_entry wid (\<lambda>sl. sl\<lparr>ws_state := WarmDRAINING\<rparr>) (wp_slots s)\<rparr>"
  have m: "midg env C wid ?E (look s) ?H (procs_of ?H) False ?s"
    unfolding midg_simps
    by (rule mid0_set_slot [OF mid_mid0 [OF pool_inv_mid [OF inv sl]]]) simp_all
  show ?thesis
    unfolding wp_thenm set_slot_wp
  proof (rule teardown_slot_wpg [OF m, where st = WarmDRAINING])
    fix t sl' assume t: "midg env C wid ?E (look s) None {} False t" "look t wid = Some sl'"
      "ws_state sl' = WarmDRAINING"
    then have "settled env C wid ?E (look s) WarmDRAINING (t\<lparr>wp_gauges := collect_state_counts (wp_slots t)\<rparr>)"
      unfolding midg_simps
      by (auto simp: settled_def mid_def mid0_def gauges_ok_def holding_def)
    with t(2) show "wp k Q Er t" by (intro Q)
  qed (use sl in auto)
qed

lemma drain_slot_wp:
  assumes inv: "pool_inv env C s"
  shows "wp (drain_slot env wid)
    (\<lambda>sn t. pool_inv env C t \<and> moved s t wid {WarmIDLE, WarmERROR} {WarmDRAINING})
    (\<lambda>e t. pool_inv env C t \<and> (wp_slots t = wp_slots s \<and>
         (\<forall>sl. look s wid = Some sl \<longrightarrow> ws_state sl \<notin> {WarmIDLE, WarmERROR}) \<or>
       moved s t wid {WarmIDLE, WarmERROR} {WarmDRAINING})) s"
proof (cases "look s wid")
  case None
  with inv show ?thesis by (simp add: drain_slot_def wp_simps)
next
  case (Some sl)
  show ?thesis
  proof (cases "ws_state sl \<in> {WarmIDLE, WarmERROR}")
    case False
    with Some inv show ?thesis by (auto simp: drain_slot_def wp_simps)
  next
    case True
    have fin: "pool_inv env C t" "moved s t wid {WarmIDLE, WarmERROR} {WarmDRAINING}"
      if "settled env C wid (ws_workstation sl) (look s) WarmDRAINING t" for t
      using settled_close [OF inv Some that] settled_moved [OF Some True that] by auto
    have body: "wp (bindm (require_slot wid) (\<lambda>sl. thenm update_state_metrics
         (thenm (emit_state_change env (slot_snapshot sl) ''drain-slot'' None) (ret (slot_snapshot sl)))))
      (\<lambda>sn t. pool_inv env C t \<and> moved s t wid {WarmIDLE, WarmERROR} {WarmDRAINING})
      (\<lambda>e t. pool_inv env C t \<and> moved s t wid {WarmIDLE, WarmERROR} {WarmDRAINING}) t"
      if "settled env C wid (ws_workstation sl) (look s) WarmDRAINING
        (t\<lparr>wp_gauges := collect_state_counts (wp_slots t)\<rparr>)" "look t wid = Some sl'" for t sl'
      using that by (auto simp: wp_simps settled_same_core intro!: emit_wps fin)
    show ?thesis
      by (simp only: drain_slot_def wp_bindm [of "require_slot wid"] require_slot_wp Some option.case
          True not_True_eq_False if_False)
        (rule drain_one_wp [OF inv Some], rule wp_mono [OF body], assumption+, simp_all)
  qed
qed

lemma drain_all_wp:
  "pool_inv env C s \<Longrightarrow> (\<And>w. w \<in> set wids \<Longrightarrow> look s w \<noteq> None) \<Longrightarrow>
    wp (drain_all env wids)
      (\<lambda>_ t. pool_inv env C t \<and> (\<forall>w. look t w = None \<longleftrightarrow> look s w = None) \<and>
         (\<forall>w \<in> set wids. \<exists>sl. look t w = Some sl \<and> ws_state sl = WarmDRAINING) \<and>
         (\<forall>w. w \<notin> set wids \<longrightarrow> look t w = look s w)) (\<lambda>_ _. False) s"
proof (induction wids arbitrary: s)
  case Nil
  then show ?case by (simp add: wp_simps)
next
  case (Cons wid wids)
  obtain sl where sl: "look s wid = Some sl" using Cons.prems(2) [of wid] by auto
  note inv = Cons.prems(1)
  show ?case
    unfolding drain_all.simps
  proof (rule drain_one_wp [OF inv sl])
    fix t :: warm_pool and sl'
    let ?t = "t\<lparr>wp_gauges := collect_state_counts (wp_slots t)\<rparr>"
    assume st: "settled env C wid (ws_workstation sl) (look s) WarmDRAINING ?t" and t: "look t wid = Some sl'"
    have inv': "pool_inv env C ?t" by (rule settled_close [OF inv sl st])
    have frame: "look t w = look s w" if "w \<noteq> wid" for w
      using st that by (auto simp: settled_def mid_def mid0_def)
    have here: "ws_state sl' = WarmDRAINING"
      using st t by (auto simp: settled_def)
    have dom: "look t w = None \<longleftrightarrow> look s w = None" for w
      using frame [of w] t sl by (cases "w = wid") auto
    have IH: "wp (drain_all env wids)
      (\<lambda>_ t'. pool_inv env C t' \<and> (\<forall>w. look t' w = None \<longleftrightarrow> look ?t w = None) \<and>
         (\<forall>w \<in> set wids. \<exists>sl. look t' w = Some sl \<and> ws_state sl = WarmDRAINING) \<and>
         (\<forall>w. w \<notin> set wids \<longrightarrow> look t' w = look ?t w)) (\<lambda>_ _. False) ?t"
      using Cons.prems(2) dom by (intro Cons.IH [OF inv']) auto
    show "wp (bindm (require_slot wid) (\<lambda>sl. thenm update_state_metrics
            (bindm (drain_all env wids) (\<lambda>sns. ret (slot_snapshot sl # sns)))))
        (\<lambda>_ t. pool_inv env C t \<and> (\<forall>w. look t w = None \<longleftrightarrow> look s w = None) \<and>
         (\<forall>w \<in> set (wid # wids). \<exists>sl. look t w = Some sl \<and> ws_state sl = WarmDRAINING) \<and>
         (\<forall>w. w \<notin> set (wid # wids) \<longrightarrow> look t w = look s w)) (\<lambda>_ _. False) t"
      unfolding wp_bindm [of "require_slot _"] require_slot_wp t option.case
        wp_thenm update_state_metrics_wp wp_bindm [of "drain_all _ _"]
      by (rule wp_mono [OF IH]) (use dom frame t here in \<open>auto simp: wp_ops\<close>)
  qed
qed

lemma for_each_wp:
  assumes "\<And>x s. x \<in> set xs \<Longrightarrow> I s \<Longrightarrow> wp (f x) (\<lambda>_. I) E s" and "I s"
  shows "wp (for_each xs f) (\<lambda>_. I) E s"
  using assms
proof (induction xs arbitrary: s)
  case Nil
  then show ?case by (simp add: wp_simps)
next
  case (Cons x xs)
  have "wp (f x) (\<lambda>_. I) E s" using Cons.prems by simp
  then show ?case
    unfolding for_each.simps wp_thenm
    by (rule wp_mono) (rule Cons.IH, auto intro: Cons.prems(1))
qed

text \<open>After \<open>drain\<close> every slot is draining and has no browser, even if an event failed.\<close>

definition all_draining :: "warm_pool \<Rightarrow> bool" where
  "all_draining t = (\<forall>w sl. look t w = Some sl \<longrightarrow> ws_state sl = WarmDRAINING)"

lemma drain_wp:
  assumes inv: "pool_inv env C s"
  shows "wp (drain env)
    (\<lambda>_ t. pool_inv env C t \<and> all_draining t \<and> (\<forall>w. look t w = None \<longleftrightarrow> look s w = None))
    (\<lambda>_ t. pool_inv env C t \<and> all_draining t \<and> (\<forall>w. look t w = None \<longleftrightarrow> look s w = None)) s"
proof -
  let ?I = "\<lambda>t. pool_inv env C t \<and> all_draining t \<and> (\<forall>w. look t w = None \<longleftrightarrow> look s w = None)"
  have I: "same_core t t' \<Longrightarrow> all_draining t' = all_draining t" for t t'
    by (simp add: all_draining_def same_core_look)
  have I_gauges: "pool_inv env C t \<Longrightarrow> pool_inv env C (t\<lparr>wp_gauges := collect_state_counts (wp_slots t)\<rparr>)"
    "all_draining (t\<lparr>wp_gauges := g\<rparr>) = all_draining t" for t g
    by (simp_all add: pool_inv_def gauges_ok_def all_draining_def)
  let ?s = "s\<lparr>wp_draining := True\<rparr>" and ?wids = "map fst (wp_slots s)"
  have all: "?I t" if "pool_inv env C t" "\<forall>w. look t w = None \<longleftrightarrow> look ?s w = None"
      "\<forall>w \<in> set ?wids. \<exists>sl. look t w = Some sl \<and> ws_state sl = WarmDRAINING" for t
  proof -
    have "ws_state sl = WarmDRAINING" if w: "look t w = Some sl" for w sl
    proof -
      have "look ?s w \<noteq> None" using \<open>\<forall>w. look t w = None \<longleftrightarrow> look ?s w = None\<close> w by (metis option.distinct(1))
      then have "w \<in> set ?wids" by (simp add: map_of_eq_None_iff)
      with \<open>\<forall>w \<in> set ?wids. \<exists>sl. look t w = Some sl \<and> ws_state sl = WarmDRAINING\<close> w show ?thesis
        by (metis option.inject)
    qed
    with that(1,2) show ?thesis by (simp add: all_draining_def)
  qed
  have drain: "wp (drain_all env ?wids) (\<lambda>_. ?I) (\<lambda>_ _. False) ?s"
  proof (rule wp_mono [OF drain_all_wp])
    show "pool_inv env C ?s" using inv by simp
    show "\<And>w. w \<in> set ?wids \<Longrightarrow> look ?s w \<noteq> None" by (auto simp: map_of_eq_None_iff)
  qed (use all in auto)
  show ?thesis
    unfolding drain_def wp_thenm [of "modify _"] wp_ops wp_bindm [of "gets _"]
      wp_bindm [of "drain_all _ _"]
  proof (rule wp_mono [OF _ _ ])
    show "wp (drain_all env (map fst (wp_slots ?s))) (\<lambda>_. ?I) (\<lambda>_ _. False) ?s"
      using drain by simp
  next
    fix sns t assume t: "?I t"
    show "wp (thenm (for_each sns (\<lambda>sn. emit_state_change env sn ''drain'' None))
        (thenm update_state_metrics (ret sns))) (\<lambda>_. ?I) (\<lambda>_. ?I) t"
      unfolding wp_thenm
      by (rule wp_mono [OF for_each_wp [where I = ?I and E = "\<lambda>_. ?I"]])
        (use t in \<open>auto intro!: emit_wps simp: I same_core_look same_core_inv wp_ops update_state_metrics_wp I_gauges\<close>)
  qed simp
qed

section \<open>Starting the pool\<close>

text \<open>A workstation that is unknown, or whose slot holds no browser and no profile directory.\<close>

definition vacant :: "warm_pool \<Rightarrow> string \<Rightarrow> bool" where
  "vacant s wid = (case look s wid of None \<Rightarrow> True | Some sl \<Rightarrow> ws_handle sl = None \<and> ws_temp_dir sl = None)"

lemma vacant_owns:
  assumes "vacant s wid"
  shows "owned (look s) = owned_except wid (look s)" "dirs_of (look s) = dirs_except wid (look s)"
  using assms owned_none [of "look s" wid] owned_split [of "look s" wid] dirs_none [of "look s" wid]
    dirs_split [of "look s" wid]
  by (cases "look s wid"; simp add: vacant_def)+

lemma insert_slot_mid0:
  assumes inv: "pool_inv env C s" and new: "vacant s wid" and sl: "ws_handle sl = None"
    and d: "ws_temp_dir sl = Some d"
  shows "mid0 env C wid (ws_workstation sl) (look s) None {}
    (s\<lparr>wp_next_dir := n, wp_dirs := insert d (wp_dirs s), wp_slots := AList.update wid sl (wp_slots s)\<rparr>)"
  using inv vacant_owns [OF new] sl d
  by (auto simp: pool_inv_def mid0_def)

lemma settled_others:
  assumes inv: "pool_inv env C s" and "wc_id E = wid"
    and t: "settled env C wid E (look s) st t"
  shows "pool_inv env C t"
proof -
  obtain sl where sl: "look t wid = Some sl" "ws_state sl = st" "ws_handle sl \<noteq> None \<longleftrightarrow> holding st"
    "mid env C wid E (look s) (ws_handle sl) (procs_of (ws_handle sl)) t"
    using t by (auto simp: settled_def)
  show ?thesis
    using sl(4,1) pool_inv_others [OF inv, of "look s"] assms(2)
    by (rule mid_pool_inv) (use sl in auto)
qed

text \<open>A slot that has been provisioned, or has failed to be.\<close>

definition provisioned where
  "provisioned env C wid E K t = (\<exists>st \<in> {WarmIDLE, WarmERROR}. settled env C wid E K st t)"

lemma provisioned_same_core: "same_core t t' \<Longrightarrow> provisioned env C wid E K t' = provisioned env C wid E K t"
  by (simp add: provisioned_def settled_same_core)

lemma provisioned_metrics:
  "provisioned env C wid E K t \<Longrightarrow> provisioned env C wid E K (t\<lparr>wp_gauges := collect_state_counts (wp_slots t)\<rparr>)"
  unfolding provisioned_def using settled_metrics by blast

lemma provisioned_look:
  "provisioned env C wid E K t \<Longrightarrow> \<exists>sl. look t wid = Some sl \<and> ws_state sl \<in> {WarmIDLE, WarmERROR}"
  unfolding provisioned_def using settled_look by blast

lemma start_slot_wp:
  assumes m: "mid env C wid E K None {} s"
  shows "wp (start_slot env wid) (\<lambda>_. provisioned env C wid E K) (\<lambda>_. provisioned env C wid E K) s"
proof -
  let ?R = "provisioned env C wid E K"
  have failed: "wp (start_failed env wid exc) (\<lambda>_. ?R) (\<lambda>_. ?R) t" if R: "?R t" for exc t
    using provisioned_look [OF R] R provisioned_metrics [OF R]
    by (cases exc) (auto simp: start_failed_def wp_simps provisioned_same_core intro!: emit_wps)
  have ready: "wp (thenm update_state_metrics
       (bindm (require_slot wid) (\<lambda>sl. emit_state_change env (slot_snapshot sl) ''provisioned'' None)))
      (\<lambda>_. ?R) (\<lambda>_. ?R) t" if R: "?R t" for t
    using provisioned_look [OF R] provisioned_metrics [OF R]
    by (auto simp: wp_simps provisioned_same_core intro!: emit_wps)
  show ?thesis
    unfolding start_slot_def wp_catchm wp_thenm [of "provision_slot _ _"]
  proof (rule wp_mono [OF provision_slot_wp [OF m]], goal_cases)
    case (1 _ t)
    then have "?R t" by (auto simp: provisioned_def)
    then show ?case by (intro wp_mono [OF ready]) (auto intro: failed)
  next
    case (2 _ t)
    then show ?case by (intro failed) (auto simp: provisioned_def)
  qed
qed

text \<open>Starting one workstation: its slot ends idle or in error, or an exception left the slots as they were.\<close>

definition slot_started :: "string \<Rightarrow> warm_pool \<Rightarrow> warm_pool \<Rightarrow> bool" where
  "slot_started wid s t = ((\<forall>w. w \<noteq> wid \<longrightarrow> look t w = look s w) \<and>
     (look t wid = look s wid \<or> (\<exists>sl. look t wid = Some sl \<and> ws_state sl \<in> {WarmIDLE, WarmERROR})))"

lemma start_entry_wp:
  assumes inv: "pool_inv env C s" and new: "vacant s (wc_id entry)"
  shows "wp (start_entry env entry) (\<lambda>_ t. pool_inv env C t \<and> slot_started (wc_id entry) s t)
    (\<lambda>_ t. pool_inv env C t \<and> slot_started (wc_id entry) s t) s"
proof (cases "pe_tempdir env (wp_next_dir s)")
  case (Some e)
  with inv show ?thesis
    by (simp add: start_entry_def build_slot_def make_temp_dir_def wp_simps pool_inv_def gauges_ok_def slot_started_def)
next
  case None
  let ?S = "settled env C (wc_id entry) entry (look s)"
  define sl where "sl = \<lparr>ws_workstation = entry, ws_fingerprint = extra_text entry ''fingerprint_id'',
       ws_proxy_url = (if non_empty (extra_text entry ''proxy_url'') then extra_text entry ''proxy_url''
                       else extra_text entry ''proxy''),
       ws_prefs_rel_path = extra_text entry ''prefs_rel_path'', ws_state = WarmRECYCLING,
       ws_handle = None, ws_temp_dir = Some (wp_next_dir s), ws_last_error = None, ws_launch_env = []\<rparr>"
  let ?s = "s\<lparr>wp_next_dir := Suc (wp_next_dir s), wp_dirs := insert (wp_next_dir s) (wp_dirs s),
      wp_slots := AList.update (wc_id entry) sl (wp_slots s)\<rparr>"
  let ?t = "?s\<lparr>wp_gauges := collect_state_counts (wp_slots ?s)\<rparr>"
  have "mid env C (wc_id entry) (ws_workstation sl) (look s) None {} ?t"
    by (intro mid0_metrics insert_slot_mid0 inv new) (simp_all add: sl_def)
  then have m: "mid env C (wc_id entry) entry (look s) None {} ?t"
    by (simp add: sl_def)
  have fin: "pool_inv env C t \<and> slot_started (wc_id entry) s t"
    if t: "provisioned env C (wc_id entry) entry (look s) t" for t
  proof -
    obtain st where st: "?S st t" using t by (auto simp: provisioned_def)
    then have "\<forall>w. w \<noteq> wc_id entry \<longrightarrow> look t w = look s w" by (auto simp: settled_def mid_def mid0_def)
    with settled_others [OF inv _ st] provisioned_look [OF t] show ?thesis by (simp add: slot_started_def)
  qed
  have "wp (start_entry env entry) Q Er s = wp (start_slot env (wc_id entry)) Q Er ?t" for Q Er
    by (simp add: start_entry_def build_slot_def make_temp_dir_def wp_simps None sl_def)
  moreover have "wp (start_slot env (wc_id entry)) (\<lambda>_ t. pool_inv env C t \<and> slot_started (wc_id entry) s t)
    (\<lambda>_ t. pool_inv env C t \<and> slot_started (wc_id entry) s t) ?t"
    by (rule wp_mono [OF start_slot_wp [OF m]]) (use fin in blast)+
  ultimately show ?thesis by simp
qed

text \<open>What a start does to each slot.\<close>

definition restarted :: "warm_pool \<Rightarrow> warm_pool \<Rightarrow> bool" where
  "restarted s t = (\<forall>w. look t w = look s w \<or> (\<exists>sl. look t w = Some sl \<and> ws_state sl \<in> {WarmIDLE, WarmERROR}))"

lemma slot_started_restarted: "slot_started wid s t \<Longrightarrow> restarted s t"
  by (auto simp: slot_started_def restarted_def)

lemma restarted_refl: "wp_slots t = wp_slots s \<Longrightarrow> restarted s t"
  by (simp add: restarted_def)

lemma restarted_trans: "restarted s t \<Longrightarrow> restarted t u \<Longrightarrow> restarted s u"
  unfolding restarted_def by metis

lemma start_entries_wp:
  "pool_inv env C s \<Longrightarrow> distinct (map wc_id entries) \<Longrightarrow> (\<And>e. e \<in> set entries \<Longrightarrow> vacant s (wc_id e)) \<Longrightarrow>
    wp (for_each entries (start_entry env)) (\<lambda>_ t. pool_inv env C t \<and> restarted s t)
      (\<lambda>_ t. pool_inv env C t \<and> restarted s t) s"
proof (induction entries arbitrary: s)
  case Nil
  then show ?case by (simp add: wp_simps restarted_refl)
next
  case (Cons e entries)
  have rest: "wp (for_each entries (start_entry env)) (\<lambda>_ u. pool_inv env C u \<and> restarted s u)
      (\<lambda>_ u. pool_inv env C u \<and> restarted s u) t"
    if t: "pool_inv env C t" "slot_started (wc_id e) s t" for t
  proof -
    have "vacant t (wc_id e')" if "e' \<in> set entries" for e'
    proof -
      have "wc_id e' \<noteq> wc_id e" using that Cons.prems(2) by (auto simp: image_iff)
      then show ?thesis using t(2) Cons.prems(3) [of e'] that by (simp add: slot_started_def vacant_def)
    qed
    then show ?thesis
      by (intro wp_mono [OF Cons.IH [OF t(1)]])
        (use Cons.prems(2) restarted_trans [OF slot_started_restarted [OF t(2)]] in auto)
  qed
  show ?case
    unfolding for_each.simps wp_thenm
    by (rule wp_mono [OF start_entry_wp [OF Cons.prems(1)]])
      (use Cons.prems(3) rest slot_started_restarted in auto)
qed

lemma start_pool_wp:
  assumes inv: "pool_inv env C s" and fresh: "\<And>w. vacant s w"
    and config: "\<And>entries. wp_config s = Some entries \<Longrightarrow> distinct (map wc_id entries)"
    and loader: "\<And>entries. pe_loader env = Inr (Some entries) \<Longrightarrow> distinct (map wc_id entries)"
  shows "wp (start_pool env) (\<lambda>_ t. pool_inv env C t \<and> restarted s t) (\<lambda>_ t. pool_inv env C t \<and> restarted s t) s"
proof -
  let ?P = "\<lambda>t. pool_inv env C t \<and> restarted s t"
  have conf: "pool_inv env C (s\<lparr>wp_config := c\<rparr>)" for c
    using inv by (simp add: pool_inv_def gauges_ok_def)
  have gauge: "?P (t\<lparr>wp_gauges := collect_state_counts (wp_slots t)\<rparr>)" if "pool_inv env C t" "wp_slots t = wp_slots s" for t
    using that by (simp add: pool_inv_def gauges_ok_def restarted_refl)
  have run: "wp (case c of None \<Rightarrow> update_state_metrics
      | Some entries \<Rightarrow> if entries = [] then update_state_metrics else for_each entries (start_entry env))
      (\<lambda>_. ?P) (\<lambda>_. ?P) t"
    if t: "pool_inv env C t" "wp_slots t = wp_slots s" "\<And>es. c = Some es \<Longrightarrow> distinct (map wc_id es)" for c t
  proof -
    have "vacant t w" for w using fresh [of w] t(2) by (simp add: vacant_def)
    then have "wp (for_each es (start_entry env)) (\<lambda>_. ?P) (\<lambda>_. ?P) t" if "c = Some es" for es
      by (intro wp_mono [OF start_entries_wp [OF t(1) t(3) [OF that]]])
        (use restarted_trans [OF restarted_refl [OF t(2)]] in auto)
    then show ?thesis
      using gauge [OF t(1,2)] by (simp add: wp_option wp_if update_state_metrics_wp split: option.split)
  qed
  show ?thesis
  proof (cases "wp_config s")
    case (Some entries)
    then show ?thesis
      unfolding start_pool_def wp_thenm wp_bindm wp_ops Some option.case
      using run [OF inv, of "Some entries"] config by (simp add: Some)
  next
    case None
    show ?thesis
    proof (cases "pe_loader env")
      case (Inl e)
      with None inv show ?thesis by (simp add: start_pool_def wp_thenm wp_bindm wp_ops restarted_refl)
    next
      case (Inr l)
      with None show ?thesis
        unfolding start_pool_def wp_thenm wp_bindm wp_ops None option.case Inr sum.case
        by (intro run conf) (use loader Inr in simp_all)
    qed
  qed
qed

end
