(* ===== verification/Warm_Pool_Props.thy ===== *)
theory Warm_Pool_Props
  imports Warm_Pool_Inv
begin

text \<open>
  What the warm pool guarantees: the invariant in every state it can reach, the state machine its
  slots follow, the retry schedule of a launch, and that a cancelled reservation leaves no trace.
\<close>

section \<open>The pool as a transition system\<close>

definition pool_init :: "pool_env \<Rightarrow> nat set \<Rightarrow> warm_pool \<Rightarrow> bool" where
  "pool_init env C s = (\<exists>procs config. s = init_pool procs config \<and> world_ok procs \<and>
     C \<subseteq> pw_live procs \<and> pw_live procs \<subseteq> C \<union> left_behind env)"

text \<open>The public calls, and one call as an operation whose result is dropped.\<close>

datatype pool_call =
    PoolStart
  | PoolReserve "string option"
  | PoolBusy string
  | PoolCancel string
  | PoolRelease string
  | PoolEnable string
  | PoolRestart string
  | PoolDrainSlot string
  | PoolDrain

fun run_pool :: "pool_env \<Rightarrow> pool_call \<Rightarrow> unit pool_op" where
  "run_pool env PoolStart = start_pool env"
| "run_pool env (PoolReserve req) = thenm (reserve_slot env req) (ret ())"
| "run_pool env (PoolBusy wid) = thenm (mark_busy env wid) (ret ())"
| "run_pool env (PoolCancel wid) = thenm (cancel_reservation env wid) (ret ())"
| "run_pool env (PoolRelease wid) = thenm (release_slot env wid) (ret ())"
| "run_pool env (PoolEnable wid) = thenm (enable_slot env wid) (ret ())"
| "run_pool env (PoolRestart wid) = thenm (restart_slot env wid) (ret ())"
| "run_pool env (PoolDrainSlot wid) = thenm (drain_slot env wid) (ret ())"
| "run_pool env PoolDrain = thenm (drain env) (ret ())"

text \<open>
  \<open>start\<close> builds every slot anew and drops the one it replaces: it is called with a configuration that
  passed its validator, on a pool none of whose slots holds a browser or a profile directory. The
  other calls may come at any time.
\<close>

definition start_guard :: "pool_env \<Rightarrow> warm_pool \<Rightarrow> bool" where
  "start_guard env s = ((\<forall>w. vacant s w) \<and>
     (\<forall>es. wp_config s = Some es \<longrightarrow> validate_unique_ids es = Inr es) \<and>
     (\<forall>es. pe_loader env = Inr (Some es) \<longrightarrow> validate_unique_ids es = Inr es))"

definition pool_guard :: "pool_env \<Rightarrow> pool_call \<Rightarrow> warm_pool \<Rightarrow> bool" where
  "pool_guard env c s = (c = PoolStart \<longrightarrow> start_guard env s)"

inductive pool_step :: "pool_env \<Rightarrow> warm_pool \<Rightarrow> warm_pool \<Rightarrow> bool" for env where
  pool_called: "pool_guard env c s \<Longrightarrow> run_pool env c s = (r, t) \<Longrightarrow> pool_step env s t"

inductive_cases pool_stepE: "pool_step env s t"

lemmas recycle_ops = release_slot_def enable_slot_def restart_slot_def

lemma wp_then_ret: "wp (thenm m (ret ())) (\<lambda>_. Q) E s = wp m (\<lambda>_. Q) E s"
proof -
  have "wp (ret ()) (\<lambda>_. Q) E = Q" by (rule ext) (simp add: wp_ops)
  then show ?thesis by (simp add: wp_thenm)
qed

lemma pool_init_inv: "pool_init env C s \<Longrightarrow> pool_inv env C s"
  by (auto simp: pool_init_def init_pool_def pool_inv_def owned_def gauges_ok_def
      collect_state_counts_def)

lemma mark_busy_wp: "pool_inv env C s \<Longrightarrow> wp (mark_busy env wid)
    (\<lambda>sn t. pool_inv env C t \<and> wp_slots t = set_state wid WarmBUSY s \<and> moved s t wid {WarmRESERVED} {WarmBUSY} \<and>
       sn_workstation_id sn = wid \<and> sn_state sn = WarmBUSY)
    (\<lambda>e t. pool_inv env C t \<and> (wp_slots t = wp_slots s \<and>
         (\<forall>sl. look s wid = Some sl \<longrightarrow> ws_state sl \<noteq> WarmRESERVED) \<or>
       wp_slots t = set_state wid WarmBUSY s \<and> moved s t wid {WarmRESERVED} {WarmBUSY})) s"
  unfolding mark_busy_def by (rule move_slot_wp) (simp_all add: holding_def)

lemma cancel_reservation_wp: "pool_inv env C s \<Longrightarrow> wp (cancel_reservation env wid)
    (\<lambda>sn t. pool_inv env C t \<and> wp_slots t = set_state wid WarmIDLE s \<and> moved s t wid {WarmRESERVED} {WarmIDLE} \<and>
       sn_workstation_id sn = wid \<and> sn_state sn = WarmIDLE)
    (\<lambda>e t. pool_inv env C t \<and> (wp_slots t = wp_slots s \<and>
         (\<forall>sl. look s wid = Some sl \<longrightarrow> ws_state sl \<noteq> WarmRESERVED) \<or>
       wp_slots t = set_state wid WarmIDLE s \<and> moved s t wid {WarmRESERVED} {WarmIDLE})) s"
  unfolding cancel_reservation_def by (rule move_slot_wp) (simp_all add: holding_def)

section \<open>The state machine of a slot\<close>

text \<open>The states a slot in state \<open>a\<close> can be in after a call.\<close>

fun slot_moves :: "pool_call \<Rightarrow> string \<Rightarrow> warm_state \<Rightarrow> warm_state set" where
  "slot_moves PoolStart w a = {a, WarmIDLE, WarmERROR}"
| "slot_moves (PoolReserve req) w a =
     (if a = WarmIDLE \<and> (non_empty req \<longrightarrow> req = Some w) then {WarmIDLE, WarmRESERVED} else {a})"
| "slot_moves (PoolBusy wid) w a = (if w = wid \<and> a = WarmRESERVED then {WarmBUSY} else {a})"
| "slot_moves (PoolCancel wid) w a = (if w = wid \<and> a = WarmRESERVED then {WarmIDLE} else {a})"
| "slot_moves (PoolRelease wid) w a =
     (if w = wid \<and> a \<in> {WarmBUSY, WarmRESERVED} then {WarmIDLE, WarmRECYCLING, WarmERROR} else {a})"
| "slot_moves (PoolEnable wid) w a =
     (if w = wid \<and> a \<in> {WarmDRAINING, WarmERROR} then {WarmIDLE, WarmRECYCLING, WarmERROR} else {a})"
| "slot_moves (PoolRestart wid) w a =
     (if w = wid \<and> a \<in> {WarmIDLE, WarmERROR} then {WarmIDLE, WarmRECYCLING, WarmERROR} else {a})"
| "slot_moves (PoolDrainSlot wid) w a = (if w = wid \<and> a \<in> {WarmIDLE, WarmERROR} then {WarmDRAINING} else {a})"
| "slot_moves PoolDrain w a = {WarmDRAINING}"

definition moves_by :: "pool_call \<Rightarrow> warm_pool \<Rightarrow> warm_pool \<Rightarrow> bool" where
  "moves_by c s t = (\<forall>w a. look s w = Some a \<longrightarrow>
     (\<exists>b. look t w = Some b \<and> ws_state b \<in> slot_moves c w (ws_state a)))"

lemma same_moves:
  assumes "wp_slots t = wp_slots s"
    and "\<And>w a. look s w = Some a \<Longrightarrow> ws_state a \<in> slot_moves c w (ws_state a)"
  shows "moves_by c s t"
  using assms by (simp add: moves_by_def)

lemma moved_moves:
  assumes "moved s t wid A B"
    and "\<And>a b. a \<in> A \<Longrightarrow> b \<in> B \<Longrightarrow> b \<in> slot_moves c wid a" and "\<And>w a. w \<noteq> wid \<Longrightarrow> a \<in> slot_moves c w a"
  shows "moves_by c s t"
  unfolding moves_by_def
proof (intro allI impI)
  fix w a assume a: "look s w = Some a"
  show "\<exists>b. look t w = Some b \<and> ws_state b \<in> slot_moves c w (ws_state a)"
  proof (cases "w = wid")
    case True
    with assms(1,2) a show ?thesis unfolding moved_def by (metis option.inject)
  next
    case False
    with assms(1,3) a show ?thesis unfolding moved_def by metis
  qed
qed

lemma recycle_moves:
  assumes inv: "pool_inv env C s"
    and moves: "\<And>w a. slot_moves c w a = (if w = wid \<and> a \<in> set allowed then {WarmIDLE, WarmRECYCLING, WarmERROR} else {a})"
  shows "wp (recycle_slot env wid allowed v r f d) (\<lambda>_ t. pool_inv env C t \<and> moves_by c s t)
    (\<lambda>_ t. pool_inv env C t \<and> moves_by c s t) s"
proof -
  have to_idle: "moves_by c s t" if "moved s t wid (set allowed) B" "B \<subseteq> {WarmIDLE, WarmRECYCLING, WarmERROR}" for t B
    by (rule moved_moves [OF that(1)]) (use that(2) in \<open>auto simp: moves\<close>)
  have stay: "moves_by c s t" if "wp_slots t = wp_slots s" "\<forall>sl. look s wid = Some sl \<longrightarrow> ws_state sl \<notin> set allowed" for t
    by (rule same_moves [OF that(1)]) (use that(2) in \<open>auto simp: moves\<close>)
  show ?thesis
    by (rule wp_mono [OF recycle_slot_wp [OF inv]]) (use to_idle stay in blast)+
qed

lemma start_moves:
  assumes inv: "pool_inv env C s" and guard: "start_guard env s"
  shows "wp (start_pool env) (\<lambda>_ t. pool_inv env C t \<and> moves_by PoolStart s t)
    (\<lambda>_ t. pool_inv env C t \<and> moves_by PoolStart s t) s"
proof -
  have "restarted s t \<Longrightarrow> moves_by PoolStart s t" for t
    unfolding restarted_def moves_by_def by (metis insertCI slot_moves.simps(1) insertE singletonD)
  then show ?thesis
    by (intro wp_mono [OF start_pool_wp [OF inv]]) (use guard in \<open>auto simp: start_guard_def validate_unique_ids_ok\<close>)
qed

lemma drain_moves:
  assumes inv: "pool_inv env C s"
  shows "wp (drain env) (\<lambda>_ t. pool_inv env C t \<and> moves_by PoolDrain s t)
    (\<lambda>_ t. pool_inv env C t \<and> moves_by PoolDrain s t) s"
proof -
  have "moves_by PoolDrain s t" if "all_draining t" "\<forall>w. look t w = None \<longleftrightarrow> look s w = None" for t
    using that unfolding moves_by_def all_draining_def by (metis insertI1 not_None_eq slot_moves.simps(9))
  then show ?thesis by (intro wp_mono [OF drain_wp [OF inv]]) auto
qed

lemma pool_call_wp:
  assumes inv: "pool_inv env C s" and guard: "pool_guard env c s"
  shows "wp (run_pool env c) (\<lambda>_ t. pool_inv env C t \<and> moves_by c s t) (\<lambda>_ t. pool_inv env C t \<and> moves_by c s t) s"
proof (cases c)
  case PoolStart
  with start_moves [OF inv] guard show ?thesis by (simp add: pool_guard_def)
next
  case (PoolReserve req)
  have "moves_by c s t" if "moved s t wid {WarmIDLE} {WarmRESERVED}" "non_empty req \<longrightarrow> req = Some wid" for t wid
    by (rule moved_moves [OF that(1)]) (use that(2) in \<open>auto simp: PoolReserve\<close>)
  moreover have "moves_by c s t" if "wp_slots t = wp_slots s" for t
    by (rule same_moves [OF that]) (auto simp: PoolReserve)
  ultimately show ?thesis
    unfolding PoolReserve run_pool.simps wp_then_ret
    by (intro wp_mono [OF reserve_slot_wp [OF inv]]) (auto simp: reserved_def)
next
  case (PoolBusy wid)
  have "moves_by c s t" if "moved s t wid {WarmRESERVED} {WarmBUSY}" for t
    by (rule moved_moves [OF that]) (auto simp: PoolBusy)
  moreover have "moves_by c s t"
    if "wp_slots t = wp_slots s" "\<forall>sl. look s wid = Some sl \<longrightarrow> ws_state sl \<noteq> WarmRESERVED" for t
    by (rule same_moves [OF that(1)]) (use that(2) in \<open>auto simp: PoolBusy\<close>)
  ultimately show ?thesis
    unfolding PoolBusy run_pool.simps wp_then_ret by (intro wp_mono [OF mark_busy_wp [OF inv]]) auto
next
  case (PoolCancel wid)
  have "moves_by c s t" if "moved s t wid {WarmRESERVED} {WarmIDLE}" for t
    by (rule moved_moves [OF that]) (auto simp: PoolCancel)
  moreover have "moves_by c s t"
    if "wp_slots t = wp_slots s" "\<forall>sl. look s wid = Some sl \<longrightarrow> ws_state sl \<noteq> WarmRESERVED" for t
    by (rule same_moves [OF that(1)]) (use that(2) in \<open>auto simp: PoolCancel\<close>)
  ultimately show ?thesis
    unfolding PoolCancel run_pool.simps wp_then_ret by (intro wp_mono [OF cancel_reservation_wp [OF inv]]) auto
next
  case (PoolRelease wid)
  show ?thesis
    unfolding PoolRelease run_pool.simps wp_then_ret release_slot_def by (rule recycle_moves [OF inv]) simp
next
  case (PoolEnable wid)
  show ?thesis
    unfolding PoolEnable run_pool.simps wp_then_ret enable_slot_def by (rule recycle_moves [OF inv]) simp
next
  case (PoolRestart wid)
  show ?thesis
    unfolding PoolRestart run_pool.simps wp_then_ret restart_slot_def by (rule recycle_moves [OF inv]) simp
next
  case (PoolDrainSlot wid)
  have "moves_by c s t" if "moved s t wid {WarmIDLE, WarmERROR} {WarmDRAINING}" for t
    by (rule moved_moves [OF that]) (auto simp: PoolDrainSlot)
  moreover have "moves_by c s t"
    if "wp_slots t = wp_slots s" "\<forall>sl. look s wid = Some sl \<longrightarrow> ws_state sl \<notin> {WarmIDLE, WarmERROR}" for t
    by (rule same_moves [OF that(1)]) (use that(2) in \<open>auto simp: PoolDrainSlot\<close>)
  ultimately show ?thesis
    unfolding PoolDrainSlot run_pool.simps wp_then_ret by (intro wp_mono [OF drain_slot_wp [OF inv]]) blast+
next
  case PoolDrain
  with drain_moves [OF inv] show ?thesis by (simp add: wp_then_ret)
qed

lemma pool_call_sound:
  assumes "pool_inv env C s" and "pool_guard env c s" and "run_pool env c s = (r, t)"
  shows "pool_inv env C t \<and> moves_by c s t"
  using wp_run [OF pool_call_wp [OF assms(1,2)] assms(3)] by (auto split: sum.splits)

lemma pool_step_sound: "pool_inv env C s \<Longrightarrow> pool_step env s t \<Longrightarrow> pool_inv env C t"
  by (elim pool_stepE) (simp add: pool_call_sound)

interpretation pool: transition_invariant "pool_init env C" "pool_step env" "pool_inv env C" for env C
  by unfold_locales (auto simp: pool_init_inv pool_step_sound)

text \<open>
  C6: In every state the warm pool reaches, whatever fails on the way, the slots that hold a browser
  are exactly the idle, reserved and busy ones, no two slots share one, every process still running
  belongs to a slot, to the rest of the runner, or is one that could not be killed or whose launch
  broke off with an exception the launcher does not handle, no temporary directory is without a slot,
  and the gauges show the numbers of slots by state. Calls are atomic and not cancelled, and \<open>start\<close>
  is only called while no slot holds a browser or a directory (\<open>start_guard\<close>): the code would drop them.
\<close>

theorem pool_reachable_inv:
  assumes "reachable (pool_init env C) (pool_step env) s"
  shows "pool_inv env C s"
  using assms by (rule pool.reachable_inv)

section \<open>Which calls begin a recycling\<close>

text \<open>A recycling asks for a new profile directory; the number of requests only grows.\<close>

abbreviation dirs_from :: "nat \<Rightarrow> warm_pool \<Rightarrow> bool" where
  "dirs_from n s \<equiv> n \<le> wp_next_dir s"

lemma keeps_require [keep_rules]: "keeps I (require_slot wid)"
  by (rule keepsI) (simp add: require_slot_def split: option.split)

lemma keeps_dirs [keep_rules]:
  "keeps (dirs_from n) (set_slot wid f)" "keeps (dirs_from n) update_state_metrics"
  "keeps (dirs_from n) (procs_op m)" "keeps (dirs_from n) (sleep ms)"
  by (rule keepsI, simp add: set_slot_def update_state_metrics_def procs_op_def zoom_def sleep_def split: prod.split)+

lemma keeps_dirs_modify [keep_rules]:
  "(\<And>s. wp_next_dir (f s) = wp_next_dir s) \<Longrightarrow> keeps (dirs_from n) (modify f)"
  by (rule keepsI) (simp add: modify_def)

lemma keeps_dirs_make [keep_rules]: "keeps (dirs_from n) (make_temp_dir env)"
  by (rule keepsI) (simp add: make_temp_dir_def op_run split: option.split)

lemma keeps_dirs_publish [keep_rules]: "keeps (dirs_from n) (publish_event env sn ty r md)"
  unfolding publish_event_def by (intro keep_rules) simp_all

lemma keeps_dirs_emit [keep_rules]:
  "keeps (dirs_from n) (emit_state_change env sn r md)" "keeps (dirs_from n) (emit_recycled env wid sn r)"
  "keeps (dirs_from n) (emit_error env wid sn r)"
  unfolding emit_state_change_def emit_recycled_def emit_error_def by (intro keep_rules)+

lemma keeps_dirs_shutdown [keep_rules]: "keeps (dirs_from n) (safe_shutdown env ho)"
  unfolding safe_shutdown_def by (intro keep_rules)

lemma keeps_dirs_teardown [keep_rules]: "keeps (dirs_from n) (teardown_slot env wid)"
  unfolding teardown_slot_def by (intro keep_rules) simp_all

lemma keeps_exn [keep_rules]:
  "(\<And>m c. keeps I (f m c)) \<Longrightarrow> keeps I k \<Longrightarrow> keeps I (case e of WarmPoolProvisioningError m c \<Rightarrow> f m c | _ \<Rightarrow> k)"
  "(\<And>m. keeps I (g m)) \<Longrightarrow> keeps I k \<Longrightarrow> keeps I (case e of BrowserLaunchError m \<Rightarrow> g m | _ \<Rightarrow> k)"
  by (cases e; simp)+

lemma keeps_dirs_spawn [keep_rules]: "keeps (dirs_from n) (spawn_browser env wid)"
  unfolding spawn_browser_def build_launch_env_def Let_def by (intro keep_rules) simp_all

lemma keeps_dirs_prewarm [keep_rules]: "keeps (dirs_from n) (maybe_prewarm env h)"
  unfolding maybe_prewarm_def by (intro keep_rules)

lemma keeps_dirs_loop [keep_rules]: "keeps (dirs_from n) (attempt_loop env wid k d err)"
proof (induction k arbitrary: d err)
  case 0
  show ?case by (simp add: attempt_loop.simps keep_rules)
next
  case (Suc k)
  note [keep_rules] = Suc.IH
  show ?case unfolding attempt_loop.simps by (intro keep_rules Suc.IH) simp_all
qed

lemma keeps_dirs_provision [keep_rules]: "keeps (dirs_from n) (provision_slot env wid)"
  unfolding provision_slot_def attempt_launch_def by (intro keep_rules)

lemma keeps_dirs_reprovision [keep_rules]: "keeps (dirs_from n) (reprovision env wid sn r f)"
  unfolding reprovision_def recycle_failed_def by (intro keep_rules)

lemma make_temp_dir_counts:
  "wp (make_temp_dir env) (\<lambda>_ t. wp_next_dir t = Suc (wp_next_dir s)) (\<lambda>_ t. wp_next_dir t = Suc (wp_next_dir s)) s"
  by (auto simp: make_temp_dir_def wp_simps split: option.split)

lemma recycle_begins:
  assumes "recycle_slot env wid allowed v r f d s = (x, t)"
  shows "wp_next_dir s < wp_next_dir t \<longleftrightarrow> (\<exists>sl. look s wid = Some sl \<and> ws_state sl \<in> set allowed)"
proof (cases "\<exists>sl. look s wid = Some sl \<and> ws_state sl \<in> set allowed")
  case False
  then have "wp (recycle_slot env wid allowed v r f d) (\<lambda>_ t. wp_next_dir t = wp_next_dir s) (\<lambda>_ t. wp_next_dir t = wp_next_dir s) s"
    by (auto simp: recycle_slot_def recycle_locked_def record_recycle_duration_def wp_simps split: option.split)
  from wp_run [OF this assms] False show ?thesis by (auto split: sum.splits)
next
  case True
  then obtain sl where sl: "look s wid = Some sl" "ws_state sl \<in> set allowed" by blast
  let ?grown = "dirs_from (Suc (wp_next_dir s))"
  have torn: "wp (teardown_slot env wid) (\<lambda>_. dirs_from n) (\<lambda>_ _. False) u"
    if u: "dirs_from n u" "look u wid = Some sl'" for n u sl'
    unfolding teardown_slot_def wp_bindm wp_thenm require_slot_wp u(2) option.case
    by (rule wp_mono [OF wp_conj [OF keeps_wpD [OF keeps_dirs_shutdown u(1)] safe_shutdown_returns]])
      (auto simp: wp_simps split: option.split)
  have rest: "wp (thenm (bindm (make_temp_dir env) (\<lambda>d. set_slot wid (\<lambda>sl. sl\<lparr>ws_temp_dir := Some d\<rparr>)))
      (reprovision env wid sn r f)) (\<lambda>_. ?grown) (\<lambda>_. ?grown) u" if "dirs_from (wp_next_dir s) u" for sn u
    unfolding wp_thenm wp_bindm
    by (rule wp_mono [OF make_temp_dir_counts])
      (use that in \<open>auto simp: set_slot_wp intro!: keeps_wpD [OF keeps_dirs_reprovision]\<close>)
  have locked: "wp (recycle_locked env wid allowed v r f) (\<lambda>_. ?grown) (\<lambda>_. ?grown) s"
    by (simp only: recycle_locked_def wp_bindm [of "require_slot wid"] require_slot_wp sl option.case
        not_True_eq_False if_False wp_thenm [of "set_slot a b" for a b] set_slot_wp
        wp_thenm [of update_state_metrics] update_state_metrics_wp wp_thenm [of "teardown_slot a b" for a b])
      (rule wp_mono [OF torn rest], simp_all add: sl)
  have "wp (recycle_slot env wid allowed v r f d) (\<lambda>_. ?grown) (\<lambda>_. ?grown) s"
    unfolding recycle_slot_def wp_bindm [of "require_slot _"] require_slot_wp sl option.case
      record_recycle_duration_def wp_bindm [of "finallym _ _"] wp_finallym
    by (rule wp_mono [OF locked]) (auto simp: wp_ops intro!: keeps_wpD [OF _ _] keep_rules)
  from wp_run [OF this assms] sl show ?thesis by (auto split: sum.splits)
qed

lemma run_then_ret: "thenm m (ret ()) s = (r, t) \<Longrightarrow> \<exists>x. m s = (x, t)"
  by (auto simp: thenm_def bindm_def ret_def split: prod.splits sum.splits)

text \<open>The calls that tear a slot down and provision it again, with the states they accept.\<close>

fun recycled_from :: "pool_call \<Rightarrow> (string \<times> warm_state set) option" where
  "recycled_from (PoolRelease wid) = Some (wid, {WarmBUSY, WarmRESERVED})"
| "recycled_from (PoolEnable wid) = Some (wid, {WarmDRAINING, WarmERROR})"
| "recycled_from (PoolRestart wid) = Some (wid, {WarmIDLE, WarmERROR})"
| "recycled_from c = None"

lemma recycling_begins:
  assumes "recycled_from c = Some (wid, A)" and run: "run_pool env c s = (r, t)"
  shows "wp_next_dir s < wp_next_dir t \<longleftrightarrow> (\<exists>a. look s wid = Some a \<and> ws_state a \<in> A)"
proof (cases c)
  case (PoolRelease w)
  then obtain x where "release_slot env w s = (x, t)" using run run_then_ret by fastforce
  from recycle_begins [OF this [unfolded release_slot_def]] assms(1) PoolRelease show ?thesis by auto
next
  case (PoolEnable w)
  then obtain x where "enable_slot env w s = (x, t)" using run run_then_ret by fastforce
  from recycle_begins [OF this [unfolded enable_slot_def]] assms(1) PoolEnable show ?thesis by auto
next
  case (PoolRestart w)
  then obtain x where "restart_slot env w s = (x, t)" using run run_then_ret by fastforce
  from recycle_begins [OF this [unfolded restart_slot_def]] assms(1) PoolRestart show ?thesis by auto
qed (use assms(1) in simp_all)

text \<open>
  C7: A public call moves the slots only as the state machine of the pool says (\<open>slot_moves\<close>): a slot is
  reserved from idle only, becomes busy or idle again from reserved only, is drained by itself from idle
  or error only, every slot that is in another state or belongs to another workstation stays as it is,
  and no slot disappears. A release, an enabling or a restart begins, which is when it asks for a new
  profile directory, exactly when the slot is busy or reserved, draining or in error, idle or in error.
  \<open>start\<close> is only called while no slot holds a browser or a directory.
\<close>

theorem pool_slots_move_legally:
  assumes "reachable (pool_init env C) (pool_step env) s" and "pool_guard env c s"
    and "run_pool env c s = (r, t)"
  shows "(\<forall>w a. look s w = Some a \<longrightarrow> (\<exists>b. look t w = Some b \<and> ws_state b \<in> slot_moves c w (ws_state a))) \<and>
    (\<forall>wid A. recycled_from c = Some (wid, A) \<longrightarrow>
      (wp_next_dir s < wp_next_dir t \<longleftrightarrow> (\<exists>a. look s wid = Some a \<and> ws_state a \<in> A)))"
  using pool_call_sound [OF pool.reachable_inv [OF assms(1)] assms(2,3)] recycling_begins [OF _ assms(3)]
  unfolding moves_by_def by blast

lemma set_state_back:
  "dict_ok (wp_slots s) \<Longrightarrow> look s wid = Some sl \<Longrightarrow> ws_state sl = st \<Longrightarrow>
    AList.map_entry wid (\<lambda>sl. sl\<lparr>ws_state := st\<rparr>) (set_state wid st' s) = wp_slots s"
proof -
  have "map_of d wid = Some sl \<Longrightarrow> ws_state sl = st \<Longrightarrow>
    AList.map_entry wid (\<lambda>sl. sl\<lparr>ws_state := st\<rparr>) (AList.map_entry wid (\<lambda>sl. sl\<lparr>ws_state := st'\<rparr>) d) = d" for d
    by (induction d) auto
  then show "look s wid = Some sl \<Longrightarrow> ws_state sl = st \<Longrightarrow>
    AList.map_entry wid (\<lambda>sl. sl\<lparr>ws_state := st\<rparr>) (set_state wid st' s) = wp_slots s"
    by (simp add: set_state_def)
qed

text \<open>
  Cancelling a reservation puts every slot back as it was before the reservation, even when the
  event of the cancellation cannot be published, and the gauges with them.
\<close>

theorem reserve_cancel_restores:
  assumes inv: "pool_inv env C s" and reserve: "reserve_slot env req s = (Inr rv, t)"
    and cancel: "cancel_reservation env (sn_workstation_id (rv_snapshot rv)) t = (r, u)"
  shows "wp_slots u = wp_slots s \<and> wp_gauges u = wp_gauges s"
proof -
  let ?wid = "sn_workstation_id (rv_snapshot rv)"
  from wp_run [OF reserve_slot_wp [OF inv] reserve]
  obtain sl where inv': "pool_inv env C t" and sl: "look s ?wid = Some sl" "ws_state sl = WarmIDLE"
    and slots: "wp_slots t = set_state ?wid WarmRESERVED s"
    by (auto simp: reserved_def)
  have ok: "dict_ok (wp_slots s)" using inv by (simp add: pool_inv_def)
  have restored: "set_state ?wid WarmIDLE t = wp_slots s"
    using set_state_back [OF ok sl] slots by (simp add: set_state_def)
  have "look t ?wid = Some (sl\<lparr>ws_state := WarmRESERVED\<rparr>)"
    using sl by (simp add: slots set_state_def)
  then have "pool_inv env C u" "wp_slots u = set_state ?wid WarmIDLE t"
    using wp_run [OF cancel_reservation_wp [OF inv'] cancel] by (auto split: sum.splits)
  with inv restored show ?thesis
    by (simp add: pool_inv_def gauges_ok_def)
qed

section \<open>The retry schedule\<close>

definition backoff :: "int \<Rightarrow> nat \<Rightarrow> int list" where
  "backoff d n = map (\<lambda>i. d * 2 ^ i) [0..<n]"

lemma backoff_Suc: "backoff d (Suc n) = d # backoff (2 * d) n"
  by (induction n) (simp_all add: backoff_def)

definition spent :: "warm_pool \<Rightarrow> warm_pool \<Rightarrow> int list \<Rightarrow> nat \<Rightarrow> bool" where
  "spent s t sleeps launches = (wp_sleeps t = wp_sleeps s @ sleeps \<and>
     pw_next (wp_procs t) \<le> pw_next (wp_procs s) + launches)"

lemma spent_more: "spent s t a 0 \<Longrightarrow> spent s t a 1"
  by (simp add: spent_def)

lemma launch_next: "wp (launch_browser os b hl ex fl) (\<lambda>_ w'. pw_next w' = Suc (pw_next w)) (\<lambda>_ w'. pw_next w' = Suc (pw_next w)) w"
  by (cases "ls_line (os_script os (pw_next w))")
    (auto simp: launch_browser_def wp_simps proc_defs split: option.split sum.split)

lemma build_launch_env_spent:
  "wp (build_launch_env env wid) (\<lambda>_ t. spent s t [] 0) (\<lambda>_ t. spent s t [] 0) s"
  by (auto simp: build_launch_env_def make_temp_dir_def Let_def wp_simps spent_def split: option.split)

lemma spawn_browser_spent:
  "wp (spawn_browser env wid) (\<lambda>_ t. spent s t [] 1) (\<lambda>_ t. spent s t [] 1) s"
proof -
  have handler: "wp (case exc of
          BrowserLaunchError m \<Rightarrow>
            bindm (require_slot wid) (\<lambda>sl.
              thenm (whenm (non_empty (ws_proxy_url sl))
                      (modify (\<lambda>s. s\<lparr>wp_proxy_errors := Suc (wp_proxy_errors s)\<rparr>)))
                    (raise exc))
        | _ \<Rightarrow> raise exc) Q (\<lambda>_ t. spent s t [] 1) t" if "spent s t [] 1" for exc Q and t :: warm_pool
    using that by (cases exc) (auto simp: wp_simps spent_def split: option.split)
  have launch: "wp (procs_op (launch_browser os b hl ex fl)) (\<lambda>_ t. spent s t [] 1) (\<lambda>_ t. spent s t [] 1) t"
    if "spent s t [] 0" for os b hl ex fl t
    unfolding procs_op_def wp_zoom
    by (rule wp_mono [OF launch_next]) (use that in \<open>auto simp: spent_def\<close>)
  show ?thesis
    unfolding spawn_browser_def wp_bindm wp_catchm
    by (rule wp_mono [OF build_launch_env_spent], rule wp_mono [OF launch], assumption)
      (simp_all only: wp_ops spent_more, rule handler, assumption)
qed

lemma maybe_prewarm_spent:
  "wp (maybe_prewarm env h) (\<lambda>_ t. \<exists>w \<in> {[], [pe_start_wait_ms env]}. spent s t w 0)
    (\<lambda>_ t. spent s t [] 0) s"
  by (auto simp: maybe_prewarm_def sleep_def wp_simps spent_def split: option.split)

lemma safe_shutdown_spent: "wp (safe_shutdown env ho) (\<lambda>_ t. spent s t [] 0) (\<lambda>_ _. False) s"
proof (cases ho)
  case None
  then show ?thesis by (simp add: safe_shutdown_def wp_simps spent_def)
next
  case (Some h)
  have "pw_next (snd (shutdown (pe_os env) True h w)) = pw_next w" for w
    using shutdown_effect [of "pe_os env" True h w] by (cases "shutdown (pe_os env) True h w") auto
  then show ?thesis
    by (simp add: Some safe_shutdown_def wp_def suppress_def procs_op_def zoom_def spent_def)
qed

lemma spent_trans: "spent s t a m \<Longrightarrow> spent t u b n \<Longrightarrow> spent s u (a @ b) (m + n)"
  by (auto simp: spent_def)

lemma attempt_loop_schedule:
  "wp (attempt_loop env wid k d err)
    (\<lambda>_ t. \<exists>j < k. \<exists>w \<in> {[], [pe_start_wait_ms env]}. spent s t (backoff d j @ w) (Suc j))
    (\<lambda>_ t. spent s t (backoff d (k - 1)) k) s"
proof (induction k arbitrary: d err s)
  case 0
  then show ?case by (simp add: attempt_loop.simps wp_simps spent_def backoff_def)
next
  case (Suc k)
  let ?Q = "\<lambda>_ t. \<exists>j < Suc k. \<exists>w \<in> {[], [pe_start_wait_ms env]}. spent s t (backoff d j @ w) (Suc j)"
  let ?E = "\<lambda>_ t. spent s t (backoff d (Suc k - 1)) (Suc k)"
  have retry: "wp (thenm (whenm (0 < k) (sleep d)) (attempt_loop env wid k (if 0 < k then 2 * d else d) err'))
      ?Q ?E t" if t: "spent s t [] 1" for err' t
  proof (cases "k = 0")
    case True
    then show ?thesis using t by (simp add: wp_simps attempt_loop.simps backoff_def)
  next
    case False
    then obtain k' where k: "k = Suc k'" by (cases k) auto
    let ?t = "t\<lparr>wp_sleeps := wp_sleeps t @ [d]\<rparr>"
    have slept: "spent s ?t [d] 1" using t by (simp add: spent_def)
    have "wp (attempt_loop env wid k (2 * d) err') ?Q ?E ?t"
    proof (rule wp_mono [OF Suc.IH])
      fix x u assume "\<exists>j < k. \<exists>w \<in> {[], [pe_start_wait_ms env]}. spent ?t u (backoff (2 * d) j @ w) (Suc j)"
      then obtain j w where "j < k" "w \<in> {[], [pe_start_wait_ms env]}" "spent ?t u (backoff (2 * d) j @ w) (Suc j)"
        by blast
      with spent_trans [OF slept this(3)] show "?Q x u"
        by (intro exI [of _ "Suc j"]) (auto simp: backoff_Suc)
    next
      fix e u assume "spent ?t u (backoff (2 * d) (k - 1)) k"
      with spent_trans [OF slept this] show "?E e u" by (simp add: backoff_Suc k)
    qed
    then show ?thesis using False by (simp add: wp_simps sleep_def)
  qed
  have prewarm: "wp (bindm (attempt (maybe_prewarm env h)) (\<lambda>r2. case r2 of
           Inl exc \<Rightarrow>
             thenm (modify (\<lambda>s. s\<lparr>wp_nav_errors := Suc (wp_nav_errors s)\<rparr>))
             (thenm (safe_shutdown env (Some h))
             (thenm (whenm (0 < k) (sleep d))
               (attempt_loop env wid k (if 0 < k then 2 * d else d) (Some exc))))
         | Inr _ \<Rightarrow> thenm (set_slot wid (\<lambda>sl. sl\<lparr>ws_launch_env := v\<rparr>)) (ret h))) ?Q ?E t"
    if t: "spent s t [] 1" for h v t
    unfolding wp_bindm wp_attempt
  proof (rule wp_mono [OF maybe_prewarm_spent]; simp only: sum.case)
    fix x :: unit and u assume "\<exists>w \<in> {[], [pe_start_wait_ms env]}. spent t u w 0"
    then obtain w where w: "w \<in> {[], [pe_start_wait_ms env]}" "spent s u w 1"
      using spent_trans [OF t] by fastforce
    then show "wp (thenm (set_slot wid (\<lambda>sl. sl\<lparr>ws_launch_env := v\<rparr>)) (ret h)) ?Q ?E u"
      by (auto simp: wp_simps backoff_def spent_def intro!: exI [of _ 0])
  next
    fix e u assume "spent t u [] 0"
    then have u: "spent s (u\<lparr>wp_nav_errors := Suc (wp_nav_errors u)\<rparr>) [] 1"
      using spent_trans [OF t, of u "[]" 0] by (simp add: spent_def)
    show "wp (thenm (modify (\<lambda>s. s\<lparr>wp_nav_errors := Suc (wp_nav_errors s)\<rparr>))
             (thenm (safe_shutdown env (Some h))
             (thenm (whenm (0 < k) (sleep d))
               (attempt_loop env wid k (if 0 < k then 2 * d else d) (Some e))))) ?Q ?E u"
      unfolding wp_thenm [of "modify _"] wp_ops wp_thenm [of "safe_shutdown _ _"]
    proof (rule wp_mono [OF safe_shutdown_spent])
      fix x :: unit and v assume v: "spent (u\<lparr>wp_nav_errors := Suc (wp_nav_errors u)\<rparr>) v [] 0"
      show "wp (thenm (whenm (0 < k) (sleep d))
          (attempt_loop env wid k (if 0 < k then 2 * d else d) (Some e))) ?Q ?E v"
        by (rule retry) (use spent_trans [OF u v] in simp)
    qed simp
  qed
  show ?case
    unfolding attempt_loop.simps(2) wp_bindm [of "attempt (spawn_browser _ _)"] wp_attempt [of "spawn_browser _ _"]
    by (rule wp_mono [OF spawn_browser_spent]; simp only: sum.case) (rule prewarm retry, assumption)+
qed

text \<open>
  Provisioning a workstation starts at most \<open>max_retries\<close> browsers, and between the attempts it
  sleeps the base delay doubled after each failure: \<open>base\<close>, \<open>2 * base\<close>, \<open>4 * base\<close>, one delay fewer
  than attempts; only a successful attempt may add the configured wait after navigation.
\<close>

theorem attempt_launch_schedule:
  assumes "attempt_launch env wid s = (r, t)"
  shows "pw_next (wp_procs t) \<le> pw_next (wp_procs s) + pe_max_retries env \<and>
    (case r of
       Inl _ \<Rightarrow> wp_sleeps t = wp_sleeps s @ backoff (pe_base_delay env) (pe_max_retries env - 1)
     | Inr _ \<Rightarrow> \<exists>j < pe_max_retries env. \<exists>w \<in> {[], [pe_start_wait_ms env]}.
         wp_sleeps t = wp_sleeps s @ backoff (pe_base_delay env) j @ w)"
  using wp_run [OF attempt_loop_schedule assms [unfolded attempt_launch_def]]
  by (auto simp: spent_def split: sum.splits)

section \<open>A pool with one workstation\<close>

definition demo_pool_env :: pool_env where
  "demo_pool_env = \<lparr>pe_os = demo_os, pe_loader = Inr None, pe_flags = [], pe_prefs_path = None,
     pe_prewarm = True, pe_start_url = Some ''https://example.org'', pe_start_wait_ms = 250,
     pe_navigate = (\<lambda>p. if p = 0 then Some (OtherError ''TimeoutError'') else None),
     pe_tempdir = (\<lambda>_. None), pe_dir_path = (\<lambda>n. ''/tmp/profile''), pe_max_retries = Suc (Suc (Suc 0)),
     pe_base_delay = 1000, pe_has_publisher = False, pe_publish = (\<lambda>_. None), pe_now = 0\<rparr>"

definition demo_entries :: "workstation_entry list" where
  "demo_entries = [\<lparr>wc_id = ''ws-1'', wc_label = None, wc_tags = [],
     wc_extra = [(''fingerprint_id'', ''fp'')]\<rparr>]"

definition demo_start :: warm_pool where
  "demo_start = init_pool empty_world (Some demo_entries)"

definition demo_pool :: warm_pool where
  "demo_pool = snd (start_pool demo_pool_env demo_start)"

lemmas pool_defs = start_pool_def init_pool_def for_each.simps
   start_entry_def build_slot_def make_temp_dir_def extra_text_def non_empty_def update_state_metrics_def
   start_slot_def start_failed_def provision_slot_def attempt_launch_def attempt_loop.simps
   spawn_browser_def build_launch_env_def put_if_def procs_op_def launch_browser_def maybe_prewarm_def
   safe_shutdown_def shutdown_def sleep_def set_slot_def require_slot_def collect_state_counts_def
   emit_state_change_def publish_event_def emit_error_def slot_snapshot_def build_workstation_meta_def

lemma demo_env_simps:
  "pe_os demo_pool_env = demo_os" "pe_loader demo_pool_env = Inr None" "pe_flags demo_pool_env = []"
  "pe_prefs_path demo_pool_env = None" "pe_prewarm demo_pool_env" "pe_start_url demo_pool_env = Some ''https://example.org''"
  "pe_start_wait_ms demo_pool_env = 250"
  "pe_navigate demo_pool_env p = (if p = 0 then Some (OtherError ''TimeoutError'') else None)"
  "pe_tempdir demo_pool_env n = None" "pe_dir_path demo_pool_env n = ''/tmp/profile''"
  "pe_max_retries demo_pool_env = Suc (Suc (Suc 0))" "pe_base_delay demo_pool_env = 1000"
  "\<not> pe_has_publisher demo_pool_env" "pe_publish demo_pool_env n = None" "pe_now demo_pool_env = 0"
  by (simp_all add: demo_pool_env_def)

lemma demo_os_simps:
  "ls_spawn (os_script demo_os n) = None" "ls_stdout (os_script demo_os n)"
  "ls_line (os_script demo_os n) = (if n = 1 then LineTimeout else Line ''listening on ws://127.0.0.1:9/abc ok'')"
  "ls_exit (os_script demo_os n) = None" "\<not> os_exited demo_os n" "os_kill_error demo_os n = None" "os_graceful demo_os n"
  "read_endpoint demo_os ''listening on ws://127.0.0.1:9/abc ok'' = Inr ''ws://127.0.0.1:9/abc''"
  by (simp_all add: demo_os_def) code_simp

text \<open>
  The first navigation fails, the second launch prints nothing in time, the third succeeds: the
  started pool has slept both delays and the wait.
\<close>

lemmas demo_exec = exec_op op_run demo_env_simps demo_os_simps pool_defs proc_defs Let_def

definition demo_slot :: "browser_handle \<Rightarrow> (string, string) dict \<Rightarrow> warm_slot" where
  "demo_slot h v = \<lparr>ws_workstation = hd demo_entries, ws_fingerprint = Some ''fp'',
     ws_proxy_url = None, ws_prefs_rel_path = None, ws_state = WarmIDLE, ws_handle = Some h,
     ws_temp_dir = Some 0, ws_last_error = None, ws_launch_env = v\<rparr>"

definition demo_running :: "proc_world \<Rightarrow> browser_handle \<Rightarrow> (string, string) dict \<Rightarrow> warm_pool" where
  "demo_running w h v = \<lparr>wp_procs = w, wp_config = Some demo_entries,
      wp_slots = [(''ws-1'', demo_slot h v)],
      wp_draining = False, wp_next_dir = 1, wp_dirs = {0}, wp_sleeps = [1000, 2000, 250],
      wp_events = [], wp_publishes = 0, wp_gauges = (1, 1, 0, 0), wp_nav_errors = 1,
      wp_proxy_errors = 0, wp_recycles = 0\<rparr>"

lemma demo_pool_eq:
  obtains w h v where "demo_pool = demo_running w h v" "pw_next w = 3"
proof -
  have "\<exists>w h v. demo_pool = demo_running w h v \<and> pw_next w = 3"
    by (simp add: demo_exec demo_pool_def demo_start_def demo_entries_def demo_slot_def
        demo_running_def empty_world_def cong: exec_cong)
  then show ?thesis using that by blast
qed

lemma demo_pool_init: "pool_init demo_pool_env {} demo_start"
  unfolding pool_init_def demo_start_def by (rule exI [of _ empty_world]) (auto simp: empty_world_def world_ok_def)

lemma demo_pool_reachable: "reachable (pool_init demo_pool_env {}) (pool_step demo_pool_env) demo_pool"
proof (rule reach_step, rule reach_init, rule demo_pool_init)
  show "pool_step demo_pool_env demo_start demo_pool"
  proof (rule pool_called)
    show "pool_guard demo_pool_env PoolStart demo_start"
      by (auto simp: pool_guard_def start_guard_def vacant_def demo_start_def init_pool_def demo_pool_env_def
        demo_entries_def validate_unique_ids_ok)
    show "run_pool demo_pool_env PoolStart demo_start = (fst (start_pool demo_pool_env demo_start), demo_pool)"
      by (simp add: demo_pool_def)
  qed
qed

lemma pool_reachable_inv_witness:
  "pool_inv demo_pool_env {} demo_pool \<and>
   map (\<lambda>(w, sl). (w, ws_state sl)) (wp_slots demo_pool) = [(''ws-1'', WarmIDLE)]"
proof -
  obtain w h v where pool: "demo_pool = demo_running w h v" by (rule demo_pool_eq)
  have "map (\<lambda>(w, sl). (w, ws_state sl)) (wp_slots demo_pool) = [(''ws-1'', WarmIDLE)]"
    unfolding pool by (simp add: demo_running_def demo_slot_def)
  with pool_reachable_inv [OF demo_pool_reachable] show ?thesis by blast
qed

lemmas demo_ops = reserve_slot_def select_idle_slot_def reserve_locked_def cancel_reservation_def
  move_slot_def

lemma demo_reserve:
  "\<exists>rv t. reserve_slot demo_pool_env None demo_pool = (Inr rv, t) \<and>
     sn_workstation_id (rv_snapshot rv) = ''ws-1'' \<and>
     map_option ws_state (look demo_pool ''ws-1'') = Some WarmIDLE \<and>
     map_option ws_state (look t ''ws-1'') = Some WarmRESERVED"
proof -
  obtain w h v where pool: "demo_pool = demo_running w h v" by (rule demo_pool_eq)
  show ?thesis unfolding pool demo_running_def
    by (simp add: demo_exec demo_ops demo_slot_def demo_entries_def cong: exec_cong)
qed

text \<open>The idle workstation is reserved; a release of it is refused while it is idle.\<close>

lemma pool_slots_move_legally_witness:
  "\<exists>t b u. run_pool demo_pool_env (PoolReserve None) demo_pool = (Inr (), t) \<and> look t ''ws-1'' = Some b \<and>
     ws_state b \<in> {WarmIDLE, WarmRESERVED} \<and>
     run_pool demo_pool_env (PoolRelease ''ws-1'') demo_pool = u \<and> \<not> wp_next_dir demo_pool < wp_next_dir (snd u)"
proof -
  obtain rv t where run: "reserve_slot demo_pool_env None demo_pool = (Inr rv, t)"
    and st: "map_option ws_state (look demo_pool ''ws-1'') = Some WarmIDLE"
    using demo_reserve by blast
  then obtain a where a: "look demo_pool ''ws-1'' = Some a" "ws_state a = WarmIDLE" by blast
  have run': "run_pool demo_pool_env (PoolReserve None) demo_pool = (Inr (), t)"
    using run by (simp add: thenm_def bindm_def ret_def)
  obtain r u where rel: "run_pool demo_pool_env (PoolRelease ''ws-1'') demo_pool = (r, u)" by force
  have g: "pool_guard demo_pool_env (PoolReserve None) demo_pool" "pool_guard demo_pool_env (PoolRelease ''ws-1'') demo_pool"
    by (simp_all add: pool_guard_def)
  obtain b where "look t ''ws-1'' = Some b" "ws_state b \<in> {WarmIDLE, WarmRESERVED}"
    using conjunct1 [OF pool_slots_move_legally [OF demo_pool_reachable g(1) run']] a
    by (fastforce simp: non_empty_def)
  moreover have "\<not> wp_next_dir demo_pool < wp_next_dir u"
    using conjunct2 [OF pool_slots_move_legally [OF demo_pool_reachable g(2) rel]] a by simp
  ultimately show ?thesis using run' rel by auto
qed

lemma reserve_cancel_restores_witness:
  "\<exists>rv t u r. reserve_slot demo_pool_env None demo_pool = (Inr rv, t) \<and>
     cancel_reservation demo_pool_env (sn_workstation_id (rv_snapshot rv)) t = (r, u) \<and>
     wp_slots t \<noteq> wp_slots u \<and> wp_slots u = wp_slots demo_pool \<and> wp_gauges u = wp_gauges demo_pool"
proof -
  obtain rv t where reserve: "reserve_slot demo_pool_env None demo_pool = (Inr rv, t)"
    and state: "map_option ws_state (look demo_pool ''ws-1'') = Some WarmIDLE"
      "map_option ws_state (look t ''ws-1'') = Some WarmRESERVED"
    using demo_reserve by blast
  obtain r u where cancel: "cancel_reservation demo_pool_env (sn_workstation_id (rv_snapshot rv)) t = (r, u)"
    by force
  note restored = reserve_cancel_restores [OF pool.reachable_inv [OF demo_pool_reachable] reserve cancel]
  then have "wp_slots t \<noteq> wp_slots u" using state by auto
  with reserve cancel restored show ?thesis by blast
qed

lemma attempt_launch_schedule_witness:
  "\<exists>h t. attempt_launch demo_pool_env ''ws-1'' demo_pool = (Inr h, t) \<and>
     pw_next (wp_procs t) \<le> pw_next (wp_procs demo_pool) + 3"
proof -
  have "\<exists>h t. attempt_launch demo_pool_env ''ws-1'' demo_pool = (Inr h, t)"
  proof -
    obtain w h v where pool: "demo_pool = demo_running w h v" "pw_next w = 3" by (rule demo_pool_eq)
    show ?thesis unfolding pool(1) demo_running_def
      by (simp add: demo_exec pool(2) demo_slot_def demo_entries_def cong: exec_cong)
  qed
  then obtain h t where run: "attempt_launch demo_pool_env ''ws-1'' demo_pool = (Inr h, t)"
    by blast
  from attempt_launch_schedule [OF run] run show ?thesis by (auto simp: demo_env_simps)
qed

end
