(* ===== verification/Vnc_Props.thy ===== *)
theory Vnc_Props
  imports Vnc_Pool
begin

text \<open>
  What the VNC controller guarantees: displays and ports are never shared and never lost, a failed
  allocation is undone, closing a session frees its slot even when it raises, the waits are
  exactly the polls before the deadline, and the URLs keep the configured query.
\<close>

inductive vnc_step :: "vnc_env \<Rightarrow> vnc_world \<Rightarrow> vnc_world \<Rightarrow> bool" for env where
  step_allocate: "allocate env w = (r1, t) \<Longrightarrow> vnc_step env w t"
| step_close: "release_handle env (Some h) w = (r2, t) \<Longrightarrow> vnc_step env w t"

inductive_cases vnc_stepE: "vnc_step env w t"

definition vnc_init :: "vnc_env \<Rightarrow> vnc_world \<Rightarrow> bool" where
  "vnc_init env w = (init_controller env = Inr w)"

interpretation vnc: transition_invariant "vnc_init env" "vnc_step env" "\<lambda>w. ranges_ok env w \<and> vnc_world_ok w"
  for env
proof
  fix w assume "vnc_init env w"
  then show "ranges_ok env w \<and> vnc_world_ok w"
    by (auto simp: vnc_init_def init_controller_def ranges_ok_def vnc_world_ok_def upto_conserved
        Let_def split: if_splits)
next
  fix w t assume inv: "ranges_ok env w \<and> vnc_world_ok w" and "vnc_step env w t"
  from this(2) show "ranges_ok env t \<and> vnc_world_ok t"
  proof cases
    case (step_allocate r)
    with wp_run [OF allocate_wp [of env w] step_allocate] inv show ?thesis
      by (fastforce simp: allocated_def allocation_failed_def vnc_world_ok_def split: sum.splits)
  next
    case (step_close h r)
    then have "close_handle env h w = (r, t)" by (simp add: release_handle_def)
    with wp_run [OF close_wp [of env w] this] inv show ?thesis
      by (auto simp: closed_def vnc_world_ok_def split: sum.splits)
  qed
qed

text \<open>
  C8: Whatever is allocated and closed, in any order, twice or with failures, no two sessions hold
  the same display, VNC port or websocket port, none of those held is offered again, and every
  number of the configured ranges is either free or held.
\<close>

theorem vnc_resources_partitioned:
  assumes "reachable (vnc_init env) (vnc_step env) w"
  shows "inj_on vs_display (world_slots w) \<and> inj_on vs_vnc_port (world_slots w) \<and>
    inj_on vs_ws_port (world_slots w) \<and>
    vs_display ` world_slots w \<inter> set (vp_displays (vw_pool w)) = {} \<and>
    vs_display ` world_slots w \<union> set (vp_displays (vw_pool w)) = {ve_display_min env..ve_display_max env} \<and>
    vs_vnc_port ` world_slots w \<inter> set (vp_vnc_ports (vw_pool w)) = {} \<and>
    vs_vnc_port ` world_slots w \<union> set (vp_vnc_ports (vw_pool w)) = {ve_port_min env..ve_port_max env} \<and>
    vs_ws_port ` world_slots w \<inter> set (vp_ws_ports (vw_pool w)) = {} \<and>
    vs_ws_port ` world_slots w \<union> set (vp_ws_ports (vw_pool w)) = {ve_ws_port_min env..ve_ws_port_max env}"
proof -
  have "ranges_ok env w" using vnc.reachable_inv [OF assms] by blast
  then have fin: "finite (world_slots w)"
    and parts: "conserved [ve_display_min env..ve_display_max env] (vp_displays (vw_pool w)) vs_display (world_slots w)"
      "conserved [ve_port_min env..ve_port_max env] (vp_vnc_ports (vw_pool w)) vs_vnc_port (world_slots w)"
      "conserved [ve_ws_port_min env..ve_ws_port_max env] (vp_ws_ports (vw_pool w)) vs_ws_port (world_slots w)"
    by (simp_all add: ranges_ok_def vnc_pool_ok_def)
  show ?thesis
    using parts [THEN conserved_once, OF fin, unfolded set_upto] by (elim conjE) (intro conjI)
qed

text \<open>
  C9: An allocation that returns hands out a slot nobody held, with its three helper processes
  running. One that raises leaves no slot handed out and none of its processes running, except a
  process that could not be killed, and except when the task draining a helper's output failed
  too: then the exception of that task escapes before the slot is released.
\<close>

theorem vnc_allocate_all_or_nothing:
  assumes "reachable (vnc_init env) (vnc_step env) w" and "allocate env w = (r, t)"
  shows "case r of
      Inr h \<Rightarrow> vh_slot h \<notin> world_slots w \<and> world_slots t = insert (vh_slot h) (world_slots w) \<and>
        length (vh_processes h) = 3 \<and> distinct (vh_processes h) \<and>
        vw_live w \<inter> set (vh_processes h) = {} \<and> vw_live t = vw_live w \<union> set (vh_processes h)
    | Inl e \<Rightarrow> (\<forall>p \<in> vw_live t - vw_live w. ve_kill env p \<noteq> None) \<and> vw_live w \<subseteq> vw_live t \<and>
        (world_slots t = world_slots w \<or> (\<exists>p slot. vw_next w \<le> p \<and> p < vw_next t \<and>
           ve_drain env p \<noteq> None \<and> world_slots t = insert slot (world_slots w)))"
proof -
  have inv: "ranges_ok env w" "vnc_world_ok w" using vnc.reachable_inv [OF assms(1)] by blast+
  then have "case r of Inr h \<Rightarrow> allocated env w h t | Inl _ \<Rightarrow> allocation_failed env w t"
    using wp_run [OF allocate_wp assms(2)] by simp
  moreover have "allocated env w h t \<Longrightarrow> vw_live w \<inter> set (vh_processes h) = {}" for h
    using inv(2) by (force simp: allocated_def vnc_world_ok_def)
  ultimately show ?thesis
    by (cases r) (simp add: allocation_failed_def, blast, simp add: allocated_def)
qed

text \<open>
  Closing a session gives its slot back and stops its helper processes whether the close returns
  or raises, and closing it again changes nothing more.
\<close>

theorem vnc_close_frees_slot:
  assumes "reachable (vnc_init env) (vnc_step env) w" and "release_handle env (Some h) w = (r, t)"
  shows "world_slots t = world_slots w - {vh_slot h} \<and>
    vw_live t = vw_live w - {p \<in> set (vh_processes h). ve_kill env p = None} \<and>
    vw_pool (snd (release_handle env (Some h) t)) = vw_pool t"
proof -
  have step: "vnc_step env w t" using assms(2) by (rule step_close)
  have inv: "ranges_ok env w" "ranges_ok env t"
    using vnc.reachable_inv [OF assms(1)] vnc.reachable_inv [OF reach_step [OF assms(1) step]] by blast+
  have c: "closed env h w t"
    using wp_run [OF close_wp [OF inv(1)], of h r t] assms(2)
    by (auto simp: release_handle_def split: sum.splits)
  have "vw_pool (snd (close_handle env h t)) = vw_pool t"
  proof -
    have rel: "wp (pool_op (release (Some (vh_slot h)))) (\<lambda>_ z. vw_pool z = vw_pool t) (\<lambda>_ _. False) u"
      if "vw_pool u = vw_pool t" for u
      using that c by (auto simp: pool_op_def release_def wp_simps closed_def)
    have "wp (close_handle env h) (\<lambda>_ z. vw_pool z = vw_pool t) (\<lambda>_ z. vw_pool z = vw_pool t) t"
      unfolding close_handle_def wp_finallym
      by (rule wp_mono [OF terminate_wp]) (rule wp_mono [OF rel], auto simp: stopped_def)+
    then show ?thesis by (auto simp: wp_def split: prod.splits sum.splits)
  qed
  with c show ?thesis by (simp add: closed_def release_handle_def)
qed

section \<open>The waits\<close>

text \<open>When the \<open>j\<close>-th poll of a wait starts, and that the first \<open>k\<close> polls neither succeed nor fail.\<close>

definition poll_start :: "nat \<Rightarrow> (nat \<Rightarrow> poll) \<Rightarrow> nat \<Rightarrow> int" where
  "poll_start period polls j = (\<Sum>i<j. int (po_lag (polls i)) + int (Suc period))"

definition keeps_polling :: "nat \<Rightarrow> (nat \<Rightarrow> poll) \<Rightarrow> int \<Rightarrow> nat \<Rightarrow> bool" where
  "keeps_polling period polls deadline j = (\<not> po_ready (polls j) \<and> po_exit (polls j) = None \<and>
     poll_start period polls j + int (po_lag (polls j)) < deadline)"

lemma poll_until_Inr:
  "poll_until period exited timed_out polls deadline (poll_start period polls i) i = Inr k \<longleftrightarrow>
    i \<le> k \<and> po_ready (polls k) \<and> (\<forall>j. i \<le> j \<and> j < k \<longrightarrow> keeps_polling period polls deadline j)"
proof (induction "nat (deadline - poll_start period polls i)" arbitrary: i rule: less_induct)
  case less
  show ?case
  proof (cases "keeps_polling period polls deadline i")
    case True
    then have "poll_until period exited timed_out polls deadline (poll_start period polls i) i =
        poll_until period exited timed_out polls deadline (poll_start period polls (Suc i)) (Suc i)"
      by (subst poll_until.simps) (simp add: keeps_polling_def poll_start_def algebra_simps)
    moreover have "nat (deadline - poll_start period polls (Suc i)) < nat (deadline - poll_start period polls i)"
      using True by (auto simp: keeps_polling_def poll_start_def)
    moreover have "Suc i \<le> k \<and> po_ready (polls k) \<and> (\<forall>j. Suc i \<le> j \<and> j < k \<longrightarrow> keeps_polling period polls deadline j)
      \<longleftrightarrow> i \<le> k \<and> po_ready (polls k) \<and> (\<forall>j. i \<le> j \<and> j < k \<longrightarrow> keeps_polling period polls deadline j)"
      using True by (metis Suc_le_eq keeps_polling_def le_eq_less_or_eq)
    ultimately show ?thesis using less by simp
  next
    case False
    then have "poll_until period exited timed_out polls deadline (poll_start period polls i) i = Inr k
        \<longleftrightarrow> po_ready (polls i) \<and> k = i"
      by (subst poll_until.simps) (auto simp: keeps_polling_def Let_def split: option.split)
    with False show ?thesis by (auto simp: le_less)
  qed
qed

lemma poll_start_ge: "int j * int (Suc period) \<le> poll_start period polls j"
  by (induction j) (auto simp: poll_start_def algebra_simps)

lemma poll_until_spec:
  "(\<exists>k. poll_until period exited timed_out polls deadline 0 0 = Inr k) \<longleftrightarrow>
    (\<exists>k. po_ready (polls k) \<and> (\<forall>j<k. keeps_polling period polls deadline j) \<and>
       (k = 0 \<or> int (k - 1) * int (Suc period) < deadline))"
proof -
  have start: "poll_start period polls 0 = 0" by (simp add: poll_start_def)
  have "(\<forall>j<k. keeps_polling period polls deadline j) \<Longrightarrow> 0 < k \<Longrightarrow> int (k - 1) * int (Suc period) < deadline" for k
    using poll_start_ge [of "k - 1" period polls] by (force simp: keeps_polling_def dest: spec [of _ "k - 1"])
  then have "(\<forall>j<k. keeps_polling period polls deadline j) \<longleftrightarrow>
      (\<forall>j<k. keeps_polling period polls deadline j) \<and>
      (k = 0 \<or> int (k - 1) * int (Suc period) < deadline)" for k
    by blast
  then show ?thesis
    using poll_until_Inr [of period exited timed_out polls deadline 0, unfolded start] by simp
qed

lemma map_sum_Inr_iff: "map_sum f g r = Inr y \<longleftrightarrow> (\<exists>x. r = Inr x \<and> g x = y)"
  by (cases r) auto


section \<open>The URLs of a session\<close>

lemma set_partition_at: "partition_at c s = (a, f, b) \<Longrightarrow> set a \<subseteq> set s \<and> set b \<subseteq> set s"
  using partition_at_parts [of c s a f b] by (auto split: if_splits)

lemma set_rpartition_at: "rpartition_at c s = (a, f, b) \<Longrightarrow> set a \<subseteq> set s \<and> set b \<subseteq> set s"
  by (auto simp: rpartition_at_def split: prod.splits dest!: set_partition_at)

lemma compose_userinfo_ok: "netloc_ok n \<Longrightarrow> netloc_ok (compose_userinfo n)"
proof -
  assume n: "netloc_ok n"
  obtain u f h where r: "rpartition_at (CHR ''@'') n = (u, f, h)" by (metis prod_cases3)
  obtain a g b where p: "partition_at (CHR '':'') u = (a, g, b)" by (metis prod_cases3)
  have "netloc_ok a \<and> netloc_ok b"
    using set_rpartition_at [OF r] set_partition_at [OF p] n by (meson netloc_ok_subset order_trans)
  then show ?thesis
    by (simp add: compose_userinfo_def netloc_username_def netloc_password_def netloc_userinfo_def r p
        non_blank_def path_start_def unsafe_char_def)
qed

lemma compose_userinfo_shape: "compose_userinfo n = [] \<or> (\<exists>w. compose_userinfo n = w @ ''@'')"
  by (auto simp: compose_userinfo_def)

lemma compose_path_shape: "starts_with ''/'' (compose_path base suffix)"
  by (simp add: compose_path_def Let_def starts_with_def)

lemma no_marks_compose_path: "no_marks base \<Longrightarrow> no_marks suffix \<Longrightarrow> no_marks (compose_path base suffix)"
proof -
  assume "no_marks base" "no_marks suffix"
  moreover have "no_marks (rstrip_by (\<lambda>c. c = CHR ''/'') base)"
    by (rule no_marks_subset [OF \<open>no_marks base\<close>]) (auto simp: rstrip_by_def dest: set_dropWhileD)
  ultimately show ?thesis by (simp add: compose_path_def Let_def)
qed

lemma netloc_ok_marks: "netloc_ok n \<Longrightarrow> no_marks n"
  by (auto simp: netloc_ok_def no_marks_def list_all_iff path_start_def)

text \<open>
  The URL composed for a session leads where the settings say: a client that parses it finds the
  configured scheme and host, the configured port or, when there is none, the port of the session's
  own slot, and the configured query parameters followed by those of the session, each unharmed.
\<close>

theorem compose_url_reads_back:
  assumes base: "urlparse base = Inr b" and "u_scheme b \<noteq> []"
    and host: "netloc_hostname (u_netloc b) = Some h" "plain_host h"
    and port: "0 \<le> port" "port \<le> 65535" and suffix: "no_marks suffix"
    and url: "compose_url base port suffix extra = Inr (Some url)" and p: "urlparse url = Inr p"
  shows "u_scheme p = u_scheme b \<and> netloc_hostname (u_netloc p) = Some h \<and>
    (\<exists>n. netloc_port (u_netloc b) = Inr n \<and>
       netloc_port (u_netloc p) = Inr (Some (case n of Some k \<Rightarrow> k | None \<Rightarrow> port))) \<and>
    parse_qsl True (u_query p) = parse_qsl True (u_query b) @ extra"
proof -
  obtain n where n: "netloc_port (u_netloc b) = Inr n"
    using url by (auto simp: compose_url_def base Let_def split: if_splits)
  define k where "k = (case n of Some k \<Rightarrow> k | None \<Rightarrow> port)"
  define nl where "nl = compose_userinfo (u_netloc b) @ host_part h @ '':'' @ int_str k"
  define v where "v = \<lparr>u_scheme = u_scheme b, u_netloc = nl,
     u_path = compose_path (u_path b) suffix, u_params = [],
     u_query = urlencode (parse_qsl True (u_query b) @ extra), u_fragment = []\<rparr>"
  have h: "h \<noteq> []" using host(2) by (simp add: plain_host_def)
  have v: "url = urlunparse v"
    using url h by (simp add: compose_url_def base Let_def n host(1) or_else_def assms(2) v_def nl_def
        k_def split: if_splits)
  have k: "0 \<le> k" "k \<le> 65535"
    using n port by (auto simp: k_def netloc_port_def Let_def split: option.splits if_splits)
  have b: "scheme_ok (u_scheme b)" "netloc_ok (u_netloc b)" "no_marks (u_path b)"
    using urlparse_parts_ok [OF base] assms(2) urlparse_clean [OF base] by (auto simp: parts_clean_def)
  have "netloc_ok (int_str k)"
    using int_str_not [OF k(1)] is_digit_plain by (auto simp: netloc_ok_def list_all_iff)
  moreover have "netloc_ok (host_part h)"
    using plain_host_chars [OF host(2)]
    by (auto simp: host_part_def netloc_ok_def list_all_iff path_start_def unsafe_char_def)
  ultimately have nl: "netloc_ok nl" "nl \<noteq> []"
    using compose_userinfo_ok [OF b(2)] by (simp_all add: nl_def path_start_def unsafe_char_def)
  have "u_scheme p = u_scheme v \<and> u_netloc p = u_netloc v"
    by (rule urlparse_netloc_back) (use b nl p in \<open>simp_all add: v v_def compose_path_shape\<close>)
  moreover have "u_query p = u_query v"
  proof (rule urlparse_urlunparse_query)
    show "parts_clean v"
      using b(3) nl(1) urlparse_clean [OF base] suffix
      by (simp add: v_def parts_clean_def netloc_ok_marks no_marks_compose_path)
    show "c \<in> set (u_query v) \<Longrightarrow> query_char c" for c
      by (simp add: v_def urlencode_chars)
    show "urlparse (urlunparse v) = Inr p" using p by (simp add: v)
  qed
  moreover obtain w where shape: "compose_userinfo (u_netloc b) = [] \<or> compose_userinfo (u_netloc b) = w @ ''@''"
    using compose_userinfo_shape by blast
  moreover have "netloc_hostname nl = Some h" "netloc_port nl = Inr (Some k)"
    unfolding nl_def using netloc_read_back [OF host(2) k shape] by auto
  ultimately show ?thesis
    by (simp add: v_def n k_def parse_qsl_urlencode)
qed

section \<open>A controller with two displays\<close>

definition demo_vnc_env :: vnc_env where
  "demo_vnc_env = \<lparr>ve_which = (\<lambda>_. True), ve_display_min = 100, ve_display_max = 101,
     ve_port_min = 5900, ve_port_max = 5901, ve_ws_port_min = 90, ve_ws_port_max = 91,
     ve_resolution = ''1280x720x24'', ve_assets = None, ve_assets_is_dir = False,
     ve_startup_timeout_ms = 5000, ve_http_base_url = ''https://vnc.example.org/base?v=1'',
     ve_ws_base_url = ''wss://vnc.example.org:81'', ve_spawn = (\<lambda>_. None),
     ve_polls = (\<lambda>_ i. \<lparr>po_lag = 10, po_ready = (i = 1), po_exit = None\<rparr>),
     ve_kill = (\<lambda>_. None), ve_drain = (\<lambda>_. None)\<rparr>"

definition demo_vnc_slot :: vnc_slot where
  "demo_vnc_slot = \<lparr>vs_display = 100, vs_vnc_port = 5900, vs_ws_port = 90\<rparr>"

definition demo_vnc_world :: vnc_world where
  "demo_vnc_world = \<lparr>vw_pool = init_vnc_pool [100, 101] [5900, 5901] [90, 91], vw_next = 0,
     vw_live = {}, vw_commands = []\<rparr>"

definition demo_vnc_url :: url where
  "demo_vnc_url = ''https://vnc.example.org:90/base/vnc.html?v=1&path=websockify''"

lemma demo_vnc_init: "vnc_init demo_vnc_env demo_vnc_world"
  by (simp add: vnc_init_def init_controller_def demo_vnc_env_def demo_vnc_world_def upto.simps)

lemma demo_vnc_ops:
  "wait_for_display_socket demo_vnc_env demo_vnc_slot p = Inr ()"
  "wait_for_port demo_vnc_env host port p = Inr ()"
  "ve_spawn demo_vnc_env p = None"
  by (simp_all add: wait_for_display_socket_def wait_for_port_def poll_until.simps demo_vnc_env_def)

lemma demo_compose:
  "compose_url (ve_http_base_url demo_vnc_env) 90 ''/vnc.html'' [(''path'', ''websockify'')] = Inr (Some demo_vnc_url)"
  "compose_url (ve_ws_base_url demo_vnc_env) 90 ''/websockify'' [] = Inr (Some ''wss://vnc.example.org:81/websockify'')"
  by code_simp+

lemma demo_vnc_details: "session_details demo_vnc_env demo_vnc_slot =
    Inr \<lparr>vd_http_url = Some demo_vnc_url, vd_websocket_url = Some ''wss://vnc.example.org:81/websockify'',
      vd_token = None, vd_token_ttl = None\<rparr>"
  using demo_compose
  by (simp add: session_details_def demo_vnc_slot_def validate_vnc_details_def trim_token_def optional_def check_payload_def)

lemma demo_allocate:
  obtains h t where "allocate demo_vnc_env demo_vnc_world = (Inr h, t)" "vh_slot h = demo_vnc_slot"
    "world_slots t = {demo_vnc_slot}"
proof -
  have acq: "acquire (init_vnc_pool [100, 101] [5900, 5901] [90, 91]) = (Inr demo_vnc_slot,
      \<lparr>vp_displays = [101], vp_vnc_ports = [5901], vp_ws_ports = [91], vp_active = {demo_vnc_slot}\<rparr>)"
    by (simp add: acquire_def demo_vnc_world_def init_vnc_pool_def demo_vnc_slot_def Let_def)
  have "\<exists>h t. allocate demo_vnc_env demo_vnc_world = (Inr h, t) \<and> vh_slot h = demo_vnc_slot \<and>
      world_slots t = {demo_vnc_slot}"
    by (simp add: allocate_def pool_op_def exec_op acq with_local_def pipeline_def stage_def spawn_process_def
        demo_vnc_ops demo_vnc_details op_run demo_vnc_world_def cong: exec_cong)
  with that show ?thesis by blast
qed

lemma demo_vnc_reached: "allocate demo_vnc_env demo_vnc_world = (r, t) \<Longrightarrow>
    reachable (vnc_init demo_vnc_env) (vnc_step demo_vnc_env) t"
  by (rule reach_step, rule reach_init, rule demo_vnc_init, rule step_allocate)

lemma vnc_resources_partitioned_witness:
  "\<exists>h t. allocate demo_vnc_env demo_vnc_world = (Inr h, t) \<and> world_slots t = {demo_vnc_slot} \<and>
     vs_display ` world_slots t \<union> set (vp_displays (vw_pool t)) = {100..101}"
proof -
  obtain h t where run: "allocate demo_vnc_env demo_vnc_world = (Inr h, t)" "world_slots t = {demo_vnc_slot}"
    by (rule demo_allocate)
  from vnc_resources_partitioned [OF demo_vnc_reached [OF run(1)]] run show ?thesis
    by (auto simp: demo_vnc_env_def)
qed

lemma vnc_allocate_all_or_nothing_witness:
  "\<exists>h t. allocate demo_vnc_env demo_vnc_world = (Inr h, t) \<and> world_slots t = {demo_vnc_slot} \<and>
     length (vh_processes h) = 3 \<and> vw_live t = set (vh_processes h)"
proof -
  obtain h t where run: "allocate demo_vnc_env demo_vnc_world = (Inr h, t)" "world_slots t = {demo_vnc_slot}"
    by (rule demo_allocate)
  have "reachable (vnc_init demo_vnc_env) (vnc_step demo_vnc_env) demo_vnc_world"
    by (rule reach_init, rule demo_vnc_init)
  with vnc_allocate_all_or_nothing [OF this run(1)] run show ?thesis
    by (auto simp: demo_vnc_world_def)
qed

lemma vnc_close_frees_slot_witness:
  "\<exists>h t r u. allocate demo_vnc_env demo_vnc_world = (Inr h, t) \<and>
     release_handle demo_vnc_env (Some h) t = (r, u) \<and> world_slots t \<noteq> {} \<and> world_slots u = {}"
proof -
  obtain h t where run: "allocate demo_vnc_env demo_vnc_world = (Inr h, t)"
    "vh_slot h = demo_vnc_slot" "world_slots t = {demo_vnc_slot}" by (rule demo_allocate)
  obtain r u where close: "release_handle demo_vnc_env (Some h) t = (r, u)" by force
  from vnc_close_frees_slot [OF demo_vnc_reached [OF run(1)] close] run close show ?thesis
    by fastforce
qed


lemma compose_url_reads_back_witness:
  "\<exists>p. urlparse demo_vnc_url = Inr p \<and> netloc_hostname (u_netloc p) = Some ''vnc.example.org'' \<and>
    netloc_port (u_netloc p) = Inr (Some 90) \<and>
    parse_qsl True (u_query p) = [(''v'', ''1''), (''path'', ''websockify'')]"
proof -
  define b where "b = projr (urlparse (ve_http_base_url demo_vnc_env))"
  define p where "p = projr (urlparse demo_vnc_url)"
  have b: "urlparse (ve_http_base_url demo_vnc_env) = Inr b" "u_scheme b \<noteq> []"
    "netloc_hostname (u_netloc b) = Some ''vnc.example.org''" "netloc_port (u_netloc b) = Inr None"
    "parse_qsl True (u_query b) = [(''v'', ''1'')]"
    unfolding b_def by code_simp+
  have p: "urlparse demo_vnc_url = Inr p" unfolding p_def by code_simp
  have host: "plain_host ''vnc.example.org''" "no_marks ''/vnc.html''" by code_simp+
  from compose_url_reads_back [OF b(1,2,3) host(1) _ _ host(2) demo_compose(1) p] p b(4,5)
  show ?thesis by simp
qed

end
