(* ===== verification/Session_Manager_Inv.thy ===== *)
theory Session_Manager_Inv
  imports Session_Manager Warm_Pool_Props Vnc_Props
begin

text \<open>
  What the steps of the session manager do to its parts. Each operation on the VNC controller or on
  the warm pool is specified by the exact fields it changes and by the consistency it keeps
  between that part and the manager's books: \<open>vnc_ok\<close> between VNC handles and slots, \<open>pool_ok\<close>
  between cold browsers, warm sessions and the pool.
\<close>

declare map_of_eq_Some_iff [simp del] Some_eq_map_of_iff [simp del]

section \<open>Parts\<close>

definition vnc_ok :: "vnc_env \<Rightarrow> vnc_world \<Rightarrow> (nat, vnc_handle) dict \<Rightarrow> bool" where
  "vnc_ok env v d = (ranges_ok env v \<and> vnc_world_ok v \<and>
     (\<forall>i h. map_of d i = Some h \<longrightarrow> vh_slot h \<in> world_slots v) \<and>
     (\<forall>i j h h'. map_of d i = Some h \<longrightarrow> map_of d j = Some h' \<longrightarrow> vh_slot h = vh_slot h' \<longrightarrow> i = j))"

text \<open>A VNC handle that is allocated and not yet stored.\<close>

definition spare :: "vnc_world \<Rightarrow> (nat, vnc_handle) dict \<Rightarrow> vnc_handle option \<Rightarrow> bool" where
  "spare v d vh = (\<forall>h. vh = Some h \<longrightarrow> vh_slot h \<in> world_slots v \<and>
     (\<forall>i h'. map_of d i = Some h' \<longrightarrow> vh_slot h' \<noteq> vh_slot h))"

text \<open>
  \<open>C\<close>: the processes of cold browsers; \<open>W\<close>: the workstation of each warm session. The flag \<open>cf\<close> says that
  operators are careful: they recycle no workstation a session holds. Only then is such a
  workstation sure to be in use and held by one session.
\<close>

definition pool_ok :: "bool \<Rightarrow> pool_env \<Rightarrow> nat set \<Rightarrow> (nat, string) dict \<Rightarrow> warm_pool \<Rightarrow> bool" where
  "pool_ok cf env C W p = (pool_inv env C p \<and>
     (\<forall>i w. map_of W i = Some w \<longrightarrow> (\<exists>sl. look p w = Some sl \<and> (cf \<longrightarrow> ws_state sl \<in> {WarmBUSY, WarmDRAINING}))))"

section \<open>VNC\<close>

lemma wp_on_vnc: "wp (on_vnc m) Q E s = wp m (\<lambda>x v. Q x (s\<lparr>m_vnc := v\<rparr>)) (\<lambda>e v. E e (s\<lparr>m_vnc := v\<rparr>)) (m_vnc s)"
  by (simp add: on_vnc_def wp_zoom)

lemma wp_on_pool: "wp (on_pool m) Q E s = wp m (\<lambda>x p. Q x (s\<lparr>m_pool := p\<rparr>)) (\<lambda>e p. E e (s\<lparr>m_pool := p\<rparr>)) (m_pool s)"
  by (simp add: on_pool_def wp_zoom)

lemma closed_world_ok: "closed env h w t \<Longrightarrow> vnc_world_ok w \<Longrightarrow> vnc_world_ok t"
  by (auto simp: closed_def vnc_world_ok_def)

text \<open>Closing a handle that no stored session holds keeps the others.\<close>

lemma close_keeps_ok:
  "vnc_ok env v d \<Longrightarrow> (\<And>i h'. map_of d i = Some h' \<Longrightarrow> vh_slot h' \<noteq> vh_slot h) \<Longrightarrow>
    wp (release_handle env (Some h)) (\<lambda>_ v'. vnc_ok env v' d) (\<lambda>_ v'. vnc_ok env v' d) v"
  unfolding release_handle_def option.case
  by (rule wp_mono [OF close_wp]) (auto simp: vnc_ok_def closed_world_ok, auto simp: closed_def)

lemma vnc_ok_delete: "vnc_ok env v d \<Longrightarrow> vnc_ok env v (AList.delete sid d)"
  by (auto simp: vnc_ok_def)

lemma allocate_ok:
  assumes "vnc_ok env v d"
  shows "wp (allocate env) (\<lambda>h v'. vnc_ok env v' d \<and> spare v' d (Some h)) (\<lambda>_ v'. vnc_ok env v' d) v"
proof -
  have v: "ranges_ok env v" "vnc_world_ok v" using assms by (auto simp: vnc_ok_def)
  have "allocated env v h v' \<Longrightarrow> vnc_world_ok v'" for h v'
    using v(2) by (fastforce simp: allocated_def vnc_world_ok_def)
  moreover have "allocation_failed env v v' \<Longrightarrow> vnc_world_ok v'" for v'
    using v(2) by (fastforce simp: allocation_failed_def vnc_world_ok_def)
  ultimately show ?thesis
    by (intro wp_mono [OF allocate_wp [OF v]])
      (use assms in \<open>fastforce simp: vnc_ok_def spare_def allocated_def\<close>,
       use assms in \<open>fastforce simp: vnc_ok_def allocation_failed_def\<close>)
qed

text \<open>The books a step on a part leaves alone.\<close>

definition books where
  "books s = (m_sessions s, m_handles s, m_active s, m_next_id s, m_next_expiry s, m_events s)"

definition vnc_changed :: "manager_env \<Rightarrow> manager \<Rightarrow> (nat, vnc_handle) dict \<Rightarrow> manager \<Rightarrow> bool" where
  "vnc_changed env s d t = (vnc_ok (me_vnc_env env) (m_vnc t) d \<and> m_vnc_handles t = d \<and>
     books t = books s \<and> m_pool t = m_pool s \<and> m_warm_sessions t = m_warm_sessions s \<and>
     m_warm_started t = m_warm_started s)"

abbreviation vnc_part :: "manager_env \<Rightarrow> manager \<Rightarrow> bool" where
  "vnc_part env s \<equiv> vnc_ok (me_vnc_env env) (m_vnc s) (m_vnc_handles s)"

lemma resolve_vnc_wp:
  assumes "vnc_part env s"
  shows "wp (resolve_vnc env cp sanitized)
    (\<lambda>(d, vh) t. vnc_changed env s (m_vnc_handles s) t \<and> spare (m_vnc t) (m_vnc_handles t) vh)
    (\<lambda>_ t. vnc_changed env s (m_vnc_handles s) t) s"
proof -
  have "wp (on_vnc (allocate (me_vnc_env env))) (\<lambda>h t. vnc_changed env s (m_vnc_handles s) t \<and>
      spare (m_vnc t) (m_vnc_handles t) (Some h)) (\<lambda>_ t. vnc_changed env s (m_vnc_handles s) t) s"
    unfolding wp_on_vnc
    by (rule wp_mono [OF allocate_ok [OF assms]]) (simp_all add: vnc_changed_def books_def)
  then have alloc: "wp (bindm (on_vnc (allocate (me_vnc_env env))) (\<lambda>h.
               thenm (modify (\<lambda>s. s\<lparr>m_vnc_requests := Suc (m_vnc_requests s)\<rparr>))
               (ret (Some (vh_details h), Some h))))
     (\<lambda>(d, vh) t. vnc_changed env s (m_vnc_handles s) t \<and> spare (m_vnc t) (m_vnc_handles t) vh)
     (\<lambda>_ t. vnc_changed env s (m_vnc_handles s) t) s"
    unfolding wp_bindm by (rule wp_mono) (auto simp: wp_thenm wp_ops vnc_changed_def books_def)
  have same: "vnc_changed env s (m_vnc_handles s) s" "spare v d None" for v d
    using assms by (simp_all add: vnc_changed_def spare_def)
  show ?thesis
    unfolding resolve_vnc_def wp_if wp_option using alloc same
    by (simp add: wp_ops split: option.split)
qed

lemma release_vnc_wp:
  assumes "vnc_part env s"
  shows "wp (release_vnc_handle env sid)
    (\<lambda>_ t. vnc_changed env s (AList.delete sid (m_vnc_handles s)) t)
    (\<lambda>_ t. vnc_changed env s (AList.delete sid (m_vnc_handles s)) t) s"
proof -
  let ?d = "AList.delete sid (m_vnc_handles s)"
  let ?s = "s\<lparr>m_vnc_handles := ?d\<rparr>"
  have ok: "vnc_ok (me_vnc_env env) (m_vnc s) ?d" using assms by (rule vnc_ok_delete)
  have "wp (on_vnc (release_handle (me_vnc_env env) (Some h)))
      (\<lambda>_ t. vnc_changed env s ?d t) (\<lambda>_ t. vnc_changed env s ?d t) ?s"
    if "map_of (m_vnc_handles s) sid = Some h" for h
  proof -
    have other: "vh_slot h' \<noteq> vh_slot h" if "map_of ?d i = Some h'" for i h'
      using assms \<open>map_of (m_vnc_handles s) sid = Some h\<close> that unfolding vnc_ok_def
      by (metis fun_upd_apply map_of_delete option.distinct(1))
    show ?thesis
      unfolding wp_on_vnc
      by (simp, rule wp_mono [OF close_keeps_ok [OF ok other]]) (simp_all add: vnc_changed_def books_def)
  qed
  then have close: "wp (thenm (on_vnc (release_handle (me_vnc_env env) (Some h))) set_vnc_gauge)
      (\<lambda>_ t. vnc_changed env s ?d t) (\<lambda>_ t. vnc_changed env s ?d t) ?s"
    if "map_of (m_vnc_handles s) sid = Some h" for h
    unfolding wp_thenm using that
    by (rule_tac wp_mono) (assumption | simp add: set_vnc_gauge_def wp_ops vnc_changed_def books_def)+
  show ?thesis
    using ok close unfolding release_vnc_handle_def
    by (cases "map_of (m_vnc_handles s) sid") (simp_all add: wp_bindm wp_ops wp_thenm [of "modify _"] wp_if
        vnc_changed_def books_def)
qed

lemma discard_vnc_wp:
  assumes "vnc_part env s" and "map_of (m_vnc_handles s) sid = None" and "spare (m_vnc s) (m_vnc_handles s) vh"
  shows "wp (discard_vnc_handle env sid vh)
    (\<lambda>_ t. vnc_changed env s (m_vnc_handles s) t) (\<lambda>_ t. vnc_changed env s (m_vnc_handles s) t) s"
proof (cases vh)
  case None
  then show ?thesis using assms(1) by (simp add: discard_vnc_handle_def wp_ops vnc_changed_def)
next
  case (Some h)
  have "wp (on_vnc (release_handle (me_vnc_env env) (Some h)))
      (\<lambda>_ t. vnc_changed env s (m_vnc_handles s) t) (\<lambda>_ t. vnc_changed env s (m_vnc_handles s) t) s"
    unfolding wp_on_vnc
    by (rule wp_mono [OF close_keeps_ok [OF assms(1)]])
      (use assms(3) Some in \<open>auto simp: spare_def vnc_changed_def books_def\<close>)
  then have "wp (whenm (me_has_vnc env) (on_vnc (release_handle (me_vnc_env env) (Some h))))
      (\<lambda>_ t. vnc_changed env s (m_vnc_handles s) t) (\<lambda>_ t. vnc_changed env s (m_vnc_handles s) t) s"
    using assms(1) by (simp add: wp_whenm vnc_changed_def)
  then show ?thesis
    using assms(2) Some
    by (simp add: discard_vnc_handle_def wp_bindm wp_ops wp_thenm)
      (erule wp_mono, simp_all add: set_vnc_gauge_def wp_ops vnc_changed_def books_def)
qed

section \<open>Cold browsers\<close>

lemma owned_fresh: "pool_inv env C p \<Longrightarrow> q \<in> owned (look p) \<Longrightarrow> q \<in> live p \<and> q \<notin> C"
  by (fastforce simp: pool_inv_def owned_def slot_ok_def)

lemma pool_inv_more:
  assumes "pool_inv env C p" and "world_ok w" and "pw_live w = insert n (live p)" and "n \<notin> live p"
  shows "pool_inv env (insert n C) (p\<lparr>wp_procs := w\<rparr>) \<and> n \<notin> C"
proof -
  have n: "n \<notin> owned (look p)" "n \<notin> C" using assms(1,4) owned_fresh by (auto simp: pool_inv_def)
  then have "map_of (wp_slots p) wid = Some sl \<Longrightarrow> n \<notin> procs_of (ws_handle sl)" for wid sl
    by (auto simp: owned_def)
  with assms n show ?thesis
    by (auto simp: pool_inv_def slot_ok_def gauges_ok_def)
qed

lemma pool_inv_less:
  assumes "pool_inv env C p" and "world_ok w" and "n \<in> C"
    and "pw_live w = live p - {n} \<or> pw_live w = live p \<and> n \<in> left_behind env"
  shows "pool_inv env (C - {n}) (p\<lparr>wp_procs := w\<rparr>)"
proof -
  have n: "n \<notin> owned (look p)" using assms(1,3) owned_fresh by blast
  have "slot_ok C (look p) v sl \<Longrightarrow> slot_ok (C - {n}) (look p) v sl" for v sl
    unfolding slot_ok_def by blast
  with assms n show ?thesis
    unfolding pool_inv_def gauges_ok_def by auto
qed

lemma pool_inv_procs:
  assumes "pool_inv env C p" and "world_ok w"
    and "pw_live w = live p \<or> (\<exists>q \<in> left_behind env. pw_live w = insert q (live p))"
  shows "pool_inv env C (p\<lparr>wp_procs := w\<rparr>)"
  using assms by (auto simp: pool_inv_def gauges_ok_def)

lemma launch_in_pool:
  assumes "pool_inv env C p"
  shows "wp (procs_op (launch_browser (pe_os env) b hl ex fl))
    (\<lambda>h q. pool_inv env (insert (bh_process h) C) q \<and> bh_process h \<notin> C \<and> wp_slots q = wp_slots p \<and>
       wp_draining q = wp_draining p)
    (\<lambda>_ q. pool_inv env C q \<and> wp_slots q = wp_slots p \<and> wp_draining q = wp_draining p) p"
proof -
  obtain r w where run: "launch_browser (pe_os env) b hl ex fl (wp_procs p) = (r, w)" by force
  have "world_ok (wp_procs p)" using assms by (simp add: pool_inv_def)
  note w = launch_outcomes [OF this run]
  show ?thesis
  proof (cases r)
    case (Inl e)
    with pool_inv_procs [OF assms, of w] w run show ?thesis
      unfolding procs_op_def wp_zoom by (simp add: wp_def)
  next
    case (Inr h)
    with pool_inv_more [OF assms, of w "bh_process h"] w run show ?thesis
      unfolding procs_op_def wp_zoom by (simp add: wp_def)
  qed
qed

lemma shutdown_in_pool:
  assumes inv: "pool_inv env C p" and "bh_process h \<in> C"
  shows "wp (procs_op (shutdown (pe_os env) force h))
    (\<lambda>_ q. pool_inv env (C - {bh_process h}) q \<and> wp_slots q = wp_slots p)
    (\<lambda>_ q. pool_inv env (C - {bh_process h}) q \<and> wp_slots q = wp_slots p) p"
proof -
  obtain r w where run: "shutdown (pe_os env) force h (wp_procs p) = (r, w)" by force
  have "world_ok w" using shutdown_world_ok [of "wp_procs p" "pe_os env" force h] inv run
    by (simp add: pool_inv_def)
  moreover have "pw_live w = live p - {bh_process h} \<or> pw_live w = live p \<and> bh_process h \<in> left_behind env"
    using shutdown_effect [OF run] by (auto simp: left_behind_def unkillable_def split: sum.splits)
  ultimately have "pool_inv env (C - {bh_process h}) (p\<lparr>wp_procs := w\<rparr>)"
    by (intro pool_inv_less [OF inv]) (use assms(2) in auto)
  then show ?thesis
    unfolding procs_op_def wp_zoom by (simp add: wp_def run split: sum.split)
qed

definition pool_changed ::
  "bool \<Rightarrow> manager_env \<Rightarrow> manager \<Rightarrow> nat set \<Rightarrow> (nat, string) dict \<Rightarrow> manager \<Rightarrow> bool" where
  "pool_changed cf env s C W t = (pool_ok cf (me_pool_env env) C W (m_pool t) \<and> m_warm_sessions t = W \<and>
     books t = books s \<and> m_vnc t = m_vnc s \<and> m_vnc_handles t = m_vnc_handles s)"

abbreviation pool_part :: "bool \<Rightarrow> manager_env \<Rightarrow> nat set \<Rightarrow> manager \<Rightarrow> bool" where
  "pool_part cf env C s \<equiv> pool_ok cf (me_pool_env env) C (m_warm_sessions s) (m_pool s)"

lemma launch_cold_wp:
  assumes "pool_part cf env C s"
  shows "wp (launch_cold_browser env cp vh flags)
    (\<lambda>h t. pool_changed cf env s (insert (bh_process h) C) (m_warm_sessions s) t \<and> bh_process h \<notin> C)
    (\<lambda>_ t. pool_changed cf env s C (m_warm_sessions s) t) s"
proof -
  have inv: "pool_inv (me_pool_env env) C (m_pool s)" using assms by (simp add: pool_ok_def)
  show ?thesis
    unfolding launch_cold_browser_def wp_catchm wp_on_pool
    by (rule wp_mono [OF launch_in_pool [OF inv]])
      (use assms in \<open>auto simp: pool_changed_def pool_ok_def books_def wp_ops split: exn.split\<close>)
qed

lemma shutdown_cold_wp:
  assumes "pool_part cf env C s" and "bh_process h \<in> C"
  shows "wp (on_pool (procs_op (shutdown (pe_os (me_pool_env env)) force h)))
    (\<lambda>_ t. pool_changed cf env s (C - {bh_process h}) (m_warm_sessions s) t)
    (\<lambda>_ t. pool_changed cf env s (C - {bh_process h}) (m_warm_sessions s) t) s"
proof -
  have inv: "pool_inv (me_pool_env env) C (m_pool s)" using assms by (simp add: pool_ok_def)
  show ?thesis
    unfolding wp_on_pool
    by (rule wp_mono [OF shutdown_in_pool [OF inv assms(2)]])
      (use assms in \<open>auto simp: pool_changed_def pool_ok_def books_def\<close>)
qed

lemma safe_shutdown_cold_wp:
  assumes "pool_part cf env C s" and "bh_process h \<in> C"
  shows "wp (safe_shutdown_cold_browser env h)
    (\<lambda>_ t. pool_changed cf env s (C - {bh_process h}) (m_warm_sessions s) t) (\<lambda>_ _. False) s"
  unfolding safe_shutdown_cold_browser_def wp_suppress
  by (rule wp_mono [OF shutdown_cold_wp [OF assms]])

section \<open>Warm slots\<close>

lemma pool_ok_moved:
  assumes "pool_ok cf env C W p" and "pool_inv env C q" and "moved p q wid A B"
    and "A \<inter> {WarmBUSY, WarmDRAINING} = {}"
  shows "pool_ok cf env C W q \<and> (cf \<longrightarrow> (\<forall>i. map_of W i \<noteq> Some wid))"
proof -
  have untracked: "cf \<longrightarrow> map_of W i \<noteq> Some wid" for i
    using assms(1,3,4) unfolding pool_ok_def moved_def by (metis disjoint_iff option.inject)
  with assms show ?thesis unfolding pool_ok_def moved_def by metis
qed

lemma pool_ok_same: "pool_ok cf env C W p \<Longrightarrow> pool_inv env C q \<Longrightarrow> wp_slots q = wp_slots p \<Longrightarrow> pool_ok cf env C W q"
  by (simp add: pool_ok_def)

text \<open>
  The pool is running, or it can be started: none of its slots holds a browser or a directory, and with
  careful operators no session has a workstation.
\<close>

definition startable :: "bool \<Rightarrow> manager_env \<Rightarrow> manager \<Rightarrow> bool" where
  "startable cf env s = (me_has_pool env \<longrightarrow> m_warm_started s \<or>
     start_guard (me_pool_env env) (m_pool s) \<and> (cf \<longrightarrow> m_warm_sessions s = []))"

lemma pool_ok_restarted:
  assumes "pool_ok cf env C W p" and "pool_inv env C q" and "restarted p q" and "cf \<longrightarrow> W = []"
  shows "pool_ok cf env C W q"
proof -
  have "look p w = Some sl \<Longrightarrow> \<exists>sl'. look q w = Some sl'" for w sl
    using assms(3) unfolding restarted_def by metis
  with assms show ?thesis unfolding pool_ok_def by (cases cf) (simp, blast)
qed

lemma start_warm_pool_wp:
  assumes ok: "pool_part cf env C s" and "startable cf env s" and "me_has_pool env"
  shows "wp (start_warm_pool env) (\<lambda>_ t. pool_changed cf env s C (m_warm_sessions s) t)
    (\<lambda>_ t. pool_changed cf env s C (m_warm_sessions s) t) s"
proof (cases "m_warm_started s")
  case True
  with ok show ?thesis by (simp add: start_warm_pool_def wp_bindm wp_ops pool_changed_def)
next
  case False
  then have guard: "start_guard (me_pool_env env) (m_pool s)" "cf \<longrightarrow> m_warm_sessions s = []"
    using assms(2,3) by (auto simp: startable_def)
  have inv: "pool_inv (me_pool_env env) C (m_pool s)" using ok by (simp add: pool_ok_def)
  note start = start_pool_wp [OF inv]
  show ?thesis
    unfolding start_warm_pool_def wp_bindm wp_ops if_not_P [OF False] wp_thenm wp_on_pool
    by (rule wp_mono [OF start])
      (use guard pool_ok_restarted [OF ok _ _ guard(2)] in
        \<open>auto simp: pool_changed_def books_def start_guard_def validate_unique_ids_ok\<close>)
qed

lemma reserve_in_pool:
  assumes "pool_ok cf env C W p"
  shows "wp (reserve_slot env req)
    (\<lambda>rv q. pool_ok cf env C W q \<and> (\<exists>sl. look q (sn_workstation_id (rv_snapshot rv)) = Some sl \<and> ws_state sl = WarmRESERVED))
    (\<lambda>_ q. pool_ok cf env C W q) p"
proof -
  have inv: "pool_inv env C p" using assms by (simp add: pool_ok_def)
  show ?thesis
  proof (rule wp_mono [OF reserve_slot_wp [OF inv]])
    fix rv q assume q: "pool_inv env C q \<and> reserved req p rv q"
    then have "moved p q (sn_workstation_id (rv_snapshot rv)) {WarmIDLE} {WarmRESERVED}"
      by (auto simp: reserved_def)
    with pool_ok_moved [OF assms conjunct1 [OF q] this] show "pool_ok cf env C W q \<and>
        (\<exists>sl. look q (sn_workstation_id (rv_snapshot rv)) = Some sl \<and> ws_state sl = WarmRESERVED)"
      by (auto simp: moved_def)
  next
    fix e q assume "pool_inv env C q \<and> (wp_slots q = wp_slots p \<or>
        (\<exists>wid. (non_empty req \<longrightarrow> req = Some wid) \<and> wp_slots q = set_state wid WarmRESERVED p \<and>
          moved p q wid {WarmIDLE} {WarmRESERVED}))"
    with pool_ok_moved [OF assms] pool_ok_same [OF assms] show "pool_ok cf env C W q" by blast
  qed
qed

lemma reserve_warm_wp:
  assumes ok: "pool_part cf env C s" and "startable cf env s"
  shows "wp (reserve_warm_slot env md)
    (\<lambda>rv t. me_has_pool env \<and> pool_changed cf env s C (m_warm_sessions s) t \<and>
      (\<exists>sl. look (m_pool t) (sn_workstation_id (rv_snapshot rv)) = Some sl \<and> ws_state sl = WarmRESERVED))
    (\<lambda>_ t. pool_changed cf env s C (m_warm_sessions s) t) s"
proof (cases "me_has_pool env")
  case False
  with ok show ?thesis by (simp add: reserve_warm_slot_def wp_ops pool_changed_def)
next
  case True
  have inner: "wp (catchm (on_pool (reserve_slot (me_pool_env env) req)) (\<lambda>e. case e of
        WarmPoolStateError _ \<Rightarrow> raise (SessionCapacityError ''no warm workstations available'') | _ \<Rightarrow> raise e))
    (\<lambda>rv t. me_has_pool env \<and> pool_changed cf env s C (m_warm_sessions s) t \<and>
      (\<exists>sl. look (m_pool t) (sn_workstation_id (rv_snapshot rv)) = Some sl \<and> ws_state sl = WarmRESERVED))
    (\<lambda>_ t. pool_changed cf env s C (m_warm_sessions s) t) u"
    if u: "pool_changed cf env s C (m_warm_sessions s) u" for u req
  proof -
    from u have u': "pool_ok cf (me_pool_env env) C (m_warm_sessions s) (m_pool u)" by (simp add: pool_changed_def)
    show ?thesis
      unfolding wp_catchm wp_on_pool
      by (rule wp_mono [OF reserve_in_pool [OF u']])
        (use u True in \<open>auto simp: pool_changed_def books_def wp_ops split: exn.split\<close>)
  qed
  show ?thesis
    unfolding reserve_warm_slot_def wp_if wp_thenm
    using wp_mono [OF start_warm_pool_wp [OF ok assms(2) True] inner] True by simp
qed

lemma cancel_warm_wp:
  assumes ok: "pool_part cf env C s"
  shows "wp (cancel_warm_reservation env wid) (\<lambda>_ t. pool_changed cf env s C (m_warm_sessions s) t)
    (\<lambda>_ t. pool_changed cf env s C (m_warm_sessions s) t) s"
proof -
  have inv: "pool_inv (me_pool_env env) C (m_pool s)" using ok by (simp add: pool_ok_def)
  have ok': "pool_ok cf (me_pool_env env) C (m_warm_sessions s) q"
    if "pool_inv (me_pool_env env) C q" "wp_slots q = wp_slots (m_pool s) \<or> moved (m_pool s) q wid {WarmRESERVED} {WarmIDLE}" for q
    using that pool_ok_moved [OF ok that(1)] pool_ok_same [OF ok that(1)] by blast
  show ?thesis
    unfolding cancel_warm_reservation_def wp_whenm wp_catchm wp_thenm wp_on_pool
    by (auto intro!: wp_mono [OF cancel_reservation_wp [OF inv]] simp: wp_ops)
      (use ok ok' in \<open>auto simp: pool_changed_def books_def wp_ops split: exn.split\<close>)
qed

lemma mark_busy_in_manager:
  assumes ok: "pool_part cf env C s"
  shows "wp (mark_warm_slot_busy env wid)
    (\<lambda>_ t. pool_changed cf env s C (m_warm_sessions s) t \<and> (cf \<longrightarrow> (\<forall>i. map_of (m_warm_sessions s) i \<noteq> Some wid)) \<and>
      (\<exists>sl. look (m_pool t) wid = Some sl \<and> ws_state sl = WarmBUSY))
    (\<lambda>_ t. pool_changed cf env s C (m_warm_sessions s) t) s"
proof -
  have inv: "pool_inv (me_pool_env env) C (m_pool s)" using ok by (simp add: pool_ok_def)
  have same: "pool_changed cf env s C (m_warm_sessions s) (s\<lparr>m_pool := q\<rparr>)"
    if "pool_inv (me_pool_env env) C q" "wp_slots q = wp_slots (m_pool s)" for q
    using that pool_ok_same [OF ok that] by (simp add: pool_changed_def books_def)
  have busy: "pool_changed cf env s C (m_warm_sessions s) (s\<lparr>m_pool := q\<rparr>) \<and>
      (cf \<longrightarrow> (\<forall>i. map_of (m_warm_sessions s) i \<noteq> Some wid)) \<and> (\<exists>sl. look q wid = Some sl \<and> ws_state sl = WarmBUSY)"
    if "pool_inv (me_pool_env env) C q" "moved (m_pool s) q wid {WarmRESERVED} {WarmBUSY}" for q
    using pool_ok_moved [OF ok that] that by (auto simp: pool_changed_def books_def moved_def)
  have failed: "wp (case e of WarmPoolStateError _ \<Rightarrow>
        raise (SessionCapacityError (''warm workstation '' @ quoted wid @ '' is no longer reserved''))
      | _ \<Rightarrow> raise e) Q E t = E (case e of WarmPoolStateError _ \<Rightarrow>
        SessionCapacityError (''warm workstation '' @ quoted wid @ '' is no longer reserved'') | _ \<Rightarrow> e) t"
    for e Q E and t :: manager by (cases e) (simp_all add: wp_ops)
  show ?thesis
  proof (cases "me_has_pool env")
    case False
    with ok show ?thesis by (simp add: mark_warm_slot_busy_def wp_ops pool_changed_def)
  next
    case True
    have "wp (catchm (on_pool (mark_busy (me_pool_env env) wid)) (\<lambda>e. case e of WarmPoolStateError _ \<Rightarrow>
        raise (SessionCapacityError (''warm workstation '' @ quoted wid @ '' is no longer reserved''))
      | _ \<Rightarrow> raise e))
      (\<lambda>_ t. pool_changed cf env s C (m_warm_sessions s) t \<and> (cf \<longrightarrow> (\<forall>i. map_of (m_warm_sessions s) i \<noteq> Some wid)) \<and>
        (\<exists>sl. look (m_pool t) wid = Some sl \<and> ws_state sl = WarmBUSY))
      (\<lambda>_ t. pool_changed cf env s C (m_warm_sessions s) t) s"
      unfolding wp_catchm wp_on_pool failed
    proof (rule wp_mono [OF mark_busy_wp [OF inv]], goal_cases)
      case (1 x q)
      with busy [of q] show ?case by simp
    next
      case (2 e q)
      with busy [of q] same [of q] show ?case by blast
    qed
    with True show ?thesis by (simp add: mark_warm_slot_busy_def)
  qed
qed

lemma pool_ok_untracked:
  assumes "pool_ok cf env C W p" and "pool_inv env C q" and "moved p q wid A B"
    and "\<And>i. cf \<Longrightarrow> map_of W i \<noteq> Some wid"
  shows "pool_ok cf env C W q"
  using assms unfolding pool_ok_def moved_def by metis

lemma pool_ok_delete: "pool_ok cf env C W p \<Longrightarrow> pool_ok cf env C (AList.delete sid W) p"
  by (auto simp: pool_ok_def)

definition warm_inj :: "bool \<Rightarrow> (nat, string) dict \<Rightarrow> bool" where
  "warm_inj cf W = (cf \<longrightarrow> (\<forall>i j w. map_of W i = Some w \<longrightarrow> map_of W j = Some w \<longrightarrow> i = j))"

definition without :: "manager_env \<Rightarrow> nat \<Rightarrow> (nat, string) dict \<Rightarrow> (nat, string) dict" where
  "without env sid W = (if me_has_pool env then AList.delete sid W else W)"

lemma release_warm_wp:
  assumes ok: "pool_part cf env C s" and inj: "warm_inj cf (m_warm_sessions s)"
  shows "wp (release_warm_slot env sid)
    (\<lambda>_ t. pool_changed cf env s C (without env sid (m_warm_sessions s)) t)
    (\<lambda>_ t. pool_changed cf env s C (without env sid (m_warm_sessions s)) t) s"
proof (cases "me_has_pool env")
  case False
  with ok show ?thesis by (simp add: release_warm_slot_def wp_whenm pool_changed_def without_def)
next
  case True
  let ?W = "AList.delete sid (m_warm_sessions s)"
  let ?s = "s\<lparr>m_warm_sessions := ?W\<rparr>"
  have ok': "pool_ok cf (me_pool_env env) C ?W (m_pool s)" using ok by (rule pool_ok_delete)
  have release: "wp (catchm (thenm (on_pool (release_slot (me_pool_env env) w)) (ret ())) (\<lambda>e. case e of
        WarmPoolProvisioningError m c \<Rightarrow> thenm (push_failure env (exn_text e)) (raise e) | _ \<Rightarrow> raise e))
      (\<lambda>_ t. pool_changed cf env s C ?W t) (\<lambda>_ t. pool_changed cf env s C ?W t) ?s"
    if "map_of (m_warm_sessions s) sid = Some w" for w
  proof -
    have other: "map_of ?W i \<noteq> Some w" if cf for i
      using inj \<open>cf\<close> \<open>map_of (m_warm_sessions s) sid = Some w\<close> unfolding warm_inj_def by (metis fun_upd_apply map_of_delete option.distinct(1))
    have inv: "pool_inv (me_pool_env env) C (m_pool s)" using ok by (simp add: pool_ok_def)
    have changed: "pool_changed cf env s C ?W (?s\<lparr>m_pool := q\<rparr>)"
      if "pool_inv (me_pool_env env) C q" "wp_slots q = wp_slots (m_pool s) \<or> moved (m_pool s) q w A B" for q A B
      using that pool_ok_untracked [OF ok' that(1) _ other] pool_ok_same [OF ok' that(1)]
      by (auto simp: pool_changed_def books_def)
    have failed: "wp (case e of WarmPoolProvisioningError m c \<Rightarrow> thenm (push_failure env (exn_text e)) (raise e)
        | _ \<Rightarrow> raise e) Q (\<lambda>_ t. pool_changed cf env s C ?W t) t"
      if "pool_changed cf env s C ?W t" for e Q t
      using that by (cases e) (simp_all add: wp_thenm wp_ops push_failure_def pool_changed_def books_def)
    show ?thesis
      unfolding wp_catchm wp_thenm [of "on_pool _"] wp_on_pool release_slot_def
    proof (simp, rule wp_mono [OF recycle_slot_wp [OF inv]], goal_cases)
      case (1 x q)
      then show ?case unfolding wp_ops by (intro changed) blast+
    next
      case (2 e q)
      then show ?case by (intro failed changed) blast+
    qed
  qed
  show ?thesis
    using ok' release True
    by (cases "map_of (m_warm_sessions s) sid")
      (simp_all add: release_warm_slot_def wp_whenm wp_bindm wp_ops wp_thenm [of "modify _"] without_def
        pool_changed_def books_def)
qed

lemma pool_changed_trans:
  "pool_changed cf env s C W t \<Longrightarrow> pool_changed cf env t C' W' u \<Longrightarrow> pool_changed cf env s C' W' u"
  by (simp add: pool_changed_def)

lemma pool_changed_part: "pool_changed cf env s C W t \<Longrightarrow> pool_part cf env C t \<and> m_warm_sessions t = W"
  by (simp add: pool_changed_def)

section \<open>Acquiring a browser\<close>

definition acquired ::
  "bool \<Rightarrow> manager_env \<Rightarrow> manager \<Rightarrow> nat set \<Rightarrow> browser_acquisition \<Rightarrow> manager \<Rightarrow> bool" where
  "acquired cf env s C acq t = (case ba_reservation acq of
     None \<Rightarrow> pool_changed cf env s (insert (bh_process (ba_handle acq)) C) (m_warm_sessions s) t \<and>
       bh_process (ba_handle acq) \<notin> C
   | Some rv \<Rightarrow> me_has_pool env \<and> pool_changed cf env s C (m_warm_sessions s) t \<and>
       (\<exists>sl. look (m_pool t) (sn_workstation_id (rv_snapshot rv)) = Some sl \<and> ws_state sl = WarmRESERVED))"

lemma acquire_cold_wp:
  assumes "pool_changed cf env s C (m_warm_sessions s) t"
  shows "wp (acquire_cold env cp md vh flags reason) (\<lambda>acq u. acquired cf env s C acq u)
    (\<lambda>_ u. pool_changed cf env s C (m_warm_sessions s) u) t"
proof -
  have part: "pool_part cf env C t" and W: "m_warm_sessions t = m_warm_sessions s"
    using assms by (simp_all add: pool_changed_def)
  show ?thesis
    unfolding acquire_cold_def wp_bindm
    by (rule wp_mono [OF launch_cold_wp [OF part]])
      (use pool_changed_trans [OF assms] in \<open>auto simp: wp_ops acquired_def W\<close>)
qed

lemma acquire_warm_wp:
  assumes "pool_part cf env C s" and "startable cf env s"
  shows "wp (acquire_warm env cp md vh flags) (\<lambda>acq u. acquired cf env s C acq u)
    (\<lambda>_ u. pool_changed cf env s C (m_warm_sessions s) u) s"
  unfolding acquire_warm_def wp_bindm wp_attempt
proof (rule wp_mono [OF reserve_warm_wp [OF assms]], goal_cases)
  case (1 rv t)
  then show ?case by (simp add: wp_ops acquired_def warm_acquisition_def)
next
  case (2 e t)
  then show ?case by (cases e) (simp_all add: wp_ops wp_if acquire_cold_wp)
qed

lemma acquire_browser_wp:
  assumes "pool_part cf env C s" and "startable cf env s"
  shows "wp (acquire_browser_handle env cp md vh) (\<lambda>acq u. acquired cf env s C acq u)
    (\<lambda>_ u. pool_changed cf env s C (m_warm_sessions s) u) s"
proof -
  have same: "pool_changed cf env s C (m_warm_sessions s) s"
    using assms(1) by (simp add: pool_changed_def)
  show ?thesis
    using acquire_warm_wp [OF assms] acquire_cold_wp [OF same] same
    by (simp add: acquire_browser_handle_def Let_def wp_ops split: prod.split)
qed

end
