(* ===== verification/Session_Manager_Create.thy ===== *)
theory Session_Manager_Create
  imports Session_Manager_Inv
begin

text \<open>
  The invariant of the session manager, and creating a session: it succeeds with the session stored
  and every resource attributed to it, or it fails and the books are as before, whichever of
  its dozen steps raised.
\<close>

declare map_of_eq_Some_iff [simp del] Some_eq_map_of_iff [simp del]

section \<open>The invariant\<close>

text \<open>The processes of the browsers launched for one session each.\<close>

definition cold :: "(nat, browser_handle) dict \<Rightarrow> (nat, string) dict \<Rightarrow> nat set" where
  "cold H W = {p. \<exists>i h. map_of H i = Some h \<and> map_of W i = None \<and> bh_process h = p}"

definition cold_inj :: "(nat, browser_handle) dict \<Rightarrow> (nat, string) dict \<Rightarrow> bool" where
  "cold_inj H W = (\<forall>i j h h'. map_of H i = Some h \<longrightarrow> map_of H j = Some h' \<longrightarrow> map_of W i = None \<longrightarrow>
     map_of W j = None \<longrightarrow> bh_process h = bh_process h' \<longrightarrow> i = j)"

text \<open>A stored session has the times the reaper reads.\<close>

definition typed :: "session \<Rightarrow> bool" where
  "typed x = (\<exists>t ttl. s_last_seen_at x = Some (Aware t) \<and> s_idle_ttl x = Some ttl)"

definition live_count :: "(nat, session) dict \<Rightarrow> nat" where
  "live_count S = length (filter (\<lambda>(_, x). \<not> dead x) S)"

definition sessions_ok :: "nat \<Rightarrow> (nat, session) dict \<Rightarrow> bool" where
  "sessions_ok n S = (dict_ok S \<and> (\<forall>i x. map_of S i = Some x \<longrightarrow> s_id x = i \<and> i < n \<and> typed x))"

definition books_ok :: "bool \<Rightarrow> manager \<Rightarrow> bool" where
  "books_ok cf s =
     (sessions_ok (m_next_id s) (m_sessions s) \<and>
      dict_ok (m_handles s) \<and> dict_ok (m_warm_sessions s) \<and> dict_ok (m_vnc_handles s) \<and>
      (\<forall>i h. map_of (m_handles s) i = Some h \<longrightarrow>
         (\<exists>x. map_of (m_sessions s) i = Some x \<and> \<not> dead x \<and> s_ws_endpoint x \<noteq> None)) \<and>
      (\<forall>i w. map_of (m_warm_sessions s) i = Some w \<longrightarrow> map_of (m_sessions s) i \<noteq> None) \<and>
      (\<forall>i h. map_of (m_vnc_handles s) i = Some h \<longrightarrow> map_of (m_sessions s) i \<noteq> None) \<and>
      cold_inj (m_handles s) (m_warm_sessions s) \<and> warm_inj cf (m_warm_sessions s) \<and>
      m_active s = live_count (m_sessions s))"

definition manager_inv :: "bool \<Rightarrow> manager_env \<Rightarrow> manager \<Rightarrow> bool" where
  "manager_inv cf env s = (books_ok cf s \<and> vnc_part env s \<and>
     pool_part cf env (cold (m_handles s) (m_warm_sessions s)) s)"

section \<open>Counting and deadlines\<close>

lemma live_count_simps [simp]:
  "live_count [] = 0"
  "live_count ((i, x) # S) = (if dead x then 0 else 1) + live_count S"
  "live_count (S @ T) = live_count S + live_count T"
  by (simp_all add: live_count_def)

lemma live_count_update:
  assumes "map_of S i = Some x" and "dict_ok S"
  shows "live_count (AList.update i y S) + (if dead x then 0 else 1) = live_count S + (if dead y then 0 else 1)"
  using assms
proof (induction S)
  case (Cons a S)
  obtain j z where a: "a = (j, z)" by force
  with Cons show ?case by (cases "i = j") auto
qed simp

lemma next_idle_expiry_typed:
  "\<forall>x \<in> set xs. typed x \<Longrightarrow> pred_option is_aware n \<Longrightarrow>
    \<exists>m. next_idle_expiry n xs = Inr m \<and> pred_option is_aware m"
proof (induction xs arbitrary: n)
  case (Cons x rest)
  then obtain t ttl where "s_last_seen_at x = Some (Aware t)" "s_idle_ttl x = Some ttl"
    by (auto simp: typed_def)
  then have "idle_expiry x = Inr (dt_add_seconds (Aware t) ttl)" by (simp add: idle_expiry_def)
  with Cons show ?case by (cases n) (auto elim: is_aware_cases)
qed simp

lemma sessions_ok_typed: "sessions_ok n S \<Longrightarrow> x \<in> snd ` set S \<Longrightarrow> typed x"
  unfolding sessions_ok_def by (metis dict_member_lookup imageE prod.collapse)

lemma recalculate_wp:
  assumes "sessions_ok n (m_sessions s)" and "\<And>m. Q () (s\<lparr>m_next_expiry := m\<rparr>)"
  shows "wp recalculate_next_idle_expiry Q E s"
proof -
  have "\<exists>m. next_idle_expiry None (session_list s) = Inr m \<and> pred_option is_aware m"
    by (rule next_idle_expiry_typed) (use sessions_ok_typed [OF assms(1)] in \<open>auto simp: session_list_def\<close>)
  then show ?thesis
    using assms(2) by (auto simp: recalculate_next_idle_expiry_def wp_bindm wp_ops)
qed

section \<open>States of an unfinished creation\<close>

text \<open>The books are those of \<open>s\<close>; the cold processes are \<open>C\<close>.\<close>

definition kept :: "bool \<Rightarrow> manager_env \<Rightarrow> manager \<Rightarrow> nat set \<Rightarrow> manager \<Rightarrow> bool" where
  "kept cf env s C t = (m_sessions t = m_sessions s \<and> m_handles t = m_handles s \<and>
     m_vnc_handles t = m_vnc_handles s \<and> m_warm_sessions t = m_warm_sessions s \<and>
     m_active t = m_active s \<and> m_next_id s \<le> m_next_id t \<and> m_events t = m_events s \<and>
     vnc_ok (me_vnc_env env) (m_vnc t) (m_vnc_handles s) \<and>
     pool_ok cf (me_pool_env env) C (m_warm_sessions s) (m_pool t))"

abbreviation cold_of :: "manager \<Rightarrow> nat set" where
  "cold_of s \<equiv> cold (m_handles s) (m_warm_sessions s)"

lemma kept_vnc: "kept cf env s C t \<Longrightarrow> vnc_changed env t (m_vnc_handles t) u \<Longrightarrow> kept cf env s C u"
  by (simp add: kept_def vnc_changed_def books_def)

lemma kept_pool: "kept cf env s C t \<Longrightarrow> pool_changed cf env t C' (m_warm_sessions t) u \<Longrightarrow> kept cf env s C' u"
  by (simp add: kept_def pool_changed_def books_def)

lemma kept_self: "manager_inv cf env s \<Longrightarrow> kept cf env s (cold_of s) s"
  by (simp add: kept_def manager_inv_def)

lemma sessions_ok_mono: "sessions_ok m S \<Longrightarrow> m \<le> n \<Longrightarrow> sessions_ok n S"
  unfolding sessions_ok_def by (meson order.strict_trans2)

lemma kept_inv: "manager_inv cf env s \<Longrightarrow> kept cf env s (cold_of s) t \<Longrightarrow> manager_inv cf env t"
  unfolding manager_inv_def kept_def books_ok_def by (auto intro: sessions_ok_mono)

definition in_transit :: "browser_acquisition \<Rightarrow> nat set \<Rightarrow> nat set" where
  "in_transit acq C = (if ba_reservation acq = None then insert (bh_process (ba_handle acq)) C else C)"

definition transit ::
  "bool \<Rightarrow> manager_env \<Rightarrow> manager \<Rightarrow> browser_acquisition \<Rightarrow> vnc_handle option \<Rightarrow> manager \<Rightarrow> bool" where
  "transit cf env s acq vh t = (kept cf env s (in_transit acq (cold_of s)) t \<and>
     (ba_reservation acq = None \<longrightarrow> bh_process (ba_handle acq) \<notin> cold_of s) \<and>
     spare (m_vnc t) (m_vnc_handles s) vh)"

abbreviation acq_wid :: "browser_acquisition \<Rightarrow> string option" where
  "acq_wid acq \<equiv> map_option (\<lambda>rv. sn_workstation_id (rv_snapshot rv)) (ba_reservation acq)"

lemma undo_browser_wp:
  assumes "transit cf env s acq vh t"
  shows "wp (undo_browser env (acq_wid acq) (ba_handle acq))
    (\<lambda>_ u. kept cf env s (cold_of s) u \<and> spare (m_vnc u) (m_vnc_handles s) vh)
    (\<lambda>_ u. kept cf env s (cold_of s) u) t"
proof -
  have k: "kept cf env s (in_transit acq (cold_of s)) t" and sp: "spare (m_vnc t) (m_vnc_handles s) vh"
    using assms by (simp_all add: transit_def)
  then have part: "pool_part cf env (in_transit acq (cold_of s)) t" by (simp add: kept_def)
  show ?thesis
  proof (cases "ba_reservation acq")
    case None
    then have C: "in_transit acq (cold_of s) - {bh_process (ba_handle acq)} = cold_of s"
      and mem: "bh_process (ba_handle acq) \<in> in_transit acq (cold_of s)"
      using assms by (auto simp: transit_def in_transit_def)
    show ?thesis
      unfolding undo_browser_def None option.map option.case
      by (rule wp_mono [OF safe_shutdown_cold_wp [OF part mem]])
        (use kept_pool [OF k] sp in \<open>auto simp: C pool_changed_def\<close>)
  next
    case (Some rv)
    then have C: "in_transit acq (cold_of s) = cold_of s" by (simp add: in_transit_def)
    show ?thesis
      unfolding undo_browser_def Some option.map option.case
      by (rule wp_mono [OF cancel_warm_wp [OF part]])
        (use kept_pool [OF k] sp in \<open>auto simp: C pool_changed_def\<close>)
  qed
qed

lemma discard_kept:
  assumes "kept cf env s C t" and "spare (m_vnc t) (m_vnc_handles s) vh" and "map_of (m_vnc_handles s) sid = None"
  shows "wp (thenm (discard_vnc_handle env sid vh) (raise e)) Q (\<lambda>_ u. kept cf env s C u) t"
proof -
  have "m_vnc_handles t = m_vnc_handles s" "vnc_part env t" using assms(1) by (simp_all add: kept_def)
  then show ?thesis
    unfolding wp_thenm
    by (intro wp_mono [OF discard_vnc_wp]) (use assms kept_vnc [OF assms(1)] in \<open>simp_all add: wp_ops\<close>)
qed

lemma undo_create_wp:
  assumes "transit cf env s acq vh t" and "map_of (m_vnc_handles s) sid = None"
  shows "wp (undo_create env sid (acq_wid acq) (ba_handle acq) vh e) Q (\<lambda>_ u. kept cf env s (cold_of s) u) t"
  unfolding undo_create_def wp_thenm [of "undo_browser _ _ _"]
  by (rule wp_mono [OF undo_browser_wp [OF assms(1)]]) (use assms(2) in \<open>auto intro: discard_kept\<close>)

section \<open>Marking, storing, rolling back\<close>

definition attributed ::
  "bool \<Rightarrow> manager_env \<Rightarrow> manager \<Rightarrow> browser_acquisition \<Rightarrow> vnc_handle option \<Rightarrow> manager \<Rightarrow> bool" where
  "attributed cf env s acq vh t = (transit cf env s acq vh t \<and>
     (\<forall>w. acq_wid acq = Some w \<longrightarrow> me_has_pool env \<and> (cf \<longrightarrow> (\<forall>i. map_of (m_warm_sessions s) i \<noteq> Some w)) \<and>
       (\<exists>sl. look (m_pool t) w = Some sl \<and> ws_state sl = WarmBUSY)))"

text \<open>What the busy mark leaves alone in the session.\<close>

definition core_of where
  "core_of x = (s_id x, s_status x, s_last_seen_at x, s_idle_ttl x, s_ws_endpoint x)"

lemma mark_session_busy_wp:
  assumes t: "transit cf env s acq vh t" and fresh: "map_of (m_vnc_handles s) sid = None"
  shows "wp (mark_session_busy env sid (acq_wid acq) (ba_handle acq) vh x)
    (\<lambda>y u. attributed cf env s acq vh u \<and> core_of y = core_of x)
    (\<lambda>_ u. kept cf env s (cold_of s) u) t"
proof (cases "ba_reservation acq")
  case None
  with t show ?thesis by (simp add: mark_session_busy_def wp_ops attributed_def)
next
  case (Some rv)
  define w where "w = sn_workstation_id (rv_snapshot rv)"
  have wid: "acq_wid acq = Some w" by (simp add: Some w_def)
  have C: "in_transit acq (cold_of s) = cold_of s" by (simp add: in_transit_def Some)
  have k: "kept cf env s (cold_of s) t" using t by (simp add: transit_def C)
  then have part: "pool_part cf env (cold_of s) t" and W: "m_warm_sessions t = m_warm_sessions s"
    by (simp_all add: kept_def)
  have moved: "transit cf env s acq vh u" if "pool_changed cf env t (cold_of s) (m_warm_sessions t) u" for u
    using t kept_pool [OF k that] that by (simp add: transit_def C pool_changed_def)
  have mark: "wp (mark_warm_slot_busy env w) (\<lambda>_ u. me_has_pool env \<and>
      pool_changed cf env t (cold_of s) (m_warm_sessions t) u \<and> (cf \<longrightarrow> (\<forall>i. map_of (m_warm_sessions t) i \<noteq> Some w)) \<and>
      (\<exists>sl. look (m_pool u) w = Some sl \<and> ws_state sl = WarmBUSY))
      (\<lambda>_ u. pool_changed cf env t (cold_of s) (m_warm_sessions t) u) t"
    using mark_busy_in_manager [OF part, of w]
    by (cases "me_has_pool env") (simp_all add: mark_warm_slot_busy_def wp_ops)
  have failed: "wp (case e of SessionCapacityError _ \<Rightarrow> undo_create env sid (Some w) (ba_handle acq) vh e | _ \<Rightarrow> raise e)
      Q (\<lambda>_ u. kept cf env s (cold_of s) u) u"
    if "pool_changed cf env t (cold_of s) (m_warm_sessions t) u" for e Q u
    using undo_create_wp [OF moved [OF that] fresh] kept_pool [OF k that]
    by (cases e) (simp_all add: wid wp_ops)
  show ?thesis
    unfolding mark_session_busy_def wid option.case wp_bindm [of "catchm _ _"] wp_catchm
  proof (rule wp_mono [OF mark], goal_cases)
    case (1 sn u)
    then have "attributed cf env s acq vh u" using moved [of u] by (simp add: attributed_def wid W)
    with kept_pool [OF k, of "cold_of s" u] 1 show ?case
      by (simp add: wp_bindm wp_ops core_of_def split: sum.split)
  next
    case (2 e u)
    then show ?case by (rule failed)
  qed
qed

definition stored ::
  "bool \<Rightarrow> manager_env \<Rightarrow> manager \<Rightarrow> browser_acquisition \<Rightarrow> vnc_handle option \<Rightarrow> nat \<Rightarrow> session \<Rightarrow> manager \<Rightarrow> bool" where
  "stored cf env s acq vh sid y u =
     (m_sessions u = AList.update sid y (m_sessions s) \<and>
      m_handles u = AList.update sid (ba_handle acq) (m_handles s) \<and>
      m_warm_sessions u = (case acq_wid acq of None \<Rightarrow> m_warm_sessions s
        | Some w \<Rightarrow> AList.update sid w (m_warm_sessions s)) \<and>
      m_vnc_handles u = (case vh of None \<Rightarrow> m_vnc_handles s
        | Some v \<Rightarrow> AList.update sid v (m_vnc_handles s)) \<and>
      m_active u = m_active s + (if dead y then 0 else 1) \<and> sid < m_next_id u \<and> m_next_id s \<le> m_next_id u \<and>
      vnc_part env u \<and> pool_part cf env (in_transit acq (cold_of s)) u \<and>
      (acq_wid acq \<noteq> None \<longrightarrow> me_has_pool env) \<and>
      (\<forall>w i. cf \<longrightarrow> acq_wid acq = Some w \<longrightarrow> map_of (m_warm_sessions s) i \<noteq> Some w) \<and>
      (ba_reservation acq = None \<longrightarrow> bh_process (ba_handle acq) \<notin> cold_of s))"

lemma pool_ok_update:
  "pool_ok cf env C W p \<Longrightarrow> look p w = Some sl \<Longrightarrow> ws_state sl = WarmBUSY \<Longrightarrow>
    pool_ok cf env C (AList.update sid w W) p"
  by (auto simp: pool_ok_def)

lemma vnc_ok_update:
  "vnc_ok env v d \<Longrightarrow> spare v d (Some h) \<Longrightarrow> vnc_ok env v (AList.update sid h d)"
  by (simp add: vnc_ok_def spare_def) metis

lemma store_session_wp:
  assumes t: "attributed cf env s acq vh t" and inv: "manager_inv cf env s" and y: "s_id y = sid" "typed y"
    and sid: "map_of (m_sessions s) sid = None" "sid < m_next_id t"
  shows "wp (store_session sid y (ba_handle acq) (acq_wid acq) vh)
    (\<lambda>_ u. stored cf env s acq vh sid y u \<and> m_events u = m_events s)
    (\<lambda>_ _. False) t"
proof -
  define W where "W = (case acq_wid acq of None \<Rightarrow> m_warm_sessions s
     | Some w \<Rightarrow> AList.update sid w (m_warm_sessions s))"
  define V where "V = (case vh of None \<Rightarrow> m_vnc_handles s | Some v \<Rightarrow> AList.update sid v (m_vnc_handles s))"
  let ?u = "t\<lparr>m_sessions := AList.update sid y (m_sessions s),
       m_handles := AList.update sid (ba_handle acq) (m_handles s), m_warm_sessions := W, m_vnc_handles := V\<rparr>"
  have k: "kept cf env s (in_transit acq (cold_of s)) t" and sp: "spare (m_vnc t) (m_vnc_handles s) vh"
    using t by (simp_all add: attributed_def transit_def)
  then have eqs: "m_sessions t = m_sessions s" "m_handles t = m_handles s" "m_vnc_handles t = m_vnc_handles s"
    "m_warm_sessions t = m_warm_sessions s" "m_active t = m_active s" "m_next_id s \<le> m_next_id t" "m_events t = m_events s"
    by (simp_all add: kept_def)
  have pool: "pool_ok cf (me_pool_env env) (in_transit acq (cold_of s)) W (m_pool t)"
    using k t pool_ok_update unfolding W_def kept_def attributed_def by (auto split: option.split)
  have vnc: "vnc_ok (me_vnc_env env) (m_vnc t) V"
    using k sp vnc_ok_update unfolding V_def by (auto simp: kept_def split: option.split)
  have "sessions_ok (m_next_id t) (m_sessions s)"
    using inv eqs sessions_ok_mono by (auto simp: manager_inv_def books_ok_def)
  then have sess: "sessions_ok (m_next_id t) (AList.update sid y (m_sessions s))"
    using y sid by (auto simp: sessions_ok_def)
  have "stored cf env s acq vh sid y (?u\<lparr>m_active := m_active t + (if dead y then 0 else 1),
      m_vnc_gauge := g, m_next_expiry := m, m_active_gauge := a\<rparr>)" for g m a
    using t pool vnc sid eqs unfolding stored_def attributed_def transit_def W_def [symmetric] V_def [symmetric]
    by simp blast
  note done_now = this
  show ?thesis
    unfolding store_session_def wp_thenm wp_ops set_vnc_gauge_def eqs W_def [symmetric] V_def [symmetric]
  proof (rule recalculate_wp, use sess in simp)
    fix m
    show "wp (whenm (\<not> dead y) (thenm (modify (\<lambda>s. s\<lparr>m_active := Suc (m_active s)\<rparr>)) set_active_gauge))
       (\<lambda>_ u. stored cf env s acq vh sid y u \<and> m_events u = m_events s) (\<lambda>_ _. False)
       (?u\<lparr>m_vnc_gauge := length (m_vnc_handles ?u), m_next_expiry := m\<rparr>)"
      using done_now [of "length (m_vnc_handles ?u)" m] done_now [of "length (m_vnc_handles ?u)" m "m_active_gauge t"]
      by (auto simp: wp_whenm wp_thenm wp_ops set_active_gauge_def stored_def eqs)
  qed
qed

text \<open>Publishing changes the clock and the event log only.\<close>

definition quiet :: "manager \<Rightarrow> manager \<Rightarrow> bool" where
  "quiet s t = (m_sessions t = m_sessions s \<and> m_handles t = m_handles s \<and>
     m_vnc_handles t = m_vnc_handles s \<and> m_warm_sessions t = m_warm_sessions s \<and>
     m_active t = m_active s \<and> m_next_id t = m_next_id s \<and> m_pool t = m_pool s \<and> m_vnc t = m_vnc s \<and>
     m_next_expiry t = m_next_expiry s)"

definition published :: "session \<Rightarrow> session_event_type \<Rightarrow> string option \<Rightarrow> manager \<Rightarrow> manager \<Rightarrow> bool" where
  "published x ty reason s t = (\<exists>ev. m_events t = m_events s @ [ev] \<and> ev_session ev = x \<and>
     ev_type ev = ty \<and> ev_reason ev = reason \<and> validate_session_event ev = Inr ev)"

lemma publish_wp:
  "wp (publish env x ty reason) (\<lambda>_ t. quiet s t \<and> published x ty reason s t)
    (\<lambda>_ t. quiet s t \<and> m_events t = m_events s) s"
proof -
  let ?ev = "\<lparr>ev_id = m_publishes s, ev_type = ty, ev_session = x,
    ev_occurred_at = me_clock env (m_ticks s), ev_reason = reason\<rparr>"
  show ?thesis
  proof (cases "validate_session_event ?ev")
    case (Inl e)
    then show ?thesis
      by (simp add: publish_def read_clock_def wp_bindm wp_thenm wp_ops quiet_def)
  next
    case (Inr ev)
    then have "ev = ?ev" by (auto simp: validate_session_event_def split: if_splits)
    with Inr show ?thesis
      by (auto simp: publish_def read_clock_def wp_bindm wp_thenm wp_ops quiet_def published_def
          split: option.split intro!: exI [of _ ?ev])
  qed
qed

lemma stored_quiet: "stored cf env s acq vh sid y u \<Longrightarrow> quiet u v \<Longrightarrow> stored cf env s acq vh sid y v"
  unfolding stored_def quiet_def by (elim conjE, intro conjI) simp_all

lemma update_fresh_delete: "map_of d k = None \<Longrightarrow> AList.delete k (AList.update k v d) = d"
  by (simp add: map_of_None_keys delete_update_fresh)

lemma delete_absent: "map_of d k = None \<Longrightarrow> AList.delete k d = d"
  by (simp add: map_of_None_keys delete_id)

definition unknown :: "manager \<Rightarrow> nat \<Rightarrow> bool" where
  "unknown s sid = (map_of (m_sessions s) sid = None \<and> map_of (m_handles s) sid = None \<and>
     map_of (m_warm_sessions s) sid = None \<and> map_of (m_vnc_handles s) sid = None)"

text \<open>The books are undone but for the VNC handle and the browser, still to be given back.\<close>

definition undone ::
  "bool \<Rightarrow> manager_env \<Rightarrow> manager \<Rightarrow> nat set \<Rightarrow> (nat, string) dict \<Rightarrow> (nat, vnc_handle) dict \<Rightarrow> manager \<Rightarrow> bool" where
  "undone cf env s C W V t = (m_sessions t = m_sessions s \<and> m_handles t = m_handles s \<and>
     m_active t = m_active s \<and> m_next_id s \<le> m_next_id t \<and> m_events t = m_events s \<and> m_vnc_handles t = V \<and> m_warm_sessions t = W \<and>
     vnc_part env t \<and> pool_part cf env C t)"

lemma undone_kept: "undone cf env s C (m_warm_sessions s) (m_vnc_handles s) t \<longleftrightarrow> kept cf env s C t"
  by (auto simp: undone_def kept_def)

lemma undone_vnc: "undone cf env s C W V t \<Longrightarrow> vnc_changed env t V' u \<Longrightarrow> undone cf env s C W V' u"
  by (auto simp: undone_def vnc_changed_def books_def)

lemma undone_pool: "undone cf env s C W V t \<Longrightarrow> pool_changed cf env t C' W' u \<Longrightarrow> undone cf env s C' W' V u"
  by (auto simp: undone_def pool_changed_def books_def)

lemma rollback_vnc_wp:
  assumes t: "undone cf env s C W (case vh of None \<Rightarrow> m_vnc_handles s | Some v \<Rightarrow> AList.update sid v (m_vnc_handles s)) t"
    and new: "map_of (m_vnc_handles s) sid = None"
  shows "wp (suppress (if map_of (m_vnc_handles t) sid \<noteq> None then release_vnc_handle env sid
      else discard_vnc_handle env sid vh)) (\<lambda>_ u. undone cf env s C W (m_vnc_handles s) u) (\<lambda>_ _. False) t"
proof (cases vh)
  case None
  then have "m_vnc_handles t = m_vnc_handles s" using t by (simp add: undone_def)
  with t new None show ?thesis by (simp add: wp_suppress wp_ops discard_vnc_handle_def)
next
  case (Some v)
  then have V: "m_vnc_handles t = AList.update sid v (m_vnc_handles s)" and part: "vnc_part env t"
    using t by (auto simp: undone_def)
  show ?thesis
    using wp_mono [OF release_vnc_wp [OF part, of sid]] undone_vnc [OF t] new
    by (simp add: V wp_suppress update_fresh_delete)
qed

lemma rollback_browser_wp:
  assumes t: "undone cf env s (in_transit acq (cold_of s)) (case acq_wid acq of None \<Rightarrow> m_warm_sessions s
      | Some w \<Rightarrow> AList.update sid w (m_warm_sessions s)) V t"
    and inv: "warm_inj cf (m_warm_sessions s)" and new: "map_of (m_warm_sessions s) sid = None"
    and acq: "acq_wid acq \<noteq> None \<longrightarrow> me_has_pool env"
      "\<And>w i. cf \<Longrightarrow> acq_wid acq = Some w \<Longrightarrow> map_of (m_warm_sessions s) i \<noteq> Some w"
      "ba_reservation acq = None \<longrightarrow> bh_process (ba_handle acq) \<notin> cold_of s"
  shows "wp (suppress (if acq_wid acq \<noteq> None then release_warm_slot env sid
      else safe_shutdown_cold_browser env (ba_handle acq)))
    (\<lambda>_ u. undone cf env s (cold_of s) (m_warm_sessions s) V u) (\<lambda>_ _. False) t"
proof (cases "ba_reservation acq")
  case None
  then have part: "pool_part cf env (in_transit acq (cold_of s)) t"
    and mem: "bh_process (ba_handle acq) \<in> in_transit acq (cold_of s)"
    and C: "in_transit acq (cold_of s) - {bh_process (ba_handle acq)} = cold_of s"
    and W: "m_warm_sessions t = m_warm_sessions s"
    using t acq(3) by (auto simp: undone_def in_transit_def)
  show ?thesis
    using undone_pool [OF t] None
    by (simp add: wp_suppress C W) (rule wp_mono [OF safe_shutdown_cold_wp [OF part mem]], auto simp: C W)
next
  case (Some rv)
  let ?w = "sn_workstation_id (rv_snapshot rv)"
  have W: "m_warm_sessions t = AList.update sid ?w (m_warm_sessions s)"
    and part: "pool_part cf env (cold_of s) t"
    using t Some by (auto simp: undone_def in_transit_def)
  have inj: "warm_inj cf (m_warm_sessions t)"
    using inv acq(2) [of ?w] unfolding W warm_inj_def by (simp add: Some) metis
  have "without env sid (m_warm_sessions t) = m_warm_sessions s"
    using acq(1) new by (simp add: without_def W update_fresh_delete Some)
  then show ?thesis
    using undone_pool [OF t] Some wp_mono [OF release_warm_wp [OF part inj, of sid]]
    by (simp add: wp_suppress)
qed

lemma rollback_session_wp:
  assumes u: "stored cf env s acq vh sid y u" "m_events u = m_events s" and inv: "manager_inv cf env s" and new: "unknown s sid"
  shows "wp (rollback_session env sid y vh e) Q (\<lambda>_ v. kept cf env s (cold_of s) v) u"
proof -
  let ?V = "case vh of None \<Rightarrow> m_vnc_handles s | Some v \<Rightarrow> AList.update sid v (m_vnc_handles s)"
  let ?W = "case acq_wid acq of None \<Rightarrow> m_warm_sessions s | Some w \<Rightarrow> AList.update sid w (m_warm_sessions s)"
  let ?u = "\<lambda>g. u\<lparr>m_sessions := m_sessions s, m_handles := m_handles s, m_active := m_active s, m_active_gauge := g\<rparr>"
  have books: "warm_inj cf (m_warm_sessions s)" "sessions_ok (m_next_id s) (m_sessions s)"
    using inv by (simp_all add: manager_inv_def books_ok_def)
  have undo: "undone cf env s (in_transit acq (cold_of s)) ?W ?V (?u g)" for g
    using u unfolding stored_def undone_def by (elim conjE, intro conjI) simp_all
  have h: "map_of (m_handles u) sid = Some (ba_handle acq)" using u by (simp add: stored_def)
  have warm: "map_of (m_warm_sessions u) sid \<noteq> None \<longleftrightarrow> acq_wid acq \<noteq> None"
    using u new by (auto simp: stored_def unknown_def split: option.splits)
  have gone: "AList.delete sid (m_sessions u) = m_sessions s" "AList.delete sid (m_handles u) = m_handles s"
    using u new by (simp_all add: stored_def unknown_def update_fresh_delete)
  have active: "(if dead y then m_active u else m_active u - 1) = m_active s"
    using u by (simp add: stored_def)
  have rest: "wp (thenm (suppress (if map_of (m_warm_sessions u) sid \<noteq> None then release_warm_slot env sid
        else case map_of (m_handles u) sid of Some h \<Rightarrow> safe_shutdown_cold_browser env h | None \<Rightarrow> ret ()))
      (thenm set_vnc_gauge (thenm recalculate_next_idle_expiry (raise e))))
      Q (\<lambda>_ v. kept cf env s (cold_of s) v) v"
    if v: "undone cf env s (in_transit acq (cold_of s)) ?W (m_vnc_handles s) v" for v
    unfolding wp_thenm warm h option.case
  proof (rule wp_mono [OF rollback_browser_wp [OF v books(1)]], goal_cases)
    case (5 x z)
    then have z: "kept cf env s (cold_of s) z" by (simp add: undone_kept)
    show ?case
      unfolding set_vnc_gauge_def wp_ops
      by (rule recalculate_wp) (use z books(2) in \<open>simp_all add: wp_ops kept_def\<close>)
  qed (use u new in \<open>auto simp: stored_def unknown_def\<close>)
  have "wp (thenm (bindm (gets (\<lambda>s. map_of (m_vnc_handles s) sid)) (\<lambda>stored.
        suppress (if stored \<noteq> None then release_vnc_handle env sid else discard_vnc_handle env sid vh)))
     (thenm (suppress (if map_of (m_warm_sessions u) sid \<noteq> None then release_warm_slot env sid
        else case map_of (m_handles u) sid of Some h \<Rightarrow> safe_shutdown_cold_browser env h | None \<Rightarrow> ret ()))
     (thenm set_vnc_gauge (thenm recalculate_next_idle_expiry (raise e)))))
     Q (\<lambda>_ v. kept cf env s (cold_of s) v) (?u g)" (is "wp ?rest _ ?E _") for g
    unfolding wp_thenm [of "bindm _ _"] wp_bindm wp_ops
    by (rule wp_mono [OF rollback_vnc_wp [OF undo]]) (use new rest in \<open>auto simp: unknown_def\<close>)
  note undone_then = this
  have same: "?u g = u\<lparr>m_sessions := m_sessions s, m_handles := m_handles s, m_active_gauge := g\<rparr>"
    if "dead y" for g
    using active that by simp
  have dead_then: "wp ?rest Q ?E (u\<lparr>m_sessions := m_sessions s, m_handles := m_handles s, m_active_gauge := g\<rparr>)"
    if "dead y" for g
    using undone_then [of g] unfolding same [OF that] .
  show ?thesis
    unfolding rollback_session_def wp_bindm [of "gets _"] wp_thenm [of "modify _"] wp_thenm [of "whenm _ _"]
      wp_thenm [of set_active_gauge] set_active_gauge_def wp_ops wp_whenm
    using active undone_then dead_then by (auto simp: gone)
qed

section \<open>Creating a session\<close>

text \<open>The fields validation passes through.\<close>

lemma validated_core:
  assumes "validate_session x = Inr y" and "s_ws_endpoint x \<noteq> None"
  shows "session_ok y \<and> s_id y = s_id x \<and> s_status y = s_status x \<and> s_last_seen_at y = s_last_seen_at x \<and>
    s_idle_ttl y = s_idle_ttl x \<and> s_ws_endpoint y \<noteq> None"
proof -
  obtain rid browser labels ws wsp wid wfp s1 where
    f: "clean_ws_endpoint (s_ws_endpoint x) = Inr ws"
    and v: "validate_temporal_relationships
       (x\<lparr>s_runner_id := rid, s_browser := Some browser, s_labels := labels, s_ws_endpoint := ws,
         s_ws_public_endpoint := wsp, s_workstation_id := wid, s_workstation_fingerprint_id := wfp\<rparr>) = Inr s1"
      "validate_workstation_consistency s1 = Inr y"
    using assms(1) unfolding validate_session_def
    by (simp only: res_bind_eq_Inr required_ok ensure_simps) blast
  have "ws \<noteq> None" using f assms(2) by (auto simp: clean_ws_endpoint_def optional_def res_bind_def split: sum.splits)
  then show ?thesis
    using validate_session_sound [OF assms(1)] by (simp add: temporal_ok [OF v(1)] consistency_ok [OF v(2)])
qed

text \<open>A stored live session of a fresh id extends the invariant.\<close>

lemma cold_update:
  assumes "map_of H sid = None" "map_of W sid = None"
  shows "cold (AList.update sid h H) W = insert (bh_process h) (cold H W)"
    and "cold (AList.update sid h H) (AList.update sid w W) = cold H W"
proof -
  have other: "i \<noteq> sid" if "map_of H i = Some g" for i g using that assms by auto
  have "p \<in> cold (AList.update sid h H) W" if "p \<in> cold H W" for p
    using that other by (force simp: cold_def)
  moreover have "p \<in> cold (AList.update sid h H) (AList.update sid w W)" if "p \<in> cold H W" for p
    using that other by (force simp: cold_def)
  moreover have "bh_process h \<in> cold (AList.update sid h H) W"
    using assms by (force simp: cold_def)
  moreover have "cold (AList.update sid h H) W \<subseteq> insert (bh_process h) (cold H W)"
    and "cold (AList.update sid h H) (AList.update sid w W) \<subseteq> cold H W"
    by (auto simp: cold_def split: if_splits)
  ultimately show "cold (AList.update sid h H) W = insert (bh_process h) (cold H W)"
    and "cold (AList.update sid h H) (AList.update sid w W) = cold H W"
    by blast+
qed

lemma cold_inj_update:
  assumes "cold_inj H W" "map_of H sid = None" "map_of W sid = None"
  shows "bh_process h \<notin> cold H W \<Longrightarrow> cold_inj (AList.update sid h H) W"
    and "cold_inj (AList.update sid h H) (AList.update sid w W)"
proof -
  have other: "i \<noteq> sid" if "map_of H i = Some g" for i g using that assms by auto
  show "cold_inj (AList.update sid h H) (AList.update sid w W)"
    using assms(1) by (simp add: cold_inj_def)
  assume "bh_process h \<notin> cold H W"
  then have "map_of H i = Some g \<Longrightarrow> map_of W i = None \<Longrightarrow> bh_process g \<noteq> bh_process h" for i g
    unfolding cold_def by blast
  then show "cold_inj (AList.update sid h H) W"
    using assms(1) by (simp add: cold_inj_def) metis
qed

lemma warm_inj_update:
  "warm_inj cf W \<Longrightarrow> (\<And>i. cf \<Longrightarrow> map_of W i \<noteq> Some w) \<Longrightarrow> warm_inj cf (AList.update sid w W)"
  by (simp add: warm_inj_def) metis

lemma stored_inv:
  assumes u: "stored cf env s acq vh sid y u" and inv: "manager_inv cf env s" and new: "unknown s sid"
    and y: "s_id y = sid" "typed y" "\<not> dead y" "s_ws_endpoint y \<noteq> None"
  shows "manager_inv cf env u"
proof -
  note cs = u [unfolded stored_def] new [unfolded unknown_def] inv [unfolded manager_inv_def books_ok_def]
  have W: "map_of (m_handles s) sid = None" "map_of (m_warm_sessions s) sid = None"
    and "cold_inj (m_handles s) (m_warm_sessions s)" using cs by blast+
  note cold_rules = cold_update [OF W] cold_inj_update [OF this(3) W]
  have "live_count (m_sessions u) = Suc (live_count (m_sessions s))"
    using cs y by (simp add: update_not_in map_of_None_keys)
  moreover have "sessions_ok (m_next_id u) (m_sessions s)" "sid < m_next_id u"
    using cs sessions_ok_mono by blast+
  then have "sessions_ok (m_next_id u) (m_sessions u)"
    using cs y by (auto simp: sessions_ok_def)
  moreover have "pool_part cf env (cold (m_handles u) (m_warm_sessions u)) u"
    "cold_inj (m_handles u) (m_warm_sessions u)" "warm_inj cf (m_warm_sessions u)"
    using cs cold_rules warm_inj_update by (auto simp: in_transit_def split: option.splits)
  ultimately show ?thesis
    using cs y unfolding manager_inv_def books_ok_def by (simp split: option.splits)
qed

text \<open>What a successful creation leaves: the session, its browser, its resources, one event.\<close>

definition created ::
  "bool \<Rightarrow> manager_env \<Rightarrow> manager \<Rightarrow> nat \<Rightarrow> session \<Rightarrow> manager \<Rightarrow> bool" where
  "created cf env s sid x t = (manager_inv cf env t \<and> s_id x = sid \<and> \<not> dead x \<and> m_active t = Suc (m_active s) \<and>
     m_sessions t = AList.update sid x (m_sessions s) \<and>
     (\<exists>h. m_handles t = AList.update sid h (m_handles s)) \<and>
     (\<exists>ev. m_events t = m_events s @ [ev] \<and> ev_session ev = x \<and> ev_type ev = EvCREATED))"

lemma created_core:
  assumes "created_session env cp sid now acq details meta = Inr x"
  shows "s_id x = sid" "typed x" "s_ws_endpoint x \<noteq> None" "s_status x = Some (cp_status cp)"
proof -
  note v = validated_core [OF assms [unfolded created_session_def Let_def]]
  then show "s_id x = sid" "s_ws_endpoint x \<noteq> None" "s_status x = Some (cp_status cp)" by simp_all
  show "typed x"
    using v by (auto simp: typed_def session_ok_def elim: is_aware_cases)
qed

lemma finish_create_wp:
  assumes t: "transit cf env s acq vh t" and inv: "manager_inv cf env s" and new: "unknown s sid"
    and sid: "sid < m_next_id s"
  shows "wp (finish_create env cp sid now details vh acq) (\<lambda>x u. created cf env s sid x u)
    (\<lambda>_ u. kept cf env s (cold_of s) u) t"
proof -
  have vnew: "map_of (m_vnc_handles s) sid = None" and snew: "map_of (m_sessions s) sid = None"
    using new by (simp_all add: unknown_def)
  have publish: "wp (thenm (catchm (publish env y EvCREATED None)
       (\<lambda>e. rollback_session env sid y vh e)) (ret y)) (\<lambda>x u. created cf env s sid x u)
      (\<lambda>_ u. kept cf env s (cold_of s) u) u"
    if u: "stored cf env s acq vh sid y u \<and> m_events u = m_events s"
      and y: "s_id y = sid" "typed y" "s_ws_endpoint y \<noteq> None" for y u
  proof (unfold wp_thenm wp_catchm, rule wp_mono [OF publish_wp], goal_cases)
    case (1 _ v)
    then obtain ev where ev: "m_events v = m_events u @ [ev]" "ev_session ev = y" "ev_type ev = EvCREATED"
      "validate_session_event ev = Inr ev" and q: "quiet u v" by (auto simp: published_def)
    then have "\<not> dead y" by (auto simp: validate_session_event_def split: if_splits)
    moreover have st: "stored cf env s acq vh sid y v" using stored_quiet [OF _ q] u by blast
    ultimately show ?case
      using stored_inv [OF st inv new y(1,2) _ y(3)] ev u y by (auto simp: wp_ops created_def stored_def)
  next
    case (2 e v)
    then have "stored cf env s acq vh sid y v" "m_events v = m_events s" using u stored_quiet by auto
    then show ?case by (rule rollback_session_wp [OF _ _ inv new])
  qed
  have store: "wp (thenm (store_session sid y (ba_handle acq) (acq_wid acq) vh)
       (thenm (catchm (publish env y EvCREATED None) (\<lambda>e. rollback_session env sid y vh e)) (ret y)))
      (\<lambda>x u. created cf env s sid x u) (\<lambda>_ u. kept cf env s (cold_of s) u) u"
    if u: "attributed cf env s acq vh u" and y: "s_id y = sid" "typed y" "s_ws_endpoint y \<noteq> None" for y u
  proof -
    have "sid < m_next_id u" using u sid by (simp add: attributed_def transit_def kept_def)
    then show ?thesis
      unfolding wp_thenm [of "store_session _ _ _ _ _"]
      by (rule wp_mono [OF store_session_wp [OF u inv y(1,2) snew]]) (use publish y in blast)+
  qed
  have mark: "wp (bindm (mark_session_busy env sid (acq_wid acq) (ba_handle acq) vh x) (\<lambda>y.
       thenm (store_session sid y (ba_handle acq) (acq_wid acq) vh)
       (thenm (catchm (publish env y EvCREATED None) (\<lambda>e. rollback_session env sid y vh e)) (ret y))))
      (\<lambda>x u. created cf env s sid x u) (\<lambda>_ u. kept cf env s (cold_of s) u) t"
    if "s_id x = sid" "typed x" "s_ws_endpoint x \<noteq> None" for x
    unfolding wp_bindm
    by (rule wp_mono [OF mark_session_busy_wp [OF t vnew]])
      (use that store in \<open>auto simp: core_of_def typed_def\<close>)
  have build: "wp (bindm (catchm (lift_res (created_session env cp sid now acq details m))
        (\<lambda>e. undo_create env sid (acq_wid acq) (ba_handle acq) vh e)) (\<lambda>x.
      bindm (mark_session_busy env sid (acq_wid acq) (ba_handle acq) vh x) (\<lambda>y.
       thenm (store_session sid y (ba_handle acq) (acq_wid acq) vh)
       (thenm (catchm (publish env y EvCREATED None) (\<lambda>e. rollback_session env sid y vh e)) (ret y)))))
      (\<lambda>x u. created cf env s sid x u) (\<lambda>_ u. kept cf env s (cold_of s) u) t" for m
    using undo_create_wp [OF t vnew] mark created_core
    unfolding wp_bindm [of "catchm _ _"] wp_catchm wp_ops by (auto split: sum.split)
  have k: "kept cf env s (cold_of s) t" if "ba_reservation acq = Some rv" for rv
    using t that by (simp add: transit_def in_transit_def)
  show ?thesis
    using build k
    by (cases "ba_reservation acq")
      (simp_all add: finish_create_def Let_def wp_bindm wp_ops split: sum.split)
qed

lemma in_transit_acquired:
  assumes acq: "acquired cf env t (cold_of s) acq u" and t: "kept cf env s (cold_of s) t"
    and spare: "spare (m_vnc t) (m_vnc_handles s) vh"
  shows "transit cf env s acq vh u"
proof (cases "ba_reservation acq")
  case None
  then show ?thesis
    using acq t spare
    by (simp add: acquired_def transit_def in_transit_def pool_changed_def kept_def books_def)
next
  case (Some rv)
  then show ?thesis
    using acq t spare
    by (simp add: acquired_def transit_def in_transit_def pool_changed_def kept_def books_def)
qed

lemma create_session_wp:
  assumes inv: "manager_inv cf env s" and start: "startable cf env s"
  shows "wp (create_session env cp) (\<lambda>x t. created cf env s (m_next_id s) x t)
    (\<lambda>_ t. kept cf env s (cold_of s) t) s"
proof -
  let ?sid = "m_next_id s"
  have new: "unknown s ?sid"
    using inv unfolding unknown_def manager_inv_def books_ok_def sessions_ok_def
    by (metis less_irrefl not_None_eq)
  define b where "b = s\<lparr>m_next_id := Suc ?sid, m_ticks := Suc (m_ticks s)\<rparr>"
  have b: "manager_inv cf env b" "startable cf env b" "unknown b ?sid" "?sid < m_next_id b" "cold_of b = cold_of s"
    using inv start new sessions_ok_mono [of ?sid "m_sessions s" "Suc ?sid"]
    by (simp_all add: b_def manager_inv_def books_ok_def startable_def unknown_def)
  have vnew: "map_of (m_vnc_handles b) ?sid = None" using b(3) by (simp add: unknown_def)
  have back_k: "kept cf env b (cold_of b) t \<Longrightarrow> kept cf env s (cold_of s) t" for t
    by (auto simp: b_def kept_def)
  have back_c: "created cf env b ?sid x t \<Longrightarrow> created cf env s ?sid x t" for x t
    by (simp add: b_def created_def)
  have acquire: "wp (bindm (catchm (acquire_browser_handle env cp (cp_metadata cp) vh)
        (\<lambda>e. thenm (discard_vnc_handle env ?sid vh) (raise e)))
        (\<lambda>acq. finish_create env cp ?sid now d vh acq))
      (\<lambda>x t. created cf env b ?sid x t) (\<lambda>_ t. kept cf env b (cold_of b) t) u"
    if v: "vnc_changed env b (m_vnc_handles b) u" "spare (m_vnc u) (m_vnc_handles u) vh" for now d vh u
  proof -
    have k: "kept cf env b (cold_of b) u" using kept_vnc [OF kept_self [OF b(1)] v(1)] .
    then have part: "pool_part cf env (cold_of b) u" and V: "m_vnc_handles u = m_vnc_handles b"
      by (simp_all add: kept_def)
    have "startable cf env u"
      using b(2) v(1) by (simp add: startable_def vnc_changed_def)
    from acquire_browser_wp [OF part this] show ?thesis
      unfolding wp_bindm wp_catchm
    proof (rule wp_mono, goal_cases)
      case (1 acq t)
      then show ?case
        using finish_create_wp [OF in_transit_acquired b(1,3,4)] k v V by simp
    next
      case (2 e t)
      then have "kept cf env b (cold_of b) t" using kept_pool [OF k] by blast
      moreover have "spare (m_vnc t) (m_vnc_handles b) vh" using 2 v V by (simp add: pool_changed_def)
      ultimately show ?case by (rule discard_kept [OF _ _ vnew])
    qed
  qed
  have "wp (bindm (resolve_vnc env cp (sanitize_vnc_payload (cp_vnc cp))) (\<lambda>(details, vh).
     bindm (catchm (acquire_browser_handle env cp (cp_metadata cp) vh)
       (\<lambda>e. thenm (discard_vnc_handle env ?sid vh) (raise e))) (\<lambda>acq.
     finish_create env cp ?sid now details vh acq)))
     (\<lambda>x t. created cf env s ?sid x t) (\<lambda>_ t. kept cf env s (cold_of s) t) b" for now
    unfolding wp_bindm [of "resolve_vnc _ _ _"]
    by (rule wp_mono [OF resolve_vnc_wp [of env b]])
      (use b(1) wp_mono [OF acquire back_c back_k] back_k kept_vnc [OF kept_self [OF b(1)]] in
        \<open>auto simp: manager_inv_def\<close>)
  then show ?thesis
    by (simp add: create_session_def new_session_id_def read_clock_def wp_bindm wp_thenm wp_ops b_def)
qed

end
