(* ===== verification/Session_Manager_Update.thy ===== *)
theory Session_Manager_Update
  imports Session_Manager_Create
begin

text \<open>
  Updating, ending and reaping sessions: the invariant is kept on every path, and a session that
  becomes \<open>DEAD\<close> gives its browser, its VNC slot and its warm slot back.
\<close>

declare map_of_eq_Some_iff [simp del] Some_eq_map_of_iff [simp del]

section \<open>The invariant between the store and the clean-up\<close>

definition handle_live :: "manager \<Rightarrow> nat \<Rightarrow> bool" where
  "handle_live s i = (map_of (m_handles s) i \<noteq> None \<longrightarrow>
     (\<exists>x. map_of (m_sessions s) i = Some x \<and> \<not> dead x \<and> s_ws_endpoint x \<noteq> None))"

text \<open>Everything of the invariant but the liveness of the browser of one session.\<close>

definition inv_but :: "bool \<Rightarrow> nat \<Rightarrow> manager_env \<Rightarrow> manager \<Rightarrow> bool" where
  "inv_but cf sid env s =
     (sessions_ok (m_next_id s) (m_sessions s) \<and>
      dict_ok (m_handles s) \<and> dict_ok (m_warm_sessions s) \<and> dict_ok (m_vnc_handles s) \<and>
      (\<forall>i. i \<noteq> sid \<longrightarrow> handle_live s i) \<and>
      (\<forall>i w. map_of (m_warm_sessions s) i = Some w \<longrightarrow> map_of (m_sessions s) i \<noteq> None) \<and>
      (\<forall>i h. map_of (m_vnc_handles s) i = Some h \<longrightarrow> map_of (m_sessions s) i \<noteq> None) \<and>
      cold_inj (m_handles s) (m_warm_sessions s) \<and> warm_inj cf (m_warm_sessions s) \<and>
      m_active s = live_count (m_sessions s) \<and> vnc_part env s \<and> pool_part cf env (cold_of s) s)"

lemma manager_inv_iff: "manager_inv cf env s \<longleftrightarrow> inv_but cf sid env s \<and> handle_live s sid"
proof -
  have "(\<forall>i h. map_of (m_handles s) i = Some h \<longrightarrow>
       (\<exists>x. map_of (m_sessions s) i = Some x \<and> \<not> dead x \<and> s_ws_endpoint x \<noteq> None)) \<longleftrightarrow>
     (\<forall>i. handle_live s i)"
    by (simp add: handle_live_def)
  moreover have "(\<forall>i. handle_live s i) \<longleftrightarrow> (\<forall>i. i \<noteq> sid \<longrightarrow> handle_live s i) \<and> handle_live s sid"
    by metis
  ultimately show ?thesis by (simp only: manager_inv_def books_ok_def inv_but_def conj_ac)
qed

text \<open>What an update leaves of the books besides the session: the rest of the state is equal.\<close>

definition same_sessions :: "manager \<Rightarrow> manager \<Rightarrow> bool" where
  "same_sessions s t = (m_sessions t = m_sessions s \<and> m_active t = m_active s \<and>
     m_next_id t = m_next_id s \<and> m_next_expiry t = m_next_expiry s)"

lemma same_sessions_trans: "same_sessions s t \<Longrightarrow> same_sessions t u \<Longrightarrow> same_sessions s u"
  by (simp add: same_sessions_def)

lemma same_sessions_refl: "same_sessions s s"
  by (simp add: same_sessions_def)

lemma cold_delete:
  "map_of W sid = None \<Longrightarrow> cold_inj H W \<Longrightarrow> map_of H sid = Some h \<Longrightarrow>
    cold (AList.delete sid H) W = cold H W - {bh_process h}"
  unfolding cold_def cold_inj_def by (auto split: if_splits) (metis option.inject)+

lemma cold_delete_warm: "map_of W sid \<noteq> None \<Longrightarrow> cold (AList.delete sid H) W = cold H W"
  unfolding cold_def by (auto split: if_splits) (metis option.distinct(1))

lemma cold_forget: "map_of H sid = None \<Longrightarrow> cold H (AList.delete sid W) = cold H W"
  unfolding cold_def by (auto split: if_splits) (metis option.distinct(1))

lemma cold_inj_delete: "cold_inj H W \<Longrightarrow> cold_inj (AList.delete sid H) W"
  unfolding cold_inj_def by (simp split: if_splits)

lemma cold_inj_forget: "cold_inj H W \<Longrightarrow> map_of H sid = None \<Longrightarrow> cold_inj H (AList.delete sid W)"
  unfolding cold_inj_def by (simp split: if_splits)

lemma warm_inj_delete: "warm_inj cf W \<Longrightarrow> warm_inj cf (AList.delete sid W)"
  unfolding warm_inj_def by (auto split: if_splits)

section \<open>The steps of an update\<close>

lemma shutdown_browser_wp:
  assumes inv: "inv_but cf sid env s"
  shows "wp (shutdown_browser env sid force)
    (\<lambda>_ t. manager_inv cf env t \<and> same_sessions s t \<and> m_events t = m_events s \<and>
       m_warm_sessions t = m_warm_sessions s \<and> m_handles t = AList.delete sid (m_handles s))
    (\<lambda>_ t. manager_inv cf env t \<and> same_sessions s t \<and> m_events t = m_events s \<and>
       m_warm_sessions t = m_warm_sessions s \<and> m_handles t = AList.delete sid (m_handles s)) s"
    (is "wp _ (\<lambda>_. ?Q) (\<lambda>_. ?Q) s")
proof -
  let ?H = "AList.delete sid (m_handles s)"
  let ?s = "s\<lparr>m_handles := ?H\<rparr>"
  have fin: "?Q t" if t: "pool_changed cf env ?s (cold ?H (m_warm_sessions s)) (m_warm_sessions s) t" for t
  proof -
    have eqs: "m_handles t = ?H" "m_warm_sessions t = m_warm_sessions s" "m_sessions t = m_sessions s"
      "m_active t = m_active s" "m_next_id t = m_next_id s" "m_next_expiry t = m_next_expiry s"
      "m_events t = m_events s" "m_vnc t = m_vnc s" "m_vnc_handles t = m_vnc_handles s"
      "pool_ok cf (me_pool_env env) (cold ?H (m_warm_sessions s)) (m_warm_sessions s) (m_pool t)"
      using t by (simp_all add: pool_changed_def books_def)
    have "inv_but cf sid env t"
      using inv eqs cold_inj_delete by (auto simp: inv_but_def handle_live_def)
    then show ?thesis
      using eqs by (simp add: manager_inv_iff [of cf env t sid] handle_live_def same_sessions_def)
  qed
  have part: "pool_part cf env (cold_of s) s" and inj: "cold_inj (m_handles s) (m_warm_sessions s)"
    using inv by (simp_all add: inv_but_def)
  show ?thesis
  proof (cases "map_of (m_handles s) sid")
    case None
    then have "?Q ?s" using part by (intro fin) (simp add: pool_changed_def delete_absent books_def)
    with None show ?thesis by (simp add: shutdown_browser_def wp_bindm wp_thenm wp_ops)
  next
    case (Some h)
    show ?thesis
    proof (cases "map_of (m_warm_sessions s) sid")
      case None
      have mem: "bh_process h \<in> cold_of s" using Some None by (auto simp: cold_def)
      have "wp (on_pool (procs_op (shutdown (pe_os (me_pool_env env)) force h))) (\<lambda>_. ?Q) (\<lambda>_. ?Q) ?s"
      proof (rule wp_mono [OF shutdown_cold_wp [of cf env "cold_of s" ?s h force]], goal_cases)
        case (3 r t)
        then show ?case by (intro fin) (simp add: cold_delete [OF None inj Some])
      next
        case (4 e t)
        then show ?case by (intro fin) (simp add: cold_delete [OF None inj Some])
      qed (use part mem in simp_all)
      with Some None show ?thesis by (simp add: shutdown_browser_def wp_bindm wp_thenm wp_ops)
    next
      case warm: (Some w)
      then have "?Q ?s" using part by (intro fin) (simp add: pool_changed_def cold_delete_warm books_def)
      with Some warm show ?thesis by (simp add: shutdown_browser_def wp_bindm wp_thenm wp_ops)
    qed
  qed
qed

lemma release_vnc_inv:
  assumes inv: "manager_inv cf env s"
  shows "wp (release_vnc_handle env sid)
    (\<lambda>_ t. manager_inv cf env t \<and> same_sessions s t \<and> m_events t = m_events s \<and> m_handles t = m_handles s \<and>
       m_warm_sessions t = m_warm_sessions s \<and> m_vnc_handles t = AList.delete sid (m_vnc_handles s))
    (\<lambda>_ t. manager_inv cf env t \<and> same_sessions s t \<and> m_events t = m_events s \<and> m_handles t = m_handles s \<and>
       m_warm_sessions t = m_warm_sessions s \<and> m_vnc_handles t = AList.delete sid (m_vnc_handles s)) s"
proof -
  have part: "vnc_part env s" using inv by (simp add: manager_inv_def)
  show ?thesis
    by (rule wp_mono [OF release_vnc_wp [OF part]])
      (use inv in \<open>auto simp: manager_inv_def books_ok_def vnc_changed_def books_def same_sessions_def
        split: if_splits\<close>)
qed

lemma release_warm_inv:
  assumes inv: "manager_inv cf env s" and no_handle: "map_of (m_handles s) sid = None"
  shows "wp (release_warm_slot env sid)
    (\<lambda>_ t. manager_inv cf env t \<and> same_sessions s t \<and> m_events t = m_events s \<and> m_handles t = m_handles s \<and>
       m_vnc_handles t = m_vnc_handles s \<and> m_warm_sessions t = without env sid (m_warm_sessions s))
    (\<lambda>_ t. manager_inv cf env t \<and> same_sessions s t \<and> m_events t = m_events s \<and> m_handles t = m_handles s \<and>
       m_vnc_handles t = m_vnc_handles s \<and> m_warm_sessions t = without env sid (m_warm_sessions s)) s"
    (is "wp _ (\<lambda>_. ?Q) (\<lambda>_. ?Q) s")
proof -
  have part: "pool_part cf env (cold_of s) s" and inj: "warm_inj cf (m_warm_sessions s)"
    using inv by (simp_all add: manager_inv_def books_ok_def)
  have "?Q t" if "pool_changed cf env s (cold_of s) (without env sid (m_warm_sessions s)) t" for t
    using that inv no_handle cold_forget cold_inj_forget warm_inj_delete
    by (auto simp: manager_inv_def books_ok_def pool_changed_def books_def same_sessions_def without_def
        split: if_splits)
  then show ?thesis by (intro wp_mono [OF release_warm_wp [OF part inj]])
qed

text \<open>Storing the new session: the counters follow, the browser may now be due for closing.\<close>

definition restored :: "bool \<Rightarrow> manager_env \<Rightarrow> manager \<Rightarrow> nat \<Rightarrow> session \<Rightarrow> manager \<Rightarrow> bool" where
  "restored cf env s sid y u = (inv_but cf sid env u \<and> m_sessions u = AList.update sid y (m_sessions s) \<and>
     m_handles u = m_handles s \<and> m_vnc_handles u = m_vnc_handles s \<and>
     m_warm_sessions u = m_warm_sessions s \<and> m_events u = m_events s)"

lemma update_store_wp:
  assumes inv: "manager_inv cf env s" and ex: "map_of (m_sessions s) sid = Some x"
    and y: "s_id y = sid" "typed y"
    and Q: "\<And>u. restored cf env s sid y u \<Longrightarrow> wp k Q E u"
  shows "wp (thenm (modify (\<lambda>s. s\<lparr>m_sessions := AList.update sid y (m_sessions s)\<rparr>))
     (thenm (recalculate_active_sessions (s_status x) (s_status y)) (thenm recalculate_next_idle_expiry k))) Q E s"
proof -
  let ?S = "AList.update sid y (m_sessions s)"
  have but: "inv_but cf sid env s" and ok: "sessions_ok (m_next_id s) (m_sessions s)"
    and count: "m_active s = live_count (m_sessions s)" and d: "dict_ok (m_sessions s)"
    using inv by (simp_all add: manager_inv_iff [of _ _ _ sid] inv_but_def sessions_ok_def)
  have ok': "sessions_ok (m_next_id s) ?S"
    using ok y ex by (auto simp: sessions_ok_def)
  have adj: "(if s_status x \<noteq> Some DEAD \<and> dead y then live_count (m_sessions s) - 1
      else if dead x \<and> \<not> dead y then live_count (m_sessions s) + 1 else live_count (m_sessions s)) = live_count ?S"
    using live_count_update [OF ex d, of y] by (auto split: if_splits)
  have base: "restored cf env s sid y (s\<lparr>m_sessions := ?S, m_active := live_count ?S,
      m_active_gauge := g, m_next_expiry := m\<rparr>)" for g m
    using but ok' ex unfolding restored_def inv_but_def by (auto simp: handle_live_def)
  have "wp (thenm recalculate_next_idle_expiry k) Q E
      (s\<lparr>m_sessions := ?S, m_active := live_count ?S, m_active_gauge := g\<rparr>)" for g
    unfolding wp_thenm by (rule recalculate_wp) (use ok' Q base in simp_all)
  note rest = this
  have same: "s\<lparr>m_sessions := ?S, m_active_gauge := g\<rparr> =
      s\<lparr>m_sessions := ?S, m_active := live_count ?S, m_active_gauge := g\<rparr>"
    if "live_count ?S = live_count (m_sessions s)" for g
    using that count by simp
  have "wp (thenm recalculate_next_idle_expiry k) Q E (s\<lparr>m_sessions := ?S, m_active_gauge := g\<rparr>)"
    if "live_count ?S = live_count (m_sessions s)" for g
    by (subst same [OF that]) (rule rest)
  then show ?thesis
    using rest adj
    by (auto simp: wp_thenm [of "modify _"] wp_thenm [of "recalculate_active_sessions _ _"] wp_thenm [of "thenm _ _"]
        recalculate_active_sessions_def wp_ops set_active_gauge_def count split: if_splits)
qed

text \<open>What an update promises: the session is stored; one that died holds nothing any more.\<close>

definition updated ::
  "bool \<Rightarrow> manager_env \<Rightarrow> manager \<Rightarrow> nat \<Rightarrow> session \<Rightarrow> session \<Rightarrow> manager \<Rightarrow> bool" where
  "updated cf env s sid x y t = (manager_inv cf env t \<and> m_sessions t = AList.update sid y (m_sessions s) \<and>
     (dead y \<longrightarrow> map_of (m_handles t) sid = None \<and> map_of (m_vnc_handles t) sid = None) \<and>
     (dead y \<and> \<not> dead x \<and> me_has_pool env \<longrightarrow> map_of (m_warm_sessions t) sid = None))"

definition announced :: "manager \<Rightarrow> session \<Rightarrow> string option \<Rightarrow> manager \<Rightarrow> bool" where
  "announced s y reason t = (\<exists>ev. m_events t = m_events s @ [ev] \<and> ev_session ev = y \<and>
     ev_type ev = (if dead y then EvENDED else EvUPDATED) \<and> ev_reason ev = reason)"

lemma quiet_inv: "quiet s t \<Longrightarrow> manager_inv cf env s \<Longrightarrow> manager_inv cf env t"
  by (simp add: quiet_def manager_inv_def books_ok_def)

lemma cleanup_live:
  assumes "inv_but cf sid env u" and "handle_live s sid" and "map_of (m_sessions s) sid = Some x"
    and "m_handles u = m_handles s" "map_of (m_sessions u) sid = Some y" "s_id x = s_id y"
    and "\<not> should_cleanup_browser x y"
  shows "manager_inv cf env u"
  using assms by (auto simp: manager_inv_iff [of _ _ _ sid] handle_live_def should_cleanup_browser_def
      split: if_splits)

lemma publish_update_wp:
  assumes t: "updated cf env s sid x y t" "m_events t = m_events s"
  shows "wp (thenm (publish env y (if dead y then EvENDED else EvUPDATED) reason) (ret y))
    (\<lambda>z v. z = y \<and> updated cf env s sid x y v \<and> announced s y reason v)
    (\<lambda>_ v. updated cf env s sid x y v \<and> m_events v = m_events s) t"
proof -
  have "updated cf env s sid x y v" if "quiet t v" for v
    using t quiet_inv [OF that] that by (simp add: updated_def quiet_def)
  then show ?thesis
    unfolding wp_thenm wp_ops
    by (intro wp_mono [OF publish_wp]) (use t in \<open>auto simp: published_def announced_def\<close>)
qed

text \<open>The clean-up after the store: browser, VNC slot, warm slot, event.\<close>

definition update_cleanup ::
  "manager_env \<Rightarrow> nat \<Rightarrow> session \<Rightarrow> session \<Rightarrow> bool \<Rightarrow> string option \<Rightarrow> session manager_op" where
  "update_cleanup env sid x y warm reason =
     thenm (whenm (should_cleanup_browser x y) (shutdown_browser env sid (dead y)))
     (bindm (gets (\<lambda>s. should_cleanup_vnc s x y)) (\<lambda>vnc.
     thenm (whenm vnc (release_vnc_handle env sid))
     (thenm (whenm (\<not> dead x \<and> dead y \<and> warm) (release_warm_slot env sid))
     (thenm (publish env y (if dead y then EvENDED else EvUPDATED) reason) (ret y)))))"

lemma update_cleanup_wp:
  assumes u: "restored cf env s sid y u" and live: "handle_live s sid" and x: "map_of (m_sessions s) sid = Some x"
    and ids: "s_id x = sid" "s_id y = sid" and warm: "warm \<longleftrightarrow> map_of (m_warm_sessions s) sid \<noteq> None"
  shows "wp (update_cleanup env sid x y warm reason)
    (\<lambda>z v. z = y \<and> updated cf env s sid x y v \<and> announced s y reason v)
    (\<lambda>_ v. manager_inv cf env v \<and> m_sessions v = AList.update sid y (m_sessions s) \<and> m_events v = m_events s) u"
proof -
  let ?E = "\<lambda>_ v. manager_inv cf env v \<and> m_sessions v = AList.update sid y (m_sessions s) \<and> m_events v = m_events s"
  let ?Q = "\<lambda>z v. z = y \<and> updated cf env s sid x y v \<and> announced s y reason v"
  have pub: "wp (thenm (publish env y (if dead y then EvENDED else EvUPDATED) reason) (ret y)) ?Q ?E v"
    if "updated cf env s sid x y v" "m_events v = m_events s" for v
    by (rule wp_mono [OF publish_update_wp [OF that]]) (auto simp: updated_def)
  have slot: "wp (thenm (whenm (\<not> dead x \<and> dead y \<and> warm) (release_warm_slot env sid))
       (thenm (publish env y (if dead y then EvENDED else EvUPDATED) reason) (ret y))) ?Q ?E v"
    if v: "manager_inv cf env v" "m_sessions v = AList.update sid y (m_sessions s)" "m_events v = m_events s"
      "m_warm_sessions v = m_warm_sessions s" "dead y \<longrightarrow> map_of (m_vnc_handles v) sid = None" for v
  proof -
    have none: "dead y \<Longrightarrow> map_of (m_handles v) sid = None"
      using v(1,2) by (auto simp: manager_inv_iff [of _ _ _ sid] handle_live_def)
    show ?thesis
    proof (cases "\<not> dead x \<and> dead y \<and> warm")
      case True
      show ?thesis
        unfolding wp_thenm [of "whenm _ _"] wp_whenm if_P [OF True]
      proof (rule wp_mono [OF release_warm_inv [OF v(1)]], goal_cases)
        case 1 then show ?case using True none by blast
      next
        case (2 r t)
        then have "updated cf env s sid x y t" "m_events t = m_events s"
          using v none True by (simp_all add: updated_def same_sessions_def without_def)
        then show ?case by (rule pub)
      next
        case (3 e t) then show ?case using v by (simp add: same_sessions_def)
      qed
    next
      case False
      have "updated cf env s sid x y v" using v none warm False by (auto simp: updated_def)
      from pub [OF this v(3)] show ?thesis
        unfolding wp_thenm [of "whenm _ _"] wp_whenm if_not_P [OF False] .
    qed
  qed
  have vnc: "wp (bindm (gets (\<lambda>s. should_cleanup_vnc s x y)) (\<lambda>vnc.
     thenm (whenm vnc (release_vnc_handle env sid))
     (thenm (whenm (\<not> dead x \<and> dead y \<and> warm) (release_warm_slot env sid))
     (thenm (publish env y (if dead y then EvENDED else EvUPDATED) reason) (ret y))))) ?Q ?E v"
    if v: "manager_inv cf env v" "m_sessions v = AList.update sid y (m_sessions s)" "m_events v = m_events s"
      "m_warm_sessions v = m_warm_sessions s" for v
  proof (cases "should_cleanup_vnc v x y")
    case True
    show ?thesis
      unfolding wp_bindm wp_ops wp_thenm [of "whenm (should_cleanup_vnc v x y) (release_vnc_handle env sid)"]
        wp_whenm [of "should_cleanup_vnc v x y"] if_P [OF True]
    proof (rule wp_mono [OF release_vnc_inv [OF v(1)]], goal_cases)
      case (1 r t)
      then show ?case using v by (intro slot) (simp_all add: same_sessions_def)
    next
      case (2 e t)
      then show ?case using v by (simp add: same_sessions_def)
    qed
  next
    case False
    then have "dead y \<longrightarrow> map_of (m_vnc_handles v) sid = None"
      using ids by (auto simp: should_cleanup_vnc_def split: if_splits)
    from slot [OF v this] show ?thesis
      unfolding wp_bindm wp_ops wp_thenm [of "whenm (should_cleanup_vnc v x y) (release_vnc_handle env sid)"]
        wp_whenm [of "should_cleanup_vnc v x y"] if_not_P [OF False] .
  qed
  show ?thesis
  proof (cases "should_cleanup_browser x y")
    case True
    have but: "inv_but cf sid env u" using u by (simp add: restored_def)
    show ?thesis
      unfolding update_cleanup_def wp_thenm [of "whenm _ _"] wp_whenm if_P [OF True]
    proof (rule wp_mono [OF shutdown_browser_wp [OF but]], goal_cases)
      case (1 r t)
      then show ?case using u by (intro vnc) (simp_all add: restored_def same_sessions_def)
    next
      case (2 e t)
      then show ?case using u by (simp add: restored_def same_sessions_def)
    qed
  next
    case False
    have "manager_inv cf env u"
      by (rule cleanup_live [OF _ live x _ _ _ False]) (use u ids in \<open>auto simp: restored_def\<close>)
    then show ?thesis
      unfolding update_cleanup_def wp_thenm [of "whenm _ _"] wp_whenm if_not_P [OF False]
      by (rule vnc) (use u in \<open>simp_all add: restored_def\<close>)
  qed
qed

section \<open>Updating and ending\<close>

text \<open>Updates whose times the reaper can read: no explicit null, no naive time.\<close>

definition typed_update :: "update_payload \<Rightarrow> bool" where
  "typed_update up = ((\<forall>v. up_last_seen_at up = Some v \<longrightarrow> (\<exists>t. v = Some (Aware t))) \<and>
     up_idle_ttl up \<noteq> Some None)"

definition aware_clock :: "manager_env \<Rightarrow> bool" where
  "aware_clock env = (\<forall>n. is_aware (me_clock env n))"

lemma updated_session_typed:
  assumes "typed x" and "typed_update up" and "up_last_seen_at up = None \<Longrightarrow> \<exists>t. seen = Some (Aware t)"
  shows "s_id (updated_session x up b seen ended) = s_id x" and "typed (updated_session x up b seen ended)"
proof -
  show "s_id (updated_session x up b seen ended) = s_id x" by (simp add: updated_session_def Let_def)
  have "\<exists>t. s_last_seen_at (updated_session x up b seen ended) = Some (Aware t)"
    using assms by (auto simp: updated_session_def Let_def typed_update_def set_or_def split: option.split)
  moreover have "\<exists>ttl. s_idle_ttl (updated_session x up b seen ended) = Some ttl"
    using assms by (auto simp: updated_session_def Let_def typed_def typed_update_def set_or_def split: option.split)
  ultimately show "typed (updated_session x up b seen ended)" unfolding typed_def by blast
qed

lemma ticks_inv [simp]: "manager_inv cf env (s\<lparr>m_ticks := n\<rparr>) = manager_inv cf env s"
  by (simp add: manager_inv_def books_ok_def)

lemma wp_clock_if: "wp (clock_if env b) Q E s =
    Q (if b then Some (me_clock env (m_ticks s)) else None) (s\<lparr>m_ticks := m_ticks s + of_bool b\<rparr>)"
  by (cases b) (simp_all add: clock_if_def read_clock_def wp_bindm wp_thenm wp_ops)

text \<open>
  The session an update stores: the clock is read for the last-seen time when the payload leaves it
  open, and then for the end of a session that dies without one.
\<close>

definition closing :: "update_payload \<Rightarrow> bool" where
  "closing up = (up_status up = Some (Some DEAD) \<and> (up_ended_at up = None \<or> up_ended_at up = Some None))"

definition update_result :: "manager_env \<Rightarrow> manager \<Rightarrow> nat \<Rightarrow> update_payload \<Rightarrow> session \<Rightarrow> session" where
  "update_result env s sid up x = updated_session x up
     (map_of (m_warm_sessions s) sid \<noteq> None \<and> \<not> dead x \<and> up_status up = Some (Some DEAD))
     (if up_last_seen_at up = None then Some (me_clock env (m_ticks s)) else None)
     (if closing up then Some (me_clock env (m_ticks s + of_bool (up_last_seen_at up = None))) else None)"

lemma update_result_typed:
  assumes "typed x" and "typed_update up" and "aware_clock env"
  shows "s_id (update_result env s sid up x) = s_id x" and "typed (update_result env s sid up x)"
proof -
  have "\<exists>t. me_clock env n = Aware t" for n
    using assms(3) by (metis aware_clock_def is_aware_cases)
  then show "s_id (update_result env s sid up x) = s_id x" and "typed (update_result env s sid up x)"
    unfolding update_result_def by (intro updated_session_typed assms(1,2); simp)+
qed

lemma update_session_wp:
  assumes inv: "manager_inv cf env s" and up: "typed_update up" and clock: "aware_clock env"
  shows "wp (update_session env sid up)
    (\<lambda>y t. \<exists>x. map_of (m_sessions s) sid = Some x \<and> updated cf env s sid x y t \<and>
       announced s y (set_or (up_reason up) None) t \<and> y = update_result env s sid up x)
    (\<lambda>e t. manager_inv cf env t \<and> m_events t = m_events s \<and>
       (case map_of (m_sessions s) sid of None \<Rightarrow> e = SessionNotFoundError \<and> t = s
        | Some x \<Rightarrow> m_sessions t = AList.update sid (update_result env s sid up x) (m_sessions s))) s"
proof (cases "map_of (m_sessions s) sid")
  case None
  with inv show ?thesis by (simp add: update_session_def wp_bindm wp_ops)
next
  case (Some x)
  then have x: "s_id x = sid" "typed x"
    using inv by (auto simp: manager_inv_def books_ok_def sessions_ok_def)
  let ?warm = "map_of (m_warm_sessions s) sid \<noteq> None"
  let ?y = "update_result env s sid up x"
  note y = update_result_typed [OF x(2) up clock, of s sid]
  have body: "wp (update_effects env sid x ?y ?warm reason)
      (\<lambda>z t. z = ?y \<and> updated cf env s sid x z t \<and> announced s z reason t)
      (\<lambda>_ t. manager_inv cf env t \<and> m_events t = m_events s \<and> m_sessions t = AList.update sid ?y (m_sessions s))
      (s\<lparr>m_ticks := n\<rparr>)" for n reason
    unfolding update_effects_def
  proof (rule update_store_wp [where x = x and env = env and cf = cf], goal_cases)
    case (5 u)
    have "handle_live (s\<lparr>m_ticks := n\<rparr>) sid" using inv by (simp add: manager_inv_iff [of _ _ _ sid] handle_live_def)
    from update_cleanup_wp [OF 5 this _ x(1) _, of ?warm reason] show ?case
      unfolding update_cleanup_def
      by (rule wp_mono) (use Some x y in \<open>auto simp: updated_def announced_def\<close>)
  qed (use inv Some x y in simp_all)
  have "wp (update_session env sid up) Q E s = wp (update_effects env sid x ?y ?warm (set_or (up_reason up) None)) Q E
      (s\<lparr>m_ticks := m_ticks s + of_bool (up_last_seen_at up = None) + of_bool (closing up)\<rparr>)" for Q E
    unfolding update_session_def wp_bindm wp_ops Some option.case wp_clock_if closing_def [symmetric] update_result_def
    by simp
  then show ?thesis
    by (simp only:) (rule wp_mono [OF body], use Some in auto)
qed

section \<open>Deadlines\<close>

definition deadline :: "session \<Rightarrow> int" where
  "deadline x = (case (s_last_seen_at x, s_idle_ttl x) of
     (Some seen, Some ttl) \<Rightarrow> instant seen + ttl * 1000000 | _ \<Rightarrow> 0)"

definition due :: "int \<Rightarrow> session \<Rightarrow> bool" where
  "due now x = (\<not> dead x \<and> deadline x \<le> now)"

lemma idle_expiry_typed: "typed x \<Longrightarrow> idle_expiry x = Inr (Aware (deadline x))"
  by (auto simp: typed_def idle_expiry_def deadline_def)

lemma next_idle_expiry_fold:
  "\<forall>x \<in> set xs. typed x \<Longrightarrow>
    next_idle_expiry (Some (Aware n)) xs = Inr (Some (Aware (fold min (map deadline (filter (\<lambda>x. \<not> dead x) xs)) n)))"
  by (induction xs arbitrary: n) (auto simp: idle_expiry_typed min_def)

definition earliest :: "session list \<Rightarrow> datetime option" where
  "earliest xs = (let ys = filter (\<lambda>x. \<not> dead x) xs in
     if ys = [] then None else Some (Aware (Min (deadline ` set ys))))"

lemma next_idle_expiry_min:
  "\<forall>x \<in> set xs. typed x \<Longrightarrow> next_idle_expiry None xs = Inr (earliest xs)"
proof (induction xs)
  case (Cons x xs)
  show ?case
  proof (cases "dead x")
    case False
    have "fold min (map deadline (filter (\<lambda>x. \<not> dead x) xs)) (deadline x) =
        Min (set (deadline x # map deadline (filter (\<lambda>x. \<not> dead x) xs)))"
      by (simp only: Min.set_eq_fold)
    with False Cons.prems show ?thesis
      by (simp add: idle_expiry_typed next_idle_expiry_fold earliest_def Let_def)
  qed (use Cons in \<open>simp add: earliest_def Let_def\<close>)
qed (simp add: earliest_def)

lemma scan_expired_split:
  assumes "\<forall>x \<in> set xs. typed x" and "pred_option is_aware nxt"
  shows "scan_expired (Aware now) ex nxt xs =
    res_bind (next_idle_expiry nxt (filter (\<lambda>x. \<not> due now x) xs)) (\<lambda>m.
      Inr (ex @ map s_id (filter (due now) xs), m))"
  using assms
proof (induction xs arbitrary: ex nxt)
  case (Cons x xs)
  show ?case
  proof (cases "dead x")
    case True
    then have "\<not> due now x" by (simp add: due_def)
    with True Cons show ?thesis by simp
  next
    case live: False
    have x: "idle_expiry x = Inr (Aware (deadline x))" using Cons.prems by (simp add: idle_expiry_typed)
    show ?thesis
    proof (cases "due now x")
      case True
      then have "deadline x \<le> now" by (simp add: due_def)
      with True live x Cons show ?thesis by simp
    next
      case False
      then have "\<not> deadline x \<le> now" using live by (simp add: due_def)
      with False live x Cons show ?thesis
        by (cases nxt) (auto elim: is_aware_cases)
    qed
  qed
qed simp

section \<open>Reaping\<close>

text \<open>The end of a session is the one it is given, or the second reading of the clock.\<close>

definition end_time :: "manager_env \<Rightarrow> manager \<Rightarrow> datetime option \<Rightarrow> datetime" where
  "end_time env s ended = (case ended of Some at \<Rightarrow> at | None \<Rightarrow> me_clock env (Suc (m_ticks s)))"

lemma ended_session:
  "s_status (update_result env s sid (end_payload reason ended) x) = Some DEAD"
  "s_ended_at (update_result env s sid (end_payload reason ended) x) = Some (end_time env s ended)"
  "set_or (up_reason (end_payload reason ended)) None = reason"
  by (simp_all add: update_result_def updated_session_def end_payload_def set_or_def Let_def no_update_def
      closing_def end_time_def split: option.split)

lemma end_session_wp:
  assumes inv: "manager_inv cf env s" and clock: "aware_clock env"
  shows "wp (end_session env sid reason ended)
    (\<lambda>y t. \<exists>x. map_of (m_sessions s) sid = Some x \<and> updated cf env s sid x y t \<and> announced s y reason t \<and>
       dead y \<and> s_ended_at y = Some (end_time env s ended))
    (\<lambda>e t. manager_inv cf env t \<and>
       (if map_of (m_sessions s) sid = None then e = SessionNotFoundError \<and> t = s
        else \<exists>y. m_sessions t = AList.update sid y (m_sessions s) \<and> dead y \<and>
          s_ended_at y = Some (end_time env s ended))) s"
proof -
  have "typed_update (end_payload reason ended)"
    by (simp add: typed_update_def end_payload_def no_update_def)
  note up = update_session_wp [OF inv this clock, of sid]
  show ?thesis
    unfolding end_session_def
  proof (rule wp_mono [OF up], goal_cases)
    case (1 y t)
    then show ?case using ended_session by auto
  next
    case (2 e t)
    then show ?case using ended_session by (auto split: option.splits)
  qed
qed

text \<open>The sessions of the list are dead with the given end; the others are as they were.\<close>

definition reaped :: "datetime \<Rightarrow> nat list \<Rightarrow> manager \<Rightarrow> manager \<Rightarrow> bool" where
  "reaped now sids s t =
     ((\<forall>i. i \<notin> set sids \<longrightarrow> map_of (m_sessions t) i = map_of (m_sessions s) i) \<and>
      (\<forall>i \<in> set sids. \<exists>y. map_of (m_sessions t) i = Some y \<and> dead y \<and> s_ended_at y = Some now))"

lemma end_expired_wp:
  assumes "manager_inv cf env s" and clock: "aware_clock env"
    and "distinct sids" and "\<forall>i \<in> set sids. map_of (m_sessions s) i \<noteq> None"
  shows "wp (end_expired env now sids n)
    (\<lambda>m t. manager_inv cf env t \<and> reaped now sids s t \<and> m \<le> n + length sids) (\<lambda>_ t. manager_inv cf env t) s"
  using assms(1,3,4)
proof (induction sids arbitrary: s n)
  case Nil
  then show ?case by (simp add: wp_ops reaped_def)
next
  case (Cons sid sids)
  note e = end_session_wp [OF Cons.prems(1) clock, of sid "Some ''idle-timeout''" "Some now", unfolded end_time_def option.case]
  have rest: "wp (end_expired env now sids k)
      (\<lambda>m u. manager_inv cf env u \<and> reaped now (sid # sids) s u \<and> m \<le> n + length (sid # sids)) (\<lambda>_ u. manager_inv cf env u) t"
    if t: "manager_inv cf env t" "m_sessions t = AList.update sid y (m_sessions s)" "dead y" "s_ended_at y = Some now"
      and k: "k \<le> Suc n" for y t k
    by (rule wp_mono [OF Cons.IH [OF t(1)]])
      (use Cons.prems t k in \<open>auto simp: reaped_def split: if_splits\<close>)
  show ?case
    unfolding end_expired.simps wp_bindm wp_attempt
  proof (rule wp_mono [OF e], goal_cases)
    case (1 y t)
    then show ?case using rest [of t y "Suc n"] by (auto simp: updated_def)
  next
    case (2 e t)
    then show ?case using Cons.prems(3) rest [of t _ n] by (auto simp: wp_ops)
  qed
qed

abbreviation expired_ids :: "int \<Rightarrow> manager \<Rightarrow> nat list" where
  "expired_ids now s \<equiv> map s_id (filter (due now) (session_list s))"

lemma session_ids: "sessions_ok n (m_sessions s) \<Longrightarrow> map s_id (session_list s) = map fst (m_sessions s)"
  unfolding session_list_def sessions_ok_def by (auto simp: dict_member_lookup [symmetric])

lemma expired_ids_ok:
  assumes "sessions_ok n (m_sessions s)"
  shows "distinct (expired_ids now s)" "\<forall>i \<in> set (expired_ids now s). map_of (m_sessions s) i \<noteq> None"
proof -
  have "distinct (map s_id (session_list s))"
    using session_ids [OF assms] assms by (simp add: sessions_ok_def)
  then show "distinct (expired_ids now s)" by (rule distinct_map_filter)
  have "set (expired_ids now s) \<subseteq> set (map s_id (session_list s))" by auto
  then show "\<forall>i \<in> set (expired_ids now s). map_of (m_sessions s) i \<noteq> None"
    unfolding session_ids [OF assms] by (auto simp: map_of_eq_None_iff)
qed

lemma reap_wp:
  assumes inv: "manager_inv cf env s" and clock: "aware_clock env" and now: "me_clock env (m_ticks s) = Aware now"
  shows "wp (reap_expired_sessions env)
    (\<lambda>m t. manager_inv cf env t \<and> reaped (Aware now) (expired_ids now s) s t \<and> m \<le> length (expired_ids now s))
    (\<lambda>_ t. manager_inv cf env t) s"
proof -
  have ok: "sessions_ok (m_next_id s) (m_sessions s)" using inv by (simp add: manager_inv_def books_ok_def)
  then have typed: "\<forall>x \<in> set (session_list s). typed x"
    using sessions_ok_typed by (auto simp: session_list_def)
  have list: "session_list (s\<lparr>m_ticks := n\<rparr>) = session_list s" for n by (simp add: session_list_def)
  have scan: "scan_expired (Aware now) [] None (session_list s) =
      Inr (expired_ids now s, earliest (filter (\<lambda>x. \<not> due now x) (session_list s)))"
    using scan_expired_split [of "session_list s" None now "[]"] typed
      next_idle_expiry_min [of "filter (\<lambda>x. \<not> due now x) (session_list s)"] by simp
  let ?s = "s\<lparr>m_ticks := k, m_next_expiry := m, m_reaper_runs := r, m_reaper_last := l\<rparr>"
  have inv': "manager_inv cf env (s\<lparr>m_ticks := k, m_next_expiry := m, m_reaper_runs := r, m_reaper_last := l\<rparr>)" for k m r l
    using inv by (simp add: manager_inv_def books_ok_def)
  have "wp (bindm (end_expired env (Aware now) (expired_ids now s) 0) (\<lambda>ended.
      thenm (modify (\<lambda>s. s\<lparr>m_reaper_expired := m_reaper_expired s + ended\<rparr>)) (ret ended)))
     (\<lambda>m t. manager_inv cf env t \<and> reaped (Aware now) (expired_ids now s) s t \<and> m \<le> length (expired_ids now s))
     (\<lambda>_ t. manager_inv cf env t)
     (s\<lparr>m_ticks := k, m_next_expiry := m, m_reaper_runs := r, m_reaper_last := l\<rparr>)" for k m r l
    unfolding wp_bindm
    by (rule wp_mono [OF end_expired_wp [OF inv' clock expired_ids_ok(1) [OF ok]]])
      (use expired_ids_ok(2) [OF ok] in
        \<open>auto simp: wp_thenm wp_ops manager_inv_def books_ok_def reaped_def\<close>)
  then show ?thesis
    by (simp add: reap_expired_sessions_def read_clock_def wp_bindm [of "gets _"] wp_bindm [of "thenm _ _"]
        wp_bindm [of "bindm _ _"] wp_bindm [of "lift_res _"] wp_thenm [of "modify _"] wp_ops now list scan)
qed

end
