(* ===== verification/Session_Manager_Steps.thy ===== *)
theory Session_Manager_Steps
  imports Session_Manager_Update
begin

text \<open>
  Starting and stopping the session manager, and the step relation of all its operations with the
  invariant it keeps.
\<close>

declare map_of_eq_Some_iff [simp del] Some_eq_map_of_iff [simp del]

section \<open>Stopping\<close>

lemma shutdown_cold_sessions_wp:
  "manager_inv cf env s \<Longrightarrow>
    wp (for_each sids (\<lambda>sid. shutdown_browser env sid True))
      (\<lambda>_ t. manager_inv cf env t \<and> m_warm_sessions t = m_warm_sessions s \<and>
         (\<forall>i. map_of (m_handles s) i = None \<longrightarrow> map_of (m_handles t) i = None) \<and>
         (\<forall>i \<in> set sids. map_of (m_handles t) i = None))
      (\<lambda>_ t. manager_inv cf env t) s"
proof (induction sids arbitrary: s)
  case Nil
  then show ?case by (simp add: wp_ops)
next
  case (Cons sid sids)
  have "inv_but cf sid env s" using Cons.prems by (simp add: manager_inv_iff [of _ _ _ sid])
  note one = shutdown_browser_wp [OF this, of True]
  show ?case
    unfolding for_each.simps wp_thenm
  proof (rule wp_mono [OF one], goal_cases)
    case (1 r t)
    then have t: "manager_inv cf env t" by blast
    show ?case
      by (rule wp_mono [OF Cons.IH [OF t]]) (use 1 in \<open>auto split: if_splits\<close>)
  qed blast
qed

lemma forget_handles:
  assumes inv: "manager_inv cf env t" and warm: "\<And>i. map_of (m_handles t) i \<noteq> None \<Longrightarrow> map_of (m_warm_sessions t) i \<noteq> None"
  shows "manager_inv cf env (t\<lparr>m_handles := []\<rparr>)"
proof -
  have "cold (m_handles t) (m_warm_sessions t) = {}" "cold [] (m_warm_sessions t) = {}"
    using warm unfolding cold_def by fastforce+
  with inv show ?thesis
    by (simp add: manager_inv_def books_ok_def cold_inj_def)
qed

lemma drain_pool_wp:
  assumes inv: "manager_inv cf env t" and none: "m_handles t = []"
  shows "wp (thenm (on_pool (drain (me_pool_env env))) (modify (\<lambda>s. s\<lparr>m_warm_sessions := []\<rparr>)))
    (\<lambda>_ u. manager_inv cf env u \<and> m_handles u = [] \<and> all_draining (m_pool u)) (\<lambda>_ u. manager_inv cf env u) t"
proof -
  have no_cold: "cold [] W = {}" for W by (simp add: cold_def)
  have pool: "pool_inv (me_pool_env env) {} (m_pool t)"
    and track: "\<And>i w. map_of (m_warm_sessions t) i = Some w \<Longrightarrow> look (m_pool t) w \<noteq> None"
    using inv none by (auto simp: manager_inv_def pool_ok_def no_cold)
  have drained: "pool_ok cf (me_pool_env env) {} (m_warm_sessions t) p"
    if "pool_inv (me_pool_env env) {} p" "all_draining p" "\<forall>w. look p w = None \<longleftrightarrow> look (m_pool t) w = None" for p
    using that track unfolding pool_ok_def all_draining_def by (metis insertCI not_None_eq)
  have after: "manager_inv cf env (t\<lparr>m_pool := p\<rparr>)"
    if "pool_ok cf (me_pool_env env) {} (m_warm_sessions t) p" for p
    using inv none that by (simp add: manager_inv_def books_ok_def no_cold)
  have finish: "manager_inv cf env (t\<lparr>m_pool := p, m_warm_sessions := []\<rparr>)"
    if "pool_ok cf (me_pool_env env) {} (m_warm_sessions t) p" for p
    using inv none that
    by (simp add: manager_inv_def books_ok_def no_cold cold_inj_def warm_inj_def pool_ok_def)
  show ?thesis
    unfolding wp_thenm wp_on_pool
    by (rule wp_mono [OF drain_wp [OF pool]]) (use none drained after finish in \<open>simp_all add: wp_ops\<close>)
qed

text \<open>Closing the VNC handles one by one: those not yet closed keep their slots apart.\<close>

lemma close_all_wp:
  "vnc_ok env v d \<Longrightarrow> dict_ok d \<Longrightarrow>
    wp (for_each d (\<lambda>(_, h). suppress (release_handle env (Some h)))) (\<lambda>_ v'. vnc_ok env v' []) (\<lambda>_ _. False) v"
proof (induction d arbitrary: v)
  case Nil
  then show ?case by (simp add: wp_ops)
next
  case (Cons a d)
  obtain i h where a: "a = (i, h)" by force
  have fresh: "map_of d i = None" using Cons.prems(2) by (simp add: a map_of_eq_None_iff)
  have d: "vnc_ok env v d"
    using vnc_ok_delete [OF Cons.prems(1), of i] fresh by (simp add: a delete_absent)
  have other: "vh_slot h' \<noteq> vh_slot h" if "map_of d j = Some h'" for j h'
  proof
    assume "vh_slot h' = vh_slot h"
    moreover have "i \<noteq> j" using that fresh by auto
    ultimately show False
      using Cons.prems(1) that unfolding vnc_ok_def a by (metis map_of_Cons_code(2))
  qed
  show ?case
    unfolding for_each.simps a prod.case wp_thenm wp_suppress
    by (rule wp_mono [OF close_keeps_ok [OF d other]]) (use Cons in \<open>auto\<close>)
qed

lemma vnc_forget: "vnc_ok env v d \<Longrightarrow> vnc_ok env v []"
  by (simp add: vnc_ok_def)

lemma shutdown_all_vnc_wp:
  assumes inv: "manager_inv cf env t"
  shows "wp (shutdown_all_vnc env) (\<lambda>_ u. manager_inv cf env u \<and> m_handles u = m_handles t \<and> m_vnc_handles u = [] \<and>
      m_pool u = m_pool t)
    (\<lambda>_ _. False) t"
proof -
  have v: "vnc_ok (me_vnc_env env) (m_vnc t) (m_vnc_handles t)" "dict_ok (m_vnc_handles t)"
    using inv by (simp_all add: manager_inv_def books_ok_def)
  have fin: "manager_inv cf env (t\<lparr>m_vnc_handles := [], m_vnc := v, m_vnc_gauge := g\<rparr>)"
    if "vnc_ok (me_vnc_env env) v []" for v g
    using inv that by (simp add: manager_inv_def books_ok_def)
  have zoom: "wp (for_each d (\<lambda>(_, h). suppress (on_vnc (release_handle (me_vnc_env env) (Some h))))) Q E u \<longleftrightarrow>
      wp (for_each d (\<lambda>(_, h). suppress (release_handle (me_vnc_env env) (Some h))))
        (\<lambda>x v. Q x (u\<lparr>m_vnc := v\<rparr>)) (\<lambda>e v. E e (u\<lparr>m_vnc := v\<rparr>)) (m_vnc u)"
    for d :: "(nat, vnc_handle) dict" and Q E and u :: manager
    by (induction d arbitrary: u) (auto simp: wp_ops wp_thenm wp_suppress wp_on_vnc)
  show ?thesis
  proof (cases "me_has_vnc env")
    case False
    have "manager_inv cf env (t\<lparr>m_vnc_handles := [], m_vnc_gauge := 0\<rparr>)"
      using inv vnc_forget [OF v(1)] by (simp add: manager_inv_def books_ok_def)
    with False show ?thesis by (simp add: shutdown_all_vnc_def wp_ops)
  next
    case True
    have "wp (for_each (m_vnc_handles t) (\<lambda>(_, h). suppress (on_vnc (release_handle (me_vnc_env env) (Some h)))))
        (\<lambda>_. wp (modify (\<lambda>s. s\<lparr>m_vnc_gauge := 0\<rparr>))
           (\<lambda>_ u. manager_inv cf env u \<and> m_handles u = m_handles t \<and> m_vnc_handles u = [] \<and>
      m_pool u = m_pool t) (\<lambda>_ _. False))
        (\<lambda>_ _. False) (t\<lparr>m_vnc_handles := []\<rparr>)"
      unfolding zoom
      by (simp, rule wp_mono [OF close_all_wp [OF v]]) (use fin in \<open>simp_all add: wp_ops\<close>)
    with True show ?thesis
      by (simp add: shutdown_all_vnc_def wp_bindm wp_thenm [of "modify _"] wp_thenm [of "for_each _ _"] wp_ops)
  qed
qed

lemma stop_manager_wp:
  assumes inv: "manager_inv cf env s"
  shows "wp (stop_manager env) (\<lambda>_ t. manager_inv cf env t \<and> m_handles t = [] \<and> m_vnc_handles t = [] \<and>
       (me_has_pool env \<longrightarrow> all_draining (m_pool t)))
    (\<lambda>_ t. manager_inv cf env t) s"
proof -
  let ?cold = "filter (\<lambda>sid. map_of (m_warm_sessions s) sid = None) (map fst (m_handles s))"
  let ?s = "s\<lparr>m_reaper_on := False, m_warm_started := False\<rparr>"
  have inv': "manager_inv cf env ?s" using inv by (simp add: manager_inv_def books_ok_def)
  have vnc: "wp (shutdown_all_vnc env) (\<lambda>_ t. manager_inv cf env t \<and> m_handles t = [] \<and> m_vnc_handles t = [] \<and>
       (me_has_pool env \<longrightarrow> all_draining (m_pool t)))
      (\<lambda>_ t. manager_inv cf env t) t" if "manager_inv cf env t" "m_handles t = []" "me_has_pool env \<longrightarrow> all_draining (m_pool t)" for t
    by (rule wp_mono [OF shutdown_all_vnc_wp [OF that(1)]]) (use that in auto)
  have pool: "wp (thenm (whenm (me_has_pool env)
        (thenm (on_pool (drain (me_pool_env env))) (modify (\<lambda>s. s\<lparr>m_warm_sessions := []\<rparr>)))) (shutdown_all_vnc env))
      (\<lambda>_ t. manager_inv cf env t \<and> m_handles t = [] \<and> m_vnc_handles t = [] \<and>
       (me_has_pool env \<longrightarrow> all_draining (m_pool t))) (\<lambda>_ t. manager_inv cf env t) t"
    if t: "manager_inv cf env t" "m_handles t = []" for t
  proof (cases "me_has_pool env")
    case True
    show ?thesis
      unfolding wp_thenm [of "whenm _ _"] wp_whenm if_P [OF True]
      by (rule wp_mono [OF drain_pool_wp [OF t]]) (use vnc in blast)+
  next
    case False
    show ?thesis
      unfolding wp_thenm [of "whenm _ _"] wp_whenm if_not_P [OF False] using False by (intro vnc [OF t]) simp
  qed
  have forget: "manager_inv cf env (t\<lparr>m_handles := []\<rparr>)"
    if t: "manager_inv cf env t" "m_warm_sessions t = m_warm_sessions ?s"
      "\<forall>i. map_of (m_handles ?s) i = None \<longrightarrow> map_of (m_handles t) i = None"
      "\<forall>i \<in> set ?cold. map_of (m_handles t) i = None" for t
  proof (rule forget_handles [OF t(1)])
    fix i assume h: "map_of (m_handles t) i \<noteq> None"
    then have "map_of (m_handles s) i \<noteq> None" "i \<notin> set ?cold" using t(3,4) by auto
    then show "map_of (m_warm_sessions t) i \<noteq> None"
      using t(2) by (auto simp: map_of_eq_None_iff)
  qed
  show ?thesis
    unfolding stop_manager_def wp_bindm [of "gets _"] wp_thenm [of "modify _"] wp_thenm [of "for_each _ _"] wp_ops
    by (rule wp_mono [OF shutdown_cold_sessions_wp [OF inv']]) (use forget pool in simp_all)
qed

lemma start_manager_wp:
  assumes inv: "manager_inv cf env s" and start: "startable cf env s"
  shows "wp (start_manager env) (\<lambda>_ t. manager_inv cf env t \<and> m_reaper_on t) (\<lambda>_ t. manager_inv cf env t) s"
proof -
  have on: "wp (bindm (gets m_reaper_on) (\<lambda>running. if running then ret () else modify (\<lambda>s. s\<lparr>m_reaper_on := True\<rparr>)))
      (\<lambda>_ t. manager_inv cf env t \<and> m_reaper_on t) (\<lambda>_ t. manager_inv cf env t) t"
    if "manager_inv cf env t" for t
    using that by (simp add: wp_bindm wp_ops wp_if manager_inv_def books_ok_def)
  have part: "pool_part cf env (cold_of s) s" using inv by (simp add: manager_inv_def)
  have moved: "manager_inv cf env t" if "pool_changed cf env s (cold_of s) (m_warm_sessions s) t" for t
    using kept_inv [OF inv kept_pool [OF kept_self [OF inv] that]] .
  show ?thesis
  proof (cases "me_has_pool env")
    case True
    show ?thesis
      unfolding start_manager_def wp_thenm [of "whenm _ _"] wp_whenm if_P [OF True]
      by (rule wp_mono [OF start_warm_pool_wp [OF part start True]]) (use moved on in blast)+
  next
    case False
    show ?thesis
      unfolding start_manager_def wp_thenm [of "whenm _ _"] wp_whenm if_not_P [OF False] by (rule on [OF inv])
  qed
qed

section \<open>The step relation\<close>

definition manager_init :: "manager_env \<Rightarrow> manager \<Rightarrow> bool" where
  "manager_init env s = (aware_clock env \<and> (\<exists>pool vnc. s = init_manager pool vnc \<and>
     pool_inv (me_pool_env env) {} pool \<and> (\<not> me_has_pool env \<longrightarrow> wp_slots pool = []) \<and>
     vnc_ok (me_vnc_env env) vnc []))"

text \<open>
  The calls on the runner's one session manager and on the warm pool it shares with the routes for
  operators, and one call as an operation whose result is dropped.
\<close>

datatype manager_call =
    ManagerStart
  | ManagerStop
  | ManagerCreate create_payload
  | ManagerUpdate nat update_payload
  | ManagerEnd nat "string option" "datetime option"
  | ManagerTouch nat
  | ManagerReap
  | ManagerRecordFailure string
  | ManagerResetFailures
  | ManagerWorkstation pool_call

fun run_manager :: "manager_env \<Rightarrow> manager_call \<Rightarrow> unit manager_op" where
  "run_manager env ManagerStart = start_manager env"
| "run_manager env ManagerStop = stop_manager env"
| "run_manager env (ManagerCreate cp) = thenm (create_session env cp) (ret ())"
| "run_manager env (ManagerUpdate sid up) = thenm (update_session env sid up) (ret ())"
| "run_manager env (ManagerEnd sid reason ended) = thenm (end_session env sid reason ended) (ret ())"
| "run_manager env (ManagerTouch sid) = thenm (touch_session env sid) (ret ())"
| "run_manager env ManagerReap = thenm (reap_expired_sessions env) (ret ())"
| "run_manager env (ManagerRecordFailure msg) = record_prewarm_failure env msg"
| "run_manager env ManagerResetFailures = reset_prewarm_failures"
| "run_manager env (ManagerWorkstation c) = whenm (me_has_pool env) (on_pool (run_pool (me_pool_env env) c))"

text \<open>
  When a call may come: starting and creating need a pool that runs or can be started (\<open>startable\<close>);
  an update has times the reaper can read (\<open>typed_update\<close>); an operator neither starts nor drains the
  whole pool, for which there is no route, and, when careful, recycles no workstation that a session
  holds. The other calls may come at any time.
\<close>

definition operator_may :: "bool \<Rightarrow> manager \<Rightarrow> pool_call \<Rightarrow> bool" where
  "operator_may cf s c = (c \<noteq> PoolStart \<and> c \<noteq> PoolDrain \<and>
     (cf \<longrightarrow> (\<forall>w A i. recycled_from c = Some (w, A) \<longrightarrow> map_of (m_warm_sessions s) i \<noteq> Some w)))"

fun orderly :: "bool \<Rightarrow> manager_env \<Rightarrow> manager \<Rightarrow> manager_call \<Rightarrow> bool" where
  "orderly cf env s ManagerStart = startable cf env s"
| "orderly cf env s (ManagerCreate cp) = startable cf env s"
| "orderly cf env s (ManagerUpdate sid up) = typed_update up"
| "orderly cf env s (ManagerWorkstation c) = operator_may cf s c"
| "orderly cf env s c = True"

inductive manager_step :: "bool \<Rightarrow> manager_env \<Rightarrow> manager \<Rightarrow> manager \<Rightarrow> bool" for cf env where
  manager_called: "orderly cf env s c \<Longrightarrow> run_manager env c s = (r, t) \<Longrightarrow> manager_step cf env s t"

inductive_cases manager_stepE: "manager_step cf env s t"

lemma touch_session_wp:
  assumes inv: "manager_inv cf env s" and clock: "aware_clock env"
  shows "wp (touch_session env sid) (\<lambda>_ t. manager_inv cf env t) (\<lambda>_ t. manager_inv cf env t) s"
proof -
  obtain now where now: "me_clock env (m_ticks s) = Aware now"
    using clock by (metis aware_clock_def is_aware_cases)
  have typed: "typed_update (no_update\<lparr>up_last_seen_at := Some (Some (Aware now))\<rparr>)"
    by (simp add: typed_update_def no_update_def)
  have "wp (update_session env sid (no_update\<lparr>up_last_seen_at := Some (Some (Aware now))\<rparr>))
      (\<lambda>_ t. manager_inv cf env t) (\<lambda>_ t. manager_inv cf env t) (s\<lparr>m_ticks := n\<rparr>)" for n
    by (rule wp_mono [OF update_session_wp [OF _ typed clock]]) (use inv in \<open>auto simp: updated_def\<close>)
  then show ?thesis
    by (simp add: touch_session_def read_clock_def wp_bindm wp_thenm wp_ops now)
qed

section \<open>A manager without a pool\<close>

text \<open>Without a configured pool no call touches the slots: there are none.\<close>

abbreviation no_slots :: "manager \<Rightarrow> bool" where
  "no_slots s \<equiv> wp_slots (m_pool s) = []"

lemma keeps_slots [keep_rules]:
  "(\<And>s. m_pool (f s) = m_pool s) \<Longrightarrow> keeps no_slots (modify f)"
  "keeps no_slots (on_vnc v)" "keeps no_slots (on_pool (procs_op m))"
  by (rule keepsI, simp add: on_vnc_def on_pool_def procs_op_def zoom_def modify_def split: prod.split)+

lemma keeps_exn_manager [keep_rules]:
  "(\<And>m. keeps I (f m)) \<Longrightarrow> keeps I k \<Longrightarrow> keeps I (case e of SessionCapacityError m \<Rightarrow> f m | _ \<Rightarrow> k)"
  by (cases e; simp)

lemmas slot_ops = read_clock_def new_session_id_def set_vnc_gauge_def set_active_gauge_def resolve_vnc_def
  release_vnc_handle_def discard_vnc_handle_def launch_cold_browser_def safe_shutdown_cold_browser_def
  acquire_cold_def recalculate_next_idle_expiry_def recalculate_active_sessions_def publish_def
  shutdown_browser_def clock_if_def store_session_def push_failure_def Let_def

lemma keeps_slots_parts [keep_rules]:
  "keeps no_slots (read_clock env)" "keeps no_slots new_session_id" "keeps no_slots set_vnc_gauge"
  "keeps no_slots set_active_gauge" "keeps no_slots (resolve_vnc env cp d)"
  "keeps no_slots (release_vnc_handle env sid)" "keeps no_slots (safe_shutdown_cold_browser env h)"
  "keeps no_slots (acquire_cold env cp md vh fl reason)" "keeps no_slots recalculate_next_idle_expiry"
  "keeps no_slots (recalculate_active_sessions a b)" "keeps no_slots (publish env x ty r)"
  "keeps no_slots (shutdown_browser env sid force)" "keeps no_slots (clock_if env c)"
  "keeps no_slots (store_session sid x h wid vh)" "keeps no_slots (push_failure env msg)"
  unfolding slot_ops by (intro keep_rules; simp)+

lemma keeps_slots_discard [keep_rules]: "keeps no_slots (discard_vnc_handle env sid vh)"
  unfolding discard_vnc_handle_def by (intro keep_rules)

lemma pool_ops_without:
  assumes "\<not> me_has_pool env"
  shows "reserve_warm_slot env md = raise (SessionCapacityError ''warm pool is not configured'')"
    and "mark_warm_slot_busy env wid = raise (SessionCapacityError ''warm pool is not configured'')"
    and "cancel_warm_reservation env wid = ret ()" and "release_warm_slot env sid = ret ()"
  using assms by (simp_all add: reserve_warm_slot_def mark_warm_slot_busy_def cancel_warm_reservation_def
      release_warm_slot_def whenm_def)

lemma keeps_slots_create:
  assumes "\<not> me_has_pool env"
  shows "keeps no_slots (create_session env cp)"
  unfolding create_session_def acquire_browser_handle_def acquire_warm_def finish_create_def undo_create_def
    undo_browser_def mark_session_busy_def rollback_session_def pool_ops_without [OF assms] Let_def
  by (intro keep_rules; simp)

lemma keeps_slots_update [keep_rules]:
  assumes "\<not> me_has_pool env"
  shows "keeps no_slots (update_session env sid up)"
  unfolding update_session_def update_effects_def pool_ops_without [OF assms] by (intro keep_rules; simp)

lemma keeps_slots_reap:
  assumes "\<not> me_has_pool env"
  shows "keeps no_slots (end_expired env now sids n)"
proof (induction sids arbitrary: n)
  case (Cons sid sids)
  then show ?case unfolding end_expired.simps end_session_def by (intro keep_rules assms)
qed (simp add: keep_rules)

lemma keeps_slots_vnc_all [keep_rules]: "keeps no_slots (shutdown_all_vnc env)"
  unfolding shutdown_all_vnc_def by (intro keep_rules; simp)

lemma keeps_slots_run:
  assumes "\<not> me_has_pool env"
  shows "keeps no_slots (run_manager env c)"
proof -
  have off: "whenm (me_has_pool env) m = ret ()" for m :: "unit manager_op" using assms by (simp add: whenm_def)
  show ?thesis
    by (cases c; simp only: run_manager.simps off start_manager_def stop_manager_def end_session_def
        touch_session_def reap_expired_sessions_def record_prewarm_failure_def reset_prewarm_failures_def;
      intro keep_rules keeps_slots_create keeps_slots_reap assms; simp)
qed

text \<open>An operator's call moves no workstation a session holds out of use, if the operator is careful.\<close>

lemma pool_ok_moves:
  assumes ok: "pool_ok cf env C W p" and inv: "pool_inv env C q" and moves: "moves_by c p q"
    and c: "c \<noteq> PoolStart" "c \<noteq> PoolDrain"
    and free: "\<And>w A i. cf \<Longrightarrow> recycled_from c = Some (w, A) \<Longrightarrow> map_of W i \<noteq> Some w"
  shows "pool_ok cf env C W q"
proof -
  have "\<exists>sl. look q w = Some sl \<and> (cf \<longrightarrow> ws_state sl \<in> {WarmBUSY, WarmDRAINING})"
    if W: "map_of W i = Some w" for i w
  proof -
    obtain a where a: "look p w = Some a" "cf \<longrightarrow> ws_state a \<in> {WarmBUSY, WarmDRAINING}"
      using ok W unfolding pool_ok_def by blast
    obtain b where b: "look q w = Some b" "ws_state b \<in> slot_moves c w (ws_state a)"
      using moves a(1) unfolding moves_by_def by blast
    have "slot_moves c w (ws_state a) = {ws_state a}" if cf
      using a(2) that c free [OF that] W by (cases c) auto
    with a b show ?thesis by auto
  qed
  with inv show ?thesis by (simp add: pool_ok_def)
qed

lemma workstation_wp:
  assumes inv: "manager_inv cf env s" and may: "operator_may cf s c"
  shows "wp (run_manager env (ManagerWorkstation c)) (\<lambda>_ t. manager_inv cf env t) (\<lambda>_ t. manager_inv cf env t) s"
proof -
  have part: "pool_part cf env (cold_of s) s" using inv by (simp add: manager_inv_def)
  have pool: "pool_inv (me_pool_env env) (cold_of s) (m_pool s)" using part by (simp add: pool_ok_def)
  have guard: "pool_guard (me_pool_env env) c (m_pool s)" using may by (simp add: operator_may_def pool_guard_def)
  have moved: "manager_inv cf env (s\<lparr>m_pool := q\<rparr>)"
    if "pool_inv (me_pool_env env) (cold_of s) q" "moves_by c (m_pool s) q" for q
  proof -
    have "pool_ok cf (me_pool_env env) (cold_of s) (m_warm_sessions s) q"
      by (rule pool_ok_moves [OF part that]) (use may in \<open>auto simp: operator_may_def\<close>)
    with inv show ?thesis by (simp add: manager_inv_def books_ok_def)
  qed
  show ?thesis
    unfolding run_manager.simps wp_whenm wp_on_pool
    using wp_mono [OF pool_call_wp [OF pool guard]] moved inv by (auto intro!: wp_mono [OF pool_call_wp [OF pool guard]])
qed

lemma wp_both: "wp m (\<lambda>_. I) (\<lambda>_. I) s \<Longrightarrow> m s = (r, t) \<Longrightarrow> I t"
  by (auto simp: wp_def split: sum.splits)

lemma run_manager_wp:
  assumes inv: "manager_inv cf env s" and clock: "aware_clock env" and ok: "orderly cf env s c"
  shows "wp (run_manager env c) (\<lambda>_ t. manager_inv cf env t) (\<lambda>_ t. manager_inv cf env t) s"
proof (cases c)
  case ManagerStart
  with ok show ?thesis by (simp, intro wp_mono [OF start_manager_wp [OF inv]]) auto
next
  case ManagerStop
  then show ?thesis by (simp, intro wp_mono [OF stop_manager_wp [OF inv]]) auto
next
  case (ManagerCreate cp)
  with ok show ?thesis
    by (simp add: wp_then_ret, intro wp_mono [OF create_session_wp [OF inv]])
      (use kept_inv [OF inv] in \<open>auto simp: created_def\<close>)
next
  case (ManagerUpdate sid up)
  with ok show ?thesis
    by (simp add: wp_then_ret, intro wp_mono [OF update_session_wp [OF inv _ clock]]) (auto simp: updated_def)
next
  case (ManagerEnd sid reason ended)
  then show ?thesis
    by (simp add: wp_then_ret, intro wp_mono [OF end_session_wp [OF inv clock]]) (auto simp: updated_def)
next
  case (ManagerTouch sid)
  then show ?thesis by (simp add: wp_then_ret touch_session_wp [OF inv clock])
next
  case ManagerReap
  obtain now where now: "me_clock env (m_ticks s) = Aware now"
    using clock by (metis aware_clock_def is_aware_cases)
  with ManagerReap show ?thesis by (simp add: wp_then_ret, intro wp_mono [OF reap_wp [OF inv clock now]]) auto
next
  case (ManagerRecordFailure msg)
  then show ?thesis
    using inv by (simp add: record_prewarm_failure_def push_failure_def wp_ops Let_def manager_inv_def books_ok_def)
next
  case ManagerResetFailures
  then show ?thesis
    using inv by (simp add: reset_prewarm_failures_def wp_ops manager_inv_def books_ok_def)
next
  case (ManagerWorkstation pc)
  with workstation_wp [OF inv] ok show ?thesis by simp
qed

lemma manager_step_inv:
  assumes "manager_step cf env s t" and "manager_inv cf env s" and "aware_clock env"
  shows "manager_inv cf env t"
  using assms(1) by (elim manager_stepE) (rule wp_both [OF run_manager_wp [OF assms(2,3)]])

lemma manager_step_no_slots: "manager_step cf env s t \<Longrightarrow> \<not> me_has_pool env \<Longrightarrow> no_slots s \<Longrightarrow> no_slots t"
  by (elim manager_stepE) (rule keeps_run [OF keeps_slots_run])

lemma manager_init_inv: "manager_init env s \<Longrightarrow> manager_inv cf env s"
  by (auto simp: manager_init_def init_manager_def manager_inv_def books_ok_def sessions_ok_def cold_def
      cold_inj_def warm_inj_def pool_ok_def)

interpretation manager: transition_invariant "manager_init env" "manager_step cf env"
  "\<lambda>s. manager_inv cf env s \<and> aware_clock env \<and> (\<not> me_has_pool env \<longrightarrow> no_slots s)" for cf env
proof unfold_locales
  fix s assume "manager_init env s"
  then show "manager_inv cf env s \<and> aware_clock env \<and> (\<not> me_has_pool env \<longrightarrow> no_slots s)"
    using manager_init_inv by (auto simp: manager_init_def init_manager_def)
qed (use manager_step_inv manager_step_no_slots in blast)

end
