(* ===== verification/Session_Manager_Props.thy ===== *)
theory Session_Manager_Props
  imports Session_Manager_Steps Warm_Pool_Props Vnc_Props
begin

text \<open>
  What the session manager guarantees in every state it reaches: consistent books, creation that
  succeeds or leaves nothing behind, ended sessions that hold nothing, a reaper that ends the
  expired sessions and no other, a stop after which no browser runs.
\<close>

declare map_of_eq_Some_iff [simp del] Some_eq_map_of_iff [simp del]

lemma manager_reachable_inv:
  "reachable (manager_init env) (manager_step cf env) s \<Longrightarrow>
    manager_inv cf env s \<and> aware_clock env \<and> (\<not> me_has_pool env \<longrightarrow> no_slots s)"
  by (rule manager.reachable_inv)

abbreviation browsers :: "manager \<Rightarrow> nat set" where
  "browsers s \<equiv> live (m_pool s)"

section \<open>The books\<close>


text \<open>
  C1: No browser is leaked: in every state the manager reaches, whatever failed on the way, the running
  browser processes are those of the warm slots and those launched for a stored session, plus at most
  processes that could not be killed or whose launch broke off with an exception the launcher does
  not handle (\<open>left_behind\<close>). Each session's own browser is running. Operators may use the routes of the
  pool at any time. The states are those of runs of whole calls (none cancelled half-way) in which no
  update sets the idle limit or the last-seen time to null or the latter to a naive time, and in which the
  pool is started only while no slot holds a browser or a directory (\<open>orderly\<close>).
\<close>

theorem no_browser_leaks:
  assumes "reachable (manager_init env) (manager_step False env) s"
  shows "owned (look (m_pool s)) \<union> cold_of s \<subseteq> browsers s \<and>
    browsers s \<subseteq> owned (look (m_pool s)) \<union> cold_of s \<union> left_behind (me_pool_env env)"
  using manager_reachable_inv [OF assms] by (auto simp: manager_inv_def pool_ok_def pool_inv_def)

section \<open>Creating\<close>


text \<open>
  Creating a session that succeeds stores exactly the session it returns, under an id never
  used before, with a browser handle; the session is not DEAD, the active counter grows by
  one, and a single CREATED event carrying that session is published.
\<close>

theorem create_session_stores:
  assumes "reachable (manager_init env) (manager_step False env) s" and "startable False env s"
    and "create_session env cp s = (Inr x, t)"
  shows "map_of (m_sessions s) (s_id x) = None \<and> m_sessions t = m_sessions s @ [(s_id x, x)] \<and> \<not> dead x \<and>
    map_of (m_handles t) (s_id x) \<noteq> None \<and> m_active t = Suc (m_active s) \<and>
    (\<exists>ev. m_events t = m_events s @ [ev] \<and> ev_session ev = x \<and> ev_type ev = EvCREATED)"
proof -
  have inv: "manager_inv False env s" using manager_reachable_inv [OF assms(1)] by blast
  have c: "created False env s (m_next_id s) x t"
    using wp_run [OF create_session_wp [OF inv assms(2)] assms(3)] by simp
  have "map_of (m_sessions s) (m_next_id s) = None"
    using inv unfolding manager_inv_def books_ok_def sessions_ok_def by (metis less_irrefl not_None_eq)
  with c show ?thesis by (auto simp: created_def update_not_in map_of_None_keys)
qed

section \<open>Ending\<close>

text \<open>
  C4: A session that is ended, at a given time or, as the DELETE route does, at the reading of the
  clock, is stored DEAD with that end; its browser handle and its VNC handle are gone, and so is
  its workstation when it was live and a pool is configured; no browser runs that is not a warm
  slot's, another session's or left behind; exactly one ENDED event with the given reason is
  published, and the other sessions are untouched. The state before is one the manager reaches with
  \<open>orderly\<close> calls, and the call returns.
\<close>

theorem end_session_releases:
  assumes "reachable (manager_init env) (manager_step False env) s"
    and "end_session env sid reason ended s = (Inr y, t)"
  shows "m_sessions t = AList.update sid y (m_sessions s) \<and> dead y \<and>
    s_ended_at y = Some (case ended of Some at \<Rightarrow> at | None \<Rightarrow> me_clock env (Suc (m_ticks s))) \<and>
    map_of (m_handles t) sid = None \<and> map_of (m_vnc_handles t) sid = None \<and>
    (map_of (m_sessions s) sid \<noteq> None \<and> \<not> dead (the (map_of (m_sessions s) sid)) \<and> me_has_pool env \<longrightarrow>
      map_of (m_warm_sessions t) sid = None) \<and>
    browsers t \<subseteq> owned (look (m_pool t)) \<union> cold_of t \<union> left_behind (me_pool_env env) \<and>
    (\<exists>ev. m_events t = m_events s @ [ev] \<and> ev_session ev = y \<and> ev_type ev = EvENDED \<and> ev_reason ev = reason)"
proof -
  have inv: "manager_inv False env s" "aware_clock env" using manager_reachable_inv [OF assms(1)] by blast+
  obtain x where x: "map_of (m_sessions s) sid = Some x" "updated False env s sid x y t" "announced s y reason t"
      "dead y" "s_ended_at y = Some (end_time env s ended)"
    using wp_run [OF end_session_wp [OF inv] assms(2)] by auto
  then have "manager_inv False env t" by (simp add: updated_def)
  then have "browsers t \<subseteq> owned (look (m_pool t)) \<union> cold_of t \<union> left_behind (me_pool_env env)"
    by (auto simp: manager_inv_def pool_ok_def pool_inv_def)
  with x show ?thesis unfolding end_time_def by (auto simp: updated_def announced_def)
qed

text \<open>
  Updating an unknown session raises SessionNotFoundError and changes nothing. Updating a
  known one either returns the updated session, or raises with the updated session stored:
  in both cases only that session changes, and the invariant of the books holds.
\<close>

theorem update_session_outcomes:
  assumes "reachable (manager_init env) (manager_step False env) s" and "typed_update up"
    and "update_session env sid up s = (r, t)"
  shows "case map_of (m_sessions s) sid of
      None \<Rightarrow> r = Inl SessionNotFoundError \<and> t = s
    | Some x \<Rightarrow> \<exists>y. m_sessions t = AList.update sid y (m_sessions s) \<and> (\<forall>z. r = Inr z \<longrightarrow> z = y) \<and>
        s_status y = (case up_status up of None \<Rightarrow> s_status x | Some v \<Rightarrow> v) \<and>
        s_idle_ttl y = (case up_idle_ttl up of None \<Rightarrow> s_idle_ttl x | Some v \<Rightarrow> v) \<and>
        m_active t = length (filter (\<lambda>x. \<not> dead x) (session_list t))"
proof -
  have inv: "manager_inv False env s" "aware_clock env" using manager_reachable_inv [OF assms(1)] by blast+
  note run = wp_run [OF update_session_wp [OF inv(1) assms(2) inv(2)] assms(3)]
  have count: "manager_inv False env t \<Longrightarrow> m_active t = length (filter (\<lambda>x. \<not> dead x) (session_list t))"
    by (simp add: manager_inv_def books_ok_def live_count_def session_list_def filter_map comp_def case_prod_unfold)
  have fields: "s_status (update_result env s sid up x) = (case up_status up of None \<Rightarrow> s_status x | Some v \<Rightarrow> v)"
    "s_idle_ttl (update_result env s sid up x) = (case up_idle_ttl up of None \<Rightarrow> s_idle_ttl x | Some v \<Rightarrow> v)"
    for x
    by (simp_all add: update_result_def updated_session_def Let_def set_or_def)
  show ?thesis
  proof (cases "map_of (m_sessions s) sid")
    case None
    with run show ?thesis by (cases r) auto
  next
    case (Some x)
    show ?thesis
    proof (cases r)
      case (Inl e)
      with run Some count fields show ?thesis by auto
    next
      case (Inr z)
      with run Some count fields show ?thesis by (auto simp: updated_def)
    qed
  qed
qed

section \<open>Reaping\<close>

text \<open>
  C5: A reaper pass that returns has ended exactly the sessions that were live and past their
  deadline (last seen plus idle TTL) when it read the clock: these are DEAD with that time as
  their end, every other session is as it was, and it reports no more than their number.
\<close>

theorem reaper_ends_exactly_the_expired:
  assumes "reachable (manager_init env) (manager_step False env) s" and "me_clock env (m_ticks s) = Aware now"
    and "reap_expired_sessions env s = (Inr n, t)"
  shows "(\<forall>i x. map_of (m_sessions s) i = Some x \<and> \<not> dead x \<and> deadline x \<le> now \<longrightarrow>
      (\<exists>y. map_of (m_sessions t) i = Some y \<and> dead y \<and> s_ended_at y = Some (Aware now))) \<and>
    (\<forall>i. (\<forall>x. map_of (m_sessions s) i = Some x \<longrightarrow> dead x \<or> now < deadline x) \<longrightarrow>
      map_of (m_sessions t) i = map_of (m_sessions s) i) \<and>
    n \<le> length (filter (due now) (session_list s))"
proof -
  have inv: "manager_inv False env s" "aware_clock env" using manager_reachable_inv [OF assms(1)] by blast+
  have r: "reaped (Aware now) (expired_ids now s) s t" "n \<le> length (expired_ids now s)"
    using wp_run [OF reap_wp [OF inv assms(2)] assms(3)] by auto
  have ok: "sessions_ok (m_next_id s) (m_sessions s)" using inv(1) by (simp add: manager_inv_def books_ok_def)
  have ids: "i \<in> set (expired_ids now s) \<longleftrightarrow> (\<exists>x. map_of (m_sessions s) i = Some x \<and> due now x)" for i
    using ok unfolding session_list_def sessions_ok_def
    by (force simp: dict_member_lookup [symmetric])
  have gone: "\<exists>y. map_of (m_sessions t) i = Some y \<and> dead y \<and> s_ended_at y = Some (Aware now)"
    if "map_of (m_sessions s) i = Some x" "due now x" for i x
    using r(1) ids that unfolding reaped_def by blast
  have kept: "map_of (m_sessions t) i = map_of (m_sessions s) i"
    if "\<And>x. map_of (m_sessions s) i = Some x \<Longrightarrow> \<not> due now x" for i
    using r(1) ids that unfolding reaped_def by blast
  have "n \<le> length (filter (due now) (session_list s))" using r(2) by simp
  with gone kept show ?thesis by (simp add: due_def not_le)
qed


section \<open>Stopping\<close>

text \<open>
  C29: When stopping the manager returns, with or without a pool, no session holds a browser or a VNC
  handle, every warm slot is drained, and no browser process runs but those that could not be killed
  or whose launch broke off with an exception the launcher does not handle (\<open>left_behind\<close>). The state
  before is one the manager reaches with \<open>orderly\<close> calls.
\<close>

theorem stop_leaves_no_browser:
  assumes "reachable (manager_init env) (manager_step False env) s"
    and "stop_manager env s = (Inr x, t)"
  shows "m_handles t = [] \<and> m_vnc_handles t = [] \<and>
    (\<forall>w sl. look (m_pool t) w = Some sl \<longrightarrow> ws_state sl = WarmDRAINING) \<and>
    browsers t \<subseteq> left_behind (me_pool_env env)"
proof -
  have inv: "manager_inv False env s" and none: "\<not> me_has_pool env \<longrightarrow> no_slots s"
    using manager_reachable_inv [OF assms(1)] by blast+
  have "run_manager env ManagerStop s = (Inr x, t)" using assms(2) by simp
  then have "\<not> me_has_pool env \<longrightarrow> no_slots t" using none keeps_run [OF keeps_slots_run] by blast
  then have drained: "look (m_pool t) w = Some sl \<Longrightarrow> ws_state sl = WarmDRAINING" for w sl
    using wp_run [OF stop_manager_wp [OF inv] assms(2)] by (auto simp: all_draining_def)
  have t: "manager_inv False env t" "m_handles t = []" "m_vnc_handles t = []"
    using wp_run [OF stop_manager_wp [OF inv] assms(2)] by auto
  then have pool: "pool_inv (me_pool_env env) {} (m_pool t)"
    by (simp add: manager_inv_def pool_ok_def cold_def)
  have "ws_handle sl = None" if "look (m_pool t) w = Some sl" for w sl
  proof -
    have "slot_ok {} (look (m_pool t)) w sl" using pool that by (simp add: pool_inv_def)
    with drained [OF that] show ?thesis by (simp add: slot_ok_def holding_def)
  qed
  then have "owned (look (m_pool t)) = {}" by (auto simp: owned_def)
  with t drained pool show ?thesis by (auto simp: pool_inv_def)
qed

section \<open>Metadata and tokens\<close>

text \<open>
  The manager's own workstation metadata builder, used when the pool offers none, computes
  what the pool's builder does, errors included, for every snapshot and extra metadata.
\<close>

theorem fallback_meta_equals_pool_meta:
  "fallback_workstation_meta sn metadata = build_workstation_meta sn metadata"
  unfolding fallback_workstation_meta_def build_workstation_meta_def
  by (cases metadata; cases "sn_state sn") (auto simp: Let_def)

definition token_free :: "vnc_details option \<Rightarrow> bool" where
  "token_free d = (case d of None \<Rightarrow> True | Some v \<Rightarrow> vd_token v = None \<and> vd_token_ttl v = None)"

text \<open>
  A VNC descriptor loses its token and token lifetime, and nothing else, before it is stored: an
  update never puts a token into a session, and it stores the URLs the caller sent.
\<close>

theorem update_never_stores_tokens:
  "(up_vnc up = Some (Some d) \<longrightarrow>
      s_vnc (updated_session x up b seen ended) = Some (d\<lparr>vd_token := None, vd_token_ttl := None\<rparr>)) \<and>
    (up_vnc up = Some None \<longrightarrow> s_vnc (updated_session x up b seen ended) = None) \<and>
    (token_free (s_vnc x) \<longrightarrow> token_free (s_vnc (updated_session x up b seen ended)))"
proof -
  have "sanitize_vnc_payload (Some d) = Some (d\<lparr>vd_token := None, vd_token_ttl := None\<rparr>)"
    by (simp add: sanitize_vnc_payload_def)
  moreover have "token_free (sanitize_vnc_payload v)" for v
    by (auto simp: sanitize_vnc_payload_def token_free_def split: option.split)
  ultimately show ?thesis
    by (auto simp: updated_session_def Let_def set_or_def sanitize_vnc_payload_def split: option.split)
qed

section \<open>A manager that launches one browser per session\<close>

definition demo_manager_env :: manager_env where
  "demo_manager_env = \<lparr>me_pool_env = demo_pool_env, me_vnc_env = demo_vnc_env, me_has_pool = False,
     me_has_vnc = False, me_runner_id = ''runner-1'', me_vnc_enabled = False, me_mode = COLD_ONLY,
     me_required_flags = [], me_history = 5, me_clock = (\<lambda>n. Aware (if n < 2 then 0 else 90000000)),
     me_publish = (\<lambda>n. if n = 7 then Some (OtherError ''queue closed'') else None)\<rparr>"

definition demo_payload :: create_payload where
  "demo_payload = \<lparr>cp_status = READY, cp_headless = True, cp_idle_ttl = 60, cp_start_url = None,
     cp_start_url_wait = WaitLOAD, cp_browser = ''camoufox'', cp_labels = [], cp_ws_endpoint = None,
     cp_proxy = None, cp_vnc = None, cp_vnc_enabled = None, cp_metadata = []\<rparr>"

definition demo_manager :: manager where
  "demo_manager = init_manager (init_pool empty_world None) demo_vnc_world"

definition demo_session :: "(string, pyval) dict \<Rightarrow> session" where
  "demo_session md = \<lparr>s_id = 0, s_runner_id = ''runner-1'', s_status = Some READY, s_created_at = Aware 0,
     s_last_seen_at = Some (Aware 0), s_ended_at = None, s_start_url = None, s_start_url_wait = Some WaitLOAD,
     s_headless = Some True, s_idle_ttl = Some 60, s_browser = Some ''camoufox'', s_labels = [],
     s_ws_endpoint = Some ''ws://127.0.0.1:9/abc'', s_ws_public_endpoint = None, s_proxy = None, s_vnc = None,
     s_vnc_enabled = Some False, s_metadata = md, s_workstation_id = None,
     s_workstation_fingerprint_id = None, s_workstation = None\<rparr>"

lemma demo_session_valid: "validate_session (demo_session md) = Inr (demo_session md)"
proof -
  have "strip ''runner-1'' = ''runner-1''" "strip ''camoufox'' = ''camoufox''"
    "strip ''ws://127.0.0.1:9/abc'' = ''ws://127.0.0.1:9/abc''"
    by code_simp+
  then show ?thesis
    by (intro validate_session_id) (simp add: demo_session_def session_ok_def trimmed_def labels_ok_def)
qed

lemma demo_session_simps:
  "s_status (demo_session md) = Some READY" "idle_expiry (demo_session md) = Inr (Aware 60000000)"
  "s_id (demo_session md) = 0" "s_ws_endpoint (demo_session md) = Some ''ws://127.0.0.1:9/abc''"
  by (simp_all add: demo_session_def idle_expiry_def)

lemma demo_manager_simps:
  "me_pool_env demo_manager_env = demo_pool_env" "\<not> me_has_pool demo_manager_env" "\<not> me_has_vnc demo_manager_env"
  "me_runner_id demo_manager_env = ''runner-1''" "\<not> me_vnc_enabled demo_manager_env"
  "me_mode demo_manager_env = COLD_ONLY" "me_required_flags demo_manager_env = []"
  "me_clock demo_manager_env n = Aware (if n < 2 then 0 else 90000000)"
  "me_publish demo_manager_env n = (if n = 7 then Some (OtherError ''queue closed'') else None)"
  "cp_headless demo_payload" "cp_metadata demo_payload = []" "cp_browser demo_payload = ''camoufox''"
  by (simp_all add: demo_manager_env_def demo_payload_def)

lemma demo_flags: "merge_browser_flags [as_values [], as_values []] = []" "\<not> requires_additional_flags [] []"
  by code_simp+

lemmas manager_defs = create_session_def new_session_id_def read_clock_def resolve_vnc_def
  acquire_browser_handle_def resolve_browser_flags_def acquire_cold_def launch_cold_browser_def
  on_pool_def finish_create_def mark_session_busy_def store_session_def
  set_vnc_gauge_def recalculate_next_idle_expiry_def set_active_gauge_def publish_def session_list_def

lemma demo_created:
  assumes "bh_ws_endpoint h = ''ws://127.0.0.1:9/abc''"
  shows "created_session demo_manager_env demo_payload 0 (Aware 0)
      \<lparr>ba_handle = h, ba_metadata = md, ba_reservation = None\<rparr> None None =
     Inr (demo_session (dict_setdefault ''runner_browser_pid'' (PInt (bh_pid h)) md))"
  using demo_session_valid assms
  by (simp add: created_session_def demo_manager_simps demo_payload_def Let_def demo_session_def)

definition demo_live :: "(string list \<times> (string, string) dict) list \<Rightarrow> session \<Rightarrow> manager" where
  "demo_live launches x = (init_manager
       ((init_pool empty_world None)\<lparr>wp_procs := \<lparr>pw_next = 1, pw_live = {0}, pw_launches = launches, pw_signals = []\<rparr>\<rparr>)
       demo_vnc_world)
     \<lparr>m_sessions := [(0, x)], m_handles := [(0, \<lparr>bh_ws_endpoint = ''ws://127.0.0.1:9/abc'', bh_process = 0\<rparr>)],
      m_active := 1, m_next_expiry := Some (Aware 60000000), m_next_id := 1, m_ticks := 2, m_publishes := 1,
      m_events := [\<lparr>ev_id = 0, ev_type = EvCREATED, ev_session = x, ev_occurred_at = Aware 0, ev_reason = None\<rparr>],
      m_active_gauge := 1\<rparr>"

lemma demo_create:
  "\<exists>md launches. create_session demo_manager_env demo_payload demo_manager =
     (Inr (demo_session md), demo_live launches (demo_session md))"
  by (simp add: manager_defs demo_exec demo_created demo_manager_def init_manager_def demo_manager_simps
      demo_flags empty_world_def demo_session_simps validate_session_event_def demo_live_def cong: exec_cong)
    (rule exI, rule refl)

lemmas update_defs = end_session_def update_session_def update_effects_def clock_if_def
  recalculate_active_sessions_def shutdown_browser_def should_cleanup_browser_def should_cleanup_vnc_def

definition demo_ended :: "session \<Rightarrow> string \<Rightarrow> int \<Rightarrow> session" where
  "demo_ended x reason at = updated_session x (end_payload (Some reason) (Some (Aware at))) False
     (Some (Aware 90000000)) None"

lemma demo_ended_simps:
  "s_status (demo_ended x reason at) = Some DEAD" "s_id (demo_ended x reason at) = s_id x"
  by (simp_all add: demo_ended_def updated_session_def Let_def end_payload_def no_update_def set_or_def)

lemma end_payload_simps:
  "up_status (end_payload r e) = Some (Some DEAD)" "up_last_seen_at (end_payload r e) = None"
  "up_ended_at (end_payload r e) = Some e" "set_or (up_reason (end_payload r e)) None = r"
  by (simp_all add: end_payload_def no_update_def set_or_def)

lemmas demo_run = update_defs manager_defs demo_exec end_payload_simps demo_manager_simps demo_session_simps
  demo_ended_simps demo_ended_def [symmetric] validate_session_event_def init_manager_def empty_world_def

lemma demo_end_now:
  "\<exists>y t. end_session demo_manager_env 0 (Some ''bye'') None (demo_live launches (demo_session md)) = (Inr y, t)"
proof -
  let ?y = "updated_session (demo_session md) (end_payload (Some ''bye'') None) False (Some (Aware 90000000)) (Some (Aware 90000000))"
  have "s_status ?y = Some DEAD" "s_id ?y = 0"
    by (simp_all add: updated_session_def Let_def end_payload_def no_update_def set_or_def demo_session_simps)
  then show ?thesis by (simp add: demo_live_def demo_run cong: exec_cong)
qed

lemma demo_end:
  "\<exists>t. end_session demo_manager_env 0 (Some ''bye'') (Some (Aware 5)) (demo_live launches (demo_session md)) =
     (Inr (demo_ended (demo_session md) ''bye'' 5), t)"
  by (simp add: demo_live_def demo_run cong: exec_cong)

lemma demo_reap:
  "\<exists>t. reap_expired_sessions demo_manager_env (demo_live launches (demo_session md)) = (Inr 1, t)"
  by (simp add: demo_live_def reap_expired_sessions_def demo_run cong: exec_cong)

text \<open>
  A session created as \<open>DEAD\<close> is stored before its event is refused: the creation is rolled back.
\<close>

lemma demo_create_fails:
  "\<exists>e t. create_session demo_manager_env (demo_payload\<lparr>cp_status := DEAD\<rparr>) demo_manager = (Inl e, t)"
proof -
  have valid: "validate_session (demo_session md\<lparr>s_status := Some DEAD\<rparr>) = Inr (demo_session md\<lparr>s_status := Some DEAD\<rparr>)" for md
    using validate_session_sound [OF demo_session_valid [of md]]
    by (intro validate_session_id) (simp add: session_ok_def)
  have made: "created_session demo_manager_env (demo_payload\<lparr>cp_status := DEAD\<rparr>) 0 (Aware 0)
      \<lparr>ba_handle = h, ba_metadata = md, ba_reservation = None\<rparr> None None =
     Inr (demo_session (dict_setdefault ''runner_browser_pid'' (PInt (bh_pid h)) md)\<lparr>s_status := Some DEAD\<rparr>)"
    if "bh_ws_endpoint h = ''ws://127.0.0.1:9/abc''" for h md
    using valid that
    by (simp add: created_session_def demo_manager_simps demo_payload_def Let_def demo_session_def)
  show ?thesis
    by (simp add: demo_run demo_manager_def demo_flags made rollback_session_def release_vnc_handle_def
        discard_vnc_handle_def safe_shutdown_cold_browser_def cong: exec_cong)
qed

lemma demo_stop:
  "\<exists>t. stop_manager demo_manager_env (demo_live launches (demo_session md)) = (Inr (), t)"
  by (simp add: stop_manager_def shutdown_all_vnc_def demo_run demo_live_def cong: exec_cong)

lemma demo_manager_init: "me_pool_env env = demo_pool_env \<Longrightarrow> me_vnc_env env = demo_vnc_env \<Longrightarrow> aware_clock env \<Longrightarrow>
    reachable (manager_init env) (manager_step cf env) demo_manager"
proof (rule reach_init)
  assume e: "me_pool_env env = demo_pool_env" "me_vnc_env env = demo_vnc_env" "aware_clock env"
  have "pool_inv demo_pool_env {} (init_pool empty_world None)"
    by (rule pool_init_inv) (auto simp: pool_init_def empty_world_def world_ok_def)
  moreover have "ranges_ok demo_vnc_env demo_vnc_world \<and> vnc_world_ok demo_vnc_world"
    by (rule vnc.reachable_inv) (rule reach_init, rule demo_vnc_init)
  ultimately show "manager_init env demo_manager"
    using e unfolding manager_init_def demo_manager_def
    by (intro conjI exI [of _ "init_pool empty_world None"] exI [of _ demo_vnc_world])
      (simp_all add: vnc_ok_def init_pool_def)
qed

lemma demo_startable: "startable cf demo_manager_env s"
  by (simp add: startable_def demo_manager_simps)

lemma demo_reached: "reachable (manager_init demo_manager_env) (manager_step cf demo_manager_env) demo_manager"
  by (rule demo_manager_init) (simp_all add: demo_manager_env_def aware_clock_def)

lemma demo_live_reached:
  obtains md launches where
    "create_session demo_manager_env demo_payload demo_manager = (Inr (demo_session md), demo_live launches (demo_session md))"
    "reachable (manager_init demo_manager_env) (manager_step cf demo_manager_env) (demo_live launches (demo_session md))"
proof -
  obtain md l where run: "create_session demo_manager_env demo_payload demo_manager =
      (Inr (demo_session md), demo_live l (demo_session md))"
    using demo_create by blast
  then have "run_manager demo_manager_env (ManagerCreate demo_payload) demo_manager = (Inr (), demo_live l (demo_session md))"
    by (simp add: thenm_def bindm_def ret_def)
  moreover have "orderly cf demo_manager_env demo_manager (ManagerCreate demo_payload)"
    by (simp add: demo_startable)
  ultimately show ?thesis
    using that run reach_step [OF demo_reached manager_called] by blast
qed

section \<open>The properties at work\<close>

lemma demo_live_sessions:
  "m_sessions (demo_live launches x) = [(0, x)]" "m_ticks (demo_live launches x) = 2"
  "m_active (demo_live launches x) = 1" "session_list (demo_live launches x) = [x]"
  "m_handles (demo_live launches x) = [(0, \<lparr>bh_ws_endpoint = ''ws://127.0.0.1:9/abc'', bh_process = 0\<rparr>)]"
  "m_warm_sessions (demo_live launches x) = []" "browsers (demo_live launches x) = {0}"
  by (simp_all add: demo_live_def session_list_def init_manager_def)


lemma no_browser_leaks_witness:
  "\<exists>s. browsers s = {0} \<and> cold_of s \<subseteq> browsers s \<and>
     browsers s \<subseteq> owned (look (m_pool s)) \<union> cold_of s \<union> left_behind demo_pool_env"
proof -
  obtain md l where r: "reachable (manager_init demo_manager_env) (manager_step False demo_manager_env) (demo_live l (demo_session md))"
    by (rule demo_live_reached)
  from no_browser_leaks [OF r] show ?thesis
    by (intro exI [of _ "demo_live l (demo_session md)"]) (simp add: demo_live_sessions demo_manager_simps)
qed


lemma create_session_stores_witness:
  "\<exists>x t. create_session demo_manager_env demo_payload demo_manager = (Inr x, t) \<and>
     m_sessions t = [(s_id x, x)] \<and> m_active t = 1 \<and> (\<exists>ev. m_events t = [ev] \<and> ev_type ev = EvCREATED)"
proof -
  obtain md l where run: "create_session demo_manager_env demo_payload demo_manager =
      (Inr (demo_session md), demo_live l (demo_session md))"
    using demo_create by blast
  from create_session_stores [OF demo_reached demo_startable run] run show ?thesis
    by (auto simp: demo_manager_def init_manager_def)
qed

lemma end_session_releases_witness:
  "\<exists>s y t. end_session demo_manager_env 0 (Some ''bye'') None s = (Inr y, t) \<and>
     map_of (m_handles s) 0 \<noteq> None \<and> map_of (m_handles t) 0 = None \<and> dead y \<and> s_ended_at y = Some (Aware 90000000)"
proof -
  obtain md l where r: "reachable (manager_init demo_manager_env) (manager_step False demo_manager_env) (demo_live l (demo_session md))"
    by (rule demo_live_reached)
  obtain y t where run: "end_session demo_manager_env 0 (Some ''bye'') None (demo_live l (demo_session md)) = (Inr y, t)"
    using demo_end_now by blast
  from end_session_releases [OF r run] run show ?thesis
    by (intro exI [of _ "demo_live l (demo_session md)"]) (auto simp: demo_live_sessions demo_manager_simps)
qed

lemma update_session_outcomes_witness:
  "\<exists>s t. update_session demo_manager_env 0 (end_payload (Some ''bye'') (Some (Aware 5))) s = t \<and>
     m_active s = 1 \<and> m_active (snd t) = 0 \<and> (\<exists>y. m_sessions (snd t) = [(0, y)] \<and> s_status y = Some DEAD)"
proof -
  obtain md l where r: "reachable (manager_init demo_manager_env) (manager_step False demo_manager_env) (demo_live l (demo_session md))"
    by (rule demo_live_reached)
  obtain t where run: "update_session demo_manager_env 0 (end_payload (Some ''bye'') (Some (Aware 5))) (demo_live l (demo_session md)) =
      (Inr (demo_ended (demo_session md) ''bye'' 5), t)"
    using demo_end unfolding end_session_def by blast
  have typed: "typed_update (end_payload (Some ''bye'') (Some (Aware 5)))"
    by (simp add: typed_update_def end_payload_def no_update_def)
  obtain y where "m_sessions t = [(0, y)]" "s_status y = Some DEAD" "m_active t = length (filter (\<lambda>x. \<not> dead x) (session_list t))"
    using update_session_outcomes [OF r typed run]
    by (auto simp: demo_live_sessions end_payload_simps)
  with run show ?thesis
    by (intro exI [of _ "demo_live l (demo_session md)"] exI [of _ "(Inr (demo_ended (demo_session md) ''bye'' 5), t)"])
      (simp add: demo_live_sessions session_list_def)
qed

lemma reaper_ends_exactly_the_expired_witness:
  "\<exists>s t y. reap_expired_sessions demo_manager_env s = (Inr 1, t) \<and> m_active s = 1 \<and>
     map_of (m_sessions t) 0 = Some y \<and> dead y \<and> s_ended_at y = Some (Aware 90000000)"
proof -
  obtain md l where r: "reachable (manager_init demo_manager_env) (manager_step False demo_manager_env) (demo_live l (demo_session md))"
    by (rule demo_live_reached)
  obtain t where run: "reap_expired_sessions demo_manager_env (demo_live l (demo_session md)) = (Inr 1, t)"
    using demo_reap by blast
  have "deadline (demo_session md) = 60000000" by (simp add: deadline_def demo_session_def)
  moreover have "me_clock demo_manager_env (m_ticks (demo_live l (demo_session md))) = Aware 90000000"
    by (simp add: demo_live_sessions demo_manager_simps)
  ultimately have "\<exists>y. map_of (m_sessions t) 0 = Some y \<and> dead y \<and> s_ended_at y = Some (Aware 90000000)"
    using conjunct1 [OF reaper_ends_exactly_the_expired [OF r _ run]]
    by (simp add: demo_live_sessions demo_session_simps)
  moreover have "m_active (demo_live l (demo_session md)) = 1" by (rule demo_live_sessions)
  ultimately show ?thesis using run by blast
qed


text \<open>
  What \<open>typed_update\<close> excludes: an update that sets the idle limit to null stores the session and raises; a
  creation after it stores its session with its browser and raises as well, outside the \<open>try\<close>.
\<close>

lemma null_limit_is_stored:
  "\<exists>t. update_session demo_manager_env 0 (no_update\<lparr>up_idle_ttl := Some None\<rparr>) (demo_live l (demo_session md)) =
      (Inl TypeError, t) \<and> map_option s_idle_ttl (map_of (m_sessions t) 0) = Some None"
proof -
  let ?y = "updated_session (demo_session md) (no_update\<lparr>up_idle_ttl := Some None\<rparr>) False (Some (Aware 90000000)) None"
  have "s_status ?y = Some READY" "idle_expiry ?y = Inl TypeError" "s_idle_ttl ?y = None" "s_id ?y = 0"
    by (simp_all add: updated_session_def Let_def no_update_def set_or_def demo_session_simps idle_expiry_def
        split: option.split)
  moreover have "up_status (no_update\<lparr>up_idle_ttl := Some None\<rparr>) = None"
    "up_last_seen_at (no_update\<lparr>up_idle_ttl := Some None\<rparr>) = None" by (simp_all add: no_update_def)
  ultimately show ?thesis by (simp add: demo_live_def demo_run cong: exec_cong)
qed

lemma null_limit_keeps_session:
  "\<exists>t. create_session demo_manager_env demo_payload
       (demo_manager\<lparr>m_sessions := [(7, demo_session md\<lparr>s_id := 7, s_idle_ttl := None\<rparr>)]\<rparr>) = (Inl TypeError, t) \<and>
     map_of (m_sessions t) 0 \<noteq> None \<and> map_of (m_handles t) 0 \<noteq> None"
proof -
  have "idle_expiry (x\<lparr>s_idle_ttl := None\<rparr>) = Inl TypeError" for x :: session
    by (simp add: idle_expiry_def split: option.split)
  then show ?thesis
    by (simp add: manager_defs demo_exec demo_created demo_manager_def init_manager_def demo_manager_simps
      demo_flags empty_world_def demo_session_simps cong: exec_cong)
qed

lemma demo_none_left_behind: "left_behind demo_pool_env = {}"
  by (auto simp: left_behind_def unkillable_def breaks_off_def json_escapes_def demo_os_def demo_pool_env_def)

text \<open>The manager runs one browser before the stop, and none after it.\<close>

lemma stop_leaves_no_browser_witness:
  "\<exists>s t. stop_manager demo_manager_env s = (Inr (), t) \<and> browsers s = {0} \<and> m_handles s \<noteq> [] \<and>
     m_handles t = [] \<and> browsers t = {}"
proof -
  obtain md l where r: "reachable (manager_init demo_manager_env) (manager_step False demo_manager_env) (demo_live l (demo_session md))"
    by (rule demo_live_reached)
  obtain t where run: "stop_manager demo_manager_env (demo_live l (demo_session md)) = (Inr (), t)"
    using demo_stop by blast
  from stop_leaves_no_browser [OF r run] run show ?thesis
    by (intro exI [of _ "demo_live l (demo_session md)"] exI [of _ t])
      (simp add: demo_live_sessions demo_manager_simps demo_none_left_behind)
qed

lemma update_never_stores_tokens_witness:
  "s_vnc (updated_session (demo_session []) (no_update\<lparr>up_vnc := Some (Some \<lparr>vd_http_url = None,
     vd_websocket_url = Some ''wss://vnc.example.org'', vd_token = Some ''t'', vd_token_ttl = Some 30\<rparr>)\<rparr>) False None None) =
   Some \<lparr>vd_http_url = None, vd_websocket_url = Some ''wss://vnc.example.org'', vd_token = None, vd_token_ttl = None\<rparr>"
  using update_never_stores_tokens [of "no_update\<lparr>up_vnc := Some (Some \<lparr>vd_http_url = None,
     vd_websocket_url = Some ''wss://vnc.example.org'', vd_token = Some ''t'', vd_token_ttl = Some 30\<rparr>)\<rparr>"
     "\<lparr>vd_http_url = None, vd_websocket_url = Some ''wss://vnc.example.org'', vd_token = Some ''t'', vd_token_ttl = Some 30\<rparr>"
     "demo_session []" False None None]
  by simp

end
