(* ===== verification/Runner_Registry.thy ===== *)
theory Runner_Registry
  imports Core_Models Py_Urls Interfaces
begin

text \<open>
  The gateway's runner registry (\<open>services/gateway/app/services/runner_registry.py\<close>) and the health
  payload that updates it (\<open>runner_health.py\<close>): round-robin selection, the bindings of session
  WebSockets, removal, health records. A method holds the registry's lock: one operation each.
\<close>

declare map_of_eq_Some_iff [simp del] Some_eq_map_of_iff [simp del]

section \<open>Session ids in text\<close>

text \<open>
  A session id is a number below \<open>2 ^ 128\<close>; \<open>str(UUID)\<close> prints its 32 hexadecimal digits in groups of
  8, 4, 4, 4 and 12.
\<close>

definition uuid_str :: "nat \<Rightarrow> string" where
  "uuid_str n = (let h = hex_fixed 32 n in
     take 8 h @ ''-'' @ take 4 (drop 8 h) @ ''-'' @ take 4 (drop 12 h) @ ''-'' @
     take 4 (drop 16 h) @ ''-'' @ drop 20 h)"

text \<open>
  \<open>template.format(id=...)\<close> for the replacement field \<open>{id}\<close> and the escapes \<open>{{\<close> and \<open>}}\<close>. Any other
  field raises; conversions, format specifications and attributes of \<open>id\<close> are not modelled.
\<close>

function format_id :: "string \<Rightarrow> string \<Rightarrow> string res" where
  "format_id v s = (case s of
     [] \<Rightarrow> Inr []
   | c # t \<Rightarrow>
       if c = CHR 0x7B then
         (if starts_with [CHR 0x7B] t then res_bind (format_id v (drop 1 t)) (\<lambda>r. Inr (CHR 0x7B # r))
          else if starts_with (''id'' @ [CHR 0x7D]) t then res_bind (format_id v (drop 3 t)) (\<lambda>r. Inr (v @ r))
          else Inl KeyError)
       else if c = CHR 0x7D then
         (if starts_with [CHR 0x7D] t then res_bind (format_id v (drop 1 t)) (\<lambda>r. Inr (CHR 0x7D # r))
          else Inl (ValueError ''Single close brace encountered in format string''))
       else res_bind (format_id v t) (\<lambda>r. Inr (c # r)))"
  by pat_completeness auto
termination
  by (relation "measure (length \<circ> snd)") auto

declare format_id.simps [simp del]

section \<open>The registry\<close>

record ws_binding =
  wb_runner_id :: string
  wb_target :: string
  wb_public :: string

record runner_registry =
  rr_runners :: "(string, runner) dict"
  rr_order :: "string list"
  rr_cursor :: nat
  rr_ws_template :: string
  rr_ws_bindings :: "(nat, ws_binding) dict"

type_synonym 'a runner_op = "(runner_registry, 'a) op"

definition init_runners :: "runner list \<Rightarrow> runner_registry" where
  "init_runners rs = \<lparr>rr_runners = fold (\<lambda>r. AList.update (r_id r) r) rs [],
     rr_order = map r_id rs, rr_cursor = 0, rr_ws_template = ''/sessions/{id}/ws'', rr_ws_bindings = []\<rparr>"

text \<open>\<open>self._runners[rid]\<close>, which raises for an id that is not a key.\<close>

definition runner_at :: "(string, runner) dict \<Rightarrow> string \<Rightarrow> runner res" where
  "runner_at d rid = (case map_of d rid of None \<Rightarrow> Inl KeyError | Some r \<Rightarrow> Inr r)"

fun runners_at :: "(string, runner) dict \<Rightarrow> string list \<Rightarrow> runner list res" where
  "runners_at d [] = Inr []"
| "runners_at d (rid # rids) = res_bind (runner_at d rid) (\<lambda>r.
     res_bind (runners_at d rids) (\<lambda>rs. Inr (r # rs)))"

definition list_runners :: "runner list runner_op" where
  "list_runners = bindm (gets (\<lambda>s. runners_at (rr_runners s) (rr_order s))) lift_res"

definition upsert_runner :: "runner \<Rightarrow> runner runner_op" where
  "upsert_runner r =
     bindm (gets (\<lambda>s. map_of (rr_runners s) (r_id r) = None)) (\<lambda>is_new.
     thenm (modify (\<lambda>s. s\<lparr>rr_runners := AList.update (r_id r) r (rr_runners s)\<rparr>))
     (thenm (whenm is_new (modify (\<lambda>s. s\<lparr>rr_order := rr_order s @ [r_id r]\<rparr>)))
     (thenm (modify (\<lambda>s. s\<lparr>rr_cursor := rr_cursor s mod max (length (rr_order s)) 1\<rparr>))
     (ret r))))"

definition get_runner :: "string \<Rightarrow> runner option runner_op" where
  "get_runner rid = gets (\<lambda>s. map_of (rr_runners s) rid)"

definition set_session_ws_template :: "string \<Rightarrow> unit runner_op" where
  "set_session_ws_template t = (if \<not> contains ''{id}'' t
     then raise (ValueError ''template must include {id} placeholder'')
     else modify (\<lambda>s. s\<lparr>rr_ws_template := t\<rparr>))"

definition register_session_ws_endpoint ::
  "nat \<Rightarrow> string \<Rightarrow> string option \<Rightarrow> string option runner_op" where
  "register_session_ws_endpoint sid rid target =
     (if target = None \<or> target = Some []
      then thenm (modify (\<lambda>s. s\<lparr>rr_ws_bindings := AList.delete sid (rr_ws_bindings s)\<rparr>)) (ret None)
      else bindm (gets rr_ws_template) (\<lambda>t.
           bindm (lift_res (format_id (uuid_str sid) t)) (\<lambda>public.
           thenm (modify (\<lambda>s. s\<lparr>rr_ws_bindings := AList.update sid
              \<lparr>wb_runner_id = rid, wb_target = the target, wb_public = public\<rparr> (rr_ws_bindings s)\<rparr>))
           (ret (Some public)))))"

definition resolve_session_ws_target :: "nat \<Rightarrow> string option runner_op" where
  "resolve_session_ws_target sid = gets (\<lambda>s. map_option wb_target (map_of (rr_ws_bindings s) sid))"

definition resolve_session_ws_public :: "nat \<Rightarrow> string option runner_op" where
  "resolve_session_ws_public sid = gets (\<lambda>s. map_option wb_public (map_of (rr_ws_bindings s) sid))"

definition drop_session_ws_endpoint :: "nat \<Rightarrow> unit runner_op" where
  "drop_session_ws_endpoint sid = modify (\<lambda>s. s\<lparr>rr_ws_bindings := AList.delete sid (rr_ws_bindings s)\<rparr>)"

definition remove_runner :: "string \<Rightarrow> runner option runner_op" where
  "remove_runner rid =
     bindm (gets (\<lambda>s. map_of (rr_runners s) rid)) (\<lambda>found. case found of
       None \<Rightarrow> ret None
     | Some r \<Rightarrow>
         thenm (modify (\<lambda>s. s\<lparr>rr_runners := AList.delete rid (rr_runners s), rr_order := remove1 rid (rr_order s)\<rparr>))
         (thenm (modify (\<lambda>s. s\<lparr>rr_cursor := rr_cursor s mod max (length (rr_order s)) 1\<rparr>))
         (thenm (modify (\<lambda>s. s\<lparr>rr_ws_bindings :=
            fold AList.delete (map fst (filter (\<lambda>(_, b). wb_runner_id b = rid) (rr_ws_bindings s))) (rr_ws_bindings s)\<rparr>))
         (ret (Some r)))))"

definition selectable :: "bool \<Rightarrow> bool \<Rightarrow> runner \<Rightarrow> bool" where
  "selectable requires_vnc require_healthy c =
     (\<not> (require_healthy \<and> \<not> r_healthy c) \<and> \<not> (requires_vnc \<and> \<not> r_supports_vnc c) \<and>
      r_available_slots c \<noteq> Some 0 \<and> r_state c \<notin> {RunnerBUSY, RunnerDEGRADED, RunnerOFFLINE})"

text \<open>The scan: \<open>n\<close> offsets are left, the current one is \<open>off\<close>.\<close>

fun scan_runners ::
  "bool \<Rightarrow> bool \<Rightarrow> runner_registry \<Rightarrow> nat \<Rightarrow> nat \<Rightarrow> (runner \<times> nat) option res" where
  "scan_runners vnc healthy s off 0 = Inr None"
| "scan_runners vnc healthy s off (Suc n) =
     (let total = length (rr_order s); index = (rr_cursor s + off) mod total
      in res_bind (runner_at (rr_runners s) (rr_order s ! index)) (\<lambda>candidate.
           if selectable vnc healthy candidate then Inr (Some (candidate, (index + 1) mod total))
           else scan_runners vnc healthy s (Suc off) n))"

definition select_next :: "bool \<Rightarrow> bool \<Rightarrow> runner option runner_op" where
  "select_next vnc healthy =
     bindm (gets (\<lambda>s. scan_runners vnc healthy s 0 (length (rr_order s)))) (\<lambda>r.
     bindm (lift_res r) (\<lambda>found. case found of
       None \<Rightarrow> ret None
     | Some (c, cursor) \<Rightarrow> thenm (modify (\<lambda>s. s\<lparr>rr_cursor := cursor\<rparr>)) (ret (Some c))))"

record health_update =
  hu_healthy :: bool
  hu_heartbeat_at :: "datetime option"
  hu_total_slots :: "int option"
  hu_available_slots :: "int option"
  hu_supports_vnc :: "bool option"

definition apply_health :: "health_update \<Rightarrow> runner \<Rightarrow> runner" where
  "apply_health h c =
     (let capacity = (case hu_total_slots h of Some t \<Rightarrow> t | None \<Rightarrow> r_total_slots c)
      in c\<lparr>r_healthy := hu_healthy h,
         r_last_heartbeat_at := (case hu_heartbeat_at h of Some t \<Rightarrow> Some t | None \<Rightarrow> r_last_heartbeat_at c),
         r_total_slots := capacity,
         r_available_slots := (case hu_available_slots h of Some a \<Rightarrow> Some (max (min a capacity) 0)
           | None \<Rightarrow> r_available_slots c),
         r_supports_vnc := (case hu_supports_vnc h of Some v \<Rightarrow> v | None \<Rightarrow> r_supports_vnc c)\<rparr>)"

definition record_health :: "string \<Rightarrow> health_update \<Rightarrow> runner option runner_op" where
  "record_health rid h =
     bindm (gets (\<lambda>s. map_of (rr_runners s) rid)) (\<lambda>found. case found of
       None \<Rightarrow> ret None
     | Some current \<Rightarrow>
         thenm (modify (\<lambda>s. s\<lparr>rr_runners := AList.update rid (apply_health h current) (rr_runners s)\<rparr>))
         (ret (Some (apply_health h current))))"

section \<open>Health payloads\<close>

record health_payload =
  hp_status :: string
  hp_runner_id :: string
  hp_slots :: "(int option \<times> int option) option"
  hp_vnc :: "bool option option"

definition to_updates :: "health_payload \<Rightarrow> datetime \<Rightarrow> health_update" where
  "to_updates p timestamp = \<lparr>hu_healthy = (lower (hp_status p) = ''ok''), hu_heartbeat_at = Some timestamp,
     hu_total_slots = (case hp_slots p of Some (slots, _) \<Rightarrow> slots | None \<Rightarrow> None),
     hu_available_slots = (case hp_slots p of Some (_, available) \<Rightarrow> available | None \<Rightarrow> None),
     hu_supports_vnc = (case hp_vnc p of Some v \<Rightarrow> v | None \<Rightarrow> None)\<rparr>"

text \<open>
  A probe: the response is \<open>None\<close> when the request failed, and otherwise the payload or the exception
  of its validation.
\<close>

definition probe :: "runner \<Rightarrow> datetime \<Rightarrow> health_payload res option \<Rightarrow> runner option runner_op" where
  "probe r now response = (case response of
     None \<Rightarrow> thenm (record_health (r_id r) \<lparr>hu_healthy = False, hu_heartbeat_at = None,
         hu_total_slots = None, hu_available_slots = None, hu_supports_vnc = None\<rparr>) (ret None)
   | Some payload \<Rightarrow> bindm (lift_res payload) (\<lambda>p.
       if hp_runner_id p \<noteq> r_id r then ret None else record_health (r_id r) (to_updates p now)))"

end
