(* ===== verification/Runner_Registry_Props.thy ===== *)
theory Runner_Registry_Props
  imports Runner_Registry
begin

text \<open>
  The runner registry's invariant, the fairness of its round-robin selection, the public WebSocket
  endpoints and the removal of runners.
\<close>

declare map_of_eq_Some_iff [simp del] Some_eq_map_of_iff [simp del]

section \<open>The invariant\<close>

text \<open>
  The rotation order lists every known runner once, the cursor points into it, and each runner is
  filed under its own id.
\<close>

definition runners_ok :: "runner_registry \<Rightarrow> bool" where
  "runners_ok s = (dict_ok (rr_runners s) \<and> dict_ok (rr_ws_bindings s) \<and> distinct (rr_order s) \<and>
     set (rr_order s) = keys (rr_runners s) \<and> rr_cursor s < max (length (rr_order s)) 1 \<and>
     (\<forall>rid r. map_of (rr_runners s) rid = Some r \<longrightarrow> r_id r = rid))"

inductive runner_step :: "runner_registry \<Rightarrow> runner_registry \<Rightarrow> bool" where
  rs_upsert: "upsert_runner r s = (x1, t) \<Longrightarrow> runner_step s t"
| rs_template: "set_session_ws_template tm s = (x2, t) \<Longrightarrow> runner_step s t"
| rs_register: "register_session_ws_endpoint sid rid target s = (x3, t) \<Longrightarrow> runner_step s t"
| rs_drop: "drop_session_ws_endpoint sid s = (x2, t) \<Longrightarrow> runner_step s t"
| rs_remove: "remove_runner rid s = (x4, t) \<Longrightarrow> runner_step s t"
| rs_select: "select_next vnc healthy s = (x4, t) \<Longrightarrow> runner_step s t"
| rs_health: "record_health rid h s = (x4, t) \<Longrightarrow> runner_step s t"
| rs_probe: "probe r now response s = (x4, t) \<Longrightarrow> runner_step s t"

definition runners_init :: "runner_registry \<Rightarrow> bool" where
  "runners_init s = (\<exists>rs. distinct (map r_id rs) \<and> s = init_runners rs)"

lemma fold_update_runners:
  "distinct (map r_id rs) \<Longrightarrow> keys d \<inter> r_id ` set rs = {} \<Longrightarrow>
    fold (\<lambda>r. AList.update (r_id r) r) rs d = d @ map (\<lambda>r. (r_id r, r)) rs"
proof (induction rs arbitrary: d)
  case (Cons r rs)
  then show ?case by (simp add: update_not_in)
qed simp

lemma init_runners_dict:
  "distinct (map r_id rs) \<Longrightarrow> rr_runners (init_runners rs) = map (\<lambda>r. (r_id r, r)) rs"
  by (simp add: init_runners_def fold_update_runners)

lemma runners_ok_init: "runners_init s \<Longrightarrow> runners_ok s"
proof -
  assume "runners_init s"
  then obtain rs where d: "distinct (map r_id rs)" and s: "s = init_runners rs"
    by (auto simp: runners_init_def)
  have "dict_ok (map (\<lambda>r. (r_id r, r)) rs)" using d by (simp add: comp_def)
  moreover have "\<forall>rid r. map_of (map (\<lambda>r. (r_id r, r)) rs) rid = Some r \<longrightarrow> r_id r = rid"
    by (auto dest: map_of_SomeD)
  moreover have "keys (map (\<lambda>r. (r_id r, r)) rs) = r_id ` set rs" by (auto simp: image_image)
  ultimately have "dict_ok (rr_runners s) \<and> keys (rr_runners s) = r_id ` set rs \<and>
      (\<forall>rid r. map_of (rr_runners s) rid = Some r \<longrightarrow> r_id r = rid)"
    unfolding s init_runners_dict [OF d] by blast
  moreover have "rr_order s = map r_id rs" "rr_cursor s = 0" "rr_ws_bindings s = []"
    by (simp_all add: s init_runners_def)
  ultimately show ?thesis
    using d unfolding runners_ok_def by simp
qed

lemma mod_cursor: "(n::nat) mod max k 1 < max k 1"
  by (cases k) auto

lemma upsert_runner_run:
  "upsert_runner r s = (Inr r, s\<lparr>rr_runners := AList.update (r_id r) r (rr_runners s),
     rr_order := rr_order s @ (if map_of (rr_runners s) (r_id r) = None then [r_id r] else []),
     rr_cursor := rr_cursor s mod max (length (rr_order s @
       (if map_of (rr_runners s) (r_id r) = None then [r_id r] else []))) 1\<rparr>)"
  by (simp add: upsert_runner_def whenm_def op_run)

lemma upsert_runner_ok: "runners_ok s \<Longrightarrow> runners_ok (snd (upsert_runner r s))"
  unfolding upsert_runner_run runners_ok_def
  by (auto simp: map_of_None_keys insert_absorb mod_cursor intro: less_le_trans [OF mod_less_divisor])

lemma remove_runner_run:
  "remove_runner rid s = (case map_of (rr_runners s) rid of
     None \<Rightarrow> (Inr None, s)
   | Some r \<Rightarrow> (Inr (Some r), s\<lparr>rr_runners := AList.delete rid (rr_runners s), rr_order := remove1 rid (rr_order s),
       rr_cursor := rr_cursor s mod max (length (remove1 rid (rr_order s))) 1,
       rr_ws_bindings := fold AList.delete (map fst (filter (\<lambda>(_, b). wb_runner_id b = rid) (rr_ws_bindings s)))
         (rr_ws_bindings s)\<rparr>))"
  by (simp add: remove_runner_def op_run split: option.split)

lemma dict_ok_fold_delete: "dict_ok d \<Longrightarrow> dict_ok (fold AList.delete ks d)"
  by (induction ks arbitrary: d) auto

lemma map_of_fold_delete: "map_of (fold AList.delete ks d) k = (if k \<in> set ks then None else map_of d k)"
  by (induction ks arbitrary: d) auto

lemma remove_runner_ok: "runners_ok s \<Longrightarrow> runners_ok (snd (remove_runner rid s))"
  unfolding remove_runner_run runners_ok_def
  by (auto simp: dict_ok_fold_delete mod_cursor map_of_Some_keys set_remove1_eq split: option.split)

lemma record_health_run:
  "record_health rid h s = (case map_of (rr_runners s) rid of
     None \<Rightarrow> (Inr None, s)
   | Some c \<Rightarrow> (Inr (Some (apply_health h c)), s\<lparr>rr_runners := AList.update rid (apply_health h c) (rr_runners s)\<rparr>))"
  by (simp add: record_health_def op_run split: option.split)

lemma apply_health_id [simp]: "r_id (apply_health h c) = r_id c"
  by (simp add: apply_health_def Let_def)

lemma record_health_ok: "runners_ok s \<Longrightarrow> runners_ok (snd (record_health rid h s))"
  unfolding record_health_run runners_ok_def
  by (auto simp: insert_absorb map_of_Some_keys split: option.split)

lemma register_run:
  "register_session_ws_endpoint sid rid target s =
     (if target = None \<or> target = Some []
      then (Inr None, s\<lparr>rr_ws_bindings := AList.delete sid (rr_ws_bindings s)\<rparr>)
      else (case format_id (uuid_str sid) (rr_ws_template s) of
         Inl e \<Rightarrow> (Inl e, s)
       | Inr public \<Rightarrow> (Inr (Some public), s\<lparr>rr_ws_bindings := AList.update sid
           \<lparr>wb_runner_id = rid, wb_target = the target, wb_public = public\<rparr> (rr_ws_bindings s)\<rparr>)))"
  by (auto simp: register_session_ws_endpoint_def op_run split: sum.split)

lemma register_ok: "runners_ok s \<Longrightarrow> runners_ok (snd (register_session_ws_endpoint sid rid target s))"
  unfolding register_run by (auto simp: runners_ok_def split: sum.split)

lemma probe_ok: "runners_ok s \<Longrightarrow> runners_ok (snd (probe r now response s))"
proof (rule keepsD [where I = runners_ok])
  have "keeps runners_ok (record_health (r_id r) h)" for h by (rule keepsI) (rule record_health_ok)
  then show "keeps runners_ok (probe r now response)"
    unfolding probe_def by (auto intro!: keep_rules)
qed

section \<open>Selection\<close>

text \<open>The runners in rotation order from the cursor, and those of them that fit a request.\<close>

definition rotation :: "runner_registry \<Rightarrow> runner list" where
  "rotation s = map (\<lambda>rid. the (map_of (rr_runners s) rid)) (rotate (rr_cursor s) (rr_order s))"

definition eligible :: "bool \<Rightarrow> bool \<Rightarrow> runner_registry \<Rightarrow> runner list" where
  "eligible vnc healthy s = filter (selectable vnc healthy) (rotation s)"

lemma runner_at_order:
  "runners_ok s \<Longrightarrow> i < length (rr_order s) \<Longrightarrow>
    runner_at (rr_runners s) (rr_order s ! i) = Inr (the (map_of (rr_runners s) (rr_order s ! i)))"
proof -
  assume s: "runners_ok s" and i: "i < length (rr_order s)"
  then have "rr_order s ! i \<in> keys (rr_runners s)" unfolding runners_ok_def by (metis nth_mem)
  then show ?thesis by (auto simp: runner_at_def keys_map_of)
qed

lemma rotation_nth:
  "i < length (rr_order s) \<Longrightarrow>
    rotation s ! i = the (map_of (rr_runners s) (rr_order s ! ((rr_cursor s + i) mod length (rr_order s))))"
  by (simp add: rotation_def nth_rotate)

lemma length_rotation [simp]: "length (rotation s) = length (rr_order s)"
  by (simp add: rotation_def)

text \<open>The scan finds the first fitting runner of the rotation and moves the cursor past it.\<close>

lemma scan_runners_find:
  assumes "runners_ok s" and "off + n = length (rr_order s)"
  shows "case find (\<lambda>i. selectable vnc healthy (rotation s ! i)) [off..<length (rr_order s)] of
      None \<Rightarrow> scan_runners vnc healthy s off n = Inr None
    | Some i \<Rightarrow> scan_runners vnc healthy s off n =
        Inr (Some (rotation s ! i, (rr_cursor s + i + 1) mod length (rr_order s)))"
  using assms(2)
proof (induction n arbitrary: off)
  case (Suc n)
  then have len: "off < length (rr_order s)" by simp
  have up: "[off..<length (rr_order s)] = off # [Suc off..<length (rr_order s)]"
    using len by (simp add: upt_conv_Cons)
  have "(rr_cursor s + off) mod length (rr_order s) < length (rr_order s)" using len by (intro mod_less_divisor) linarith
  then have at: "runner_at (rr_runners s) (rr_order s ! ((rr_cursor s + off) mod length (rr_order s))) = Inr (rotation s ! off)"
    by (simp add: runner_at_order [OF assms(1)] rotation_nth [OF len])
  show ?case
  proof (cases "selectable vnc healthy (rotation s ! off)")
    case True
    then show ?thesis unfolding up by (simp add: Let_def at mod_Suc_eq)
  next
    case False
    then show ?thesis using Suc.IH [of "Suc off"] Suc.prems unfolding up by (simp add: Let_def at split: option.splits)
  qed
qed simp

lemma rotate_whole: "k \<le> length xs \<Longrightarrow> rotate k xs = drop k xs @ take k xs"
  by (cases "k = length xs") (simp_all add: rotate_drop_take)

lemma rotation_move:
  assumes "i < length (rr_order s)"
  shows "rotation (s\<lparr>rr_cursor := (rr_cursor s + i + 1) mod length (rr_order s)\<rparr>) =
    drop (Suc i) (rotation s) @ take (Suc i) (rotation s)"
proof -
  let ?n = "length (rr_order s)"
  have "rotate ((rr_cursor s + i + 1) mod ?n) (rr_order s) = rotate (Suc i) (rotate (rr_cursor s) (rr_order s))"
    by (simp add: rotate_rotate rotate_conv_mod [symmetric] add.commute)
  also have "\<dots> = drop (Suc i) (rotate (rr_cursor s) (rr_order s)) @ take (Suc i) (rotate (rr_cursor s) (rr_order s))"
    by (rule rotate_whole) (use assms in simp)
  finally show ?thesis by (simp add: rotation_def drop_map take_map)
qed

text \<open>One selection: the first eligible runner, which goes to the end of the next rotation.\<close>

lemma select_next_run:
  assumes s: "runners_ok s"
  shows "case eligible vnc healthy s of
      [] \<Rightarrow> select_next vnc healthy s = (Inr None, s)
    | r # _ \<Rightarrow> \<exists>c < length (rr_order s). select_next vnc healthy s = (Inr (Some r), s\<lparr>rr_cursor := c\<rparr>) \<and>
        eligible vnc healthy (s\<lparr>rr_cursor := c\<rparr>) = rotate1 (eligible vnc healthy s)"
proof -
  let ?P = "selectable vnc healthy" and ?xs = "rotation s" and ?n = "length (rr_order s)"
  note scan = scan_runners_find [OF s, of 0 ?n vnc healthy]
  show ?thesis
  proof (cases "find (\<lambda>i. ?P (?xs ! i)) [0..<?n]")
    case None
    then have "\<forall>i < ?n. \<not> ?P (?xs ! i)" by (auto simp: find_None_iff)
    then have "eligible vnc healthy s = []"
      by (auto simp: eligible_def filter_empty_conv in_set_conv_nth)
    with scan None show ?thesis by (simp add: select_next_def op_run)
  next
    case (Some i)
    then have i: "i < ?n" "?P (?xs ! i)" and less: "\<forall>j < i. \<not> ?P (?xs ! j)"
      by (auto simp: find_Some_iff)
    have tk: "filter ?P (take i ?xs) = []"
      using less i by (auto simp: filter_empty_conv in_set_conv_nth)
    have "?xs = take i ?xs @ ?xs ! i # drop (Suc i) ?xs" using i by (simp add: id_take_nth_drop)
    then have "filter ?P ?xs = filter ?P (take i ?xs @ ?xs ! i # drop (Suc i) ?xs)" by (rule arg_cong)
    then have el: "eligible vnc healthy s = ?xs ! i # filter ?P (drop (Suc i) ?xs)"
      using tk i by (simp add: eligible_def)
    have "eligible vnc healthy (s\<lparr>rr_cursor := (rr_cursor s + i + 1) mod ?n\<rparr>) = filter ?P (drop (Suc i) ?xs) @ [?xs ! i]"
      using i tk unfolding eligible_def rotation_move [OF i(1)] by (simp add: take_Suc_conv_app_nth)
    moreover have "(rr_cursor s + i + 1) mod ?n < ?n" using i by (intro mod_less_divisor) linarith
    ultimately show ?thesis
      using scan Some el by (auto simp: select_next_def op_run)
  qed
qed

lemma runners_ok_cursor: "runners_ok s \<Longrightarrow> c < length (rr_order s) \<Longrightarrow> runners_ok (s\<lparr>rr_cursor := c\<rparr>)"
  by (simp add: runners_ok_def)

lemma select_next_ok: "runners_ok s \<Longrightarrow> runners_ok (snd (select_next vnc healthy s))"
  using select_next_run [of s vnc healthy] runners_ok_cursor [of s] by (fastforce split: list.splits)

lemma runner_step_ok: "runners_ok s \<Longrightarrow> runner_step s t \<Longrightarrow> runners_ok t"
proof -
  assume s: "runners_ok s" and "runner_step s t"
  note kept = upsert_runner_ok [OF s] register_ok [OF s] remove_runner_ok [OF s] select_next_ok [OF s]
    record_health_ok [OF s] probe_ok [OF s]
  have template: "runners_ok (snd (set_session_ws_template tm s))" for tm
    using s by (simp add: set_session_ws_template_def op_run runners_ok_def)
  have dropped: "runners_ok (snd (drop_session_ws_endpoint sid s))" for sid
    using s by (simp add: drop_session_ws_endpoint_def runners_ok_def)
  from \<open>runner_step s t\<close> show ?thesis
    by cases (metis kept template dropped snd_conv)+
qed

interpretation runners: transition_invariant runners_init runner_step runners_ok
  by unfold_locales (erule runners_ok_init, erule (1) runner_step_ok)

interpretation runner_store: keyed_store "\<lambda>s. map_of (rr_runners s)" upsert_runner r_id "\<lambda>r r'. r' = r"
  by unfold_locales (simp add: wp_def upsert_runner_run)

lemma rotation_set:
  assumes "runners_ok s"
  shows "distinct (map r_id (rotation s))" and "set (rotation s) = {r. \<exists>rid. map_of (rr_runners s) rid = Some r}"
proof -
  have "r_id (the (map_of (rr_runners s) rid)) = rid" if "rid \<in> set (rr_order s)" for rid
    using assms that by (auto simp: runners_ok_def keys_map_of)
  then have "map r_id (rotation s) = rotate (rr_cursor s) (rr_order s)"
    unfolding rotation_def by (simp only: map_map o_def) (rule map_idI, simp)
  then show "distinct (map r_id (rotation s))" using assms by (simp add: runners_ok_def)
  have "set (rotation s) = (\<lambda>rid. the (map_of (rr_runners s) rid)) ` keys (rr_runners s)"
    using assms by (simp add: rotation_def runners_ok_def)
  also have "\<dots> = {r. \<exists>rid. map_of (rr_runners s) rid = Some r}" (is "?A = ?B")
  proof (intro equalityI subsetI)
    fix r assume "r \<in> ?A"
    then obtain rid where "rid \<in> keys (rr_runners s)" "r = the (map_of (rr_runners s) rid)" by blast
    then show "r \<in> ?B" unfolding keys_map_of by force
  next
    fix r assume "r \<in> ?B"
    then obtain rid where r: "map_of (rr_runners s) rid = Some r" by blast
    then have "r = the (map_of (rr_runners s) rid)" by simp
    with map_of_Some_keys [OF r] show "r \<in> ?A" by (rule rev_image_eqI)
  qed
  finally show "set (rotation s) = {r. \<exists>rid. map_of (rr_runners s) rid = Some r}" .
qed

text \<open>A series of selections for the same kind of request.\<close>

fun select_times :: "bool \<Rightarrow> bool \<Rightarrow> nat \<Rightarrow> runner option list runner_op" where
  "select_times vnc healthy 0 = ret []"
| "select_times vnc healthy (Suc n) = bindm (select_next vnc healthy) (\<lambda>r.
     bindm (select_times vnc healthy n) (\<lambda>rs. ret (r # rs)))"

lemma select_times_run:
  "runners_ok s \<Longrightarrow> eligible vnc healthy s = E \<Longrightarrow> E \<noteq> [] \<Longrightarrow>
    fst (select_times vnc healthy n s) = Inr (map (\<lambda>k. Some (E ! (k mod length E))) [0..<n])"
proof (induction n arbitrary: s E)
  case 0
  then show ?case by (simp add: op_run)
next
  case (Suc n)
  then obtain r rs where E: "E = r # rs" by (cases E) auto
  obtain c where c: "c < length (rr_order s)"
    "select_next vnc healthy s = (Inr (Some r), s\<lparr>rr_cursor := c\<rparr>)"
    "eligible vnc healthy (s\<lparr>rr_cursor := c\<rparr>) = rotate1 E"
    using select_next_run [OF Suc.prems(1), of vnc healthy] Suc.prems(2) E by auto
  have "runners_ok (s\<lparr>rr_cursor := c\<rparr>)" by (rule runners_ok_cursor) fact+
  from Suc.IH [OF this c(3)] have "fst (select_times vnc healthy n (s\<lparr>rr_cursor := c\<rparr>)) =
      Inr (map (\<lambda>k. Some (rotate1 E ! (k mod length E))) [0..<n])" using Suc.prems(3) by simp
  moreover have "rotate1 E ! (k mod length E) = E ! (Suc k mod length E)" for k
    using Suc.prems(3) by (simp add: nth_rotate1 mod_Suc_eq)
  ultimately have rest: "fst (select_times vnc healthy n (s\<lparr>rr_cursor := c\<rparr>)) =
      Inr (map (\<lambda>k. Some (E ! (Suc k mod length E))) [0..<n])" by simp
  have "[0..<Suc n] = 0 # map Suc [0..<n]" by (simp add: upt_conv_Cons map_Suc_upt del: upt_Suc)
  then show ?case
    using rest E by (simp add: exec_op c(2) op_run case_prod_beta comp_def del: upt_Suc)
qed

text \<open>
  C20: Round robin: in every reachable state of the runner registry, a series of selections for the same
  kind of request goes through the eligible runners in rotation order, again and again. The eligible
  runners are the registered ones that are selectable, each once, so every one of them is
  selected once in any series as long as their number.
\<close>

theorem selection_is_fair:
  assumes "reachable runners_init runner_step s" and "eligible vnc healthy s \<noteq> []"
  shows "fst (select_times vnc healthy n s) =
      Inr (map (\<lambda>k. Some (eligible vnc healthy s ! (k mod length (eligible vnc healthy s)))) [0..<n]) \<and>
    distinct (map r_id (eligible vnc healthy s)) \<and>
    set (eligible vnc healthy s) = {r. \<exists>rid. map_of (rr_runners s) rid = Some r \<and> selectable vnc healthy r}"
proof -
  have s: "runners_ok s" using assms(1) by (rule runners.reachable_inv)
  have "distinct (map r_id (eligible vnc healthy s))"
    using rotation_set(1) [OF s] by (simp add: eligible_def distinct_map_filter)
  moreover have "set (eligible vnc healthy s) = {r. \<exists>rid. map_of (rr_runners s) rid = Some r \<and> selectable vnc healthy r}"
    using rotation_set(2) [OF s] by (auto simp: eligible_def)
  ultimately show ?thesis using select_times_run [OF s refl assms(2)] by blast
qed

section \<open>Public endpoints\<close>

lemma hex_digit_inj: "m < 16 \<Longrightarrow> n < 16 \<Longrightarrow> hex_digit m = hex_digit n \<Longrightarrow> m = n"
proof -
  assume "m < 16" "n < 16" "hex_digit m = hex_digit n"
  then have "(of_char (hex_digit m) :: nat) = of_char (hex_digit n)" by simp
  with \<open>m < 16\<close> \<open>n < 16\<close> show ?thesis by (simp add: hex_digit_def split: if_splits)
qed

lemma hex_digit_not_dash: "n < 16 \<Longrightarrow> hex_digit n \<noteq> CHR ''-''"
proof
  assume "n < 16" "hex_digit n = CHR ''-''"
  then have "(of_char (hex_digit n) :: nat) = 45" by simp
  with \<open>n < 16\<close> show False by (simp add: hex_digit_def split: if_splits)
qed

lemma hex_fixed_length [simp]: "length (hex_fixed k n) = k"
  by (induction k n rule: hex_fixed.induct) auto

lemma hex_fixed_no_dash: "CHR ''-'' \<notin> set (hex_fixed k n)"
  by (induction k n rule: hex_fixed.induct) (auto dest: sym simp: hex_digit_not_dash)

lemma hex_fixed_inj: "m < 16 ^ k \<Longrightarrow> n < 16 ^ k \<Longrightarrow> hex_fixed k m = hex_fixed k n \<Longrightarrow> m = n"
proof (induction k arbitrary: m n)
  case (Suc k)
  then have "m div 16 = n div 16" by (simp add: less_mult_imp_div_less mult.commute)
  moreover have "m mod 16 = n mod 16" using Suc.prems(3) hex_digit_inj [of "m mod 16" "n mod 16"] by simp
  ultimately show ?case by (metis div_mult_mod_eq)
qed simp

lemma uuid_str_digits: "filter (\<lambda>c. c \<noteq> CHR ''-'') (uuid_str n) = hex_fixed 32 n"
proof -
  let ?h = "hex_fixed 32 n"
  have plain: "filter (\<lambda>c. c \<noteq> CHR ''-'') w = w" if "set w \<subseteq> set ?h" for w
    using hex_fixed_no_dash [of 32 n] that by (auto intro!: filter_True)
  note parts = plain [OF set_take_subset] plain [OF set_drop_subset]
    plain [OF order_trans [OF set_take_subset set_drop_subset]]
  have "take 4 (drop 16 ?h) @ drop 20 ?h = drop 16 ?h" using append_take_drop_id [of 4 "drop 16 ?h"] by simp
  then have "take 4 (drop 12 ?h) @ take 4 (drop 16 ?h) @ drop 20 ?h = drop 12 ?h"
    using append_take_drop_id [of 4 "drop 12 ?h"] by simp
  then have "take 4 (drop 8 ?h) @ take 4 (drop 12 ?h) @ take 4 (drop 16 ?h) @ drop 20 ?h = drop 8 ?h"
    using append_take_drop_id [of 4 "drop 8 ?h"] by simp
  then have "take 8 ?h @ take 4 (drop 8 ?h) @ take 4 (drop 12 ?h) @ take 4 (drop 16 ?h) @ drop 20 ?h = ?h" by simp
  then show ?thesis unfolding uuid_str_def Let_def by (simp only: filter_append parts) simp
qed

lemma uuid_str_inj: "m < 2 ^ 128 \<Longrightarrow> n < 2 ^ 128 \<Longrightarrow> uuid_str m = uuid_str n \<Longrightarrow> m = n"
  using uuid_str_digits [of m] uuid_str_digits [of n] hex_fixed_inj [of m 32 n] by simp

lemma uuid_str_length: "length (uuid_str n) = 36"
  by (simp add: uuid_str_def Let_def)

text \<open>Two texts of the same length render differently, or the template renders all texts alike.\<close>

lemma format_id_separates:
  "length v = length w \<Longrightarrow> v \<noteq> w \<Longrightarrow> format_id v s = Inr r \<Longrightarrow> format_id w s = Inr r \<Longrightarrow>
    format_id x s = Inr r"
proof (induction v s arbitrary: r rule: format_id.induct)
  case (1 v s)
  show ?case
  proof (cases s)
    case Nil
    then show ?thesis using 1 by (simp add: format_id.simps [of _ "[]"])
  next
    case (Cons c t)
    show ?thesis
      using "1.prems" "1.IH" [OF Cons] unfolding Cons format_id.simps [of _ "c # t"]
      by (auto split: if_splits)
  qed
qed

text \<open>
  As long as the template renders its id, two sessions never share a public WebSocket URL:
  registering their endpoints returns different URLs, and each registration is what the lookups of
  the public URL and of the runner's endpoint then find.
\<close>

theorem public_endpoints_distinct:
  assumes "i < 2 ^ 128" and "j < 2 ^ 128" and "i \<noteq> j"
    and "register_session_ws_endpoint i rid (Some u) s = (Inr (Some p), s')"
    and "register_session_ws_endpoint j rid' (Some v) t = (Inr (Some q), t')"
    and "rr_ws_template t = rr_ws_template s"
    and "format_id ''a'' (rr_ws_template s) \<noteq> format_id ''b'' (rr_ws_template s)"
  shows "p \<noteq> q \<and> resolve_session_ws_public i s' = (Inr (Some p), s') \<and>
    resolve_session_ws_target i s' = (Inr (Some u), s')"
proof -
  have p: "format_id (uuid_str i) (rr_ws_template s) = Inr p"
    using assms(4) by (auto simp: register_run split: if_splits sum.splits)
  have q: "format_id (uuid_str j) (rr_ws_template s) = Inr q"
    using assms(5,6) by (auto simp: register_run split: if_splits sum.splits)
  have ne: "uuid_str i \<noteq> uuid_str j" using uuid_str_inj [OF assms(1,2)] assms(3) by blast
  have "p \<noteq> q"
  proof
    assume "p = q"
    then have "format_id x (rr_ws_template s) = Inr p" for x
      using format_id_separates [OF _ ne p] q by (simp add: uuid_str_length)
    with assms(7) show False by simp
  qed
  with assms(4) show ?thesis
    by (auto simp: register_run resolve_session_ws_public_def resolve_session_ws_target_def
        split: if_splits sum.splits)
qed

section \<open>Health and removal\<close>

text \<open>
  A health record changes one runner, never its identity, and leaves its reported free slots between
  zero and its capacity.
\<close>

lemma record_health_bounds:
  assumes "record_health rid h s = (Inr (Some r), t)"
  shows "map_of (rr_runners t) = (map_of (rr_runners s))(rid \<mapsto> r)"
    and "\<exists>c. map_of (rr_runners s) rid = Some c \<and> r_id r = r_id c"
    and "r_healthy r = hu_healthy h"
    and "hu_available_slots h \<noteq> None \<Longrightarrow>
      \<exists>k. r_available_slots r = Some k \<and> 0 \<le> k \<and> k \<le> max 0 (r_total_slots r)"
proof -
  obtain c where c: "map_of (rr_runners s) rid = Some c" "r = apply_health h c"
    "t = s\<lparr>rr_runners := AList.update rid r (rr_runners s)\<rparr>"
    using assms by (auto simp: record_health_run split: option.splits)
  show "map_of (rr_runners t) = (map_of (rr_runners s))(rid \<mapsto> r)" by (simp add: c(3))
  show "\<exists>c. map_of (rr_runners s) rid = Some c \<and> r_id r = r_id c" by (simp add: c(1,2))
  show "r_healthy r = hu_healthy h" by (simp add: c(2) apply_health_def Let_def)
  show "\<exists>k. r_available_slots r = Some k \<and> 0 \<le> k \<and> k \<le> max 0 (r_total_slots r)"
    if "hu_available_slots h \<noteq> None"
    using that by (auto simp: c(2) apply_health_def Let_def)
qed

lemma remove_runner_forgets:
  assumes "map_of (rr_runners s) rid = Some r"
    and "dict_ok (rr_ws_bindings s)" and "distinct (rr_order s)"
    and "remove_runner rid s = (x, t)"
  shows "x = Inr (Some r)" and "map_of (rr_runners t) = (map_of (rr_runners s))(rid := None)"
    and "rid \<notin> set (rr_order t)"
    and "map_of (rr_ws_bindings t) sid =
      (case map_of (rr_ws_bindings s) sid of None \<Rightarrow> None
       | Some b \<Rightarrow> if wb_runner_id b = rid then None else Some b)"
proof -
  note run = remove_runner_run [of rid s, unfolded assms(1) option.case assms(4)]
  show "x = Inr (Some r)" "map_of (rr_runners t) = (map_of (rr_runners s))(rid := None)"
    "rid \<notin> set (rr_order t)"
    using run assms(3) by simp_all
  have "sid \<in> set (map fst (filter (\<lambda>(_, b). wb_runner_id b = rid) (rr_ws_bindings s))) \<longleftrightarrow>
      (\<exists>b. map_of (rr_ws_bindings s) sid = Some b \<and> wb_runner_id b = rid)"
    using dict_member_lookup [OF assms(2)] by force
  then show "map_of (rr_ws_bindings t) sid = (case map_of (rr_ws_bindings s) sid of None \<Rightarrow> None
       | Some b \<Rightarrow> if wb_runner_id b = rid then None else Some b)"
    using run by (auto simp: map_of_fold_delete split: option.splits)
qed

section \<open>The properties at work\<close>

definition demo_fleet_runner :: "string \<Rightarrow> bool \<Rightarrow> runner" where
  "demo_fleet_runner rid vnc = \<lparr>r_id = rid, r_base_url = ''http://r'', r_state = RunnerIDLE, r_total_slots = 2,
     r_available_slots = Some 1, r_healthy = True, r_supports_vnc = vnc, r_vnc_http_url_template = None,
     r_vnc_ws_url_template = None, r_last_heartbeat_at = None, r_capabilities = {}\<rparr>"

definition demo_fleet :: runner_registry where
  "demo_fleet = init_runners [demo_fleet_runner ''a'' True, demo_fleet_runner ''b'' False, demo_fleet_runner ''c'' True]"

lemma demo_fleet_reachable: "reachable runners_init runner_step demo_fleet"
proof (rule reach_init)
  have "distinct (map r_id [demo_fleet_runner ''a'' True, demo_fleet_runner ''b'' False, demo_fleet_runner ''c'' True])"
    by (simp add: demo_fleet_runner_def)
  then show "runners_init demo_fleet" unfolding runners_init_def demo_fleet_def by blast
qed

lemma demo_fleet_eligible:
  "eligible True True demo_fleet = [demo_fleet_runner ''a'' True, demo_fleet_runner ''c'' True]"
  by (simp add: eligible_def rotation_def demo_fleet_def init_runners_def selectable_def demo_fleet_runner_def)

lemma selection_is_fair_witness:
  "fst (select_times True True 3 demo_fleet) = Inr [Some (demo_fleet_runner ''a'' True),
     Some (demo_fleet_runner ''c'' True), Some (demo_fleet_runner ''a'' True)]"
proof -
  have "eligible True True demo_fleet \<noteq> []" by (simp add: demo_fleet_eligible)
  from selection_is_fair [OF demo_fleet_reachable this, of 3] show ?thesis
    by (simp add: demo_fleet_eligible upt_rec eval_nat_numeral)
qed

lemma demo_uuids:
  "format_id (uuid_str 16) ''/sessions/{id}/ws'' = Inr ''/sessions/00000000-0000-0000-0000-000000000010/ws''"
  "format_id (uuid_str 255) ''/sessions/{id}/ws'' = Inr ''/sessions/00000000-0000-0000-0000-0000000000ff/ws''"
  "format_id ''a'' ''/sessions/{id}/ws'' \<noteq> format_id ''b'' ''/sessions/{id}/ws''"
  by code_simp+

lemma public_endpoints_distinct_witness:
  "\<exists>s' t'. register_session_ws_endpoint 16 ''a'' (Some ''ws://a/1'') demo_fleet =
       (Inr (Some ''/sessions/00000000-0000-0000-0000-000000000010/ws''), s') \<and>
     register_session_ws_endpoint 255 ''c'' (Some ''ws://c/2'') s' =
       (Inr (Some ''/sessions/00000000-0000-0000-0000-0000000000ff/ws''), t') \<and>
     resolve_session_ws_target 16 s' = (Inr (Some ''ws://a/1''), s')"
proof -
  have tm: "rr_ws_template demo_fleet = ''/sessions/{id}/ws''" by (simp add: demo_fleet_def init_runners_def)
  obtain s' where s': "register_session_ws_endpoint 16 ''a'' (Some ''ws://a/1'') demo_fleet =
       (Inr (Some ''/sessions/00000000-0000-0000-0000-000000000010/ws''), s')"
     "rr_ws_template s' = rr_ws_template demo_fleet"
    by (simp add: register_run tm demo_uuids)
  obtain t' where t': "register_session_ws_endpoint 255 ''c'' (Some ''ws://c/2'') s' =
       (Inr (Some ''/sessions/00000000-0000-0000-0000-0000000000ff/ws''), t')"
    by (simp add: register_run s'(2) tm demo_uuids)
  have fields: "format_id ''a'' (rr_ws_template demo_fleet) \<noteq> format_id ''b'' (rr_ws_template demo_fleet)"
    unfolding tm by (rule demo_uuids(3))
  from public_endpoints_distinct [OF _ _ _ s'(1) t' s'(2) fields] s'(1) t' show ?thesis by auto
qed

end
