(* ===== verification/Vnc_Overrides.thy ===== *)
theory Vnc_Overrides
  imports Core_Models Py_Netloc Runner_Registry
begin

text \<open>
  Public VNC URLs (\<open>services/gateway/app/services/vnc_overrides.py\<close>): a runner's override template is
  rendered for a session and merged with the URL the runner reported.
\<close>

declare map_of_eq_Some_iff [simp del] Some_eq_map_of_iff [simp del]

section \<open>Paths\<close>

definition rstrip_slash :: "string \<Rightarrow> string" where
  "rstrip_slash = rstrip_by (\<lambda>c. c = CHR ''/'')"

definition segments :: "string \<Rightarrow> string list" where
  "segments p = filter (\<lambda>s. s \<noteq> []) (split_on (CHR ''/'') p)"

fun common_prefix :: "string list \<Rightarrow> string list \<Rightarrow> nat" where
  "common_prefix (x # xs) (y # ys) = (if x = y then Suc (common_prefix xs ys) else 0)"
| "common_prefix _ _ = 0"

definition merge_vnc_paths :: "string \<Rightarrow> string \<Rightarrow> string" where
  "merge_vnc_paths override fallback =
     (let base = rstrip_slash override;
          base_segments = segments base; fallback_segments = segments fallback;
          leading = (starts_with ''/'' override \<or> starts_with ''/'' fallback)
      in if fallback = [] \<or> fallback = ''/''
         then (if base \<noteq> [] then base else if fallback \<noteq> [] then fallback else ''/'')
         else if base_segments = [] then
           (if fallback_segments = [] then (if leading then ''/'' else [])
            else (if leading then ''/'' else []) @ join_with ''/'' fallback_segments)
         else if fallback_segments \<noteq> [] \<and> length base_segments \<le> length fallback_segments \<and>
             drop (length fallback_segments - length base_segments) fallback_segments = base_segments
         then (if leading then ''/'' else []) @ join_with ''/'' base_segments
         else (let merged = base_segments @ drop (common_prefix base_segments fallback_segments) fallback_segments
           in if merged = [] then ''/''
              else (if leading then ''/'' else []) @ join_with ''/'' merged))"

section \<open>One URL\<close>

text \<open>The reported parameters whose key is new, the first of each key.\<close>

fun add_unseen :: "(string \<times> string) list \<Rightarrow> (string \<times> string) list \<Rightarrow> (string \<times> string) list" where
  "add_unseen items [] = items"
| "add_unseen items ((k, v) # rest) =
     add_unseen (if k \<in> fst ` set items then items else items @ [(k, v)]) rest"

definition no_url :: url_parts where
  "no_url = \<lparr>u_scheme = [], u_netloc = [], u_path = [], u_params = [], u_query = [], u_fragment = []\<rparr>"

definition merge_parts :: "url_parts \<Rightarrow> url_parts \<Rightarrow> url_parts" where
  "merge_parts p f =
     (let path = merge_vnc_paths (u_path p) (u_path f)
      in \<lparr>u_scheme = (if u_scheme p \<noteq> [] then u_scheme p else u_scheme f),
          u_netloc = (if u_netloc p \<noteq> [] then u_netloc p else u_netloc f),
          u_path = (if path \<noteq> [] then path else ''/''), u_params = [],
          u_query = urlencode (add_unseen (parse_qsl True (u_query p)) (parse_qsl True (u_query f))),
          u_fragment = []\<rparr>)"

text \<open>
  A template that cannot be rendered or parsed gives the reported URL; a reported URL that cannot be
  parsed raises. An absent reported URL has no parts (\<open>no_url\<close>).
\<close>

definition build_public_vnc_url :: "string option \<Rightarrow> string \<Rightarrow> string option \<Rightarrow> string option res" where
  "build_public_vnc_url template sid fallback =
     (case template of
        None \<Rightarrow> Inr fallback
      | Some t \<Rightarrow> if t = [] then Inr fallback
          else (case format_id sid t of
            Inl _ \<Rightarrow> Inr fallback
          | Inr formatted \<Rightarrow> (case urlparse formatted of
              Inl _ \<Rightarrow> Inr fallback
            | Inr p \<Rightarrow> res_bind (case fallback of
                  Some u \<Rightarrow> if u = [] then Inr no_url else urlparse u
                | None \<Rightarrow> Inr no_url)
                (\<lambda>f. Inr (Some (urlunparse (merge_parts p f)))))))"

section \<open>The details of a session\<close>

text \<open>\<open>any_url\<close> is pydantic's conversion of a string to a URL: its text or the validation error.\<close>

definition apply_vnc_overrides ::
  "(string \<Rightarrow> url res) \<Rightarrow> runner \<Rightarrow> vnc_details option \<Rightarrow> string \<Rightarrow> vnc_details option res" where
  "apply_vnc_overrides any_url r details sid =
     (case details of
        None \<Rightarrow> Inr None
      | Some d \<Rightarrow>
          res_bind (build_public_vnc_url (r_vnc_http_url_template r) sid (vd_http_url d)) (\<lambda>http.
          res_bind (build_public_vnc_url (r_vnc_ws_url_template r) sid (vd_websocket_url d)) (\<lambda>ws.
            if http = vd_http_url d \<and> ws = vd_websocket_url d then Inr (Some d)
            else
              let coerce = (\<lambda>u. case u of None \<Rightarrow> Inr None | Some u \<Rightarrow> res_bind (any_url u) (\<lambda>v. Inr (Some v)))
              in res_bind (coerce http) (\<lambda>http'. res_bind (coerce ws) (\<lambda>ws'.
                 res_bind (validate_vnc_details (d\<lparr>vd_http_url := http', vd_websocket_url := ws'\<rparr>)) (\<lambda>d'.
                   Inr (Some d')))))))"

section \<open>The public URL\<close>

lemma segments_join:
  assumes "\<And>w. w \<in> set ws \<Longrightarrow> w \<noteq> [] \<and> CHR ''/'' \<notin> set w"
  shows "segments (join_with ''/'' ws) = ws"
proof (cases ws)
  case Nil
  then show ?thesis by (simp add: segments_def)
next
  case (Cons w ws')
  then have "split_on (CHR ''/'') (join_with ''/'' ws) = ws" using assms by (intro split_on_join) auto
  then show ?thesis using assms by (simp add: segments_def filter_id_conv)
qed

lemma segments_leading: "segments (CHR ''/'' # p) = segments p"
  by (simp add: segments_def)

lemma split_on_nonempty: "split_on c s \<noteq> []"
  by (cases s) (auto split: list.split)

lemma split_on_none: "w \<in> set (split_on c s) \<Longrightarrow> c \<notin> set w"
proof (induction s arbitrary: w)
  case (Cons x s)
  obtain v vs where "split_on c s = v # vs" using split_on_nonempty [of c s] by (meson neq_Nil_conv)
  with Cons show ?case by (auto split: if_splits)
qed simp

lemma segments_no_slash: "w \<in> set (segments p) \<Longrightarrow> w \<noteq> [] \<and> CHR ''/'' \<notin> set w"
  using split_on_none by (auto simp: segments_def)

lemma segments_rstrip: "segments (rstrip_slash p) = segments p"
proof (induction p rule: rev_induct)
  case (snoc c p)
  have split_snoc: "split_on (CHR ''/'') (p @ ''/'') = split_on (CHR ''/'') p @ [[]]"
    by (induction p) (auto simp: split_on_nonempty split: list.split)
  show ?case
  proof (cases "c = CHR ''/''")
    case True
    have "rstrip_slash (p @ ''/'') = rstrip_slash p" by (simp add: rstrip_slash_def rstrip_by_def)
    moreover have "segments (p @ ''/'') = segments p" by (simp add: segments_def split_snoc)
    ultimately show ?thesis using snoc True by simp
  next
    case False
    then show ?thesis by (simp add: rstrip_slash_def rstrip_by_def)
  qed
qed (simp add: rstrip_slash_def rstrip_by_def)

text \<open>The merged path lies below the override's path.\<close>

lemma merge_vnc_paths_below:
  "take (length (segments override)) (segments (merge_vnc_paths override fallback)) = segments override"
proof -
  have joined: "segments ((if l then ''/'' else []) @ join_with ''/'' ws) = ws"
    if "set ws \<subseteq> set (segments override) \<union> set (segments fallback)" for ws and l :: bool
  proof -
    have "segments (join_with ''/'' ws) = ws" using that segments_no_slash by (intro segments_join) blast
    then show ?thesis by (simp add: segments_leading)
  qed
  let ?o = "segments override" and ?f = "segments fallback"
  have "set (?o @ drop n ?f) \<subseteq> set ?o \<union> set ?f" for n by (auto dest: in_set_dropD)
  note merged = joined [OF this]
  have base: "segments (rstrip_slash override) = ?o" by (rule segments_rstrip)
  show ?thesis
  proof (cases "?o = []")
    case True
    then show ?thesis by simp
  next
    case False
    then have "rstrip_slash override \<noteq> []" using base by (auto simp: segments_def)
    then show ?thesis
      using False joined [of ?o] merged base
      by (auto simp: merge_vnc_paths_def Let_def)
  qed
qed

lemma merge_path_chars: "set (merge_vnc_paths p f) \<subseteq> set p \<union> set f \<union> {CHR ''/''}"
proof -
  have sub: "set w \<subseteq> set x" if "w \<in> set (segments x)" for w x
    using that split_on_sub by (fastforce simp: segments_def)
  have joined: "set (join_with ''/'' ws) \<subseteq> set p \<union> set f \<union> {CHR ''/''}"
    if "set ws \<subseteq> set (segments p) \<union> set (segments f)" for ws
    using set_join_with [of "''/''" ws] that sub by fastforce
  have "set (segments p @ drop n (segments f)) \<subseteq> set (segments p) \<union> set (segments f)" for n
    by (auto dest: in_set_dropD)
  note merged = joined [OF this]
  have base: "set (rstrip_slash p) \<subseteq> set p"
    by (auto simp: rstrip_slash_def rstrip_by_def dest: set_dropWhileD)
  have lead: "set ((if l then ''/'' else []) @ w) \<subseteq> set p \<union> set f \<union> {CHR ''/''}"
    if "set w \<subseteq> set p \<union> set f \<union> {CHR ''/''}" for l :: bool and w
    using that by auto
  show ?thesis
    using base lead [OF merged] lead [OF joined, of "segments p"] lead [OF joined, of "segments f"]
    unfolding merge_vnc_paths_def Let_def segments_rstrip by (auto split: if_splits)
qed

lemma merge_path_no_marks:
  assumes "no_marks p" and "no_marks f"
  shows "no_marks (merge_vnc_paths p f)"
  using merge_path_chars [of p f] assms by (auto simp: no_marks_def)

text \<open>A URL with an absolute path is its parts written one after the other, and is read back so.\<close>

definition query_part :: "string \<Rightarrow> string" where
  "query_part q = (if q = [] then [] else ''?'' @ q)"

lemma urlunparse_text:
  assumes "u_scheme u \<noteq> []" and "u_netloc u \<noteq> []" and "u_path u \<noteq> []" and "u_params u = []" and "u_fragment u = []"
  shows "urlunparse u = u_scheme u @ ''://'' @ u_netloc u @
    (if starts_with ''/'' (u_path u) then u_path u else ''/'' @ u_path u) @ query_part (u_query u)"
  using assms by (cases "u_path u") (auto simp: urlunparse_def url_head_def url_tail_def query_part_def Let_def starts_with_Cons)

lemma urlparse_text:
  assumes s: "scheme_ok s" and n: "netloc_ok n" and path: "starts_with ''/'' path" "no_marks path"
    and safe: "\<forall>c \<in> set path. \<not> unsafe_char c" and query: "\<And>c. c \<in> set query \<Longrightarrow> query_char c"
    and p: "urlparse (s @ ''://'' @ n @ path @ query_part query) = Inr q"
  shows "u_path q = fst (split_params s path)"
proof -
  let ?url = "s @ ''://'' @ n @ path @ query_part query" and ?rest = "CHR ''/'' # CHR ''/'' # n @ path @ query_part query"
  have fs: "\<forall>c \<in> set s. \<not> unsafe_char c" "CHR '':'' \<notin> set s"
    using s scheme_char_not by (auto simp: scheme_ok_def list_all_iff)
  have fn: "\<forall>c \<in> set n. \<not> unsafe_char c" using n by (auto simp: netloc_ok_def list_all_iff)
  have fq: "\<forall>c \<in> set (query_part query). \<not> unsafe_char c" "CHR ''#'' \<notin> set query"
    using query query_char_safe by (auto simp: query_part_def unsafe_char_def)
  have "dropWhile is_control_or_space ?url = ?url"
    using s is_alpha_printable by (cases s) (auto simp: scheme_ok_def)
  moreover have "filter (\<lambda>c. \<not> unsafe_char c) ?url = ?url"
    using fs fn fq safe by (auto simp: filter_id_conv unsafe_char_def)
  ultimately have clean: "clean_url ?url = s @ CHR '':'' # ?rest" by (simp add: clean_url_def)
  have sch: "split_scheme (s @ CHR '':'' # ?rest) = (s, ?rest)"
    using s fs by (simp add: split_scheme_def partition_at_append scheme_ok_def)
  have start: "path \<noteq> []" "path_start (hd path)" using path(1) by (cases path; simp add: starts_with_def path_start_def)+
  have plain: "\<forall>c \<in> set n. \<not> path_start c" using n by (auto simp: netloc_ok_def list_all_iff)
  then have "dropWhile (\<lambda>c. \<not> path_start c) (n @ path @ query_part query) = path @ query_part query"
    "takeWhile (\<lambda>c. \<not> path_start c) (n @ path @ query_part query) = n"
    using start by (cases path; simp add: dropWhile_append2 takeWhile_append2)+
  then have net: "split_netloc ?rest = (n, path @ query_part query)"
    by (simp add: split_netloc_def starts_with_def)
  note tail = split_tail [OF path(2) fq(2), of "[]" "[]", simplified, folded query_part_def]
  obtain fr where frag: "split_fragment (path @ query_part query) = (path @ query_part query, fr)"
    using tail(1) by (metis prod.collapse)
  show ?thesis
    using p unfolding urlparse_def clean sch net prod.case Let_def frag tail(2)
    by (auto split: prod.splits if_splits)
qed

lemma urlparse_path_safe:
  assumes "urlparse s = Inr u"
  shows "\<forall>c \<in> set (u_path u). \<not> unsafe_char c"
proof -
  obtain scheme r1 where s1: "split_scheme (clean_url s) = (scheme, r1)" by force
  obtain netloc r2 where s2: "split_netloc r1 = (netloc, r2)" by force
  obtain r3 f where s3: "split_fragment r2 = (r3, f)" by force
  obtain r4 q where s4: "split_query r3 = (r4, q)" by force
  obtain path ps where s5: "split_params scheme r4 = (path, ps)" by force
  have part: "set a \<subseteq> set t" if "partition_at c t = (a, g, b)" for c t a g b
    using partition_at_parts [OF that] by (auto split: if_splits)
  have "set r3 \<subseteq> set r2" "set r4 \<subseteq> set r3"
    using s3 s4 part by (auto simp: split_fragment_def split_query_def split: prod.splits)
  moreover have "set r1 \<subseteq> set (clean_url s)" "set r2 \<subseteq> set r1"
    using split_scheme_no_marks [OF s1] split_netloc_no_marks(2) [OF s2] by simp_all
  ultimately have r4: "set r4 \<subseteq> set (clean_url s)" by blast
  have "set path \<subseteq> set r4 \<union> {CHR ''/''}"
  proof (cases "scheme \<in> set uses_params \<and> CHR '';'' \<in> set r4")
    case True
    let ?segs = "split_on (CHR ''/'') r4"
    obtain x g y where x: "partition_at (CHR '';'') (last ?segs) = (x, g, y)" by (metis prod_cases3)
    have "path = join_with ''/'' (butlast ?segs @ [x])" using s5 True by (simp add: split_params_def x)
    moreover have "set x \<subseteq> set r4" using part [OF x] split_on_sub [OF last_in_set [OF split_on_nonempty]] by fast
    moreover have "set w \<subseteq> set r4" if "w \<in> set (butlast ?segs)" for w
      using split_on_sub [OF in_set_butlastD [OF that]] .
    ultimately show ?thesis using set_join_with [of "''/''" "butlast ?segs @ [x]"] by fastforce
  next
    case False
    then show ?thesis using s5 by (auto simp: split_params_def)
  qed
  then have "set path \<subseteq> set (clean_url s) \<union> {CHR ''/''}" using r4 by blast
  then have "\<forall>c \<in> set path. \<not> unsafe_char c" by (auto simp: clean_url_def unsafe_char_def)
  then show ?thesis
    using assms by (auto simp: urlparse_def s1 s2 s3 s4 s5 split: if_splits)
qed

text \<open>What \<open>add_unseen\<close> adds: the new names, each once, with the first value reported.\<close>

lemma add_unseen_spec:
  "\<exists>extra. add_unseen items rest = items @ extra \<and> dict_ok extra \<and> keys extra \<inter> keys items = {} \<and>
    (\<forall>k. k \<notin> keys items \<longrightarrow> map_of extra k = map_of rest k)"
proof (induction items rest rule: add_unseen.induct)
  case (1 items)
  then show ?case by (intro exI [of _ "[]"]) simp
next
  case (2 items k v rest)
  then obtain extra where e: "add_unseen (if k \<in> keys items then items else items @ [(k, v)]) rest =
      (if k \<in> keys items then items else items @ [(k, v)]) @ extra" "dict_ok extra"
    "keys extra \<inter> keys (if k \<in> keys items then items else items @ [(k, v)]) = {}"
    "\<forall>j. j \<notin> keys (if k \<in> keys items then items else items @ [(k, v)]) \<longrightarrow> map_of extra j = map_of rest j"
    by auto
  show ?case
  proof (cases "k \<in> keys items")
    case True
    with e show ?thesis by (intro exI [of _ extra]) auto
  next
    case False
    with e show ?thesis by (intro exI [of _ "(k, v) # extra"]) auto
  qed
qed


lemma demo_public_url:
  "format_id ''s1'' ''https://vnc.example/view/{id}?k=1'' = Inr ''https://vnc.example/view/s1?k=1''"
  "urlparse ''https://vnc.example/view/s1?k=1'' = Inr \<lparr>u_scheme = ''https'', u_netloc = ''vnc.example'',
     u_path = ''/view/s1'', u_params = [], u_query = ''k=1'', u_fragment = []\<rparr>"
  "urlparse ''http://runner:6900/vnc.html?k=2&path=ws'' = Inr \<lparr>u_scheme = ''http'', u_netloc = ''runner:6900'',
     u_path = ''/vnc.html'', u_params = [], u_query = ''k=2&path=ws'', u_fragment = []\<rparr>"
  "build_public_vnc_url (Some ''https://vnc.example/view/{id}?k=1'') ''s1'' (Some ''http://runner:6900/vnc.html?k=2&path=ws'')
     = Inr (Some ''https://vnc.example/view/s1/vnc.html?k=1&path=ws'')"
  "urlparse ''https://vnc.example/view/s1/vnc.html?k=1&path=ws'' = Inr \<lparr>u_scheme = ''https'', u_netloc = ''vnc.example'',
     u_path = ''/view/s1/vnc.html'', u_params = [], u_query = ''k=1&path=ws'', u_fragment = []\<rparr>"
  "parse_qsl True ''k=1&path=ws'' = [(''k'', ''1''), (''path'', ''ws'')]"
  by code_simp+


end
