(* ===== verification/Gateway_Registries.thy ===== *)
theory Gateway_Registries
  imports Core_Models Py_Urls Interfaces
begin

text \<open>
  The gateway's in-memory registries (\<open>services/gateway/app/services/session_registry.py\<close>,
  \<open>workstation_registry.py\<close>, \<open>models/workstations.py\<close>): what they store under each id, and that no VNC
  token is ever stored. Every method holds the registry's lock, so it is one operation; a
  registry is its dictionary in insertion order.
\<close>

declare map_of_eq_Some_iff [simp del] Some_eq_map_of_iff [simp del]

section \<open>Stripping tokens from URLs\<close>

definition token_keys :: "string list" where
  "token_keys = [''token'', ''access_token'']"

definition strip_query_tokens :: "string option \<Rightarrow> string option res" where
  "strip_query_tokens url = (case url of
     None \<Rightarrow> Inr None
   | Some u \<Rightarrow> if u = [] then Inr None
       else res_bind (urlparse u) (\<lambda>parsed.
         let filtered = filter (\<lambda>(k, v). k \<notin> set token_keys) (parse_qsl True (u_query parsed))
         in Inr (Some (urlunparse (parsed\<lparr>u_query := urlencode filtered\<rparr>)))))"

text \<open>\<open>http_url\<close> and \<open>websocket_url\<close> are replaced only when there is a stripped URL.\<close>

definition sanitize_details :: "vnc_details \<Rightarrow> vnc_details res" where
  "sanitize_details d =
     res_bind (strip_query_tokens (vd_http_url d)) (\<lambda>http.
     res_bind (strip_query_tokens (vd_websocket_url d)) (\<lambda>ws.
       Inr (d\<lparr>vd_token := None, vd_token_ttl := None,
         vd_http_url := (case http of None \<Rightarrow> vd_http_url d | Some u \<Rightarrow> Some u),
         vd_websocket_url := (case ws of None \<Rightarrow> vd_websocket_url d | Some u \<Rightarrow> Some u)\<rparr>)))"

definition sanitize_session :: "session \<Rightarrow> session res" where
  "sanitize_session s = (case s_vnc s of
     None \<Rightarrow> Inr s
   | Some d \<Rightarrow> res_bind (sanitize_details d) (\<lambda>d'.
       if d' = d then Inr s else Inr (s\<lparr>s_vnc := Some d'\<rparr>)))"

section \<open>The session registry\<close>

type_synonym session_registry = "(nat, session) dict"
type_synonym 'a registry_op = "(session_registry, 'a) op"

definition file_session :: "nat \<Rightarrow> session \<Rightarrow> session registry_op" where
  "file_session sid s = bindm (lift_res (sanitize_session s)) (\<lambda>x.
     thenm (modify (AList.update sid x)) (ret x))"

definition registry_add :: "session \<Rightarrow> session registry_op" where
  "registry_add s = bindm (gets (\<lambda>d. map_of d (s_id s))) (\<lambda>found.
     if found \<noteq> None then raise (ValueError ''Session already exists'') else file_session (s_id s) s)"

definition registry_list :: "session list registry_op" where
  "registry_list = gets (map snd)"

definition registry_upsert :: "session \<Rightarrow> session registry_op" where
  "registry_upsert s = file_session (s_id s) s"

definition registry_get :: "nat \<Rightarrow> session registry_op" where
  "registry_get sid = bindm (gets (\<lambda>d. map_of d sid)) (\<lambda>found. case found of
     None \<Rightarrow> raise KeyError | Some s \<Rightarrow> ret s)"

definition registry_delete :: "nat \<Rightarrow> unit registry_op" where
  "registry_delete sid = bindm (gets (\<lambda>d. map_of d sid)) (\<lambda>found. case found of
     None \<Rightarrow> raise KeyError | Some _ \<Rightarrow> modify (AList.delete sid))"

definition registry_update_proxy :: "nat \<Rightarrow> proxy_settings \<Rightarrow> session registry_op" where
  "registry_update_proxy sid proxy = bindm (gets (\<lambda>d. map_of d sid)) (\<lambda>found. case found of
     None \<Rightarrow> raise KeyError
   | Some s \<Rightarrow> file_session sid (s\<lparr>s_proxy := Some (ProxyModel proxy)\<rparr>))"

text \<open>\<open>now\<close> is the clock, read when no timestamp is given; \<open>model_copy\<close> does not validate.\<close>

definition registry_touch :: "datetime \<Rightarrow> nat \<Rightarrow> datetime option \<Rightarrow> session registry_op" where
  "registry_touch now sid timestamp = bindm (gets (\<lambda>d. map_of d sid)) (\<lambda>found. case found of
     None \<Rightarrow> raise KeyError
   | Some s \<Rightarrow> file_session sid (s\<lparr>s_last_seen_at := Some (case timestamp of None \<Rightarrow> now | Some t \<Rightarrow> t)\<rparr>))"

section \<open>The workstation registry\<close>

record workstation_record =
  wr_workstation :: workstation_meta
  wr_last_event_id :: "nat option"
  wr_last_event_type :: "workstation_event_type option"
  wr_last_event_occurred_at :: "datetime option"
  wr_last_event_reason :: "string option"

definition from_metadata :: "workstation_meta \<Rightarrow> workstation_record" where
  "from_metadata m = \<lparr>wr_workstation = m, wr_last_event_id = None, wr_last_event_type = None,
     wr_last_event_occurred_at = None, wr_last_event_reason = None\<rparr>"

definition with_metadata :: "workstation_record \<Rightarrow> workstation_meta \<Rightarrow> workstation_record" where
  "with_metadata r m = r\<lparr>wr_workstation := m\<rparr>"

definition with_event :: "workstation_record \<Rightarrow> workstation_event \<Rightarrow> workstation_record" where
  "with_event r e = r\<lparr>wr_workstation := we_workstation e, wr_last_event_id := Some (we_id e),
     wr_last_event_type := Some (we_type e), wr_last_event_occurred_at := Some (we_occurred_at e),
     wr_last_event_reason := we_reason e\<rparr>"

type_synonym workstation_registry = "(string, workstation_record) dict"
type_synonym 'a workstation_op = "(workstation_registry, 'a) op"

definition workstation_list :: "workstation_record list workstation_op" where
  "workstation_list = gets (map snd)"

definition workstation_get :: "string \<Rightarrow> workstation_record workstation_op" where
  "workstation_get wid = bindm (gets (\<lambda>d. map_of d wid)) (\<lambda>found. case found of
     None \<Rightarrow> raise KeyError | Some r \<Rightarrow> ret r)"

definition file_record :: "string \<Rightarrow> (workstation_record option \<Rightarrow> workstation_record) \<Rightarrow> workstation_record workstation_op" where
  "file_record wid f = bindm (gets (\<lambda>d. map_of d wid)) (\<lambda>existing.
     thenm (modify (AList.update wid (f existing))) (ret (f existing)))"

definition upsert_metadata :: "workstation_meta \<Rightarrow> workstation_record workstation_op" where
  "upsert_metadata m = file_record (wm_id m) (\<lambda>existing. case existing of
     Some r \<Rightarrow> with_metadata r m | None \<Rightarrow> from_metadata m)"

definition apply_event :: "workstation_event \<Rightarrow> workstation_record workstation_op" where
  "apply_event e = file_record (wm_id (we_workstation e)) (\<lambda>existing. case existing of
     Some r \<Rightarrow> with_event r e | None \<Rightarrow> with_event (from_metadata (we_workstation e)) e)"

section \<open>No token survives\<close>

definition url_token_free :: "string \<Rightarrow> bool" where
  "url_token_free u = (\<forall>p. urlparse u = Inr p \<longrightarrow>
     list_all (\<lambda>(k, v). k \<notin> set token_keys) (parse_qsl True (u_query p)))"

definition details_token_free :: "vnc_details \<Rightarrow> bool" where
  "details_token_free d = (vd_token d = None \<and> vd_token_ttl d = None \<and>
     pred_option url_token_free (vd_http_url d) \<and> pred_option url_token_free (vd_websocket_url d))"

abbreviation session_token_free :: "session \<Rightarrow> bool" where
  "session_token_free s \<equiv> pred_option details_token_free (s_vnc s)"

lemma url_token_free_Nil: "url_token_free []"
proof -
  have "urlparse [] = Inr \<lparr>u_scheme = [], u_netloc = [], u_path = [], u_params = [], u_query = [], u_fragment = []\<rparr>"
    by code_simp
  then show ?thesis by (simp add: url_token_free_def parse_qsl_def)
qed

abbreviation kept_items :: "url_parts \<Rightarrow> (string \<times> string) list" where
  "kept_items p \<equiv> filter (\<lambda>(k, v). k \<notin> set token_keys) (parse_qsl True (u_query p))"

lemma stripped_query:
  assumes "strip_query_tokens (Some u) = Inr (Some v)" and "urlparse u = Inr p" and "urlparse v = Inr q"
  shows "parse_qsl True (u_query q) = kept_items p"
proof -
  have v: "v = urlunparse (p\<lparr>u_query := urlencode (kept_items p)\<rparr>)"
    using assms by (auto simp: strip_query_tokens_def Let_def split: if_splits)
  have clean: "parts_clean (p\<lparr>u_query := urlencode (kept_items p)\<rparr>)"
    using urlparse_clean [OF assms(2)] by (simp add: parts_clean_def)
  have "u_query q = u_query (p\<lparr>u_query := urlencode (kept_items p)\<rparr>)"
    by (rule urlparse_urlunparse_query [OF clean _ assms(3) [unfolded v]]) (simp add: urlencode_chars)
  then show ?thesis by (simp add: parse_qsl_urlencode)
qed

lemma strip_query_tokens_free:
  assumes "strip_query_tokens url = Inr (Some v)"
  shows "url_token_free v"
proof -
  obtain u p where u: "url = Some u" "urlparse u = Inr p"
    using assms by (auto simp: strip_query_tokens_def Let_def split: option.splits if_splits)
  have "list_all (\<lambda>(k, v). k \<notin> set token_keys) (parse_qsl True (u_query q))" if "urlparse v = Inr q" for q
    unfolding stripped_query [OF assms [unfolded u(1)] u(2) that] by (simp add: list_all_iff)
  then show ?thesis unfolding url_token_free_def by blast
qed

lemma strip_query_tokens_none: "strip_query_tokens url = Inr None \<Longrightarrow> url = None \<or> url = Some []"
  by (auto simp: strip_query_tokens_def Let_def split: option.splits if_splits)

lemma sanitize_details_free: "sanitize_details d = Inr d' \<Longrightarrow> details_token_free d'"
proof -
  assume s: "sanitize_details d = Inr d'"
  have url: "pred_option url_token_free (case o1 of None \<Rightarrow> url | Some u \<Rightarrow> Some u)"
    if "strip_query_tokens url = Inr o1" for url o1
  proof (cases o1)
    case None
    with that have "url = None \<or> url = Some []" using strip_query_tokens_none by blast
    with None url_token_free_Nil show ?thesis by auto
  next
    case (Some u)
    with that have "url_token_free u" using strip_query_tokens_free by blast
    with Some show ?thesis by simp
  qed
  from s obtain h w where hw: "strip_query_tokens (vd_http_url d) = Inr h"
      "strip_query_tokens (vd_websocket_url d) = Inr w"
    and d': "d' = d\<lparr>vd_token := None, vd_token_ttl := None,
         vd_http_url := (case h of None \<Rightarrow> vd_http_url d | Some u \<Rightarrow> Some u),
         vd_websocket_url := (case w of None \<Rightarrow> vd_websocket_url d | Some u \<Rightarrow> Some u)\<rparr>"
    unfolding sanitize_details_def by (auto simp only: res_bind_eq_Inr sum.inject)
  show ?thesis
    using url [OF hw(1)] url [OF hw(2)] by (simp add: details_token_free_def d')
qed

lemma sanitize_session_free:
  assumes "sanitize_session s = Inr x"
  shows "session_token_free x" and "x = s\<lparr>s_vnc := s_vnc x\<rparr>"
proof -
  show "session_token_free x"
    using assms sanitize_details_free by (auto simp: sanitize_session_def split: option.splits if_splits)
  show "x = s\<lparr>s_vnc := s_vnc x\<rparr>"
    using assms by (auto simp: sanitize_session_def split: option.splits if_splits)
qed

lemma file_session_wp:
  "wp (file_session sid s) (\<lambda>x t. t = AList.update sid x d \<and> sanitize_session s = Inr x) (\<lambda>_ t. t = d) d"
  by (simp add: file_session_def wp_bindm wp_thenm wp_ops split: sum.split)

inductive registry_step :: "session_registry \<Rightarrow> session_registry \<Rightarrow> bool" where
  step_add: "registry_add s d = (r, t) \<Longrightarrow> registry_step d t"
| step_upsert: "registry_upsert s d = (r, t) \<Longrightarrow> registry_step d t"
| step_delete: "registry_delete sid d = (r', t) \<Longrightarrow> registry_step d t"
| step_update_proxy: "registry_update_proxy sid proxy d = (r, t) \<Longrightarrow> registry_step d t"
| step_touch: "registry_touch now sid timestamp d = (r, t) \<Longrightarrow> registry_step d t"

definition registry_ok :: "session_registry \<Rightarrow> bool" where
  "registry_ok d = (dict_ok d \<and> (\<forall>i s. map_of d i = Some s \<longrightarrow> s_id s = i \<and> session_token_free s))"

lemma file_session_ok:
  assumes "registry_ok d" and "s_id s = sid"
  shows "wp (file_session sid s) (\<lambda>_ t. registry_ok t) (\<lambda>_ t. registry_ok t) d"
proof (rule wp_mono [OF file_session_wp])
  fix x t assume t: "t = AList.update sid x d \<and> sanitize_session s = Inr x"
  then have "s_id x = sid" using sanitize_session_free(2) [of s x] assms(2) by (metis session.select_convs(1) session.surjective session.update_convs(16))
  with t show "registry_ok t"
    using assms(1) sanitize_session_free(1) by (auto simp: registry_ok_def)
qed (use assms in simp)

lemma registry_ops_ok:
  assumes "registry_ok d"
  shows "wp (registry_add s) (\<lambda>_ t. registry_ok t) (\<lambda>_ t. registry_ok t) d"
    and "wp (registry_upsert s) (\<lambda>_ t. registry_ok t) (\<lambda>_ t. registry_ok t) d"
    and "wp (registry_delete sid) (\<lambda>_ t. registry_ok t) (\<lambda>_ t. registry_ok t) d"
    and "wp (registry_update_proxy sid proxy) (\<lambda>_ t. registry_ok t) (\<lambda>_ t. registry_ok t) d"
    and "wp (registry_touch now sid timestamp) (\<lambda>_ t. registry_ok t) (\<lambda>_ t. registry_ok t) d"
proof -
  note filed = file_session_ok [OF assms]
  show "wp (registry_add s) (\<lambda>_ t. registry_ok t) (\<lambda>_ t. registry_ok t) d"
    "wp (registry_upsert s) (\<lambda>_ t. registry_ok t) (\<lambda>_ t. registry_ok t) d"
    using assms filed by (simp_all add: registry_add_def registry_upsert_def wp_bindm wp_ops wp_if)
  show "wp (registry_delete sid) (\<lambda>_ t. registry_ok t) (\<lambda>_ t. registry_ok t) d"
    using assms by (auto simp: registry_delete_def registry_ok_def wp_bindm wp_ops split: option.split if_splits)
  have id: "s_id s = sid" if "map_of d sid = Some s" for s using assms that by (simp add: registry_ok_def)
  show "wp (registry_update_proxy sid proxy) (\<lambda>_ t. registry_ok t) (\<lambda>_ t. registry_ok t) d"
    "wp (registry_touch now sid timestamp) (\<lambda>_ t. registry_ok t) (\<lambda>_ t. registry_ok t) d"
    using assms id
    by (auto simp: registry_update_proxy_def registry_touch_def wp_bindm wp_ops intro!: filed split: option.split)
qed

lemma registry_step_ok: "registry_ok d \<Longrightarrow> registry_step d t \<Longrightarrow> registry_ok t"
proof -
  assume d: "registry_ok d" and "registry_step d t"
  note run = registry_ops_ok [OF d, THEN wp_run]
  from \<open>registry_step d t\<close> show "registry_ok t"
  proof cases
    case (step_add s r) from run(1) [OF this] show ?thesis by (simp split: sum.splits)
  next
    case (step_upsert s r) from run(2) [OF this] show ?thesis by (simp split: sum.splits)
  next
    case (step_delete sid r) from run(3) [OF this] show ?thesis by (simp split: sum.splits)
  next
    case (step_update_proxy sid proxy r) from run(4) [OF this] show ?thesis by (simp split: sum.splits)
  next
    case (step_touch now sid timestamp r) from run(5) [OF this] show ?thesis by (simp split: sum.splits)
  qed
qed

interpretation sessions: transition_invariant "\<lambda>d. d = []" registry_step registry_ok
  by unfold_locales (simp add: registry_ok_def, rule registry_step_ok)

text \<open>
  C33: Whatever sessions runners and routers hand to the gateway's session registry, no session it ever
  stores carries a VNC token: the token fields are empty and parsing the query of either VNC URL
  finds no token parameter. Each session is stored under its own id.
\<close>

theorem registry_stores_no_tokens:
  assumes "reachable (\<lambda>d. d = []) registry_step d" and "map_of d i = Some s"
  shows "s_id s = i \<and> session_token_free s"
  using sessions.reachable_inv [OF assms(1)] assms(2) by (simp add: registry_ok_def)

text \<open>
  Sanitising removes the token parameters from a VNC URL and no other: the query of the stored URL
  parses to the same parameters, in the same order, without those named token or access_token.
\<close>

theorem strip_keeps_other_parameters:
  assumes "strip_query_tokens (Some u) = Inr (Some v)" and "urlparse u = Inr p" and "urlparse v = Inr q"
  shows "parse_qsl True (u_query q) =
    filter (\<lambda>(k, _). k \<noteq> ''token'' \<and> k \<noteq> ''access_token'') (parse_qsl True (u_query p))"
  using stripped_query [OF assms] by (simp add: token_keys_def case_prod_unfold)

section \<open>Registries as keyed stores\<close>

interpretation session_store: keyed_store map_of registry_upsert s_id
  "\<lambda>s r. sanitize_session s = Inr r"
  by unfold_locales (auto simp: registry_upsert_def intro: wp_mono [OF file_session_wp])

interpretation metadata_store: keyed_store map_of upsert_metadata wm_id
  "\<lambda>m r. wr_workstation r = m"
  by unfold_locales
    (auto simp: upsert_metadata_def file_record_def wp_bindm wp_thenm wp_ops from_metadata_def with_metadata_def
      split: option.split)

interpretation event_store: keyed_store map_of apply_event "\<lambda>e. wm_id (we_workstation e)"
  "\<lambda>e r. wr_workstation r = we_workstation e \<and> wr_last_event_id r = Some (we_id e) \<and>
     wr_last_event_type r = Some (we_type e) \<and> wr_last_event_reason r = we_reason e"
  by unfold_locales
    (auto simp: apply_event_def file_record_def wp_bindm wp_thenm wp_ops from_metadata_def with_event_def
      split: option.split)

text \<open>
  After a batch of upserts the session registry answers for every id with the sanitised last
  session of that id in the batch, and as before for the ids the batch does not name.
\<close>

theorem session_upserts_last_wins:
  assumes "for_each xs (\<lambda>s. thenm (registry_upsert s) (ret ())) d = (Inr (), t)"
  shows "case last_for s_id i xs of None \<Rightarrow> map_of t i = map_of d i
    | Some s \<Rightarrow> \<exists>x. map_of t i = Some x \<and> sanitize_session s = Inr x"
  using wp_run [OF session_store.upserts assms] by simp

section \<open>What a workstation record shows\<close>

datatype workstation_update = Metadata workstation_meta | Event workstation_event

fun update_meta :: "workstation_update \<Rightarrow> workstation_meta" where
  "update_meta (Metadata m) = m"
| "update_meta (Event e) = we_workstation e"

definition update_id :: "workstation_update \<Rightarrow> string" where
  "update_id u = wm_id (update_meta u)"

fun apply_update :: "workstation_update \<Rightarrow> unit workstation_op" where
  "apply_update (Metadata m) = thenm (upsert_metadata m) (ret ())"
| "apply_update (Event e) = thenm (apply_event e) (ret ())"

text \<open>The specification: the metadata of the last update, the bookkeeping of the last event.\<close>

fun last_event :: "workstation_update list \<Rightarrow> workstation_event option" where
  "last_event [] = None"
| "last_event (u # us) = (case last_event us of Some e \<Rightarrow> Some e
     | None \<Rightarrow> (case u of Event e \<Rightarrow> Some e | Metadata _ \<Rightarrow> None))"

definition record_of :: "workstation_update list \<Rightarrow> workstation_record option" where
  "record_of us = (if us = [] then None else Some
     (case last_event us of
        None \<Rightarrow> from_metadata (update_meta (last us))
      | Some e \<Rightarrow> \<lparr>wr_workstation = update_meta (last us), wr_last_event_id = Some (we_id e),
          wr_last_event_type = Some (we_type e), wr_last_event_occurred_at = Some (we_occurred_at e),
          wr_last_event_reason = we_reason e\<rparr>))"

lemma last_event_append: "last_event (us @ [u]) = (case u of Event e \<Rightarrow> Some e | Metadata _ \<Rightarrow> last_event us)"
  by (induction us) (auto split: workstation_update.split option.split)

lemma apply_update_step:
  assumes "map_of d i = record_of us" and "update_id u = i"
  shows "apply_update u d = (Inr (), snd (apply_update u d))"
    and "map_of (snd (apply_update u d)) i = record_of (us @ [u])"
  using assms
  by (cases u; auto simp: update_id_def upsert_metadata_def apply_event_def file_record_def op_run record_of_def
      last_event_append from_metadata_def with_metadata_def with_event_def split: option.split)+

lemma apply_update_other: "update_id u \<noteq> i \<Longrightarrow> map_of (snd (apply_update u d)) i = map_of d i"
  by (cases u; auto simp: update_id_def upsert_metadata_def apply_event_def file_record_def op_run)

lemma apply_update_returns: "fst (apply_update u d) = Inr ()"
  by (cases u) (auto simp: upsert_metadata_def apply_event_def file_record_def op_run)

abbreviation updates_of :: "string \<Rightarrow> workstation_update list \<Rightarrow> workstation_update list" where
  "updates_of i us \<equiv> filter (\<lambda>u. update_id u = i) us"

lemma apply_updates:
  "(\<And>i. map_of d i = record_of (updates_of i us)) \<Longrightarrow>
    \<exists>t. for_each vs apply_update d = (Inr (), t) \<and> (\<forall>i. map_of t i = record_of (updates_of i (us @ vs)))"
proof (induction vs arbitrary: d us)
  case Nil
  then show ?case by (simp add: op_run)
next
  case (Cons v vs)
  let ?d = "snd (apply_update v d)"
  have "map_of ?d i = record_of (updates_of i (us @ [v]))" for i
    using Cons.prems [of i] apply_update_step(2) [of d i "updates_of i us" v] apply_update_other [of v i d]
    by (cases "update_id v = i") auto
  from Cons.IH [of ?d "us @ [v]", OF this] obtain t
    where t: "for_each vs apply_update ?d = (Inr (), t)" "\<forall>i. map_of t i = record_of (updates_of i (us @ v # vs))"
    by auto
  obtain d' where "apply_update v d = (Inr (), d')" using apply_update_returns [of v d] by (metis prod.collapse)
  then have "for_each (v # vs) apply_update d = for_each vs apply_update ?d" by (simp add: thenm_def bindm_def)
  with t show ?case by auto
qed

text \<open>
  C18: Refinement of the workstation registry: after any sequence of metadata upserts and events on an
  empty registry, which never fails, the record of each workstation is what its history says: the
  metadata of its last update of either kind, with the id, type, time and reason of its last event.
\<close>

theorem workstation_registry_refines_history:
  "\<exists>t. for_each us apply_update [] = (Inr (), t) \<and> (\<forall>i. map_of t i = record_of (updates_of i us))"
  using apply_updates [of "[]" "[]" us] by (simp add: record_of_def)

section \<open>The properties at work\<close>

definition demo_registry_session :: session where
  "demo_registry_session = \<lparr>s_id = 7, s_runner_id = ''r1'', s_status = Some READY, s_created_at = Aware 0,
     s_last_seen_at = Some (Aware 0), s_ended_at = None, s_start_url = None, s_start_url_wait = Some WaitLOAD,
     s_headless = Some False, s_idle_ttl = Some 60, s_browser = Some ''camoufox'', s_labels = [],
     s_ws_endpoint = None, s_ws_public_endpoint = None, s_proxy = None,
     s_vnc = Some \<lparr>vd_http_url = Some ''https://vnc/view?a=1&token=t&b='', vd_websocket_url = None,
       vd_token = Some ''t'', vd_token_ttl = Some 30\<rparr>,
     s_vnc_enabled = Some True, s_metadata = [], s_workstation_id = None,
     s_workstation_fingerprint_id = None, s_workstation = None\<rparr>"

lemma demo_strip:
  "strip_query_tokens (Some ''https://vnc/view?a=1&token=t&b='') = Inr (Some ''https://vnc/view?a=1&b='')"
  "strip_query_tokens None = Inr None"
  by code_simp+

definition demo_stored :: session where
  "demo_stored = demo_registry_session\<lparr>s_vnc := Some \<lparr>vd_http_url = Some ''https://vnc/view?a=1&b='',
     vd_websocket_url = None, vd_token = None, vd_token_ttl = None\<rparr>\<rparr>"

lemma demo_sanitize: "sanitize_session demo_registry_session = Inr demo_stored"
  by (simp add: sanitize_session_def sanitize_details_def demo_registry_session_def demo_stored_def demo_strip)

lemma demo_upsert: "registry_upsert demo_registry_session [] = (Inr demo_stored, [(7, demo_stored)])"
  using demo_sanitize by (simp add: registry_upsert_def file_session_def op_run demo_registry_session_def)

lemma registry_stores_no_tokens_witness:
  "map_of [(7, demo_stored)] 7 = Some demo_stored \<and> s_id demo_stored = 7 \<and> session_token_free demo_stored"
proof -
  have "reachable (\<lambda>d. d = []) registry_step [(7, demo_stored)]"
    by (rule reach_step, rule reach_init) (simp, rule step_upsert, rule demo_upsert)
  from registry_stores_no_tokens [OF this, of 7 demo_stored] show ?thesis by simp
qed

lemma strip_keeps_other_parameters_witness:
  "\<exists>q. urlparse ''https://vnc/view?a=1&b='' = Inr q \<and> parse_qsl True (u_query q) = [(''a'', ''1''), (''b'', '''')]"
proof -
  obtain p where p: "urlparse ''https://vnc/view?a=1&token=t&b='' = Inr p" "u_query p = ''a=1&token=t&b=''"
    by (rule that) code_simp+
  obtain q where q: "urlparse ''https://vnc/view?a=1&b='' = Inr q" by (rule that) code_simp
  have "parse_qsl True ''a=1&token=t&b='' = [(''a'', ''1''), (''token'', ''t''), (''b'', '''')]" by code_simp
  with strip_keeps_other_parameters [OF demo_strip(1) p(1) q] p q show ?thesis by simp
qed

lemma session_upserts_last_wins_witness:
  "\<exists>t. for_each [demo_stored, demo_registry_session] (\<lambda>s. thenm (registry_upsert s) (ret ())) [] = (Inr (), t) \<and>
     map_of t 7 = Some demo_stored"
proof -
  have strip: "strip_query_tokens (Some ''https://vnc/view?a=1&b='') = Inr (Some ''https://vnc/view?a=1&b='')"
    by code_simp
  have "sanitize_session demo_stored = Inr demo_stored"
    by (simp add: sanitize_session_def sanitize_details_def demo_stored_def demo_registry_session_def strip demo_strip)
  then have "\<exists>t. for_each [demo_stored, demo_registry_session] (\<lambda>s. thenm (registry_upsert s) (ret ())) [] = (Inr (), t)"
    using demo_sanitize by (simp add: registry_upsert_def file_session_def op_run)
  then obtain t where run: "for_each [demo_stored, demo_registry_session] (\<lambda>s. thenm (registry_upsert s) (ret ())) [] = (Inr (), t)"
    by blast
  have "last_for s_id 7 [demo_stored, demo_registry_session] = Some demo_registry_session"
    by (simp add: demo_stored_def demo_registry_session_def)
  with session_upserts_last_wins [OF run, of 7] demo_sanitize run show ?thesis by auto
qed

end
