(* ===== verification/Vnc_Tokens.thy ===== *)
theory Vnc_Tokens
  imports Core_Models Gateway_Registries
begin

text \<open>
  VNC access tokens: the gateway mints them (\<open>services/gateway/app/security/vnc.py\<close>) and the VNC gateway
  validates them (\<open>services/vnc-gateway/app/camou_vnc_gateway/token.py\<close>). The JWT library \<open>jose\<close> is a
  parameter: \<open>encode claims secret\<close> and \<open>decode now token secret issuer\<close>, which gives the claims or
  the library's error.
\<close>

declare map_of_eq_Some_iff [simp del] Some_eq_map_of_iff [simp del]

type_synonym claims = "(string, pyval) dict"
type_synonym jwt_encode = "claims \<Rightarrow> string \<Rightarrow> string"
type_synonym jwt_decode = "int \<Rightarrow> string \<Rightarrow> string \<Rightarrow> string \<Rightarrow> claims res"

section \<open>Minting\<close>

record token_service =
  ts_secret :: string
  ts_ttl :: int
  ts_issuer :: string

definition make_token_service :: "string \<Rightarrow> int \<Rightarrow> string \<Rightarrow> token_service res" where
  "make_token_service secret ttl issuer =
     (if ttl \<le> 0 then Inl (ValueError ''VNC token TTL must be between 1 and 300 seconds'')
      else if 300 < ttl then Inl (ValueError ''VNC token TTL must be between 1 and 300 seconds'')
      else if secret = [] then Inl (ValueError ''VNC token secret must be a non-empty string'')
      else Inr \<lparr>ts_secret = secret, ts_ttl = ttl, ts_issuer = issuer\<rparr>)"

text \<open>\<open>int(t.timestamp())\<close> of an instant in microseconds: the seconds, towards zero.\<close>

definition epoch_seconds :: "int \<Rightarrow> int" where
  "epoch_seconds t = (if t < 0 then - ((- t) div 1000000) else t div 1000000)"

definition issue_claims :: "token_service \<Rightarrow> int \<Rightarrow> string \<Rightarrow> string option \<Rightarrow> claims" where
  "issue_claims s now sid subject =
     [(''sid'', PStr sid), (''iat'', PInt (epoch_seconds now)),
      (''exp'', PInt (epoch_seconds (now + ts_ttl s * 1000000))), (''iss'', PStr (ts_issuer s))] @
     (case subject of Some x \<Rightarrow> [(''sub'', PStr x)] | None \<Rightarrow> [])"

definition issue :: "jwt_encode \<Rightarrow> token_service \<Rightarrow> int \<Rightarrow> string \<Rightarrow> string option \<Rightarrow> string \<times> int" where
  "issue encode s now sid subject = (encode (issue_claims s now sid subject) (ts_secret s), ts_ttl s)"

definition append_query_token :: "string option \<Rightarrow> string \<Rightarrow> string option res" where
  "append_query_token url token = (case url of
     None \<Rightarrow> Inr None
   | Some u \<Rightarrow> if u = [] then Inr None
       else res_bind (urlparse u) (\<lambda>parts.
         let items = filter (\<lambda>(k, _). k \<notin> {''token'', ''access_token''}) (parse_qsl True (u_query parts))
         in Inr (Some (urlunparse (parts\<lparr>u_query := urlencode (items @ [(''token'', token)])\<rparr>)))))"

definition enrich_vnc_details ::
  "jwt_encode \<Rightarrow> token_service \<Rightarrow> int \<Rightarrow> vnc_details \<Rightarrow> string \<Rightarrow> string option \<Rightarrow> vnc_details res" where
  "enrich_vnc_details encode s now d sid subject =
     (if vd_token d \<noteq> None then Inr d
      else let (token, ttl) = issue encode s now sid subject
        in res_bind (append_query_token (vd_http_url d) token) (\<lambda>http.
           res_bind (append_query_token (vd_websocket_url d) token) (\<lambda>ws.
             Inr (d\<lparr>vd_token := Some token, vd_token_ttl := Some ttl,
               vd_http_url := (case http of Some u \<Rightarrow> Some u | None \<Rightarrow> vd_http_url d),
               vd_websocket_url := (case ws of Some u \<Rightarrow> Some u | None \<Rightarrow> vd_websocket_url d)\<rparr>))))"

section \<open>Validation\<close>

record token_validator =
  tv_secret :: string
  tv_issuer :: string
  tv_cache_limit :: int
  tv_skew :: int

text \<open>A session's cache maps a key to the issue time in seconds and the expiry in microseconds.\<close>

type_synonym nonce_cache = "(string, int \<times> int) dict"
type_synonym replay_cache = "(string, nonce_cache) dict"

definition decode_token :: "jwt_decode \<Rightarrow> token_validator \<Rightarrow> int \<Rightarrow> string \<Rightarrow> claims res" where
  "decode_token decode v now token =
     (if token = [] then Inl (TokenValidationError ''Token is required'')
      else (case decode now token (tv_secret v) (tv_issuer v) of
          Inl _ \<Rightarrow> Inl (TokenValidationError ''Token verification failed'')
        | Inr c \<Rightarrow> Inr c))"

text \<open>\<open>isinstance(value, int)\<close>, which a bool is too.\<close>

definition as_int :: "pyval option \<Rightarrow> int option" where
  "as_int v = (case v of Some (PInt i) \<Rightarrow> Some i | Some (PBool b) \<Rightarrow> Some (if b then 1 else 0) | _ \<Rightarrow> None)"

text \<open>\<open>datetime.fromtimestamp\<close>, for the years 1 to 9999.\<close>

definition from_timestamp :: "int \<Rightarrow> int res" where
  "from_timestamp i = (if - 62135596800 \<le> i \<and> i \<le> 253402300799 then Inr (i * 1000000)
     else Inl (OtherError ''timestamp out of range''))"

definition evict_expired :: "int \<Rightarrow> nonce_cache \<Rightarrow> nonce_cache" where
  "evict_expired now c = filter (\<lambda>(_, _, expiry). \<not> expiry \<le> now) c"

text \<open>\<open>while len(cache) > limit: cache.popitem(last=False)\<close>; a negative limit ends in \<open>KeyError\<close>.\<close>

fun trim_cache :: "int \<Rightarrow> nonce_cache \<Rightarrow> nonce_cache res" where
  "trim_cache limit [] = (if limit < 0 then Inl KeyError else Inr [])"
| "trim_cache limit (e # c) = (if limit < int (length (e # c)) then trim_cache limit c else Inr (e # c))"

definition register_nonce :: "token_validator \<Rightarrow> int \<Rightarrow> string \<Rightarrow> string option \<Rightarrow> int \<Rightarrow> int \<Rightarrow> (replay_cache, unit) op" where
  "register_nonce v now sid cache_key issued_at expires_at =
     thenm (modify (dict_setdefault sid []))
     (thenm (modify (\<lambda>d. AList.update sid (evict_expired now (the (map_of d sid))) d))
     (case cache_key of
        None \<Rightarrow> ret ()
      | Some key \<Rightarrow> bindm (gets (\<lambda>d. the (map_of d sid))) (\<lambda>cache.
          if (case map_of cache key of Some (iat, _) \<Rightarrow> iat = issued_at | None \<Rightarrow> False)
          then raise (TokenValidationError ''Token replay detected'')
          else (let cache' = AList.delete key cache @ [(key, (issued_at, expires_at))]
             in case trim_cache (tv_cache_limit v) cache' of
                  Inl e \<Rightarrow> thenm (modify (AList.update sid [])) (raise e)
                | Inr c \<Rightarrow> modify (AList.update sid c)))))"

text \<open>\<open>now\<close> and \<open>now'\<close> are the two readings of the clock; the library has its own, \<open>jnow\<close>.\<close>

definition check_claims :: "token_validator \<Rightarrow> int \<Rightarrow> string \<Rightarrow> claims \<Rightarrow> (string option \<times> int \<times> int) res" where
  "check_claims v now sid c =
     (if map_of c ''sid'' \<noteq> Some (PStr sid)
      then Inl (TokenValidationError ''Token was issued for a different session'')
      else (case as_int (map_of c ''exp'') of
        None \<Rightarrow> Inl (TokenValidationError ''Token is missing an expiration timestamp'')
      | Some ex \<Rightarrow> (case as_int (map_of c ''iat'') of
          None \<Rightarrow> Inl (TokenValidationError ''Token is missing an issued-at timestamp'')
        | Some iat \<Rightarrow>
            res_bind (from_timestamp iat) (\<lambda>issued_at.
            res_bind (ensure (issued_at - now \<le> tv_skew v * 1000000)
              (TokenValidationError ''Token issued-at timestamp is in the future'')) (\<lambda>_.
            res_bind (from_timestamp ex) (\<lambda>expires_at.
            res_bind (ensure (now < expires_at) (TokenValidationError ''Token has expired'')) (\<lambda>_.
              Inr (case map_of c ''nonce'' of
                     None \<Rightarrow> None
                   | Some PNone \<Rightarrow> None
                   | Some n \<Rightarrow> Some (py_str n @ '':'' @ py_str (the (map_of c ''iat''))),
                   iat, expires_at))))))))"

definition validate_token ::
  "jwt_decode \<Rightarrow> token_validator \<Rightarrow> int \<Rightarrow> int \<Rightarrow> int \<Rightarrow> string \<Rightarrow> string \<Rightarrow> (replay_cache, unit) op" where
  "validate_token decode v jnow now now' sid token =
     bindm (lift_res (decode_token decode v jnow token)) (\<lambda>c.
     bindm (lift_res (check_claims v now sid c)) (\<lambda>(cache_key, iat, expires_at).
       register_nonce v now' sid cache_key iat expires_at))"

section \<open>A minted token opens its session until it expires\<close>

text \<open>
  What the development relies on of \<open>jose\<close>, for the token made of some claims: an HS256 token is not
  empty; decoding it with the secret and issuer it was made for gives those claims or an error, and
  no error before its expiry when the registered claims have the types of the standard.
\<close>

definition jwt_lawful :: "jwt_encode \<Rightarrow> jwt_decode \<Rightarrow> claims \<Rightarrow> string \<Rightarrow> string \<Rightarrow> bool" where
  "jwt_lawful encode decode c secret issuer = (encode c secret \<noteq> [] \<and>
     (\<forall>now c'. decode now (encode c secret) secret issuer = Inr c' \<longrightarrow> c' = c) \<and>
     (\<forall>now e i. map_of c ''iss'' = Some (PStr issuer) \<and> map_of c ''exp'' = Some (PInt e) \<and>
        map_of c ''iat'' = Some (PInt i) \<and> (\<forall>x. map_of c ''sub'' = Some x \<longrightarrow> (\<exists>s. x = PStr s)) \<and>
        now < e * 1000000 \<longrightarrow> decode now (encode c secret) secret issuer = Inr c))"

lemma jwt_lawfulD:
  assumes "jwt_lawful encode decode c secret issuer"
  shows "encode c secret \<noteq> []" and "decode now (encode c secret) secret issuer = Inr c' \<Longrightarrow> c' = c"
    and "map_of c ''iss'' = Some (PStr issuer) \<Longrightarrow> map_of c ''exp'' = Some (PInt e) \<Longrightarrow>
      map_of c ''iat'' = Some (PInt i) \<Longrightarrow> (\<And>x. map_of c ''sub'' = Some x \<Longrightarrow> \<exists>s. x = PStr s) \<Longrightarrow>
      now < e * 1000000 \<Longrightarrow> decode now (encode c secret) secret issuer = Inr c"
  using assms unfolding jwt_lawful_def by blast+

lemma issue_claims_lookup:
  "map_of (issue_claims s now sid sub) ''sid'' = Some (PStr sid)"
  "map_of (issue_claims s now sid sub) ''iat'' = Some (PInt (epoch_seconds now))"
  "map_of (issue_claims s now sid sub) ''exp'' = Some (PInt (epoch_seconds (now + ts_ttl s * 1000000)))"
  "map_of (issue_claims s now sid sub) ''iss'' = Some (PStr (ts_issuer s))"
  "map_of (issue_claims s now sid sub) ''sub'' = map_option PStr sub"
  "map_of (issue_claims s now sid sub) ''nonce'' = None"
  by (auto simp: issue_claims_def split: option.split)

lemma make_token_service_ok:
  "make_token_service secret ttl issuer = Inr s \<Longrightarrow>
    s = \<lparr>ts_secret = secret, ts_ttl = ttl, ts_issuer = issuer\<rparr> \<and> 0 < ttl \<and> ttl \<le> 300 \<and> secret \<noteq> []"
  by (auto simp: make_token_service_def split: if_splits)

lemma register_nonce_none: "fst (register_nonce v now sid None iat e d) = Inr ()"
  by (simp add: register_nonce_def op_run)

lemma validate_token_run:
  "validate_token decode v jnow now now' sid token d =
    (case res_bind (decode_token decode v jnow token) (check_claims v now sid) of
       Inl e \<Rightarrow> (Inl e, d) | Inr (key, iat, ex) \<Rightarrow> register_nonce v now' sid key iat ex d)"
  by (cases "decode_token decode v jnow token")
    (auto simp: validate_token_def exec_op op_run split: sum.split)

lemma issued_token_accepted:
  assumes law: "jwt_lawful encode decode (issue_claims s t sid sub) secret issuer" and svc: "make_token_service secret ttl issuer = Inr s"
    and v: "tv_secret v = secret" "tv_issuer v = issuer" "0 \<le> tv_skew v"
    and t: "0 \<le> t" "t \<le> 253402300000 * 1000000"
  shows "fst (validate_token decode v jnow now now' sid' (fst (issue encode s t sid sub)) d) = Inr () \<longrightarrow>
      sid' = sid \<and> now < (t div 1000000 + ttl) * 1000000"
    and "t \<le> now \<Longrightarrow> max now jnow < (t div 1000000 + ttl) * 1000000 \<Longrightarrow>
      fst (validate_token decode v jnow now now' sid (fst (issue encode s t sid sub)) d) = Inr ()"
proof -
  let ?c = "issue_claims s t sid sub" and ?e = "t div 1000000 + ttl"
  let ?dec = "decode jnow (encode ?c secret) secret issuer"
  note s = make_token_service_ok [OF svc]
  have "t + ttl * 1000000 = t + 1000000 * ttl" by simp
  then have e: "epoch_seconds (t + ts_ttl s * 1000000) = ?e" "epoch_seconds t = t div 1000000"
    using s t by (simp_all add: epoch_seconds_def)
  have q: "0 \<le> t div 1000000" "t div 1000000 \<le> 253402300000"
    using t zdiv_mono1 [OF t(2), of 1000000] by (simp_all add: pos_imp_zdiv_nonneg_iff)
  have range: "from_timestamp ?e = Inr (?e * 1000000)" "from_timestamp (t div 1000000) = Inr (t div 1000000 * 1000000)"
    using s q by (simp_all add: from_timestamp_def)
  have iss: "fst (issue encode s t sid sub) = encode ?c secret" "encode ?c secret \<noteq> []"
    using s jwt_lawfulD(1) [OF law] by (simp_all add: issue_def)
  have dec: "decode_token decode v jnow (encode ?c secret) = (case ?dec of
      Inl _ \<Rightarrow> Inl (TokenValidationError ''Token verification failed'') | Inr c \<Rightarrow> Inr c)"
    using iss v by (simp add: decode_token_def)
  have check: "check_claims v now sid' ?c = (if sid' \<noteq> sid
      then Inl (TokenValidationError ''Token was issued for a different session'')
      else res_bind (ensure (t div 1000000 * 1000000 - now \<le> tv_skew v * 1000000)
              (TokenValidationError ''Token issued-at timestamp is in the future'')) (\<lambda>_.
           res_bind (ensure (now < ?e * 1000000) (TokenValidationError ''Token has expired'')) (\<lambda>_.
           Inr (None, t div 1000000, ?e * 1000000))))" for sid'
    by (auto simp: check_claims_def issue_claims_lookup as_int_def e range)
  show "fst (validate_token decode v jnow now now' sid' (fst (issue encode s t sid sub)) d) = Inr () \<longrightarrow>
      sid' = sid \<and> now < ?e * 1000000"
  proof (cases ?dec)
    case (Inr c)
    then have "?dec = Inr ?c" using jwt_lawfulD(2) [OF law Inr] by simp
    then show ?thesis by (simp add: iss validate_token_run dec check ensure_def)
  qed (simp add: iss validate_token_run dec)
  show "fst (validate_token decode v jnow now now' sid (fst (issue encode s t sid sub)) d) = Inr ()"
    if "t \<le> now" "max now jnow < ?e * 1000000"
  proof -
    have "?dec = Inr ?c"
      by (rule jwt_lawfulD(3) [OF law, of ?e "t div 1000000"])
        (use that s e(1) in \<open>auto simp: issue_claims_lookup e(2)\<close>)
    moreover have "t div 1000000 * 1000000 - now \<le> tv_skew v * 1000000" using that(1) v(3) by linarith
    ultimately show ?thesis using that by (simp add: iss validate_token_run dec check register_nonce_none)
  qed
qed

lemma append_query_token_parse:
  assumes "append_query_token (Some u) token = Inr (Some w)" and "urlparse u = Inr p" and "urlparse w = Inr q"
  shows "parse_qsl True (u_query q) =
    filter (\<lambda>(k, _). k \<notin> {''token'', ''access_token''}) (parse_qsl True (u_query p)) @ [(''token'', token)]"
    (is "_ = ?items")
proof -
  have w: "w = urlunparse (p\<lparr>u_query := urlencode ?items\<rparr>)"
    using assms by (auto simp: append_query_token_def Let_def split: if_splits)
  have clean: "parts_clean (p\<lparr>u_query := urlencode ?items\<rparr>)"
    using urlparse_clean [OF assms(2)] by (simp add: parts_clean_def)
  have "u_query q = u_query (p\<lparr>u_query := urlencode ?items\<rparr>)"
    by (rule urlparse_urlunparse_query [OF clean _ assms(3) [unfolded w]]) (simp add: urlencode_chars)
  then show ?thesis by (simp add: parse_qsl_urlencode)
qed

abbreviation token_parameters :: "url_parts \<Rightarrow> string list" where
  "token_parameters p \<equiv> map snd (filter (\<lambda>(k, _). k \<in> set token_keys) (parse_qsl True (u_query p)))"

lemma append_query_token_only:
  assumes "append_query_token (Some u) token = Inr (Some w)" and "urlparse w = Inr q"
  shows "token_parameters q = [token]"
proof -
  obtain p where p: "urlparse u = Inr p"
    using assms(1) by (auto simp: append_query_token_def split: if_splits)
  show ?thesis
    unfolding append_query_token_parse [OF assms(1) p assms(2)]
    by (auto simp: token_keys_def filter_empty_conv case_prod_unfold)
qed

text \<open>
  C15: The gateway's VNC URLs open exactly their session: a viewer URL the gateway enriches with a token
  carries that token as its only token parameter, and the VNC gateway, configured with the same
  secret and issuer, admits the token for the session it was minted for until the minted expiry, at
  most 300 seconds later, and never for another session or after it.
\<close>

theorem minted_token_opens_its_session:
  assumes "jwt_lawful encode decode (issue_claims s t sid sub) secret issuer" and "make_token_service secret ttl issuer = Inr s"
    and "tv_secret v = secret" and "tv_issuer v = issuer" and "0 \<le> tv_skew v"
    and "0 \<le> t" and "t \<le> 253402300000 * 1000000"
    and "vd_token d = None" and "enrich_vnc_details encode s t d sid sub = Inr d'"
    and "vd_http_url d = Some u" and "u \<noteq> []"
  shows "\<exists>token w. vd_token d' = Some token \<and> vd_token_ttl d' = Some ttl \<and> ttl \<le> 300 \<and> vd_http_url d' = Some w \<and>
    (\<forall>q. urlparse w = Inr q \<longrightarrow> token_parameters q = [token]) \<and>
    (\<forall>cache jnow now now' sid'.
      (fst (validate_token decode v jnow now now' sid' token cache) = Inr () \<longrightarrow>
         sid' = sid \<and> now < (t div 1000000 + ttl) * 1000000) \<and>
      (t \<le> now \<and> max now jnow < (t div 1000000 + ttl) * 1000000 \<longrightarrow>
         fst (validate_token decode v jnow now now' sid token cache) = Inr ()))"
proof -
  let ?token = "fst (issue encode s t sid sub)"
  have ttl: "snd (issue encode s t sid sub) = ttl" "ttl \<le> 300"
    using make_token_service_ok [OF assms(2)] by (simp_all add: issue_def)
  obtain http ws where urls: "append_query_token (Some u) ?token = Inr http"
    and d': "d' = d\<lparr>vd_token := Some ?token, vd_token_ttl := Some ttl,
       vd_http_url := (case http of Some u \<Rightarrow> Some u | None \<Rightarrow> vd_http_url d),
       vd_websocket_url := (case ws of Some u \<Rightarrow> Some u | None \<Rightarrow> vd_websocket_url d)\<rparr>"
    using assms(8-10) ttl by (auto simp: enrich_vnc_details_def case_prod_unfold Let_def)
  from urls assms(11) obtain w where w: "http = Some w"
    by (auto simp: append_query_token_def Let_def)
  note accepted = issued_token_accepted [OF assms(1-7)]
  show ?thesis
    using d' w ttl append_query_token_only [OF urls [unfolded w]] accepted
    by (intro exI [of _ ?token] exI [of _ w]) simp
qed

section \<open>Replays\<close>

lemma trim_cache_drop: "0 \<le> limit \<Longrightarrow> trim_cache limit c = Inr (drop (length c - nat limit) c)"
proof (induction c)
  case (Cons e c)
  show ?case
  proof (cases "limit < int (length (e # c))")
    case True
    then have "length (e # c) - nat limit = Suc (length c - nat limit)" using Cons.prems by simp
    with True Cons show ?thesis by (simp del: length_Cons)
  next
    case False
    then have "length (e # c) - nat limit = 0" by simp
    with False show ?thesis by (simp del: length_Cons)
  qed
qed simp

text \<open>A key that is in a session's cache with at most \<open>n\<close> younger ones.\<close>

definition remembers :: "nat \<Rightarrow> string \<Rightarrow> string \<Rightarrow> int \<Rightarrow> int \<Rightarrow> replay_cache \<Rightarrow> bool" where
  "remembers n sid key iat ex d = (\<exists>xs ys. map_of d sid = Some (xs @ (key, iat, ex) # ys) \<and>
     key \<notin> keys xs \<and> length ys \<le> n)"

abbreviation evicted :: "int \<Rightarrow> string \<Rightarrow> replay_cache \<Rightarrow> nonce_cache" where
  "evicted now sid d \<equiv> evict_expired now (case map_of d sid of Some c \<Rightarrow> c | None \<Rightarrow> [])"

lemma register_nonce_other:
  "sid' \<noteq> sid \<Longrightarrow> map_of (snd (register_nonce v now sid' key iat ex d)) sid = map_of d sid"
  by (auto simp: register_nonce_def op_run dict_setdefault_def Let_def split: option.split sum.split)

lemma register_nonce_same:
  assumes "0 \<le> tv_cache_limit v"
  shows "fst (register_nonce v now sid key iat ex d) = (case key of None \<Rightarrow> Inr ()
      | Some k \<Rightarrow> if (case map_of (evicted now sid d) k of Some (i, _) \<Rightarrow> i = iat | None \<Rightarrow> False)
          then Inl (TokenValidationError ''Token replay detected'') else Inr ())"
    and "map_of (snd (register_nonce v now sid key iat ex d)) sid = Some (case key of None \<Rightarrow> evicted now sid d
      | Some k \<Rightarrow> if (case map_of (evicted now sid d) k of Some (i, _) \<Rightarrow> i = iat | None \<Rightarrow> False)
          then evicted now sid d
          else let c = AList.delete k (evicted now sid d) @ [(k, iat, ex)] in drop (length c - nat (tv_cache_limit v)) c)"
  using assms
  by (auto simp: register_nonce_def op_run dict_setdefault_def Let_def trim_cache_drop
      split: option.split)

lemma evict_append: "evict_expired now (xs @ ys) = evict_expired now xs @ evict_expired now ys"
  by (simp add: evict_expired_def)

lemma evict_keys: "keys (evict_expired now xs) \<subseteq> keys xs" "length (evict_expired now xs) \<le> length xs"
  by (auto simp: evict_expired_def)

lemma evict_Cons: "now < ex \<Longrightarrow> evict_expired now ((key, iat, ex) # ys) = (key, iat, ex) # evict_expired now ys"
  by (simp add: evict_expired_def)

lemma delete_append: "AList.delete k (xs @ ys) = AList.delete k xs @ AList.delete k ys"
  by (induction xs) auto

lemma remembers_evicted:
  assumes "remembers n sid key iat ex d" and "now < ex"
  obtains xs ys where "evicted now sid d = xs @ (key, iat, ex) # ys" "key \<notin> keys xs" "length ys \<le> n"
proof -
  obtain xs ys where d: "map_of d sid = Some (xs @ (key, iat, ex) # ys)" "key \<notin> keys xs" "length ys \<le> n"
    using assms(1) by (auto simp: remembers_def)
  show ?thesis
  proof (rule that)
    show "evicted now sid d = evict_expired now xs @ (key, iat, ex) # evict_expired now ys"
      using d(1) assms(2) by (simp add: evict_append evict_Cons)
    show "key \<notin> keys (evict_expired now xs)" using d(2) evict_keys(1) by blast
    show "length (evict_expired now ys) \<le> n" using d(3) evict_keys(2) order_trans by blast
  qed
qed

lemma map_of_skip: "key \<notin> keys xs \<Longrightarrow> map_of (xs @ (key, x) # ys) key = Some x"
  by (induction xs) auto

lemma remembers_mono: "remembers n sid key iat ex d \<Longrightarrow> n \<le> m \<Longrightarrow> remembers m sid key iat ex d"
  unfolding remembers_def by (meson order_trans)

lemma remembers_detects:
  assumes "remembers n sid key iat ex d" and "now < ex" and "0 \<le> tv_cache_limit v"
  shows "fst (register_nonce v now sid (Some key) iat ex' d) = Inl (TokenValidationError ''Token replay detected'')"
proof -
  obtain xs ys where e: "evicted now sid d = xs @ (key, iat, ex) # ys" "key \<notin> keys xs" "length ys \<le> n"
    using remembers_evicted [OF assms(1,2)] .
  have look: "map_of (evicted now sid d) key = Some (iat, ex)"
    unfolding e(1) by (rule map_of_skip) (rule e(2))
  show ?thesis
    using register_nonce_same(1) [OF assms(3), of now sid "Some key" iat ex' d] by (simp add: look)
qed

lemma remembers_step:
  assumes "remembers n sid key iat ex d" and "now < ex" and "int (Suc n) < tv_cache_limit v"
    and "key' = Some key \<longrightarrow> iat' = iat"
  shows "remembers (Suc n) sid key iat ex (snd (register_nonce v now sid' key' iat' ex' d))"
proof (cases "sid' = sid")
  case False
  have "remembers (Suc n) sid key iat ex d" by (rule remembers_mono [OF assms(1)]) simp
  with False show ?thesis by (simp add: remembers_def register_nonce_other)
next
  case True
  have limit: "0 \<le> tv_cache_limit v" using assms(3) by linarith
  obtain xs ys where e: "evicted now sid d = xs @ (key, iat, ex) # ys" "key \<notin> keys xs" "length ys \<le> n"
    using remembers_evicted [OF assms(1,2)] .
  have look: "map_of (evicted now sid d) key = Some (iat, ex)"
    unfolding e(1) by (rule map_of_skip) fact
  let ?replay = "\<lambda>k. (case map_of (evicted now sid d) k of Some (i, _) \<Rightarrow> i = iat' | None \<Rightarrow> False)"
  note same = register_nonce_same(2) [OF limit, of now sid key' iat' ex' d]
  show ?thesis
  proof (cases "\<exists>k. key' = Some k \<and> \<not> ?replay k")
    case False
    then have "map_of (snd (register_nonce v now sid key' iat' ex' d)) sid = Some (evicted now sid d)"
      using same by (auto split: option.splits)
    then have "remembers n sid key iat ex (snd (register_nonce v now sid key' iat' ex' d))"
      using e unfolding remembers_def by metis
    then show ?thesis unfolding True by (rule remembers_mono) simp
  next
    case filed: True
    then obtain k where k: "key' = Some k" "\<not> ?replay k" by blast
    then have ne: "k \<noteq> key" using assms(4) look by auto
    let ?ys = "AList.delete k ys @ [(k, iat', ex')]"
    let ?c = "AList.delete k xs @ (key, iat, ex) # ?ys"
    have c: "AList.delete k (evicted now sid d) @ [(k, iat', ex')] = ?c"
      unfolding e(1) delete_append using ne by simp
    let ?m = "length ?c - nat (tv_cache_limit v)"
    have short: "length ?ys \<le> Suc n" using e(3) length_delete_le [of k ys] by simp
    then have "?m \<le> length (AList.delete k xs)" using assms(3) by simp
    then have "drop ?m ?c = drop ?m (AList.delete k xs) @ (key, iat, ex) # ?ys" by simp
    moreover have "key \<notin> keys (drop ?m (AList.delete k xs))"
      using e(2) keys_delete [of k xs] set_drop_subset [of ?m "AList.delete k xs"] by blast
    moreover have "map_of (snd (register_nonce v now sid key' iat' ex' d)) sid = Some (drop ?m ?c)"
      using same k c by (simp add: Let_def)
    ultimately show ?thesis using short unfolding True remembers_def by metis
  qed
qed

text \<open>A key is a nonce and an issue time, and determines the time.\<close>

lemma last_colon_unique:
  "CHR '':'' \<notin> set b \<Longrightarrow> CHR '':'' \<notin> set b' \<Longrightarrow> a @ '':'' @ b = a' @ '':'' @ b' \<Longrightarrow> b = b'"
proof -
  assume c: "CHR '':'' \<notin> set b" "CHR '':'' \<notin> set b'" and "a @ '':'' @ b = a' @ '':'' @ b'"
  then have eq: "rev (takeWhile (\<lambda>c. c \<noteq> CHR '':'') (rev (a @ '':'' @ b))) =
      rev (takeWhile (\<lambda>c. c \<noteq> CHR '':'') (rev (a' @ '':'' @ b')))" by (simp only:)
  have "rev (takeWhile (\<lambda>c. c \<noteq> CHR '':'') (rev (x @ '':'' @ y))) = y" if "CHR '':'' \<notin> set y" for x y
    using that by (subst rev_append, subst rev_append, subst append_assoc, subst takeWhile_append2) auto
  from this [OF c(1), of a] this [OF c(2), of a'] eq show ?thesis by (simp only:)
qed

lemma as_int_text:
  assumes "as_int (Some u) = Some i" and "as_int (Some w) = Some j"
  shows "py_str u = py_str w \<Longrightarrow> i = j" and "CHR '':'' \<notin> set (py_str u)"
proof -
  have digits: "c \<in> set (int_str n) \<Longrightarrow> is_digit c \<or> c = CHR ''-''" for c n
    using nat_str_digits by (auto simp: int_str_def split: if_splits)
  have word: "int_str n \<noteq> ''True''" "int_str n \<noteq> ''False''" for n
    using digits [of "CHR ''e''" n] by (auto simp: is_digit_def)
  show "py_str u = py_str w \<Longrightarrow> i = j"
    using assms word word [symmetric] by (auto simp: as_int_def py_str_def dest: int_str_inj split: pyval.splits if_splits)
  show "CHR '':'' \<notin> set (py_str u)"
    using assms(1) int_str_no_colon by (auto simp: as_int_def py_str_def split: pyval.splits)
qed

lemma check_claims_key:
  assumes "check_claims v now sid c = Inr (Some key, iat, ex)" and "check_claims v' now' sid' c' = Inr (Some key, iat', ex')"
  shows "iat' = iat"
proof -
  have split: "\<exists>w n. map_of c ''iat'' = Some w \<and> as_int (Some w) = Some iat \<and> key = n @ '':'' @ py_str w"
    if "check_claims v now sid c = Inr (Some key, iat, ex)" for v now sid c iat ex
  proof -
    have iat: "as_int (map_of c ''iat'') = Some iat"
      and key: "\<exists>n. key = n @ '':'' @ py_str (the (map_of c ''iat''))"
      using that by (auto simp: check_claims_def split: if_splits option.splits pyval.splits)
    from iat obtain w where "map_of c ''iat'' = Some w" by (cases "map_of c ''iat''") (auto simp: as_int_def)
    with iat key show ?thesis by auto
  qed
  from split [OF assms(1)] obtain w n where w: "as_int (Some w) = Some iat" "key = n @ '':'' @ py_str w" by blast
  from split [OF assms(2)] obtain w' n' where w': "as_int (Some w') = Some iat'" "key = n' @ '':'' @ py_str w'" by blast
  have "py_str w = py_str w'"
    using w w' as_int_text(2) last_colon_unique by metis
  then show ?thesis using as_int_text(1) w(1) w'(1) by metis
qed

text \<open>A sequence of validations: each call gives the clock readings, the session and the token.\<close>

type_synonym validation = "(int \<times> int \<times> int) \<times> string \<times> string"

fun validations :: "jwt_decode \<Rightarrow> token_validator \<Rightarrow> validation list \<Rightarrow> replay_cache \<Rightarrow> replay_cache" where
  "validations decode v [] d = d"
| "validations decode v (((jnow, now, now'), sid, token) # calls) d =
     validations decode v calls (snd (validate_token decode v jnow now now' sid token d))"

lemma validations_remember:
  assumes key: "check_claims v0 now0 sid0 c0 = Inr (Some key, iat, ex)"
  shows "remembers n sid key iat ex d \<Longrightarrow> int (n + length calls) < tv_cache_limit v \<Longrightarrow>
    (\<And>j m m' s t. ((j, m, m'), s, t) \<in> set calls \<Longrightarrow> m' < ex) \<Longrightarrow>
    remembers (n + length calls) sid key iat ex (validations decode v calls d)"
proof (induction calls arbitrary: n d)
  case (Cons call calls)
  obtain j m m' s t where call: "call = ((j, m, m'), s, t)" by (metis prod.exhaust)
  have "m' < ex" using Cons.prems(3) [of j m m' s t] by (simp add: call)
  have "remembers (Suc n) sid key iat ex (snd (validate_token decode v j m m' s t d))"
  proof (cases "res_bind (decode_token decode v j t) (check_claims v m s)")
    case (Inl e)
    then show ?thesis using remembers_mono [OF Cons.prems(1)] by (simp add: validate_token_run)
  next
    case (Inr r)
    obtain key' iat' ex' where r: "r = (key', iat', ex')" by (metis prod.exhaust)
    obtain c where "check_claims v m s c = Inr (key', iat', ex')" using Inr r by auto
    then have "key' = Some key \<longrightarrow> iat' = iat" using check_claims_key [OF key] by blast
    then have "remembers (Suc n) sid key iat ex (snd (register_nonce v m' s key' iat' ex' d))"
      using Cons.prems(1,2) \<open>m' < ex\<close> by (intro remembers_step) auto
    then show ?thesis unfolding validate_token_run Inr r by simp
  qed
  moreover have "m' < ex" if "((j, m, m'), s, t) \<in> set calls" for j m m' s t
    using Cons.prems(3) that by (meson list.set_intros(2))
  ultimately show ?case using Cons.IH [of "Suc n"] Cons.prems(2) by (simp add: call)
qed simp

lemma register_nonce_remembers:
  assumes "fst (register_nonce v now sid (Some key) iat ex d) = Inr ()" and "0 < tv_cache_limit v"
  shows "remembers 0 sid key iat ex (snd (register_nonce v now sid (Some key) iat ex d))"
proof -
  have limit: "0 \<le> tv_cache_limit v" using assms(2) by simp
  let ?xs = "AList.delete key (evicted now sid d)"
  let ?c = "?xs @ [(key, iat, ex)]"
  let ?m = "length ?c - nat (tv_cache_limit v)"
  have "\<not> (case map_of (evicted now sid d) key of Some (i, _) \<Rightarrow> i = iat | None \<Rightarrow> False)"
    using assms(1) register_nonce_same(1) [OF limit, of now sid "Some key" iat ex d] by (auto split: if_splits)
  then have "map_of (snd (register_nonce v now sid (Some key) iat ex d)) sid = Some (drop ?m ?c)"
    using register_nonce_same(2) [OF limit, of now sid "Some key" iat ex d] by (simp add: Let_def)
  moreover have "?m \<le> length ?xs" using assms(2) by simp
  then have "drop ?m ?c = drop ?m ?xs @ (key, iat, ex) # []" by simp
  moreover have "key \<notin> keys (drop ?m ?xs)"
    using keys_delete [of key "evicted now sid d"] set_drop_subset [of ?m ?xs] by blast
  ultimately show ?thesis unfolding remembers_def by (metis list.size(3) order_refl)
qed


section \<open>The properties at work\<close>

definition demo_encode :: jwt_encode where
  "demo_encode c secret = ''header.claims.'' @ secret"

text \<open>Tokens of one session, minted at 60 s for 300 s, in a deployment with one secret.\<close>

definition demo_claims :: claims where
  "demo_claims = [(''sid'', PStr ''s1''), (''iat'', PInt 60), (''exp'', PInt 360), (''iss'', PStr ''camou-gateway'')]"

definition demo_decode :: "claims \<Rightarrow> jwt_decode" where
  "demo_decode c now token secret issuer =
     (if now < 360000000 \<and> token = demo_encode c secret then Inr c else Inl (OtherError ''JWTError''))"

definition demo_validator :: token_validator where
  "demo_validator = \<lparr>tv_secret = ''k'', tv_issuer = ''camou-gateway'', tv_cache_limit = 128, tv_skew = 10\<rparr>"

definition demo_details :: vnc_details where
  "demo_details = \<lparr>vd_http_url = Some ''https://vnc/view?a=1&token=x'', vd_websocket_url = None,
     vd_token = None, vd_token_ttl = None\<rparr>"

lemma minted_token_opens_its_session_witness:
  "\<exists>d' token. enrich_vnc_details demo_encode \<lparr>ts_secret = ''k'', ts_ttl = 300, ts_issuer = ''camou-gateway''\<rparr>
      60000000 demo_details ''s1'' None = Inr d' \<and> vd_token d' = Some token \<and>
     fst (validate_token (demo_decode demo_claims) demo_validator 90000000 90000000 90000001 ''s1'' token []) = Inr () \<and>
     fst (validate_token (demo_decode demo_claims) demo_validator 90000000 90000000 90000001 ''s2'' token []) \<noteq> Inr ()"
proof -
  let ?s = "\<lparr>ts_secret = ''k'', ts_ttl = 300, ts_issuer = ''camou-gateway''\<rparr>"
  have claims: "issue_claims ?s 60000000 ''s1'' None = demo_claims"
    by (simp add: issue_claims_def demo_claims_def epoch_seconds_def)
  have law: "jwt_lawful demo_encode (demo_decode demo_claims) (issue_claims ?s 60000000 ''s1'' None) ''k'' ''camou-gateway''"
    unfolding claims by (auto simp: jwt_lawful_def demo_encode_def demo_decode_def demo_claims_def)
  have svc: "make_token_service ''k'' 300 ''camou-gateway'' = Inr ?s" by (simp add: make_token_service_def)
  have v: "tv_secret demo_validator = ''k''" "tv_issuer demo_validator = ''camou-gateway''" "0 \<le> tv_skew demo_validator"
    by (simp_all add: demo_validator_def)
  have d: "vd_token demo_details = None" "vd_http_url demo_details = Some ''https://vnc/view?a=1&token=x''"
    by (simp_all add: demo_details_def)
  have "append_query_token (Some ''https://vnc/view?a=1&token=x'') ''header.claims.k'' =
      Inr (Some ''https://vnc/view?a=1&token=header.claims.k'')" by code_simp
  then obtain d' where e: "enrich_vnc_details demo_encode ?s 60000000 demo_details ''s1'' None = Inr d'"
    by (auto simp: enrich_vnc_details_def issue_def demo_encode_def demo_details_def append_query_token_def [of None])
  from minted_token_opens_its_session [OF law svc v _ _ d(1) e d(2)] obtain token where
    token: "vd_token d' = Some token"
    and no: "\<And>j m m' sid'. fst (validate_token (demo_decode demo_claims) demo_validator j m m' sid' token []) = Inr () \<Longrightarrow> sid' = ''s1''"
    and yes: "\<And>j m m'. 60000000 \<le> m \<Longrightarrow> max m j < 360000000 \<Longrightarrow>
      fst (validate_token (demo_decode demo_claims) demo_validator j m m' ''s1'' token []) = Inr ()"
    by auto
  have "fst (validate_token (demo_decode demo_claims) demo_validator 90000000 90000000 90000001 ''s1'' token []) = Inr ()"
    by (rule yes) simp_all
  moreover have "fst (validate_token (demo_decode demo_claims) demo_validator 90000000 90000000 90000001 ''s2'' token []) \<noteq> Inr ()"
    using no by fastforce
  ultimately show ?thesis using e token by blast
qed


end
