(* ===== verification/Vnc_Gateway.thy ===== *)
theory Vnc_Gateway
  imports Vnc_Tokens Py_Netloc
begin

text \<open>
  The VNC gateway (\<open>services/vnc-gateway/app/camou_vnc_gateway\<close>): the upstream request it derives from a
  client's (\<open>proxy.py\<close>), the connection counters and metrics (\<open>metrics.py\<close>) and the HTTP route that
  combines them with the token check (\<open>routes.py\<close>). A request is the data the framework hands over;
  the runner's answer is a parameter.
\<close>

declare map_of_eq_Some_iff [simp del] Some_eq_map_of_iff [simp del]

section \<open>The upstream URL\<close>

definition strip_trailing :: "string \<Rightarrow> string" where
  "strip_trailing = rstrip_by (\<lambda>c. c = CHR ''/'')"

definition join_paths :: "string \<Rightarrow> string \<Rightarrow> string" where
  "join_paths prefix suffix =
     (let p = strip_trailing prefix; s = dropWhile (\<lambda>c. c = CHR ''/'') suffix
      in if p \<noteq> [] \<and> s \<noteq> [] then (if starts_with ''/'' p then p @ ''/'' @ s else ''/'' @ p @ ''/'' @ s)
         else if p \<noteq> [] then (if starts_with ''/'' p then p else ''/'' @ p)
         else if s \<noteq> [] then ''/'' @ s
         else ''/'')"

definition parse_port :: "string option \<Rightarrow> int option res" where
  "parse_port raw = (case raw of
     None \<Rightarrow> Inr None
   | Some r \<Rightarrow> (case py_int r of
       None \<Rightarrow> Inl (ValueError ''target_port must be an integer'')
     | Some port \<Rightarrow> if port \<le> 0 \<or> 65535 < port then Inl (ValueError ''target_port must be between 1 and 65535'')
         else Inr (Some port)))"

definition extract_port_from_referer :: "string option \<Rightarrow> string option res" where
  "extract_port_from_referer referer = (case referer of
     None \<Rightarrow> Inr None
   | Some r \<Rightarrow> if r = [] then Inr None
       else res_bind (urlsplit r) (\<lambda>parsed. Inr (map_of (parse_qsl False (u_query parsed)) ''target_port'')))"

definition target_port_cookie :: string where
  "target_port_cookie = ''vnc-target-port''"

definition select_target_port ::
  "string option \<Rightarrow> string option \<Rightarrow> (string, string) dict \<Rightarrow> (string option \<times> string option) res" where
  "select_target_port query_value referer cookies =
     (if query_value \<noteq> None \<and> query_value \<noteq> Some [] then Inr (query_value, Some ''query'')
      else res_bind (extract_port_from_referer referer) (\<lambda>referer_port.
        if referer_port \<noteq> None \<and> referer_port \<noteq> Some [] then Inr (referer_port, Some ''referer'')
        else (case map_of cookies target_port_cookie of
            Some p \<Rightarrow> if p \<noteq> [] then Inr (Some p, Some ''cookie'') else Inr (None, None)
          | None \<Rightarrow> Inr (None, None))))"

definition upstream_netloc :: "url_parts \<Rightarrow> int option \<Rightarrow> string res" where
  "upstream_netloc base port_override =
     res_bind (case port_override of Some p \<Rightarrow> Inr (Some p) | None \<Rightarrow> netloc_port (u_netloc base)) (\<lambda>port.
       let host = (case netloc_hostname (u_netloc base) of Some h \<Rightarrow> h | None \<Rightarrow> u_netloc base)
       in if host = [] then Inl (OtherError ''Runner base URL is missing hostname'')
          else let host = host_part host
            in Inr (case port of Some p \<Rightarrow> if p \<noteq> 0 then host @ '':'' @ int_str p else host | None \<Rightarrow> host))"

definition build_upstream_url ::
  "url_parts \<Rightarrow> string \<Rightarrow> string \<Rightarrow> int option \<Rightarrow> (string \<times> string) list \<Rightarrow> string res" where
  "build_upstream_url base prefix path_suffix port_override query =
     res_bind (upstream_netloc base port_override) (\<lambda>netloc.
       Inr (urlunsplit \<lparr>u_scheme = u_scheme base, u_netloc = netloc, u_path = join_paths prefix path_suffix,
         u_params = [], u_query = urlencode query, u_fragment = []\<rparr>))"

section \<open>Headers\<close>

definition hop_by_hop :: "string list" where
  "hop_by_hop = [''connection'', ''keep-alive'', ''proxy-authenticate'', ''proxy-authorization'', ''te'',
     ''trailers'', ''transfer-encoding'', ''upgrade'']"

definition filter_headers :: "(string, string) dict \<Rightarrow> (string, string) dict" where
  "filter_headers headers = filter (\<lambda>(k, _). lower k \<notin> set hop_by_hop \<and> lower k \<noteq> ''host'') headers"

definition filter_response_headers :: "(string \<times> string) list \<Rightarrow> (string \<times> string) list" where
  "filter_response_headers headers = filter (\<lambda>(k, _). lower k \<notin> set hop_by_hop) headers"

definition select_upstream_headers :: "(string \<times> string) list \<Rightarrow> (string \<times> string) list" where
  "select_upstream_headers headers =
     filter (\<lambda>(k, _). lower k \<in> {''origin'', ''user-agent'', ''cookie'', ''sec-websocket-extensions''}) headers"

section \<open>Forwarding\<close>

record http_request =
  hq_method :: string
  hq_path :: string
  hq_query :: "(string \<times> string) list"
  hq_headers :: "(string, string) dict"
  hq_cookies :: "(string, string) dict"
  hq_body :: string

record http_response =
  hr_status :: nat
  hr_headers :: "(string \<times> string) list"
  hr_content :: string
  hr_cookie :: "(string \<times> string \<times> string) option"

record upstream_request =
  ur_method :: string
  ur_url :: string
  ur_headers :: "(string, string) dict"
  ur_content :: "string option"

text \<open>The proxy holds the two parsed base URLs of the runner.\<close>

record runner_proxy =
  rp_http_base :: url_parts
  rp_ws_base :: url_parts

definition http_prefix :: "runner_proxy \<Rightarrow> string" where
  "http_prefix p = strip_trailing (u_path (rp_http_base p))"

definition ws_prefix :: "runner_proxy \<Rightarrow> string" where
  "ws_prefix p = strip_trailing (u_path (rp_ws_base p))"

text \<open>The framework's mappings answer with the last value of a repeated query parameter.\<close>

abbreviation query_get :: "(string \<times> string) list \<Rightarrow> string \<Rightarrow> string option" where
  "query_get q k \<equiv> map_of (rev q) k"

definition forward_request :: "runner_proxy \<Rightarrow> http_request \<Rightarrow> (upstream_request \<times> (string \<times> string \<times> string) option) res" where
  "forward_request p r =
     res_bind (select_target_port (query_get (hq_query r) ''target_port'') (map_of (hq_headers r) ''referer'') (hq_cookies r))
       (\<lambda>(raw_port, source).
     res_bind (case parse_port raw_port of Inl (ValueError m) \<Rightarrow> Inl (TargetPortError m) | x \<Rightarrow> x) (\<lambda>port.
     res_bind (build_upstream_url (rp_http_base p) (http_prefix p) (hq_path r) port
         (filter (\<lambda>(k, _). k \<noteq> ''target_port'') (hq_query r))) (\<lambda>url.
       Inr (\<lparr>ur_method = hq_method r, ur_url = url, ur_headers = filter_headers (hq_headers r),
             ur_content = (if hq_body r = [] then None else Some (hq_body r))\<rparr>,
           if source = Some ''query'' \<and> port \<noteq> None
           then Some (target_port_cookie, int_str (the port), join_paths (http_prefix p) ''/vnc'') else None))))"

definition forward_http ::
  "(upstream_request \<Rightarrow> http_response res) \<Rightarrow> runner_proxy \<Rightarrow> http_request \<Rightarrow> http_response res" where
  "forward_http upstream p r =
     res_bind (forward_request p r) (\<lambda>(request, cookie).
     res_bind (upstream request) (\<lambda>answer.
       Inr (answer\<lparr>hr_headers := filter_response_headers (hr_headers answer), hr_cookie := cookie\<rparr>)))"

text \<open>
  What \<open>forward_websocket\<close> connects to: a bad port closes the connection with code 1008. The cookies
  are those of the parsed \<open>Cookie\<close> header.
\<close>

record ws_connect =
  wc_url :: string
  wc_subprotocols :: "string list"
  wc_headers :: "(string \<times> string) list"

definition ws_subprotocols :: "string option \<Rightarrow> string list" where
  "ws_subprotocols header = (case header of
     None \<Rightarrow> []
   | Some h \<Rightarrow> if h = [] then [] else filter (\<lambda>s. s \<noteq> []) (map strip (split_on (CHR '','') h)))"

datatype ws_action = WsClose nat string | WsConnect ws_connect

definition websocket_target :: "runner_proxy \<Rightarrow> http_request \<Rightarrow> ws_action res" where
  "websocket_target p r =
     res_bind (select_target_port (query_get (hq_query r) ''target_port'') (map_of (hq_headers r) ''referer'') (hq_cookies r))
       (\<lambda>(raw_port, _).
     (case parse_port raw_port of
        Inl (ValueError m) \<Rightarrow> Inr (WsClose 1008 m)
      | Inl e \<Rightarrow> Inl e
      | Inr port \<Rightarrow>
          res_bind (build_upstream_url (rp_ws_base p) (ws_prefix p) (hq_path r) port
            (filter (\<lambda>(k, _). k \<noteq> ''target_port'') (hq_query r))) (\<lambda>url.
            Inr (WsConnect \<lparr>wc_url = url, wc_subprotocols = ws_subprotocols (map_of (hq_headers r) ''sec-websocket-protocol''),
              wc_headers = select_upstream_headers (hq_headers r)\<rparr>))))"

section \<open>Connection metrics\<close>

text \<open>
  A backend is its state and the operations on it; \<open>prometheus\<close> keeps the series, \<open>otlp\<close> the events
  handed to its exporter.
\<close>

type_synonym conn_key = "string \<times> string"

record 'm backend_ops =
  bo_opens :: "string \<Rightarrow> 'm \<Rightarrow> 'm"
  bo_set_active :: "conn_key \<Rightarrow> int \<Rightarrow> 'm \<Rightarrow> 'm"
  bo_remove_active :: "conn_key \<Rightarrow> 'm \<Rightarrow> 'm"
  bo_failure :: "string \<Rightarrow> 'm \<Rightarrow> 'm"

record prometheus_state =
  pm_active :: "(conn_key, int) dict"
  pm_opens :: "(string, nat) dict"
  pm_failures :: "(string, nat) dict"

definition bump :: "string \<Rightarrow> (string, nat) dict \<Rightarrow> (string, nat) dict" where
  "bump k d = AList.update k (case map_of d k of Some n \<Rightarrow> Suc n | None \<Rightarrow> 1) d"

definition prometheus :: "prometheus_state backend_ops" where
  "prometheus = \<lparr>bo_opens = (\<lambda>c s. s\<lparr>pm_opens := bump c (pm_opens s)\<rparr>),
     bo_set_active = (\<lambda>k v s. s\<lparr>pm_active := AList.update k v (pm_active s)\<rparr>),
     bo_remove_active = (\<lambda>k s. s\<lparr>pm_active := AList.delete k (pm_active s)\<rparr>),
     bo_failure = (\<lambda>r s. s\<lparr>pm_failures := bump r (pm_failures s)\<rparr>)\<rparr>"

datatype metric_event =
    OpensCounter string
  | ActiveGauge conn_key int
  | FailuresCounter string

definition otlp :: "metric_event list backend_ops" where
  "otlp = \<lparr>bo_opens = (\<lambda>c s. s @ [OpensCounter c]),
     bo_set_active = (\<lambda>k v s. s @ [ActiveGauge k v]),
     bo_remove_active = (\<lambda>k s. s @ [ActiveGauge k 0]),
     bo_failure = (\<lambda>r s. s @ [FailuresCounter r])\<rparr>"

record 'm connections =
  cn_active :: "(conn_key, int) dict"
  cn_metrics :: 'm

abbreviation counter_get :: "(conn_key, int) dict \<Rightarrow> conn_key \<Rightarrow> int" where
  "counter_get d k \<equiv> (case map_of d k of Some n \<Rightarrow> n | None \<Rightarrow> 0)"

definition track_enter :: "'m backend_ops \<Rightarrow> conn_key \<Rightarrow> ('m connections, unit) op" where
  "track_enter be key =
     thenm (modify (\<lambda>s. s\<lparr>cn_active := AList.update key (counter_get (cn_active s) key + 1) (cn_active s)\<rparr>))
     (bindm (gets (\<lambda>s. counter_get (cn_active s) key)) (\<lambda>active.
      modify (\<lambda>s. s\<lparr>cn_metrics := bo_set_active be key active (bo_opens be (snd key) (cn_metrics s))\<rparr>)))"

definition track_exit :: "'m backend_ops \<Rightarrow> conn_key \<Rightarrow> ('m connections, unit) op" where
  "track_exit be key =
     thenm (modify (\<lambda>s. s\<lparr>cn_active := AList.update key (counter_get (cn_active s) key - 1) (cn_active s)\<rparr>))
     (bindm (gets (\<lambda>s. counter_get (cn_active s) key)) (\<lambda>active.
      if active \<le> 0
      then thenm (modify (\<lambda>s. s\<lparr>cn_metrics := bo_remove_active be key (cn_metrics s)\<rparr>))
           (whenm (active < 0) (modify (\<lambda>s. s\<lparr>cn_active := AList.update key 0 (cn_active s)\<rparr>)))
      else modify (\<lambda>s. s\<lparr>cn_metrics := bo_set_active be key active (cn_metrics s)\<rparr>)))"

text \<open>\<open>async with registry.track(...)\<close> around a body.\<close>

definition track :: "'m backend_ops \<Rightarrow> conn_key \<Rightarrow> ('m connections, 'a) op \<Rightarrow> ('m connections, 'a) op" where
  "track be key body = thenm (track_enter be key) (finallym body (track_exit be key))"

definition connection_snapshot :: "('m connections, (conn_key, int) dict) op" where
  "connection_snapshot = gets cn_active"

section \<open>The HTTP route\<close>

definition coalesce_token :: "string option \<Rightarrow> (string \<times> string) list \<Rightarrow> string option" where
  "coalesce_token header query =
     (if header \<noteq> None \<and> header \<noteq> Some [] then header
      else (case query_get query ''token'' of
          Some t \<Rightarrow> if t \<noteq> [] then Some t else query_get query ''access_token''
        | None \<Rightarrow> query_get query ''access_token''))"

definition extract_token :: "http_request \<Rightarrow> string res" where
  "extract_token r = (case coalesce_token (map_of (hq_headers r) ''x-vnc-token'') (hq_query r) of
     None \<Rightarrow> Inl (HTTPException 401 ''Missing VNC access token'')
   | Some t \<Rightarrow> if t = [] then Inl (HTTPException 401 ''Missing VNC access token'') else Inr t)"

text \<open>
  The dependency builds a validator for each request, so its replay cache starts empty. \<open>clock\<close> gives
  the library's reading and the validator's two.
\<close>

definition validate_request :: "jwt_decode \<Rightarrow> token_validator \<Rightarrow> int \<times> int \<times> int \<Rightarrow> string \<Rightarrow> string \<Rightarrow> unit res" where
  "validate_request decode v clock sid token = (case clock of (jnow, now, now') \<Rightarrow>
     fst (validate_token decode v jnow now now' sid token []))"

definition proxy_session ::
  "'m backend_ops \<Rightarrow> jwt_decode \<Rightarrow> token_validator \<Rightarrow> int \<times> int \<times> int \<Rightarrow> (upstream_request \<Rightarrow> http_response res) \<Rightarrow>
   runner_proxy \<Rightarrow> string \<Rightarrow> http_request \<Rightarrow> ('m connections, http_response) op" where
  "proxy_session be decode v clock upstream p sid r =
     bindm (lift_res (extract_token r)) (\<lambda>token.
     (case validate_request decode v clock sid token of
        Inl (TokenValidationError m) \<Rightarrow>
          thenm (modify (\<lambda>s. s\<lparr>cn_metrics := bo_failure be m (cn_metrics s)\<rparr>)) (raise (HTTPException 401 m))
      | Inl e \<Rightarrow> raise e
      | Inr _ \<Rightarrow> track be (sid, ''http'')
          (catchm (lift_res (forward_http upstream p r))
             (\<lambda>e. case e of TargetPortError m \<Rightarrow> raise (HTTPException 400 m) | _ \<Rightarrow> raise e))))"

datatype ws_outcome = WsClosed nat string | WsRelayed ws_connect

text \<open>
  The WebSocket route up to the relay; \<open>relay\<close> is the relay of frames once connected, which may fail.
\<close>

definition proxy_session_ws ::
  "'m backend_ops \<Rightarrow> jwt_decode \<Rightarrow> token_validator \<Rightarrow> int \<times> int \<times> int \<Rightarrow> (ws_connect \<Rightarrow> unit res) \<Rightarrow>
   runner_proxy \<Rightarrow> string \<Rightarrow> http_request \<Rightarrow> ('m connections, ws_outcome) op" where
  "proxy_session_ws be decode v clock relay p sid r =
     (case coalesce_token (map_of (hq_headers r) ''x-vnc-token'') (hq_query r) of
        None \<Rightarrow> ret (WsClosed 1008 [])
      | Some token \<Rightarrow> if token = [] then ret (WsClosed 1008 [])
          else (case validate_request decode v clock sid token of
             Inl (TokenValidationError m) \<Rightarrow>
               thenm (modify (\<lambda>s. s\<lparr>cn_metrics := bo_failure be m (cn_metrics s)\<rparr>)) (ret (WsClosed 1008 m))
           | Inl e \<Rightarrow> raise e
           | Inr _ \<Rightarrow> track be (sid, ''ws'')
               (bindm (lift_res (websocket_target p r)) (\<lambda>a. case a of
                  WsClose c m \<Rightarrow> ret (WsClosed c m)
                | WsConnect c \<Rightarrow> bindm (lift_res (relay c)) (\<lambda>_. ret (WsRelayed c))))))"

section \<open>The upstream stays the runner\<close>

lemma join_paths_absolute: "starts_with ''/'' (join_paths p s)"
  by (auto simp: join_paths_def Let_def starts_with_Cons)

lemma join_paths_chars: "set (join_paths p s) \<subseteq> set p \<union> set s \<union> {CHR ''/''}"
proof -
  have "set (strip_trailing p) \<subseteq> set p"
    by (auto simp: strip_trailing_def rstrip_by_def dest: set_dropWhileD)
  moreover have "set (dropWhile (\<lambda>c. c = CHR ''/'') s) \<subseteq> set s" by (auto dest: set_dropWhileD)
  ultimately show ?thesis unfolding join_paths_def Let_def by auto
qed

lemma port_error_case:
  "(case r of Inl (ValueError m) \<Rightarrow> Inl (TargetPortError m) | x \<Rightarrow> x) = Inr y \<longleftrightarrow> r = Inr y"
  by (cases r) (auto split: exn.splits)

lemma ws_port_case:
  "(case r of Inl (ValueError m) \<Rightarrow> Inr (WsClose 1008 m) | Inl e \<Rightarrow> Inl e | Inr port \<Rightarrow> f port) = Inr (WsConnect c) \<longleftrightarrow>
    (\<exists>port. r = Inr port \<and> f port = Inr (WsConnect c))"
  by (cases r) (simp_all split: exn.split)

lemma netloc_ok_host_part: "plain_host h \<Longrightarrow> netloc_ok (host_part h)"
  using plain_host_chars [of h]
  by (auto simp: host_part_def netloc_ok_def list_all_iff path_start_def unsafe_char_def)

lemma netloc_ok_port: "0 \<le> n \<Longrightarrow> netloc_ok (int_str n)"
  using int_str_not is_digit_plain by (auto simp: netloc_ok_def list_all_iff)

lemma parse_port_range: "parse_port raw = Inr (Some n) \<Longrightarrow> 0 < n \<and> n \<le> 65535"
  by (auto simp: parse_port_def split: option.splits if_splits)

lemma netloc_port_range: "netloc_port n = Inr (Some k) \<Longrightarrow> 0 \<le> k \<and> k \<le> 65535"
  by (auto simp: netloc_port_def Let_def split: option.splits if_splits)

lemma upstream_netloc_back:
  assumes "netloc_hostname (u_netloc base) = Some h" and "plain_host h"
    and "\<And>n. po = Some n \<Longrightarrow> 0 < n \<and> n \<le> 65535"
    and "upstream_netloc base po = Inr netloc"
  shows "netloc_ok netloc" and "netloc \<noteq> []" and "netloc_hostname netloc = Some h"
    and "\<exists>port. (case po of Some p \<Rightarrow> Inr (Some p) | None \<Rightarrow> netloc_port (u_netloc base)) = Inr port \<and>
      netloc_port netloc = Inr (if port = Some 0 then None else port)"
proof -
  obtain port where port: "(case po of Some p \<Rightarrow> Inr (Some p) | None \<Rightarrow> netloc_port (u_netloc base)) = Inr port"
    using assms(4) by (auto simp: upstream_netloc_def)
  have range: "0 \<le> n \<and> n \<le> 65535" if "port = Some n" for n
    using port that assms(3) netloc_port_range by (fastforce split: option.splits)
  have h: "h \<noteq> []" "host_part h \<noteq> []" using assms(2) by (auto simp: plain_host_def host_part_def)
  have netloc: "netloc = (case port of Some p \<Rightarrow> if p \<noteq> 0 then host_part h @ '':'' @ int_str p else host_part h
      | None \<Rightarrow> host_part h)"
    using assms(1,4) h(1) by (auto simp: upstream_netloc_def port Let_def)
  note facts = netloc_ok_host_part [OF assms(2)] netloc_read_back_host [OF assms(2)]
  have port_text: "netloc_hostname (host_part h @ '':'' @ int_str n) = Some h"
    "netloc_port (host_part h @ '':'' @ int_str n) = Inr (Some n)" "netloc_ok (int_str n)" if "port = Some n" for n
    using netloc_read_back [OF assms(2), of n "[]"] netloc_ok_port range [OF that] by auto
  have colon: "\<not> path_start (CHR '':'')" "\<not> unsafe_char (CHR '':'')" by (simp_all add: path_start_def unsafe_char_def)
  show "netloc_ok netloc" "netloc \<noteq> []" "netloc_hostname netloc = Some h"
    using netloc facts port_text colon h by (auto split: option.splits)
  show "\<exists>port. (case po of Some p \<Rightarrow> Inr (Some p) | None \<Rightarrow> netloc_port (u_netloc base)) = Inr port \<and>
      netloc_port netloc = Inr (if port = Some 0 then None else port)"
    using port netloc facts port_text by (intro exI [of _ port]) (auto split: option.splits)
qed

text \<open>
  A base URL with a plain host, no IPv6 literal or the like, and what it means that a URL built for a
  request stays with it: scheme and host are the base's, the port is the base's or one between 1 and
  65535, and the query is the client's without the port.
\<close>

definition plain_base :: "url_parts \<Rightarrow> bool" where
  "plain_base base = (scheme_ok (u_scheme base) \<and>
     (case netloc_hostname (u_netloc base) of Some h \<Rightarrow> plain_host h | None \<Rightarrow> False))"

definition stays_with :: "url_parts \<Rightarrow> http_request \<Rightarrow> string \<Rightarrow> bool" where
  "stays_with base r url = (\<forall>q. urlparse url = Inr q \<longrightarrow>
     u_scheme q = u_scheme base \<and> netloc_hostname (u_netloc q) = netloc_hostname (u_netloc base) \<and>
     ((\<exists>n. netloc_port (u_netloc q) = Inr (Some n) \<and> 0 < n \<and> n \<le> 65535) \<or>
      netloc_port (u_netloc q) = Inr None \<and>
        (netloc_port (u_netloc base) = Inr None \<or> netloc_port (u_netloc base) = Inr (Some 0))) \<and>
     (no_marks (hq_path r) \<and> no_marks (u_path base) \<longrightarrow>
        parse_qsl True (u_query q) = filter (\<lambda>(k, _). k \<noteq> ''target_port'') (hq_query r)))"

lemma built_url_stays:
  assumes port: "parse_port raw = Inr port" and "plain_base base" and prefix: "prefix = strip_trailing (u_path base)"
    and url: "build_upstream_url base prefix (hq_path r) port (filter (\<lambda>(k, _). k \<noteq> ''target_port'') (hq_query r)) = Inr url"
  shows "stays_with base r url"
  unfolding stays_with_def
proof (intro allI impI)
  let ?items = "filter (\<lambda>(k, _). k \<noteq> ''target_port'') (hq_query r)"
  fix q assume "urlparse url = Inr q"
  obtain h where h: "netloc_hostname (u_netloc base) = Some h" "plain_host h" and scheme: "scheme_ok (u_scheme base)"
    using assms(2) by (auto simp: plain_base_def split: option.splits)
  obtain netloc where netloc: "upstream_netloc base port = Inr netloc"
    and u: "url = urlunparse \<lparr>u_scheme = u_scheme base, u_netloc = netloc,
      u_path = join_paths prefix (hq_path r), u_params = [], u_query = urlencode ?items, u_fragment = []\<rparr>"
      (is "_ = urlunparse ?u")
    using url by (auto simp: build_upstream_url_def urlunsplit_def)
  have range: "0 < n \<and> n \<le> 65535" if "port = Some n" for n using parse_port_range port that by simp
  note nl = upstream_netloc_back [OF h range netloc]
  have "u_path ?u \<noteq> []" using join_paths_absolute [of prefix "hq_path r"] by (auto simp: starts_with_def)
  then have q: "u_scheme q = u_scheme base \<and> u_netloc q = netloc"
    using urlparse_netloc_path [of ?u q] scheme \<open>urlparse url = Inr q\<close> nl u by simp
  have query: "parse_qsl True (u_query q) = ?items" if marks: "no_marks (hq_path r)" "no_marks (u_path base)"
  proof -
    have "set prefix \<subseteq> set (u_path base)"
      by (auto simp: prefix strip_trailing_def rstrip_by_def dest: set_dropWhileD)
    then have prefix: "no_marks prefix" using marks(2) by (rule no_marks_subset [rotated])
    have path: "no_marks (join_paths prefix (hq_path r))"
      using prefix marks(1) join_paths_chars [of prefix "hq_path r"] unfolding no_marks_def by blast
    have "\<not> scheme_char (CHR ''?'')" "\<not> scheme_char (CHR ''#'')" by code_simp+
    then have "no_marks (u_scheme base)" using scheme unfolding scheme_ok_def no_marks_def list_all_iff by blast
    moreover have "no_marks netloc"
      using nl(1) unfolding netloc_ok_def no_marks_def list_all_iff path_start_def by blast
    ultimately have "parts_clean ?u" using path by (simp add: parts_clean_def)
    then have "u_query q = u_query ?u"
      by (rule urlparse_urlunparse_query) (use \<open>urlparse url = Inr q\<close> u in \<open>auto simp: urlencode_chars\<close>)
    then show ?thesis by (simp add: parse_qsl_urlencode)
  qed
  obtain port' where port': "(case port of Some p \<Rightarrow> Inr (Some p) | None \<Rightarrow> netloc_port (u_netloc base)) = Inr port'"
    "netloc_port netloc = Inr (if port' = Some 0 then None else port')" using nl(4) by blast
  have "0 \<le> n \<and> n \<le> 65535" if "port' = Some n" for n
    using port'(1) that range netloc_port_range by (fastforce split: option.splits)
  then have "(\<exists>n. netloc_port netloc = Inr (Some n) \<and> 0 < n \<and> n \<le> 65535) \<or>
     netloc_port netloc = Inr None \<and> (netloc_port (u_netloc base) = Inr None \<or> netloc_port (u_netloc base) = Inr (Some 0))"
    using port' range by (cases port'; cases port) (force split: if_splits)+
  then show "u_scheme q = u_scheme base \<and> netloc_hostname (u_netloc q) = netloc_hostname (u_netloc base) \<and>
     ((\<exists>n. netloc_port (u_netloc q) = Inr (Some n) \<and> 0 < n \<and> n \<le> 65535) \<or>
      netloc_port (u_netloc q) = Inr None \<and>
        (netloc_port (u_netloc base) = Inr None \<or> netloc_port (u_netloc base) = Inr (Some 0))) \<and>
     (no_marks (hq_path r) \<and> no_marks (u_path base) \<longrightarrow> parse_qsl True (u_query q) = ?items)"
    using q nl(3) query h(1) by simp
qed

text \<open>
  C30: Nothing a client sends moves the VNC gateway off its runner, over HTTP or over WebSocket. When the
  configured base has a plain host (no IPv6 literal or other unusual host) and a well-formed scheme, then
  whatever path, query, referer and cookies a request has, the URL the gateway requests or connects to
  has the scheme and host of the HTTP or the WebSocket base, and its port is the base's or one
  between 1 and 65535 that the client chose; for a path without query or fragment marks, its query
  carries the client's parameters but the port, unchanged.
\<close>

theorem upstream_host_fixed:
  "(forward_request p r = Inr (request, cookie) \<and> plain_base (rp_http_base p) \<longrightarrow>
      stays_with (rp_http_base p) r (ur_url request)) \<and>
   (websocket_target p r = Inr (WsConnect c) \<and> plain_base (rp_ws_base p) \<longrightarrow>
      stays_with (rp_ws_base p) r (wc_url c))"
proof (intro conjI impI; elim conjE)
  assume run: "forward_request p r = Inr (request, cookie)" and base: "plain_base (rp_http_base p)"
  obtain raw port where "parse_port raw = Inr port" and "build_upstream_url (rp_http_base p) (http_prefix p)
      (hq_path r) port (filter (\<lambda>(k, _). k \<noteq> ''target_port'') (hq_query r)) = Inr (ur_url request)"
    using run by (auto simp: forward_request_def port_error_case split: prod.splits)
  then show "stays_with (rp_http_base p) r (ur_url request)"
    using built_url_stays [OF _ base http_prefix_def] by blast
next
  assume run: "websocket_target p r = Inr (WsConnect c)" and base: "plain_base (rp_ws_base p)"
  obtain raw port where "parse_port raw = Inr port" and "build_upstream_url (rp_ws_base p) (ws_prefix p)
      (hq_path r) port (filter (\<lambda>(k, _). k \<noteq> ''target_port'') (hq_query r)) = Inr (wc_url c)"
    using run by (auto simp: websocket_target_def ws_port_case split: prod.splits)
  then show "stays_with (rp_ws_base p) r (wc_url c)"
    using built_url_stays [OF _ base ws_prefix_def] by blast
qed

section \<open>The gauges count the open connections\<close>

text \<open>
  What the connection registry relies on of a metrics backend: the series of each key is the last
  value set, a removed one reads \<open>gone\<close>, and the other operations leave it alone.
\<close>

locale gauge_backend =
  fixes be :: "'m backend_ops"
    and active_view :: "'m \<Rightarrow> conn_key \<Rightarrow> int option"
    and opens_view :: "'m \<Rightarrow> string \<Rightarrow> nat"
    and gone :: "int option"
  assumes set_law: "active_view (bo_set_active be k v m) = (active_view m)(k \<mapsto> v)"
    and remove_law: "active_view (bo_remove_active be k m) = (active_view m)(k := gone)"
    and opens_law: "opens_view (bo_opens be c m) = (opens_view m)(c := Suc (opens_view m c))"
    and frame_law: "active_view (bo_opens be c m) = active_view m" "active_view (bo_failure be r m) = active_view m"
      "opens_view (bo_set_active be k v m) = opens_view m" "opens_view (bo_remove_active be k m) = opens_view m"
      "opens_view (bo_failure be r m) = opens_view m"

text \<open>
  The tracked blocks of concurrent requests interleave: a step opens one, closes an open one, or
  records a rejected token. The lists remember the open blocks and all blocks ever opened.
\<close>

type_synonym 'm tracked = "'m connections \<times> conn_key list \<times> conn_key list"

inductive conn_step :: "'m backend_ops \<Rightarrow> 'm tracked \<Rightarrow> 'm tracked \<Rightarrow> bool" for be where
  cs_open: "track_enter be k c = (x, c') \<Longrightarrow> conn_step be (c, os, hist) (c', k # os, k # hist)"
| cs_close: "k \<in> set os \<Longrightarrow> track_exit be k c = (x, c') \<Longrightarrow> conn_step be (c, os, hist) (c', remove1 k os, hist)"
| cs_failure: "conn_step be (c, os, hist) (c\<lparr>cn_metrics := bo_failure be r (cn_metrics c)\<rparr>, os, hist)"

lemma track_enter_run:
  "track_enter be k c = (Inr (), c\<lparr>cn_active := AList.update k (counter_get (cn_active c) k + 1) (cn_active c),
     cn_metrics := bo_set_active be k (counter_get (cn_active c) k + 1) (bo_opens be (snd k) (cn_metrics c))\<rparr>)"
  by (simp add: track_enter_def op_run)

lemma track_exit_run:
  "track_exit be k c = (Inr (), let n = counter_get (cn_active c) k - 1 in
     c\<lparr>cn_active := (if n < 0 then AList.update k 0 (AList.update k n (cn_active c)) else AList.update k n (cn_active c)),
       cn_metrics := (if n \<le> 0 then bo_remove_active be k (cn_metrics c) else bo_set_active be k n (cn_metrics c))\<rparr>)"
  by (simp add: track_exit_def op_run whenm_def Let_def)

lemma count_list_remove1: "k \<in> set xs \<Longrightarrow> count_list (remove1 k xs) j = (if j = k then count_list xs k - 1 else count_list xs j)"
  by (induction xs) (auto simp: count_list_0_iff Suc_diff_Suc dest: count_list_0_iff [THEN iffD1])

context gauge_backend
begin

definition gauges_ok :: "'m tracked \<Rightarrow> bool" where
  "gauges_ok t = (case t of (c, os, hist) \<Rightarrow>
     (\<forall>k. counter_get (cn_active c) k = int (count_list os k)) \<and>
     (\<forall>k. if k \<in> set os then active_view (cn_metrics c) k = Some (int (count_list os k))
          else active_view (cn_metrics c) k \<in> {None, gone}) \<and>
     (\<forall>ch. opens_view (cn_metrics c) ch = count_list (map snd hist) ch))"

definition gauges_init :: "'m tracked \<Rightarrow> bool" where
  "gauges_init t = (case t of (c, os, hist) \<Rightarrow> cn_active c = [] \<and> os = [] \<and> hist = [] \<and>
     active_view (cn_metrics c) = Map.empty \<and> opens_view (cn_metrics c) = (\<lambda>_. 0))"

lemma gauges_step:
  assumes "gauges_ok t" and "conn_step be t u"
  shows "gauges_ok u"
  using assms(2)
proof cases
  case (cs_open k c x c' os hist)
  have ok: "gauges_ok (c, os, hist)" using assms(1) cs_open by simp
  have c': "c' = snd (track_enter be k c)" using cs_open by simp
  show ?thesis
    using ok unfolding cs_open(2) c' track_enter_run gauges_ok_def prod.case
    by (auto simp: set_law opens_law frame_law simp del: split_paired_All) (metis emptyE insertE)
next
  case (cs_close k os c x c' hist)
  have ok: "gauges_ok (c, os, hist)" using assms(1) cs_close by simp
  have c': "c' = snd (track_exit be k c)" using cs_close by simp
  have pos: "0 < count_list os k" using cs_close(3) by (metis count_list_0_iff gr0I)
  have here: "counter_get (cn_active c) k = int (count_list os k)"
    using ok unfolding gauges_ok_def prod.case by blast
  have mem: "j \<in> set (remove1 k os) \<longleftrightarrow> (if j = k then 1 < count_list os k else j \<in> set os)" for j
    using count_list_remove1 [OF cs_close(3), of j] pos
    by (metis One_nat_def count_list_0_iff diff_is_0_eq in_set_remove1 leD not_less)
  show ?thesis
    using ok pos unfolding cs_close(2) c' track_exit_run gauges_ok_def prod.case
    by (auto simp: Let_def here mem count_list_remove1 [OF cs_close(3)] set_law remove_law frame_law
        simp del: split_paired_All) (metis emptyE insertE)
next
  case (cs_failure c os hist r)
  have "gauges_ok (c, os, hist)" using assms(1) cs_failure by simp
  then show ?thesis unfolding cs_failure gauges_ok_def
    by (simp add: frame_law del: split_paired_All) (metis empty_iff insert_iff)
qed

sublocale books: transition_invariant gauges_init "conn_step be" gauges_ok
proof
  show "gauges_init t \<Longrightarrow> gauges_ok t" for t by (auto simp: gauges_init_def gauges_ok_def)
qed (rule gauges_step)

end

definition prometheus_opens :: "prometheus_state \<Rightarrow> string \<Rightarrow> nat" where
  "prometheus_opens s c = (case map_of (pm_opens s) c of Some n \<Rightarrow> n | None \<Rightarrow> 0)"

interpretation prometheus_gauges: gauge_backend prometheus "\<lambda>s. map_of (pm_active s)" prometheus_opens None
  by unfold_locales (auto simp: prometheus_def prometheus_opens_def bump_def fun_eq_iff split: option.split)

fun otlp_active :: "metric_event list \<Rightarrow> conn_key \<Rightarrow> int option" where
  "otlp_active [] k = None"
| "otlp_active (e # es) k = (case otlp_active es k of Some v \<Rightarrow> Some v
     | None \<Rightarrow> (case e of ActiveGauge k' v \<Rightarrow> if k' = k then Some v else None | _ \<Rightarrow> None))"

definition otlp_opens :: "metric_event list \<Rightarrow> string \<Rightarrow> nat" where
  "otlp_opens es c = count_list es (OpensCounter c)"

lemma otlp_active_append:
  "otlp_active (es @ [e]) k = (case e of ActiveGauge k' v \<Rightarrow> if k' = k then Some v else otlp_active es k
     | _ \<Rightarrow> otlp_active es k)"
  by (induction es) (auto split: metric_event.split option.split)

interpretation otlp_gauges: gauge_backend otlp otlp_active otlp_opens "Some 0"
  by unfold_locales (auto simp: otlp_def otlp_opens_def otlp_active_append fun_eq_iff)

text \<open>
  C32: However the tracked blocks of concurrent requests interleave, the registry's counter of a session
  and channel is the number of its open blocks; the Prometheus gauge shows that number and has no
  series once none is open; and the opens counter of a channel counts every block ever opened on it.
\<close>

theorem gauges_count_open_connections:
  assumes "reachable (\<lambda>(c, os, hist). c = \<lparr>cn_active = [], cn_metrics = \<lparr>pm_active = [], pm_opens = [], pm_failures = []\<rparr>\<rparr> \<and>
      os = [] \<and> hist = []) (conn_step prometheus) (c, os, hist)"
  shows "counter_get (cn_active c) k = int (count_list os k) \<and>
    map_of (pm_active (cn_metrics c)) k = (if k \<in> set os then Some (int (count_list os k)) else None) \<and>
    (case map_of (pm_opens (cn_metrics c)) ch of Some n \<Rightarrow> n | None \<Rightarrow> 0) = count_list (map snd hist) ch"
proof -
  have "prometheus_gauges.gauges_ok t" if "reachable (\<lambda>(c, os, hist). c = \<lparr>cn_active = [], cn_metrics = \<lparr>pm_active = [],
      pm_opens = [], pm_failures = []\<rparr>\<rparr> \<and> os = [] \<and> hist = []) (conn_step prometheus) t" for t
    using that
  proof induction
    case (reach_init t)
    then have "prometheus_gauges.gauges_init t"
      by (auto simp: prometheus_gauges.gauges_init_def prometheus_opens_def fun_eq_iff)
    then show ?case by (rule prometheus_gauges.books.inv_init)
  next
    case (reach_step t u)
    then show ?case using prometheus_gauges.gauges_step by blast
  qed
  from this [OF assms] show ?thesis
    unfolding prometheus_gauges.gauges_ok_def prod.case prometheus_opens_def
    by (metis empty_iff insert_iff)
qed

section \<open>A request leaves the counters as it found them\<close>

lemma track_exit_enter:
  "counter_get (cn_active (snd (track_exit be k (snd (track_enter be k c))))) j =
    (if j = k \<and> counter_get (cn_active c) k < 0 then 0 else counter_get (cn_active c) j)"
  by (simp add: track_enter_run track_exit_run Let_def)

lemma track_counters:
  assumes "\<And>s. snd (body s) = s" and "0 \<le> counter_get (cn_active c) k"
  shows "counter_get (cn_active (snd (track be k body c))) j = counter_get (cn_active c) j"
    and "fst (track be k body c) = fst (body (snd (track_enter be k c)))"
proof -
  have enter: "track_enter be k c = (Inr (), snd (track_enter be k c))" by (simp add: track_enter_run)
  have leave: "track_exit be k s = (Inr (), snd (track_exit be k s))" for s by (simp add: track_exit_run)
  obtain r where body: "body (snd (track_enter be k c)) = (r, snd (track_enter be k c))"
    using assms(1) by (metis prod.collapse)
  have run: "track be k body c = (r, snd (track_exit be k (snd (track_enter be k c))))"
    unfolding track_def exec_op by (subst enter) (simp add: body, subst leave, simp)
  show "counter_get (cn_active (snd (track be k body c))) j = counter_get (cn_active c) j"
    using track_exit_enter [of be k c j] assms(2) by (simp add: run)
  show "fst (track be k body c) = fst (body (snd (track_enter be k c)))" by (simp add: run body)
qed

lemma lift_res_pure:
  "snd (lift_res r s) = s"
  "snd (catchm (lift_res r) (\<lambda>e. case e of TargetPortError m \<Rightarrow> raise (HTTPException 400 m) | _ \<Rightarrow> raise e) s) = s"
  by (cases r; simp add: op_defs split: exn.split)+

lemma http_route_requires_token:
  assumes "\<And>k. 0 \<le> counter_get (cn_active c) k"
  shows "(\<forall>a. fst (proxy_session be decode v clock upstream p sid r c) = Inr a \<longrightarrow>
      (\<exists>token request answer. extract_token r = Inr token \<and> validate_request decode v clock sid token = Inr () \<and>
        upstream request = Inr answer \<and> hr_content a = hr_content answer \<and> hr_status a = hr_status answer)) \<and>
    ((\<forall>token. extract_token r = Inr token \<longrightarrow> validate_request decode v clock sid token \<noteq> Inr ()) \<longrightarrow>
      proxy_session be decode v clock upstream p sid r c = proxy_session be decode v clock other p sid r c) \<and>
    counter_get (cn_active (snd (proxy_session be decode v clock upstream p sid r c))) k = counter_get (cn_active c) k"
proof (cases "extract_token r")
  case (Inl e)
  then show ?thesis by (simp add: proxy_session_def op_run)
next
  case (Inr token)
  show ?thesis
  proof (cases "validate_request decode v clock sid token")
    case (Inl e)
    then show ?thesis using Inr by (cases e) (simp_all add: proxy_session_def op_run)
  next
    case ok: (Inr u)
    let ?body = "catchm (lift_res (forward_http upstream p r))
      (\<lambda>e. case e of TargetPortError m \<Rightarrow> raise (HTTPException 400 m) | _ \<Rightarrow> raise e)"
    have run: "proxy_session be decode v clock upstream p sid r c = track be (sid, ''http'') ?body c"
      by (simp add: proxy_session_def Inr ok)
    note tc = track_counters [where body = ?body, OF lift_res_pure(2) assms]
    have forwarded: "forward_http upstream p r = Inr a" if "fst (?body s) = Inr a" for a s
      using that by (cases "forward_http upstream p r") (auto simp: op_defs split: exn.splits)
    have answered: "\<exists>request answer. upstream request = Inr answer \<and> hr_content a = hr_content answer \<and>
        hr_status a = hr_status answer" if "forward_http upstream p r = Inr a" for a
      using that by (auto simp: forward_http_def) (metis http_response.select_convs(1,3) http_response.surjective
        http_response.update_convs(2,4))
    have "\<exists>request answer. upstream request = Inr answer \<and> hr_content a = hr_content answer \<and>
        hr_status a = hr_status answer" if "fst (?body s) = Inr a" for a s
      by (rule answered, rule forwarded, rule that)
    then show ?thesis using tc Inr ok unfolding run by auto
  qed
qed

text \<open>The body of the WebSocket route only computes.\<close>

lemma extract_token_coalesce:
  "extract_token r = Inr token \<longleftrightarrow> coalesce_token (map_of (hq_headers r) ''x-vnc-token'') (hq_query r) = Some token \<and> token \<noteq> []"
  by (auto simp: extract_token_def split: option.splits)

definition ws_body :: "(ws_connect \<Rightarrow> unit res) \<Rightarrow> ws_action res \<Rightarrow> ('m connections, ws_outcome) op" where
  "ws_body relay target = bindm (lift_res target) (\<lambda>a. case a of
      WsClose c m \<Rightarrow> ret (WsClosed c m)
    | WsConnect c \<Rightarrow> bindm (lift_res (relay c)) (\<lambda>_. ret (WsRelayed c)))"

lemma ws_body_pure: "snd (ws_body relay target s) = s"
  by (auto simp: ws_body_def op_defs split: sum.split ws_action.split)

lemma ws_body_relayed: "fst (ws_body relay target s) = Inr (WsRelayed c) \<Longrightarrow> target = Inr (WsConnect c) \<and> relay c = Inr ()"
  by (auto simp: ws_body_def op_defs split: sum.splits ws_action.splits)

lemma proxy_session_ws_run:
  "proxy_session_ws be decode v clock relay p sid r c = (case extract_token r of
     Inl _ \<Rightarrow> (Inr (WsClosed 1008 []), c)
   | Inr token \<Rightarrow> (case validate_request decode v clock sid token of
       Inl (TokenValidationError m) \<Rightarrow> (Inr (WsClosed 1008 m), c\<lparr>cn_metrics := bo_failure be m (cn_metrics c)\<rparr>)
     | Inl e \<Rightarrow> (Inl e, c)
     | Inr _ \<Rightarrow> track be (sid, ''ws'') (ws_body relay (websocket_target p r)) c))"
  by (auto simp: proxy_session_ws_def extract_token_def ws_body_def op_run split: option.split sum.split exn.split)

lemma ws_route_requires_token:
  assumes "\<And>k. 0 \<le> counter_get (cn_active c) k"
  shows "(\<forall>w. fst (proxy_session_ws be decode v clock relay p sid r c) = Inr (WsRelayed w) \<longrightarrow>
      (\<exists>token. extract_token r = Inr token \<and> validate_request decode v clock sid token = Inr ()) \<and>
      websocket_target p r = Inr (WsConnect w) \<and> relay w = Inr ()) \<and>
    ((\<forall>token. extract_token r = Inr token \<longrightarrow> validate_request decode v clock sid token \<noteq> Inr ()) \<longrightarrow>
      proxy_session_ws be decode v clock relay p sid r c = proxy_session_ws be decode v clock relay' p sid r c) \<and>
    counter_get (cn_active (snd (proxy_session_ws be decode v clock relay p sid r c))) k = counter_get (cn_active c) k"
proof (cases "\<exists>token. extract_token r = Inr token \<and> validate_request decode v clock sid token = Inr ()")
  case False
  then show ?thesis unfolding proxy_session_ws_run by (auto split: sum.splits exn.splits)
next
  case True
  then obtain token where token: "extract_token r = Inr token" "validate_request decode v clock sid token = Inr ()" by blast
  note tc = track_counters [where body = "ws_body relay (websocket_target p r)", OF ws_body_pure assms]
  show ?thesis
    by (auto simp: proxy_session_ws_run token tc dest: ws_body_relayed)
qed

text \<open>
  C31: Both routes of the VNC gateway reach the runner only for an admitted token. When the HTTP route
  returns the runner's answer, or the WebSocket route has relayed to the runner, the request
  carried a token that validates for the session of its path; a request without one never reaches the
  runner, so its outcome is the same whatever the runner does; and in every case each connection
  counter, if none was negative, is afterwards what it was before.
\<close>

theorem route_requires_token:
  assumes "\<And>k. 0 \<le> counter_get (cn_active c) k"
  shows "(\<forall>a. fst (proxy_session be decode v clock upstream p sid r c) = Inr a \<longrightarrow>
      (\<exists>token request answer. extract_token r = Inr token \<and> validate_request decode v clock sid token = Inr () \<and>
        upstream request = Inr answer \<and> hr_content a = hr_content answer \<and> hr_status a = hr_status answer)) \<and>
    (\<forall>w. fst (proxy_session_ws be decode v clock relay p sid r c) = Inr (WsRelayed w) \<longrightarrow>
      (\<exists>token. extract_token r = Inr token \<and> validate_request decode v clock sid token = Inr ()) \<and>
      websocket_target p r = Inr (WsConnect w) \<and> relay w = Inr ()) \<and>
    ((\<forall>token. extract_token r = Inr token \<longrightarrow> validate_request decode v clock sid token \<noteq> Inr ()) \<longrightarrow>
      proxy_session be decode v clock upstream p sid r c = proxy_session be decode v clock other p sid r c \<and>
      proxy_session_ws be decode v clock relay p sid r c = proxy_session_ws be decode v clock relay' p sid r c) \<and>
    counter_get (cn_active (snd (proxy_session be decode v clock upstream p sid r c))) k = counter_get (cn_active c) k \<and>
    counter_get (cn_active (snd (proxy_session_ws be decode v clock relay p sid r c))) k = counter_get (cn_active c) k"
  using http_route_requires_token [OF assms, of be decode v clock upstream p sid r other k]
    ws_route_requires_token [OF assms, of be decode v clock relay p sid r relay' k]
  by blast

section \<open>The properties at work\<close>

definition demo_proxy :: runner_proxy where
  "demo_proxy = (let base = (\<lambda>s. \<lparr>u_scheme = s, u_netloc = ''runner:8080'', u_path = [], u_params = [], u_query = [],
     u_fragment = []\<rparr>) in \<lparr>rp_http_base = base ''http'', rp_ws_base = base ''ws''\<rparr>)"

definition demo_http_request :: http_request where
  "demo_http_request = \<lparr>hq_method = ''GET'', hq_path = ''/sessions/s1/view'',
     hq_query = [(''target_port'', ''80''), (''path'', ''a b'')], hq_headers = [(''x-vnc-token'', ''header.claims.k''), (''Host'', ''evil'')],
     hq_cookies = [], hq_body = []\<rparr>"

definition demo_upstream :: upstream_request where
  "demo_upstream = \<lparr>ur_method = ''GET'', ur_url = ''http://runner:80/sessions/s1/view?path=a+b'',
     ur_headers = [(''x-vnc-token'', ''header.claims.k'')], ur_content = None\<rparr>"

lemma demo_forward:
  "forward_request demo_proxy demo_http_request = Inr (demo_upstream, Some (''vnc-target-port'', ''80'', ''/vnc''))"
  by code_simp

lemma upstream_host_fixed_witness:
  "\<exists>q c w. urlparse ''http://runner:80/sessions/s1/view?path=a+b'' = Inr q \<and>
     netloc_hostname (u_netloc q) = Some ''runner'' \<and> parse_qsl True (u_query q) = [(''path'', ''a b'')] \<and>
     websocket_target demo_proxy demo_http_request = Inr (WsConnect c) \<and>
     urlparse (wc_url c) = Inr w \<and> u_scheme w = ''ws'' \<and> netloc_hostname (u_netloc w) = Some ''runner''"
proof -
  have base: "plain_base (rp_http_base demo_proxy)" "plain_base (rp_ws_base demo_proxy)"
    and host: "netloc_hostname (u_netloc (rp_http_base demo_proxy)) = Some ''runner''"
      "netloc_hostname (u_netloc (rp_ws_base demo_proxy)) = Some ''runner''" "u_scheme (rp_ws_base demo_proxy) = ''ws''"
    by code_simp+
  obtain q where q: "urlparse ''http://runner:80/sessions/s1/view?path=a+b'' = Inr q" by (rule that) code_simp
  then have u: "urlparse (ur_url demo_upstream) = Inr q" by (simp add: demo_upstream_def)
  define c where "c = \<lparr>wc_url = ''ws://runner:80/sessions/s1/view?path=a+b'', wc_subprotocols = [], wc_headers = []\<rparr>"
  have c: "websocket_target demo_proxy demo_http_request = Inr (WsConnect c)" unfolding c_def by code_simp
  define w where "w = \<lparr>u_scheme = ''ws'', u_netloc = ''runner:80'', u_path = ''/sessions/s1/view'', u_params = [],
    u_query = ''path=a+b'', u_fragment = []\<rparr>"
  have w: "urlparse (wc_url c) = Inr w" unfolding c_def w_def by code_simp
  have marks: "no_marks (hq_path demo_http_request)" "no_marks (u_path (rp_http_base demo_proxy))" by code_simp+
  have "stays_with (rp_http_base demo_proxy) demo_http_request (ur_url demo_upstream)"
    "stays_with (rp_ws_base demo_proxy) demo_http_request (wc_url c)"
    using upstream_host_fixed [of demo_proxy demo_http_request demo_upstream _ c] demo_forward base c by blast+
  then show ?thesis
    using q u c w marks host unfolding stays_with_def
    by (intro exI [of _ q] exI [of _ c] exI [of _ w]) (auto simp: demo_http_request_def)
qed

lemma gauges_count_open_connections_witness:
  "map_of (pm_active (cn_metrics (snd (track_enter prometheus (''s1'', ''ws'')
     \<lparr>cn_active = [], cn_metrics = \<lparr>pm_active = [], pm_opens = [], pm_failures = []\<rparr>\<rparr>)))) (''s1'', ''ws'') = Some 1"
proof -
  let ?c = "\<lparr>cn_active = [], cn_metrics = \<lparr>pm_active = [], pm_opens = [], pm_failures = []\<rparr>\<rparr> :: prometheus_state connections"
  let ?k = "(''s1'', ''ws'')"
  have "reachable (\<lambda>(c, os, hist). c = ?c \<and> os = [] \<and> hist = []) (conn_step prometheus)
      (snd (track_enter prometheus ?k ?c), [?k], [?k])"
    by (rule reach_step, rule reach_init [of _ "(?c, [], [])"], simp, rule cs_open, rule surjective_pairing)
  from gauges_count_open_connections [OF this, of ?k] show ?thesis by simp
qed

lemma route_requires_token_witness:
  "let c = \<lparr>cn_active = [], cn_metrics = []\<rparr>;
       run = proxy_session otlp (demo_decode demo_claims) demo_validator (90000000, 90000000, 90000001)
         (\<lambda>u. if ur_url u = ur_url demo_upstream then Inr \<lparr>hr_status = 200, hr_headers = [], hr_content = ''ok'', hr_cookie = None\<rparr>
              else Inl (OtherError ''unexpected'')) demo_proxy
   in (\<exists>a. fst (run ''s1'' demo_http_request c) = Inr a \<and> hr_content a = ''ok'') \<and>
      counter_get (cn_active (snd (run ''s1'' demo_http_request c))) (''s1'', ''http'') = 0 \<and>
      fst (run ''s2'' demo_http_request c) = Inl (HTTPException 401 ''Token was issued for a different session'')"
proof -
  let ?c = "\<lparr>cn_active = [], cn_metrics = []\<rparr> :: metric_event list connections"
  let ?run = "proxy_session otlp (demo_decode demo_claims) demo_validator (90000000, 90000000, 90000001)
         (\<lambda>u. if ur_url u = ur_url demo_upstream then Inr \<lparr>hr_status = 200, hr_headers = [], hr_content = ''ok'', hr_cookie = None\<rparr>
              else Inl (OtherError ''unexpected'')) demo_proxy"
  have token: "extract_token demo_http_request = Inr ''header.claims.k''" by code_simp
  have valid: "validate_request (demo_decode demo_claims) demo_validator (90000000, 90000000, 90000001) ''s1'' ''header.claims.k'' = Inr ()"
    and invalid: "validate_request (demo_decode demo_claims) demo_validator (90000000, 90000000, 90000001) ''s2'' ''header.claims.k''
      = Inl (TokenValidationError ''Token was issued for a different session'')" by code_simp+
  have "fst (?run ''s1'' demo_http_request ?c) = Inr \<lparr>hr_status = 200, hr_headers = [], hr_content = ''ok'',
      hr_cookie = Some (''vnc-target-port'', ''80'', ''/vnc'')\<rparr>"
    by (simp add: proxy_session_def token valid track_def exec_op track_enter_run track_exit_run op_run forward_http_def
        demo_forward filter_response_headers_def)
  moreover have "counter_get (cn_active (snd (?run ''s1'' demo_http_request ?c))) (''s1'', ''http'') = 0"
    using route_requires_token [of ?c] by simp
  moreover have "fst (?run ''s2'' demo_http_request ?c) = Inl (HTTPException 401 ''Token was issued for a different session'')"
    by (simp add: proxy_session_def token invalid op_run)
  ultimately show ?thesis by (simp add: Let_def)
qed

end
