(* ===== verification/Runner_Client.thy ===== *)
theory Runner_Client
  imports Core_Models Runner_Registry
begin

text \<open>
  Outgoing HTTP requests, and the gateway's client of the runner API
  (\<open>services/gateway/app/services/runner_client.py\<close>): the commands it accepts, the bodies it sends, and
  the errors it turns a response into.
\<close>

declare map_of_eq_Some_iff [simp del] Some_eq_map_of_iff [simp del]

section \<open>HTTP\<close>

text \<open>
  A server answers a request by what it was sent before: it is a function of the requests so far and
  the new one. The answer is \<open>NoAnswer\<close> for an \<open>httpx.HTTPError\<close> that is not about the status, with its
  text, and otherwise the status code and the body, \<open>None\<close> when it is not JSON.
\<close>

record http_request =
  rq_base :: url
  rq_method :: string
  rq_path :: string
  rq_json :: "pyval option"

datatype http_answer = NoAnswer string | Answer nat "pyval option"

type_synonym http_server = "http_request list \<Rightarrow> http_request \<Rightarrow> http_answer"
type_synonym 'a http_op = "(http_request list, 'a) op"

definition send :: "http_server \<Rightarrow> http_request \<Rightarrow> http_answer http_op" where
  "send server rq = bindm (gets id) (\<lambda>sent. thenm (modify (\<lambda>l. l @ [rq])) (ret (server sent rq)))"

lemma send_run [simp]: "send server rq l = (Inr (server l rq), l @ [rq])"
  by (simp add: send_def op_run)

lemma wp_send [wp_simps]: "wp (send server rq) Q E l = Q (server l rq) (l @ [rq])"
  by (simp add: wp_def)

section \<open>Commands\<close>

record create_command =
  cc_runner_id :: "string option"
  cc_browser_name :: string
  cc_region :: string
  cc_proxy_id :: "string option"
  cc_headless :: bool
  cc_start_url :: "url option"

definition create_fields :: "string list" where
  "create_fields = [''runner_id'', ''browser_name'', ''region'', ''proxy_id'', ''headless'', ''start_url'']"

definition get_or_none :: "(string, pyval) dict \<Rightarrow> string \<Rightarrow> pyval" where
  "get_or_none d k = (case map_of d k of None \<Rightarrow> PNone | Some v \<Rightarrow> v)"

text \<open>Field types: a text, and a text or null.\<close>

fun as_text :: "pyval \<Rightarrow> string res" where
  "as_text (PStr s) = Inr s"
| "as_text _ = Inl (ValueError ''Input should be a valid string'')"

fun as_text_or_none :: "pyval \<Rightarrow> string option res" where
  "as_text_or_none PNone = Inr None"
| "as_text_or_none v = res_bind (as_text v) (\<lambda>s. Inr (Some s))"

definition required_field :: "(string, pyval) dict \<Rightarrow> string \<Rightarrow> pyval res" where
  "required_field d k = (case map_of d k of None \<Rightarrow> Inl (ValueError ''Field required'') | Some v \<Rightarrow> Inr v)"

text \<open>
  The body of \<open>POST /sessions/commands\<close>; \<open>any_url\<close> and \<open>as_bool\<close> are pydantic's URL and boolean
  coercions. A field the model does not declare is an error (\<open>extra="forbid"\<close>).
\<close>

definition parse_create_command ::
  "(string \<Rightarrow> url res) \<Rightarrow> (pyval \<Rightarrow> bool res) \<Rightarrow> (string, pyval) dict \<Rightarrow> create_command res" where
  "parse_create_command any_url as_bool d =
     (if \<exists>k \<in> keys d. k \<notin> set create_fields then Inl (ValueError ''Extra inputs are not permitted'')
      else
        res_bind (as_text_or_none (get_or_none d ''runner_id'')) (\<lambda>rid.
        res_bind (required_field d ''browser_name'') (\<lambda>b.
        res_bind (as_text b) (\<lambda>browser.
        res_bind (min_length_1 browser) (\<lambda>_.
        res_bind (required_field d ''region'') (\<lambda>r.
        res_bind (as_text r) (\<lambda>region.
        res_bind (min_length_1 region) (\<lambda>_.
        res_bind (as_text_or_none (get_or_none d ''proxy_id'')) (\<lambda>proxy.
        res_bind (case map_of d ''headless'' of None \<Rightarrow> Inr False | Some v \<Rightarrow> as_bool v) (\<lambda>headless.
        res_bind (as_text_or_none (get_or_none d ''start_url'')) (\<lambda>u.
        res_bind (case u of None \<Rightarrow> Inr None | Some u \<Rightarrow> res_bind (any_url u) (\<lambda>v. Inr (Some v))) (\<lambda>start.
        Inr \<lparr>cc_runner_id = rid, cc_browser_name = browser, cc_region = region, cc_proxy_id = proxy,
          cc_headless = headless, cc_start_url = start\<rparr>))))))))))))"

definition create_payload :: "create_command \<Rightarrow> pyval" where
  "create_payload c = PDict (
     [(''browser'', PStr (cc_browser_name c)), (''headless'', PBool (cc_headless c)),
      (''labels'', PDict ((''region'', PStr (cc_region c)) #
        (case cc_proxy_id c of None \<Rightarrow> [] | Some p \<Rightarrow> [(''proxy_id'', PStr p)])))] @
     (case cc_start_url c of None \<Rightarrow> [] | Some u \<Rightarrow> [(''start_url'', PStr u)]))"

record update_command =
  uc_status :: "session_status option"
  uc_headless :: "bool option"
  uc_labels :: "(string, string) dict option"
  uc_metadata :: "(string, pyval) dict option"
  uc_reason :: "string option"

fun status_value :: "session_status \<Rightarrow> string" where
  "status_value INIT = ''INIT''"
| "status_value READY = ''READY''"
| "status_value TERMINATING = ''TERMINATING''"
| "status_value DEAD = ''DEAD''"

text \<open>\<open>model_dump(exclude_none=True)\<close>, in the order of the fields; labels and metadata are put back whole.\<close>

definition update_command_payload :: "update_command \<Rightarrow> pyval" where
  "update_command_payload c = PDict (
     (case uc_status c of None \<Rightarrow> [] | Some s \<Rightarrow> [(''status'', PStr (status_value s))]) @
     (case uc_headless c of None \<Rightarrow> [] | Some b \<Rightarrow> [(''headless'', PBool b)]) @
     (case uc_labels c of None \<Rightarrow> [] | Some d \<Rightarrow> [(''labels'', PDict (map (\<lambda>(k, v). (k, PStr v)) d))]) @
     (case uc_metadata c of None \<Rightarrow> [] | Some d \<Rightarrow> [(''metadata'', PDict d)]) @
     (case uc_reason c of None \<Rightarrow> [] | Some s \<Rightarrow> [(''reason'', PStr s)]))"

section \<open>Requests\<close>

definition is_success :: "nat \<Rightarrow> bool" where
  "is_success code = (200 \<le> code \<and> code < 300)"

definition request_payload ::
  "http_server \<Rightarrow> runner \<Rightarrow> string \<Rightarrow> string \<Rightarrow> pyval option \<Rightarrow> nat \<Rightarrow> pyval http_op" where
  "request_payload server r verb path json expected =
     bindm (send server \<lparr>rq_base = r_base_url r, rq_method = verb, rq_path = path, rq_json = json\<rparr>) (\<lambda>answer.
       case answer of
         NoAnswer _ \<Rightarrow> raise (RunnerCommandError
           (''Failed to execute '' @ verb @ '' '' @ path @ '' against runner '' @ r_id r))
       | Answer code body \<Rightarrow>
           if \<not> is_success code then raise (RunnerCommandError
             (''Runner '' @ r_id r @ '' rejected '' @ verb @ '' '' @ path @ '' with '' @ nat_str code))
           else if code \<noteq> expected then raise (RunnerCommandError
             (''Runner '' @ r_id r @ '' responded with unexpected status '' @ nat_str code))
           else (case body of
             None \<Rightarrow> raise (RunnerCommandError
               (''Runner '' @ r_id r @ '' returned non-JSON payload for '' @ verb @ '' '' @ path))
           | Some v \<Rightarrow> ret v))"

text \<open>
  \<open>Session.model_validate\<close>: \<open>reader\<close> reads a JSON object as typed fields (pydantic's coercions), the
  validators follow.
\<close>

type_synonym field_reader = "(string, pyval) dict \<Rightarrow> session res"

definition model_validate :: "field_reader \<Rightarrow> (string, pyval) dict \<Rightarrow> session res" where
  "model_validate reader d = res_bind (reader d) validate_session"

definition request_session ::
  "field_reader \<Rightarrow> http_server \<Rightarrow> runner \<Rightarrow> string \<Rightarrow> string \<Rightarrow> pyval option \<Rightarrow> nat \<Rightarrow> session http_op" where
  "request_session reader server r verb path json expected =
     bindm (request_payload server r verb path json expected) (\<lambda>payload. case payload of
       PDict d \<Rightarrow> (case model_validate reader d of
           Inr s \<Rightarrow> ret s
         | Inl _ \<Rightarrow> raise (RunnerCommandError (''Runner '' @ r_id r @ '' returned an invalid session payload'')))
     | _ \<Rightarrow> raise (RunnerCommandError
         (''Runner '' @ r_id r @ '' returned an unexpected payload for '' @ verb @ '' '' @ path)))"

definition client_create :: "field_reader \<Rightarrow> http_server \<Rightarrow> runner \<Rightarrow> create_command \<Rightarrow> session http_op" where
  "client_create reader server r c =
     request_session reader server r ''POST'' ''/sessions'' (Some (create_payload c)) 201"

definition client_update ::
  "field_reader \<Rightarrow> http_server \<Rightarrow> runner \<Rightarrow> nat \<Rightarrow> update_command \<Rightarrow> session http_op" where
  "client_update reader server r sid c =
     request_session reader server r ''PATCH'' (''/sessions/'' @ uuid_str sid) (Some (update_command_payload c)) 200"

definition client_delete :: "field_reader \<Rightarrow> http_server \<Rightarrow> runner \<Rightarrow> nat \<Rightarrow> session http_op" where
  "client_delete reader server r sid =
     request_session reader server r ''DELETE'' (''/sessions/'' @ uuid_str sid) None 200"

fun read_sessions :: "field_reader \<Rightarrow> string \<Rightarrow> nat \<Rightarrow> pyval list \<Rightarrow> session list res" where
  "read_sessions reader rid index [] = Inr []"
| "read_sessions reader rid index (PDict d # items) = (case model_validate reader d of
     Inl _ \<Rightarrow> Inl (RunnerCommandError
       (''Runner '' @ rid @ '' returned an invalid session at index '' @ nat_str index))
   | Inr s \<Rightarrow> res_bind (read_sessions reader rid (Suc index) items) (\<lambda>ss. Inr (s # ss)))"
| "read_sessions reader rid index (item # items) = Inl (RunnerCommandError
     (''Runner '' @ rid @ '' returned a non-object entry at index '' @ nat_str index))"

definition client_list :: "field_reader \<Rightarrow> http_server \<Rightarrow> runner \<Rightarrow> session list http_op" where
  "client_list reader server r =
     bindm (request_payload server r ''GET'' ''/sessions'' None 200) (\<lambda>payload. case payload of
       PList items \<Rightarrow> lift_res (read_sessions reader (r_id r) 0 items)
     | _ \<Rightarrow> raise (RunnerCommandError
         (''Runner '' @ r_id r @ '' responded with non-array payload for GET /sessions'')))"

section \<open>What a call does\<close>

text \<open>
  Every call sends exactly one request; it raises nothing but \<open>RunnerCommandError\<close>, and a session it
  returns came with the expected status from an object that validates.
\<close>

lemma request_payload_wp:
  "wp (request_payload server r verb path json expected)
    (\<lambda>v l. l = l0 @ [\<lparr>rq_base = r_base_url r, rq_method = verb, rq_path = path, rq_json = json\<rparr>] \<and>
       server l0 (last l) = Answer expected (Some v) \<and> is_success expected)
    (\<lambda>e l. l = l0 @ [\<lparr>rq_base = r_base_url r, rq_method = verb, rq_path = path, rq_json = json\<rparr>] \<and>
       (\<exists>m. e = RunnerCommandError m)) l0"
  by (auto simp: request_payload_def wp_simps split: http_answer.split option.split)

lemma request_session_wp:
  "wp (request_session reader server r verb path json expected)
    (\<lambda>s l. l = l0 @ [\<lparr>rq_base = r_base_url r, rq_method = verb, rq_path = path, rq_json = json\<rparr>] \<and>
       (\<exists>d. server l0 (last l) = Answer expected (Some (PDict d)) \<and> model_validate reader d = Inr s))
    (\<lambda>e l. l = l0 @ [\<lparr>rq_base = r_base_url r, rq_method = verb, rq_path = path, rq_json = json\<rparr>] \<and>
       (\<exists>m. e = RunnerCommandError m)) l0"
  unfolding request_session_def wp_bindm
  by (rule wp_mono [OF request_payload_wp]) (auto simp: wp_simps split: pyval.split sum.split)

lemma model_validate_ok: "model_validate reader d = Inr s \<Longrightarrow> session_ok s"
  using validate_session_sound by (auto simp: model_validate_def)

lemma read_sessions_ok: "read_sessions reader rid n items = Inr ss \<Longrightarrow> s \<in> set ss \<Longrightarrow> session_ok s"
proof (induction reader rid n items arbitrary: ss rule: read_sessions.induct)
  case (2 reader rid index d items)
  then show ?case using model_validate_ok by (fastforce split: sum.splits)
qed auto

lemma read_sessions_error: "read_sessions reader rid n items = Inl e \<Longrightarrow> \<exists>m. e = RunnerCommandError m"
  by (induction reader rid n items rule: read_sessions.induct) (auto simp: res_bind_eq_Inl split: sum.splits)

lemma client_list_wp:
  "wp (client_list reader server r)
    (\<lambda>ss l. l = l0 @ [\<lparr>rq_base = r_base_url r, rq_method = ''GET'', rq_path = ''/sessions'', rq_json = None\<rparr>] \<and>
       (\<forall>s \<in> set ss. session_ok s))
    (\<lambda>e l. l = l0 @ [\<lparr>rq_base = r_base_url r, rq_method = ''GET'', rq_path = ''/sessions'', rq_json = None\<rparr>] \<and>
       (\<exists>m. e = RunnerCommandError m)) l0"
  unfolding client_list_def wp_bindm
  by (rule wp_mono [OF request_payload_wp])
    (auto simp: wp_simps dest: read_sessions_ok read_sessions_error split: pyval.split sum.split)

end
