(* ===== verification/Py_Ip.thy ===== *)
theory Py_Ip
  imports Py_Values "HOL-Library.Word"
begin

text \<open>
  The part of Python's \<open>ipaddress\<close> module the gateway uses: reading IPv4 and IPv6 addresses and
  networks (\<open>ip_address\<close>, \<open>ip_network(strict=False)\<close>), and membership of an address in a network, on
  words of 32 and 128 bits.
\<close>

unbundle bit_operations_syntax

datatype ip = V4 "32 word" | V6 "128 word"

datatype ip_network = Net4 "32 word" nat | Net6 "128 word" nat

section \<open>Addresses\<close>

definition parse_octet :: "string \<Rightarrow> nat option" where
  "parse_octet s =
     (if s = [] \<or> \<not> list_all is_digit s \<or> 3 < length s \<or> (s \<noteq> ''0'' \<and> hd s = CHR ''0'') then None
      else let n = nat_of_digits s in if 255 < n then None else Some n)"

fun collect :: "'a option list \<Rightarrow> 'a list option" where
  "collect [] = Some []"
| "collect (None # xs) = None"
| "collect (Some x # xs) = map_option ((#) x) (collect xs)"

definition big_endian :: "nat \<Rightarrow> nat list \<Rightarrow> nat" where
  "big_endian base ds = foldl (\<lambda>a d. base * a + d) 0 ds"

definition parse_ipv4 :: "string \<Rightarrow> 32 word option" where
  "parse_ipv4 s = (if CHR ''/'' \<in> set s then None else
     let octets = split_on (CHR ''.'') s in
     if length octets \<noteq> 4 then None
     else map_option (\<lambda>ds. of_nat (big_endian 256 ds)) (collect (map parse_octet octets)))"

definition hex_val :: "char \<Rightarrow> nat option" where
  "hex_val c = (let n = (of_char c :: nat) in
     if 48 \<le> n \<and> n \<le> 57 then Some (n - 48)
     else if 65 \<le> n \<and> n \<le> 70 then Some (n - 55)
     else if 97 \<le> n \<and> n \<le> 102 then Some (n - 87) else None)"

definition parse_hextet :: "string \<Rightarrow> nat option" where
  "parse_hextet s = (if s = [] \<or> 4 < length s then None
     else map_option (big_endian 16) (collect (map hex_val s)))"

text \<open>The positions of the empty parts other than the first and the last.\<close>

definition inner_gaps :: "string list \<Rightarrow> nat list" where
  "inner_gaps parts = filter (\<lambda>i. parts ! i = []) [1..<length parts - 1]"

text \<open>
  The groups of an address without its dotted tail: \<open>hi\<close> of them before the gap, \<open>lo\<close> after it. A
  text that begins or ends with a single colon is refused.
\<close>

definition hextets :: "string list \<Rightarrow> nat list option" where
  "hextets parts = (case inner_gaps parts of
     [] \<Rightarrow> if length parts \<noteq> 8 then None else collect (map parse_hextet parts)
   | [i] \<Rightarrow>
       let hi = take i parts; lo = drop (Suc i) parts;
           hi' = (if hd parts = [] then tl hi else hi);
           lo' = (if last parts = [] then butlast lo else lo)
       in if hd parts = [] \<and> hi' \<noteq> [] \<or> last parts = [] \<and> lo' \<noteq> [] \<or> 8 \<le> length hi' + length lo' then None
          else map_option (\<lambda>ds. take (length hi') ds @ replicate (8 - length ds) 0 @ drop (length hi') ds)
                 (collect (map parse_hextet (hi' @ lo')))
   | _ \<Rightarrow> None)"

definition parse_ipv6 :: "string \<Rightarrow> 128 word option" where
  "parse_ipv6 s =
     (let (addr, scoped, scope) = partition_at (CHR ''%'') s; parts = split_on (CHR '':'') addr in
      if CHR ''/'' \<in> set s \<or> scoped \<and> (scope = [] \<or> CHR ''%'' \<in> set scope) \<or> length parts < 3 then None
      else
        let expanded =
          (if CHR ''.'' \<in> set (last parts)
           then map_option (\<lambda>v. butlast parts @ [hex_fixed 4 (unat v div 65536), hex_fixed 4 (unat v mod 65536)])
                  (parse_ipv4 (last parts))
           else Some parts)
        in case expanded of None \<Rightarrow> None
         | Some ps \<Rightarrow> if 9 < length ps then None
             else map_option (\<lambda>ds. of_nat (big_endian 65536 ds)) (hextets ps))"

text \<open>\<open>ipaddress.ip_address\<close>: \<open>None\<close> stands for its \<open>ValueError\<close>.\<close>

definition ip_address :: "string \<Rightarrow> ip option" where
  "ip_address s = (case parse_ipv4 s of Some a \<Rightarrow> Some (V4 a)
     | None \<Rightarrow> map_option V6 (parse_ipv6 s))"

section \<open>Networks\<close>

text \<open>The mask with \<open>p\<close> leading ones.\<close>

definition netmask :: "nat \<Rightarrow> 'w::len word" where
  "netmask p = NOT (mask (LENGTH('w) - p))"

text \<open>
  The text after the slash: a prefix length; for IPv4 also a netmask, or a hostmask, in dotted form.
\<close>

definition prefix_digits :: "nat \<Rightarrow> string \<Rightarrow> nat option" where
  "prefix_digits n s = (if s = [] \<or> \<not> list_all is_digit s then None
     else let p = nat_of_digits s in if n < p then None else Some p)"

definition prefix_of_mask :: "32 word \<Rightarrow> nat option" where
  "prefix_of_mask m = find (\<lambda>p. netmask p = m) [0..<33]"

definition prefix4 :: "string \<Rightarrow> nat option" where
  "prefix4 s = (case prefix_digits 32 s of Some p \<Rightarrow> Some p
     | None \<Rightarrow> (case parse_ipv4 s of None \<Rightarrow> None
        | Some m \<Rightarrow> (case prefix_of_mask m of Some p \<Rightarrow> Some p | None \<Rightarrow> prefix_of_mask (NOT m))))"

definition parse_net4 :: "string \<Rightarrow> ip_network option" where
  "parse_net4 s = (case split_on (CHR ''/'') s of
     [a] \<Rightarrow> map_option (\<lambda>w. Net4 w 32) (parse_ipv4 a)
   | [a, m] \<Rightarrow> (case (parse_ipv4 a, prefix4 m) of (Some w, Some p) \<Rightarrow> Some (Net4 (w AND netmask p) p) | _ \<Rightarrow> None)
   | _ \<Rightarrow> None)"

definition parse_net6 :: "string \<Rightarrow> ip_network option" where
  "parse_net6 s = (case split_on (CHR ''/'') s of
     [a] \<Rightarrow> map_option (\<lambda>w. Net6 w 128) (parse_ipv6 a)
   | [a, m] \<Rightarrow> (case (parse_ipv6 a, prefix_digits 128 m) of (Some w, Some p) \<Rightarrow> Some (Net6 (w AND netmask p) p) | _ \<Rightarrow> None)
   | _ \<Rightarrow> None)"

text \<open>\<open>ipaddress.ip_network(s, strict=False)\<close>.\<close>

definition parse_network :: "string \<Rightarrow> ip_network option" where
  "parse_network s = (case parse_net4 s of Some n \<Rightarrow> Some n | None \<Rightarrow> parse_net6 s)"

fun in_network :: "ip \<Rightarrow> ip_network \<Rightarrow> bool" where
  "in_network (V4 a) (Net4 n p) = (a AND netmask p = n)"
| "in_network (V6 a) (Net6 n p) = (a AND netmask p = n)"
| "in_network _ _ = False"

section \<open>Membership is agreement on the leading bits\<close>

lemma bit_netmask:
  "p \<le> LENGTH('w) \<Longrightarrow> bit (netmask p :: 'w::len word) i \<longleftrightarrow> LENGTH('w) - p \<le> i \<and> i < LENGTH('w)"
  by (auto simp: netmask_def bit_simps)

lemma masked_eq_iff:
  fixes a n :: "'w::len word"
  assumes "p \<le> LENGTH('w)"
  shows "a AND netmask p = n AND netmask p \<longleftrightarrow>
    (\<forall>i. LENGTH('w) - p \<le> i \<and> i < LENGTH('w) \<longrightarrow> bit a i = bit n i)"
  using assms by (auto simp: bit_eq_iff bit_netmask bit_simps)

lemma in_parsed_net4:
  assumes "p \<le> 32"
  shows "in_network (V4 a) (Net4 (w AND netmask p) p) \<longleftrightarrow> (\<forall>i. 32 - p \<le> i \<and> i < 32 \<longrightarrow> bit a i = bit w i)"
  using masked_eq_iff [of p a w] assms by simp

lemma in_parsed_net6:
  assumes "p \<le> 128"
  shows "in_network (V6 a) (Net6 (w AND netmask p) p) \<longleftrightarrow> (\<forall>i. 128 - p \<le> i \<and> i < 128 \<longrightarrow> bit a i = bit w i)"
  using masked_eq_iff [of p a w] assms by simp

text \<open>A network contains no address of the other version.\<close>

lemma in_network_version:
  "in_network (V4 a) net \<Longrightarrow> \<exists>n p. net = Net4 n p" "in_network (V6 b) net \<Longrightarrow> \<exists>n p. net = Net6 n p"
  by (cases net; simp)+

end
