(* ===== verification/Gateway_Auth.thy ===== *)
theory Gateway_Auth
  imports Runner_Client Vnc_Tokens Py_Ip
begin

text \<open>
  Who may call the gateway: the trusted networks and the bearer tokens of
  \<open>services/gateway/app/deps/security.py\<close>, and the Keycloak authenticator with its cache of signing keys
  (\<open>security/keycloak.py\<close>).
\<close>

declare map_of_eq_Some_iff [simp del] Some_eq_map_of_iff [simp del]

section \<open>Trusted networks\<close>

fun ip_candidates :: "string list \<Rightarrow> (string \<times> ip) list" where
  "ip_candidates [] = []"
| "ip_candidates (part # parts) = (case ip_address part of
     None \<Rightarrow> ip_candidates parts | Some a \<Rightarrow> (part, a) # ip_candidates parts)"

definition header_parts :: "string option \<Rightarrow> string list" where
  "header_parts value = (case value of None \<Rightarrow> []
     | Some v \<Rightarrow> if v = [] then [] else filter (\<lambda>p. p \<noteq> []) (map strip (split_on (CHR '','') v)))"

definition resolve_trusted_source :: "string option \<Rightarrow> string option \<Rightarrow> ip_network list \<Rightarrow> string option" where
  "resolve_trusted_source client_host header_value networks =
     (if networks = [] then None
      else map_option fst (find (\<lambda>(_, a). list_ex (in_network a) networks)
        (ip_candidates (header_parts header_value) @
         ip_candidates (case client_host of None \<Rightarrow> [] | Some h \<Rightarrow> if h = [] then [] else [h]))))"

text \<open>Header names are lower-cased on both sides; the first header of a name counts.\<close>

definition header_get :: "(string \<times> string) list \<Rightarrow> string \<Rightarrow> string option" where
  "header_get headers name = map_of headers (lower name)"

definition extract_trusted_header :: "(string \<times> string) list \<Rightarrow> string option \<Rightarrow> string option" where
  "extract_trusted_header headers name = (case name of None \<Rightarrow> None
     | Some n \<Rightarrow> if n = [] then None else header_get headers n)"

text \<open>\<open>GATEWAY_TRUSTED_CIDRS\<close>.\<close>

fun parse_entries :: "string list \<Rightarrow> ip_network list res" where
  "parse_entries [] = Inr []"
| "parse_entries (entry # entries) =
     (let candidate = strip entry in
      if candidate = [] then Inl (ValueError ''GATEWAY_TRUSTED_CIDRS must not contain empty entries'')
      else (case parse_network candidate of
        None \<Rightarrow> Inl (ValueError (''Invalid CIDR entry in GATEWAY_TRUSTED_CIDRS: '' @ candidate))
      | Some n \<Rightarrow> res_bind (parse_entries entries) (\<lambda>ns. Inr (n # ns))))"

definition parse_trusted_cidrs :: "string option \<Rightarrow> ip_network list res" where
  "parse_trusted_cidrs raw = (case raw of None \<Rightarrow> Inr []
     | Some r \<Rightarrow> if strip r = [] then Inr [] else parse_entries (split_on (CHR '','') r))"

section \<open>The Keycloak authenticator\<close>

record authenticated_user =
  au_subject :: string
  au_email :: "pyval option"

text \<open>
  The JOSE library: the header and the claims of a token, the verification function of a key (\<open>None\<close>
  when the key cannot be built), and its base64 decoder.
\<close>

record jose =
  jo_header :: "string \<Rightarrow> claims res"
  jo_claims :: "string \<Rightarrow> claims res"
  jo_construct :: "pyval \<Rightarrow> (string \<Rightarrow> string \<Rightarrow> bool) option"
  jo_base64 :: "string \<Rightarrow> string res"

type_synonym jwks = "(string, pyval) dict"

record authenticator =
  ka_cache :: "jwks option"
  ka_sent :: "http_request list"

type_synonym 'a auth_op = "(authenticator, 'a) op"

definition make_authenticator :: authenticator where
  "make_authenticator = \<lparr>ka_cache = None, ka_sent = []\<rparr>"

fun index_keys :: "jwks \<Rightarrow> pyval list \<Rightarrow> jwks res" where
  "index_keys indexed [] = Inr indexed"
| "index_keys indexed (PDict d # items) = (case map_of d ''kid'' of
     None \<Rightarrow> Inl (AuthenticationError ''Invalid key entry in JWKS'')
   | Some kid \<Rightarrow> index_keys (AList.update (py_str kid) (PDict d) indexed) items)"
| "index_keys indexed (item # items) = Inl (AuthenticationError ''Invalid key entry in JWKS'')"

text \<open>A document that is not an object has no \<open>get\<close>: an \<open>AttributeError\<close>, which nothing catches.\<close>

definition read_jwks :: "http_answer \<Rightarrow> jwks res" where
  "read_jwks answer = (case answer of
     NoAnswer _ \<Rightarrow> Inl (AuthenticationError ''Unable to fetch JWKS document'')
   | Answer code body \<Rightarrow>
       if \<not> is_success code then Inl (AuthenticationError ''Unable to fetch JWKS document'')
       else (case body of
         None \<Rightarrow> Inl (AuthenticationError ''JWKS payload is malformed'')
       | Some (PDict data) \<Rightarrow> (case map_of data ''keys'' of
           None \<Rightarrow> Inl (AuthenticationError ''JWKS document does not contain keys'')
         | Some (PList items) \<Rightarrow> res_bind (index_keys [] items) (\<lambda>indexed.
             if indexed = [] then Inl (AuthenticationError ''JWKS document does not contain keys'') else Inr indexed)
         | Some _ \<Rightarrow> Inl (AuthenticationError ''JWKS payload is malformed''))
       | Some _ \<Rightarrow> Inl (OtherError ''AttributeError'')))"

definition fetch_jwks :: "http_server \<Rightarrow> url \<Rightarrow> jwks auth_op" where
  "fetch_jwks server jwks_url =
     bindm (zoom ka_sent (\<lambda>l a. a\<lparr>ka_sent := l\<rparr>)
       (send server \<lparr>rq_base = jwks_url, rq_method = ''GET'', rq_path = [], rq_json = None\<rparr>)) (\<lambda>answer.
     lift_res (read_jwks answer))"

definition refresh_keys :: "http_server \<Rightarrow> url \<Rightarrow> unit auth_op" where
  "refresh_keys server jwks_url =
     bindm (fetch_jwks server jwks_url) (\<lambda>ks. modify (\<lambda>a. a\<lparr>ka_cache := Some ks\<rparr>))"

text \<open>\<open>cache.get(kid)\<close>: a list or an object cannot be a key of a dictionary.\<close>

definition key_of :: "pyval \<Rightarrow> jwks \<Rightarrow> pyval option res" where
  "key_of kid cache = (case kid of PStr k \<Rightarrow> Inr (map_of cache k)
     | PList _ \<Rightarrow> Inl TypeError | PDict _ \<Rightarrow> Inl TypeError | _ \<Rightarrow> Inr None)"

definition look_up_key :: "pyval \<Rightarrow> pyval option auth_op" where
  "look_up_key kid = bindm (gets ka_cache) (\<lambda>cache.
     lift_res (case cache of Some c \<Rightarrow> key_of kid c | None \<Rightarrow> Inl (OtherError ''AttributeError'')))"

definition get_key :: "http_server \<Rightarrow> url \<Rightarrow> pyval \<Rightarrow> pyval auth_op" where
  "get_key server jwks_url kid =
     bindm (gets ka_cache) (\<lambda>cache.
     thenm (whenm (cache = None) (refresh_keys server jwks_url))
     (bindm (look_up_key kid) (\<lambda>key. case key of
        Some k \<Rightarrow> ret k
      | None \<Rightarrow>
          thenm (refresh_keys server jwks_url)
          (bindm (look_up_key kid) (\<lambda>key. case key of
             Some k \<Rightarrow> ret k
           | None \<Rightarrow> raise (AuthenticationError ''Signing key not found in JWKS''))))))"

text \<open>\<open>int(value)\<close>: a float is cut towards zero by \<open>float_int\<close>, which fails for nan and infinities.\<close>

definition to_int :: "(string \<Rightarrow> int option) \<Rightarrow> pyval \<Rightarrow> int res" where
  "to_int float_int v = (case v of
     PInt i \<Rightarrow> Inr i
   | PBool b \<Rightarrow> Inr (if b then 1 else 0)
   | PStr s \<Rightarrow> (case py_int s of Some i \<Rightarrow> Inr i | None \<Rightarrow> Inl (ValueError ''invalid literal for int()''))
   | PFloat s \<Rightarrow> (case float_int s of Some i \<Rightarrow> Inr i | None \<Rightarrow> Inl (ValueError ''cannot convert float to integer''))
   | _ \<Rightarrow> Inl TypeError)"

definition validate_claims :: "(string \<Rightarrow> int option) \<Rightarrow> string option \<Rightarrow> int \<Rightarrow> claims \<Rightarrow> unit res" where
  "validate_claims float_int audience now c =
     res_bind (case map_of c ''exp'' of
         None \<Rightarrow> Inr ()
       | Some v \<Rightarrow> if v = PNone then Inr ()
           else res_bind (to_int float_int v) (\<lambda>i. res_bind (from_timestamp i) (\<lambda>expiry.
             ensure (now < expiry) (AuthenticationError ''Token has expired''))))
     (\<lambda>_. case audience of
         None \<Rightarrow> Inr ()
       | Some a \<Rightarrow> ensure (a \<in> (case map_of c ''aud'' of
             Some (PStr s) \<Rightarrow> {s} | Some (PList vs) \<Rightarrow> py_str ` set vs | _ \<Rightarrow> {}))
           (AuthenticationError ''Token audience mismatch''))"

text \<open>\<open>token.rsplit(".", 1)\<close> unpacked into two parts.\<close>

definition split_signature :: "string \<Rightarrow> (string \<times> string) res" where
  "split_signature token = (case partition_at (CHR ''.'') (rev token) of
     (sig, found, message) \<Rightarrow> if found then Inr (rev message, rev sig)
       else Inl (ValueError ''not enough values to unpack (expected 2, got 1)''))"

record auth_env =
  ae_server :: http_server
  ae_jwks_url :: url
  ae_jose :: jose
  ae_float_int :: "string \<Rightarrow> int option"
  ae_audience :: "string option"

definition or_else :: "pyval option \<Rightarrow> pyval option \<Rightarrow> pyval option" where
  "or_else a b = (case a of Some v \<Rightarrow> if truthy v then Some v else b | None \<Rightarrow> b)"

definition authenticate :: "auth_env \<Rightarrow> int \<Rightarrow> string \<Rightarrow> authenticated_user auth_op" where
  "authenticate env now token =
     (case jo_header (ae_jose env) token of
        Inl _ \<Rightarrow> raise (AuthenticationError ''Invalid token header'')
      | Inr header \<Rightarrow> (let kid = get_or_none header ''kid'' in
          if \<not> truthy kid then raise (AuthenticationError (''JWT header missing '' @ quoted ''kid''))
          else
            bindm (get_key (ae_server env) (ae_jwks_url env) kid) (\<lambda>key.
            bindm (lift_res (split_signature token)) (\<lambda>(message, encoded).
            bindm (lift_res (jo_base64 (ae_jose env) encoded)) (\<lambda>signature.
              case jo_construct (ae_jose env) key of
                None \<Rightarrow> raise (AuthenticationError ''Unable to construct verification key'')
              | Some verify \<Rightarrow>
                  if \<not> verify message signature then raise (AuthenticationError ''Token signature verification failed'')
                  else
                    bindm (lift_res (jo_claims (ae_jose env) token)) (\<lambda>c.
                    bindm (lift_res (validate_claims (ae_float_int env) (ae_audience env) now c)) (\<lambda>_.
                    (let subject = py_str (get_or_none c ''sub'') in
                     if subject = [] then raise (AuthenticationError ''JWT is missing subject claim'')
                     else ret \<lparr>au_subject = subject,
                       au_email = or_else (map_of c ''email'') (map_of c ''preferred_username'')\<rparr>))))))))"

section \<open>Callers\<close>

text \<open>
  What a request or an upgrade shows of its caller: the peer's host, the headers by lower-case name,
  the query parameters in order, and the bearer credentials FastAPI's \<open>HTTPBearer\<close> found in it.
\<close>

record caller =
  cl_host :: "string option"
  cl_headers :: "(string \<times> string) list"
  cl_query :: "(string \<times> string) list"
  cl_credentials :: "string option"

text \<open>Of a repeated query parameter the last one counts.\<close>

definition query_get :: "caller \<Rightarrow> string \<Rightarrow> string option" where
  "query_get c k = map_of (rev (cl_query c)) k"

definition text_or :: "string option \<Rightarrow> string option \<Rightarrow> string option" where
  "text_or a b = (if a = None \<or> a = Some [] then b else a)"

definition request_token :: "caller \<Rightarrow> string option" where
  "request_token c = (case cl_credentials c of Some t \<Rightarrow> Some t
     | None \<Rightarrow> text_or (query_get c ''access_token'') (query_get c ''token''))"

record trust_settings =
  tr_cidrs :: "ip_network list"
  tr_header :: "string option"

definition trusted_source :: "trust_settings \<Rightarrow> caller \<Rightarrow> string option" where
  "trusted_source st c =
     resolve_trusted_source (cl_host c) (extract_trusted_header (cl_headers c) (tr_header st)) (tr_cidrs st)"

definition internal_user :: "string \<Rightarrow> authenticated_user" where
  "internal_user source = \<lparr>au_subject = ''internal:'' @ source, au_email = None\<rparr>"

definition get_current_user ::
  "auth_env \<Rightarrow> trust_settings \<Rightarrow> int \<Rightarrow> caller \<Rightarrow> authenticated_user auth_op" where
  "get_current_user env st now c =
     (case trusted_source st c of
        Some source \<Rightarrow> ret (internal_user source)
      | None \<Rightarrow> (case request_token c of
          None \<Rightarrow> raise (HTTPException 401 ''Missing credentials'')
        | Some token \<Rightarrow> catchm (authenticate env now token) (\<lambda>e. case e of
            AuthenticationError _ \<Rightarrow> raise (HTTPException 401 ''Invalid token'') | _ \<Rightarrow> raise e)))"

text \<open>A WebSocket upgrade; the connection remembers the codes it was closed with.\<close>

record ws_connection =
  wc_auth :: authenticator
  wc_closed :: "(nat \<times> string) list"

definition close_ws :: "nat \<Rightarrow> string \<Rightarrow> (ws_connection, unit) op" where
  "close_ws code reason = modify (\<lambda>w. w\<lparr>wc_closed := wc_closed w @ [(code, reason)]\<rparr>)"

definition upgrade_token :: "caller \<Rightarrow> string option" where
  "upgrade_token c = (case header_get (cl_headers c) ''Authorization'' of
     Some a \<Rightarrow> if a \<noteq> [] \<and> starts_with ''bearer '' (lower a) then Some (drop 7 a) else query_get c ''token''
   | None \<Rightarrow> query_get c ''token'')"

definition authenticate_websocket ::
  "auth_env \<Rightarrow> trust_settings \<Rightarrow> int \<Rightarrow> caller \<Rightarrow> (ws_connection, authenticated_user) op" where
  "authenticate_websocket env st now c =
     (case trusted_source st c of
        Some source \<Rightarrow> ret (internal_user source)
      | None \<Rightarrow> (case upgrade_token c of
          None \<Rightarrow> thenm (close_ws 1008 [])
            (raise (AuthenticationError ''Missing bearer token for WebSocket connection''))
        | Some token \<Rightarrow>
            if token = [] then thenm (close_ws 1008 [])
              (raise (AuthenticationError ''Missing bearer token for WebSocket connection''))
            else catchm (zoom wc_auth (\<lambda>a w. w\<lparr>wc_auth := a\<rparr>) (authenticate env now token)) (\<lambda>e. case e of
              AuthenticationError _ \<Rightarrow> thenm (close_ws 1008 []) (raise e) | _ \<Rightarrow> raise e)))"

section \<open>The key cache\<close>

text \<open>The cache, when there is one, is the index of a document the JWKS endpoint has served.\<close>

definition served :: "auth_env \<Rightarrow> http_request list \<Rightarrow> jwks \<Rightarrow> bool" where
  "served env sent ks = (\<exists>i < length sent. read_jwks (ae_server env (take i sent) (sent ! i)) = Inr ks)"

definition cache_ok :: "auth_env \<Rightarrow> authenticator \<Rightarrow> bool" where
  "cache_ok env a = (\<forall>ks. ka_cache a = Some ks \<longrightarrow> served env (ka_sent a) ks)"

lemma served_append: "served env l ks \<Longrightarrow> served env (l @ m) ks"
proof -
  assume "served env l ks"
  then obtain i where "i < length l" "read_jwks (ae_server env (take i l) (l ! i)) = Inr ks" by (auto simp: served_def)
  then show ?thesis unfolding served_def by (intro exI [where x = i]) (simp add: nth_append)
qed

abbreviation jwks_request :: "auth_env \<Rightarrow> http_request" where
  "jwks_request env \<equiv> \<lparr>rq_base = ae_jwks_url env, rq_method = ''GET'', rq_path = [], rq_json = None\<rparr>"

lemma served_new:
  "read_jwks (ae_server env l (jwks_request env)) = Inr ks \<Longrightarrow> served env (l @ [jwks_request env]) ks"
  unfolding served_def by (intro exI [where x = "length l"]) simp

text \<open>A refresh sends one request; the cache changes only to the index of its answer.\<close>

lemma wp_refresh_keys [wp_simps]:
  "wp (refresh_keys (ae_server env) (ae_jwks_url env)) Q E a =
    (case read_jwks (ae_server env (ka_sent a) (jwks_request env)) of
       Inl e \<Rightarrow> E e (a\<lparr>ka_sent := ka_sent a @ [jwks_request env]\<rparr>)
     | Inr ks \<Rightarrow> Q () \<lparr>ka_cache = Some ks, ka_sent = ka_sent a @ [jwks_request env]\<rparr>)"
  by (cases a) (simp add: refresh_keys_def fetch_jwks_def wp_simps split: sum.split)

lemma wp_look_up_key [wp_simps]:
  "wp (look_up_key kid) Q E a = (case ka_cache a of None \<Rightarrow> E (OtherError ''AttributeError'') a
     | Some ks \<Rightarrow> (case key_of kid ks of Inl e \<Rightarrow> E e a | Inr key \<Rightarrow> Q key a))"
  by (simp add: look_up_key_def wp_simps split: option.split)

lemma key_of_Some: "key_of kid ks = Inr (Some key) \<longleftrightarrow> (\<exists>k. kid = PStr k \<and> map_of ks k = Some key)"
  by (auto simp: key_of_def split: pyval.splits)

text \<open>
  Finding a key takes at most two requests, none when the cache has it, and the key is filed under the
  token's key id in a document the endpoint served.
\<close>

definition fetches :: "auth_env \<Rightarrow> authenticator \<Rightarrow> authenticator \<Rightarrow> bool" where
  "fetches env a b = ((\<exists>n \<le> 2. ka_sent b = ka_sent a @ replicate n (jwks_request env)) \<and> cache_ok env b)"

lemma fetches_simps:
  "ka_sent b = ka_sent a \<Longrightarrow> fetches env a b \<longleftrightarrow> cache_ok env b"
  "ka_sent b = ka_sent a @ [jwks_request env] \<Longrightarrow> fetches env a b \<longleftrightarrow> cache_ok env b"
  "ka_sent b = ka_sent a @ [jwks_request env, jwks_request env] \<Longrightarrow> fetches env a b \<longleftrightarrow> cache_ok env b"
  unfolding fetches_def
  by (auto intro: exI [where x = 0] exI [where x = 1] exI [where x = 2] simp: numeral_2_eq_2)

lemma served_twice:
  "read_jwks (ae_server env l (jwks_request env)) = Inr ks \<Longrightarrow> served env (l @ [jwks_request env, jwks_request env]) ks"
  "read_jwks (ae_server env (l @ [jwks_request env]) (jwks_request env)) = Inr ks \<Longrightarrow>
    served env (l @ [jwks_request env, jwks_request env]) ks"
  using served_append [OF served_new, of env l ks "[jwks_request env]"] served_new [of env "l @ [jwks_request env]" ks]
  by simp_all

abbreviation key_found :: "auth_env \<Rightarrow> pyval \<Rightarrow> pyval \<Rightarrow> authenticator \<Rightarrow> bool" where
  "key_found env kid key b \<equiv> \<exists>k ks. kid = PStr k \<and> ka_cache b = Some ks \<and> map_of ks k = Some key \<and>
     served env (ka_sent b) ks"

lemma get_key_wp:
  assumes "cache_ok env a"
  shows "wp (get_key (ae_server env) (ae_jwks_url env) kid)
    (\<lambda>key b. fetches env a b \<and> key_found env kid key b) (\<lambda>_ b. fetches env a b) a"
proof (cases "ka_cache a")
  case (Some ks)
  have srv: "served env (ka_sent a) ks" using assms Some by (simp add: cache_ok_def)
  with Some show ?thesis
    unfolding get_key_def
    by (auto simp: wp_simps key_of_Some fetches_simps cache_ok_def served_append served_new
        split: option.split sum.split)
next
  case None
  then show ?thesis
    unfolding get_key_def
    by (auto simp: wp_simps key_of_Some fetches_simps cache_ok_def served_new served_twice
        split: option.split sum.split)
qed

section \<open>Who is let in\<close>

text \<open>A trusted source is an address, shown by the caller or its connection, inside a trusted network.\<close>

lemma ip_candidates_parsed: "(part, a) \<in> set (ip_candidates parts) \<Longrightarrow> part \<in> set parts \<and> ip_address part = Some a"
  by (induction parts) (auto split: option.splits)

lemma find_member: "find P xs = Some x \<Longrightarrow> x \<in> set xs \<and> P x"
  by (induction xs) (auto split: if_splits)

lemma resolve_trusted_source_sound:
  assumes "resolve_trusted_source client_host header_value networks = Some source"
  shows "\<exists>a net. ip_address source = Some a \<and> net \<in> set networks \<and> in_network a net \<and>
    (source \<in> set (header_parts header_value) \<or> client_host = Some source)"
proof -
  let ?cs = "ip_candidates (header_parts header_value) @
     ip_candidates (case client_host of None \<Rightarrow> [] | Some h \<Rightarrow> if h = [] then [] else [h])"
  obtain a where f: "find (\<lambda>(_, a). list_ex (in_network a) networks) ?cs = Some (source, a)"
    using assms by (auto simp: resolve_trusted_source_def split: if_splits)
  have "(source, a) \<in> set ?cs" and "list_ex (in_network a) networks"
    using find_member [OF f] by simp_all
  then show ?thesis
    by (auto dest!: ip_candidates_parsed simp: list_ex_iff split: option.splits if_splits)
qed

text \<open>Without a trusted network every caller needs a token, whatever its headers say.\<close>

lemma no_networks: "tr_cidrs st = [] \<Longrightarrow> trusted_source st c = None"
  by (simp add: trusted_source_def resolve_trusted_source_def)

lemma validate_claims_sound:
  assumes "validate_claims float_int audience now c = Inr u"
  shows "map_of c ''exp'' = Some (PInt i) \<Longrightarrow> now < i * 1000000"
    and "audience = Some a \<Longrightarrow> map_of c ''aud'' = Some (PStr s) \<Longrightarrow> s = a"
    and "audience = Some a \<Longrightarrow> map_of c ''aud'' \<noteq> None"
  using assms
  by (auto simp: validate_claims_def to_int_def from_timestamp_def split: if_splits option.splits)

definition authentic :: "auth_env \<Rightarrow> int \<Rightarrow> string \<Rightarrow> authenticated_user \<Rightarrow> authenticator \<Rightarrow> bool" where
  "authentic env now token u b = (\<exists>header kid ks key verify message encoded signature c.
     jo_header (ae_jose env) token = Inr header \<and> get_or_none header ''kid'' = PStr kid \<and>
     ka_cache b = Some ks \<and> served env (ka_sent b) ks \<and> map_of ks kid = Some key \<and>
     jo_construct (ae_jose env) key = Some verify \<and> split_signature token = Inr (message, encoded) \<and>
     jo_base64 (ae_jose env) encoded = Inr signature \<and> verify message signature \<and>
     jo_claims (ae_jose env) token = Inr c \<and>
     validate_claims (ae_float_int env) (ae_audience env) now c = Inr () \<and>
     au_subject u = py_str (get_or_none c ''sub'') \<and> au_subject u \<noteq> [])"

lemma authenticate_wp:
  assumes "cache_ok env a"
  shows "wp (authenticate env now token) (\<lambda>u b. fetches env a b \<and> authentic env now token u b)
    (\<lambda>_ b. fetches env a b) a"
proof (cases "jo_header (ae_jose env) token")
  case (Inl e)
  then show ?thesis using assms by (simp add: authenticate_def wp_simps fetches_simps)
next
  case (Inr header)
  let ?kid = "get_or_none header ''kid''"
  let ?check = "\<lambda>key b. case split_signature token of Inr (message, encoded) \<Rightarrow>
     (case jo_base64 (ae_jose env) encoded of Inr signature \<Rightarrow>
       (case jo_construct (ae_jose env) key of Some verify \<Rightarrow>
          verify message signature | None \<Rightarrow> False) | Inl _ \<Rightarrow> False) | Inl _ \<Rightarrow> False"
  show ?thesis
  proof (cases "truthy ?kid")
    case False
    then show ?thesis using Inr assms by (simp add: authenticate_def wp_simps fetches_simps)
  next
    case True
    have found: "authentic env now token u b"
      if "key_found env ?kid key b" "split_signature token = Inr (message, encoded)"
        "jo_base64 (ae_jose env) encoded = Inr signature" "jo_construct (ae_jose env) key = Some verify"
        "verify message signature" "jo_claims (ae_jose env) token = Inr c"
        "validate_claims (ae_float_int env) (ae_audience env) now c = Inr ()"
        "au_subject u = py_str (get_or_none c ''sub'')" "au_subject u \<noteq> []"
      for u b key message encoded signature verify c
      using that Inr unfolding authentic_def by blast
    show ?thesis
      unfolding authenticate_def Inr sum.case Let_def wp_if wp_bindm
      using True
      by (simp, intro wp_mono [OF get_key_wp [OF assms]])
        (auto simp: wp_simps intro!: found split: sum.split option.split)
  qed
qed

lemma get_current_user_wp:
  assumes "cache_ok env a"
  shows "wp (get_current_user env st now c)
    (\<lambda>u b. fetches env a b \<and> (case trusted_source st c of Some source \<Rightarrow> u = internal_user source \<and> b = a
       | None \<Rightarrow> \<exists>token. request_token c = Some token \<and> authentic env now token u b))
    (\<lambda>e b. fetches env a b \<and> trusted_source st c = None) a"
proof (cases "trusted_source st c")
  case (Some source)
  then show ?thesis using assms by (simp add: get_current_user_def wp_simps fetches_simps)
next
  case None
  show ?thesis
  proof (cases "request_token c")
    case None
    with \<open>trusted_source st c = None\<close> assms show ?thesis by (simp add: get_current_user_def wp_simps fetches_simps)
  next
    case (Some token)
    have "wp (case e of AuthenticationError _ \<Rightarrow> raise (HTTPException 401 ''Invalid token'') | _ \<Rightarrow> raise e) Q
        (\<lambda>_ b. fetches env a b) b" if "fetches env a b" for e b and Q :: "authenticated_user \<Rightarrow> authenticator \<Rightarrow> bool"
      using that by (cases e) (simp_all add: wp_simps)
    with None Some show ?thesis
      unfolding get_current_user_def
      by (simp add: wp_catchm) (rule wp_mono [OF authenticate_wp [OF assms]]; simp)
  qed
qed

lemma authenticate_websocket_wp:
  assumes "cache_ok env (wc_auth w)"
  shows "wp (authenticate_websocket env st now c)
    (\<lambda>u v. fetches env (wc_auth w) (wc_auth v) \<and> wc_closed v = wc_closed w \<and>
       (case trusted_source st c of Some source \<Rightarrow> u = internal_user source \<and> v = w
        | None \<Rightarrow> \<exists>token. upgrade_token c = Some token \<and> authentic env now token u (wc_auth v)))
    (\<lambda>e v. fetches env (wc_auth w) (wc_auth v) \<and> trusted_source st c = None \<and>
       (\<forall>m. e = AuthenticationError m \<longrightarrow> wc_closed v = wc_closed w @ [(1008, [])])) w"
proof (cases "trusted_source st c")
  case (Some source)
  then show ?thesis using assms by (simp add: authenticate_websocket_def wp_simps fetches_simps)
next
  case None
  show ?thesis
  proof (cases "upgrade_token c = None \<or> upgrade_token c = Some []")
    case True
    with None assms show ?thesis
      by (auto simp: authenticate_websocket_def close_ws_def wp_simps fetches_simps)
  next
    case False
    then obtain token where token: "upgrade_token c = Some token" "token \<noteq> []" by auto
    have "wp (case e of AuthenticationError _ \<Rightarrow> thenm (close_ws 1008 []) (raise e) | _ \<Rightarrow> raise e) Q
        (\<lambda>e v. fetches env (wc_auth w) (wc_auth v) \<and>
          (\<forall>m. e = AuthenticationError m \<longrightarrow> wc_closed v = wc_closed w @ [(1008, [])])) v"
      if "fetches env (wc_auth w) (wc_auth v)" "wc_closed v = wc_closed w" for e v
        and Q :: "authenticated_user \<Rightarrow> ws_connection \<Rightarrow> bool"
      using that by (cases e) (simp_all add: wp_simps close_ws_def)
    with None token show ?thesis
      unfolding authenticate_websocket_def
      by (simp add: wp_catchm wp_zoom) (rule wp_mono [OF authenticate_wp [OF assms]]; simp)
  qed
qed

inductive auth_step :: "auth_env \<Rightarrow> authenticator \<Rightarrow> authenticator \<Rightarrow> bool" for env where
  auth_http: "get_current_user env st now c a = (r, b) \<Longrightarrow> auth_step env a b"
| auth_ws: "authenticate_websocket env st now c w = (r, v) \<Longrightarrow> auth_step env (wc_auth w) (wc_auth v)"

lemma auth_step_ok: "cache_ok env a \<Longrightarrow> auth_step env a b \<Longrightarrow> cache_ok env b"
proof (elim auth_step.cases)
  fix st now c a' r b'
  assume "cache_ok env a" and "a = a'" "b = b'" "get_current_user env st now c a' = (r, b')"
  then show "cache_ok env b"
    using wp_run [OF get_current_user_wp, of env a st now c r b] by (auto simp: fetches_def split: sum.splits)
next
  fix st now c w r v
  assume "cache_ok env a" and a: "a = wc_auth w" "b = wc_auth v" and "authenticate_websocket env st now c w = (r, v)"
  then show "cache_ok env b"
    using wp_run [OF authenticate_websocket_wp, of env w st now c r v] by (auto simp: fetches_def split: sum.splits)
qed

interpretation key_cache: transition_invariant "\<lambda>a. a = make_authenticator" "auth_step env" "cache_ok env" for env
  by unfold_locales (simp add: make_authenticator_def cache_ok_def, erule (1) auth_step_ok)

text \<open>A caller passes for trusted by what its connection says or what it writes in the trusted header.\<close>

definition claims_trusted :: "trust_settings \<Rightarrow> caller \<Rightarrow> authenticated_user \<Rightarrow> bool" where
  "claims_trusted st c u = (\<exists>source ip net. u = internal_user source \<and> ip_address source = Some ip \<and>
     net \<in> set (tr_cidrs st) \<and> in_network ip net \<and>
     (cl_host c = Some source \<or>
      source \<in> set (header_parts (extract_trusted_header (cl_headers c) (tr_header st)))))"

lemma trusted_source_claims: "trusted_source st c = Some source \<Longrightarrow> claims_trusted st c (internal_user source)"
  unfolding claims_trusted_def trusted_source_def using resolve_trusted_source_sound by fastforce


section \<open>The properties at work\<close>

text \<open>An endpoint that rotates its key: the first document lists key \<open>k1\<close>, later ones \<open>k2\<close>.\<close>

definition demo_jwks :: "string \<Rightarrow> pyval" where
  "demo_jwks kid = PDict [(''keys'', PList [PDict [(''kid'', PStr kid)]])]"

definition demo_auth_env :: auth_env where
  "demo_auth_env = \<lparr>ae_server = (\<lambda>sent rq. Answer 200 (Some (demo_jwks (if sent = [] then ''k1'' else ''k2'')))),
     ae_jwks_url = ''http://idp/jwks'',
     ae_jose = \<lparr>jo_header = (\<lambda>t. Inr [(''kid'', PStr (takeWhile (\<lambda>c. c \<noteq> CHR ''.'') t))]),
       jo_claims = (\<lambda>t. Inr [(''sub'', PStr ''alice''), (''exp'', PInt 90)]),
       jo_construct = (\<lambda>k. Some (\<lambda>m s. s = ''signed'')), jo_base64 = Inr\<rparr>,
     ae_float_int = (\<lambda>_. None), ae_audience = None\<rparr>"

definition demo_caller :: "string \<Rightarrow> caller" where
  "demo_caller token = \<lparr>cl_host = Some ''203.0.113.9'', cl_headers = [(''x-real-ip'', ''10.1.2.3'')],
     cl_query = [(''token'', token)], cl_credentials = None\<rparr>"

definition demo_trust :: trust_settings where
  "demo_trust = \<lparr>tr_cidrs = [], tr_header = Some ''X-Real-IP''\<rparr>"

definition demo_state :: "string \<Rightarrow> nat \<Rightarrow> authenticator" where
  "demo_state kid n = \<lparr>ka_cache = Some [(kid, PDict [(''kid'', PStr kid)])],
     ka_sent = replicate n \<lparr>rq_base = ''http://idp/jwks'', rq_method = ''GET'', rq_path = [], rq_json = None\<rparr>\<rparr>"

text \<open>The rotated key is found by one more request, and the token it signs is accepted.\<close>

lemma demo_authentication:
  "get_current_user demo_auth_env demo_trust 60 (demo_caller ''k1.claims.signed'') make_authenticator =
    (Inr \<lparr>au_subject = ''alice'', au_email = None\<rparr>, demo_state ''k1'' 1)"
  "get_current_user demo_auth_env demo_trust 60 (demo_caller ''k2.claims.signed'') (demo_state ''k1'' 1) =
    (Inr \<lparr>au_subject = ''alice'', au_email = None\<rparr>, demo_state ''k2'' 2)"
  by code_simp+

lemma demo_upgrade:
  "authenticate_websocket demo_auth_env demo_trust 60 (demo_caller ''k2.claims.signed'')
     \<lparr>wc_auth = demo_state ''k1'' 1, wc_closed = []\<rparr> =
   (Inr \<lparr>au_subject = ''alice'', au_email = None\<rparr>, \<lparr>wc_auth = demo_state ''k2'' 2, wc_closed = []\<rparr>)"
  by code_simp


end
