(* ===== verification/Event_Bridge.thy ===== *)
theory Event_Bridge
  imports Core_Models
begin

text \<open>
  The fan-out of session events (\<open>packages/core/core/websocket_bridge.py\<close>) and the publishers of the
  runner (\<open>services/runner/app/events.py\<close>). A publication puts the event into every queue without
  suspending (the queues are unbounded), so publishing and subscribing are one operation each.
\<close>

declare map_of_eq_Some_iff [simp del] Some_eq_map_of_iff [simp del]

section \<open>The bridge\<close>

text \<open>A subscriber is the identity of its queue; identities are numbered as they are made.\<close>

record 'e bridge =
  eb_subscribers :: "(nat, 'e list) dict"
  eb_latest :: "'e option"
  eb_next :: nat

definition init_bridge :: "'e bridge" where
  "init_bridge = \<lparr>eb_subscribers = [], eb_latest = None, eb_next = 0\<rparr>"

definition publish_event :: "'e \<Rightarrow> ('e bridge, unit) op" where
  "publish_event e = modify (\<lambda>b. b\<lparr>eb_subscribers := map (\<lambda>(q, es). (q, es @ [e])) (eb_subscribers b),
     eb_latest := Some e\<rparr>)"

definition subscribe :: "bool \<Rightarrow> ('e bridge, nat) op" where
  "subscribe replay_latest =
     bindm (gets eb_next) (\<lambda>q.
     bindm (gets eb_latest) (\<lambda>latest.
     thenm (modify (\<lambda>b. b\<lparr>eb_next := Suc q, eb_subscribers := eb_subscribers b @
        [(q, case latest of Some e \<Rightarrow> if replay_latest then [e] else [] | None \<Rightarrow> [])]\<rparr>))
     (ret q)))"

text \<open>\<open>await queue.get()\<close>: \<open>None\<close> when the subscriber has to wait.\<close>

definition next_event :: "nat \<Rightarrow> ('e bridge, 'e option) op" where
  "next_event q =
     bindm (gets (\<lambda>b. map_of (eb_subscribers b) q)) (\<lambda>queue. case queue of
       None \<Rightarrow> ret None
     | Some [] \<Rightarrow> ret None
     | Some (e # es) \<Rightarrow>
         thenm (modify (\<lambda>b. b\<lparr>eb_subscribers := AList.update q es (eb_subscribers b)\<rparr>)) (ret (Some e)))"

definition unsubscribe :: "nat \<Rightarrow> ('e bridge, unit) op" where
  "unsubscribe q = modify (\<lambda>b. b\<lparr>eb_subscribers := AList.delete q (eb_subscribers b)\<rparr>)"

section \<open>Refinement: one log and a cursor for each subscriber\<close>

text \<open>
  The specification keeps every event published, in order, and for each subscriber how far it has
  read: from the end when it subscribed, from the last event when it asked for a replay.
\<close>

record 'e event_log =
  el_events :: "'e list"
  el_cursors :: "(nat, nat) dict"
  el_next :: nat

datatype 'e bridge_action = Publish 'e | Subscribe bool | Take nat | Close nat

datatype 'e bridge_answer = Done | Subscribed nat | Taken "'e option"

fun bridge_act :: "'e bridge_action \<Rightarrow> ('e bridge, 'e bridge_answer) op" where
  "bridge_act (Publish e) = thenm (publish_event e) (ret Done)"
| "bridge_act (Subscribe r) = bindm (subscribe r) (\<lambda>q. ret (Subscribed q))"
| "bridge_act (Take q) = bindm (next_event q) (\<lambda>e. ret (Taken e))"
| "bridge_act (Close q) = thenm (unsubscribe q) (ret Done)"

fun log_act :: "'e bridge_action \<Rightarrow> ('e event_log, 'e bridge_answer) op" where
  "log_act (Publish e) l = (Inr Done, l\<lparr>el_events := el_events l @ [e]\<rparr>)"
| "log_act (Subscribe r) l = (Inr (Subscribed (el_next l)), l\<lparr>el_next := Suc (el_next l),
     el_cursors := el_cursors l @ [(el_next l, length (el_events l) - (if r then 1 else 0))]\<rparr>)"
| "log_act (Take q) l = (case map_of (el_cursors l) q of
     Some n \<Rightarrow> if n < length (el_events l)
       then (Inr (Taken (Some (el_events l ! n))), l\<lparr>el_cursors := AList.update q (Suc n) (el_cursors l)\<rparr>)
       else (Inr (Taken None), l)
   | None \<Rightarrow> (Inr (Taken None), l))"
| "log_act (Close q) l = (Inr Done, l\<lparr>el_cursors := AList.delete q (el_cursors l)\<rparr>)"

text \<open>Running a sequence of actions collects the answers.\<close>

fun run_actions :: "('a \<Rightarrow> ('s, 'b) op) \<Rightarrow> 'a list \<Rightarrow> ('s, 'b list) op" where
  "run_actions f [] = ret []"
| "run_actions f (a # as) = bindm (f a) (\<lambda>x. bindm (run_actions f as) (\<lambda>xs. ret (x # xs)))"

definition bridge_of :: "'e event_log \<Rightarrow> 'e bridge" where
  "bridge_of l = \<lparr>eb_subscribers = map (\<lambda>(q, n). (q, drop n (el_events l))) (el_cursors l),
     eb_latest = (if el_events l = [] then None else Some (last (el_events l))), eb_next = el_next l\<rparr>"

definition log_ok :: "'e event_log \<Rightarrow> bool" where
  "log_ok l = (\<forall>(q, n) \<in> set (el_cursors l). n \<le> length (el_events l))"

lemma map_of_map_values: "map_of (map (\<lambda>(q, n). (q, f n)) d) q = map_option f (map_of d q)"
  by (induction d) auto

lemma update_map_values:
  "AList.update q (f n) (map (\<lambda>(q, n). (q, f n)) d) = map (\<lambda>(q, n). (q, f n)) (AList.update q n d)"
  by (induction d) auto

lemma delete_map_values:
  "AList.delete q (map (\<lambda>(q, n). (q, f n)) d) = map (\<lambda>(q, n). (q, f n)) (AList.delete q d)"
  by (induction d) auto

lemma log_act_ok:
  assumes "log_ok l" shows "log_ok (snd (log_act a l))"
proof (cases a)
  case (Take q)
  have "(p, m) \<in> set (AList.update q k d) \<Longrightarrow> (p, m) \<in> set d \<or> m = k" for p m k and d :: "(nat, nat) dict"
    by (induction d) (auto split: if_splits)
  then show ?thesis using assms Take by (fastforce simp: log_ok_def split: option.split)
next
  case (Close q)
  have "(p, m) \<in> set (AList.delete q d) \<Longrightarrow> (p, m) \<in> set d" for p m and d :: "(nat, nat) dict"
    by (induction d) (auto split: if_splits)
  then show ?thesis using assms Close by (fastforce simp: log_ok_def)
qed (use assms in \<open>auto simp: log_ok_def\<close>)

text \<open>The simulation: the bridge of a log answers each action as the log does.\<close>

lemma bridge_act_simulates:
  assumes "log_ok l"
  shows "bridge_act a (bridge_of l) = (fst (log_act a l), bridge_of (snd (log_act a l)))"
proof (cases a)
  case (Publish e)
  have "map (\<lambda>(q, es). (q, es @ [e])) (map (\<lambda>(q, n). (q, drop n (el_events l))) (el_cursors l)) =
      map (\<lambda>(q, n). (q, drop n (el_events l @ [e]))) (el_cursors l)"
    using assms by (auto simp: log_ok_def)
  then show ?thesis using Publish by (simp add: publish_event_def bridge_of_def op_run)
next
  case (Subscribe r)
  have "(case if el_events l = [] then None else Some (last (el_events l)) of
      Some e \<Rightarrow> if r then [e] else [] | None \<Rightarrow> []) = drop (length (el_events l) - (if r then 1 else 0)) (el_events l)"
    by (cases "el_events l" rule: rev_cases) auto
  then show ?thesis using Subscribe by (simp add: subscribe_def bridge_of_def op_run)
next
  case (Take q)
  show ?thesis
  proof (cases "map_of (el_cursors l) q")
    case None
    then show ?thesis using Take by (simp add: next_event_def bridge_of_def op_run map_of_map_values)
  next
    case (Some n)
    show ?thesis
    proof (cases "n < length (el_events l)")
      case True
      then have "drop n (el_events l) = el_events l ! n # drop (Suc n) (el_events l)"
        by (simp add: Cons_nth_drop_Suc)
      then show ?thesis
        using Take Some True update_map_values [of q "\<lambda>n. drop n (el_events l)" "Suc n" "el_cursors l"]
        by (simp add: next_event_def bridge_of_def op_run map_of_map_values)
    next
      case False
      then show ?thesis using Take Some by (simp add: next_event_def bridge_of_def op_run map_of_map_values)
    qed
  qed
next
  case (Close q)
  then show ?thesis by (simp add: unsubscribe_def bridge_of_def op_run delete_map_values)
qed

lemma run_actions_simulates:
  "log_ok l \<Longrightarrow> run_actions bridge_act as (bridge_of l) =
    (fst (run_actions log_act as l), bridge_of (snd (run_actions log_act as l)))"
proof (induction as arbitrary: l)
  case Nil
  then show ?case by (simp add: op_run)
next
  case (Cons a as)
  have "\<exists>x. fst (log_act a l) = Inr x" by (cases a) (auto split: option.split)
  then obtain x l' where a: "log_act a l = (Inr x, l')" by (metis prod.collapse)
  have l': "log_ok l'" using log_act_ok [OF Cons.prems, of a] a by simp
  show ?case
    using bridge_act_simulates [OF Cons.prems, of a] Cons.IH [OF l'] a
    by (simp add: exec_op case_prod_beta op_run split: sum.split)
qed

text \<open>
  C19: Refinement of the event bridge: whatever publishers and subscribers do, in any order, every
  answer is the one of a single log of the published events with a read position for each
  subscriber. So a subscriber takes every event published after it subscribed exactly once and in
  order, preceded by the latest earlier event when it asked for a replay.
\<close>

theorem bridge_refines_log:
  "fst (run_actions bridge_act as init_bridge) =
    fst (run_actions log_act as \<lparr>el_events = [], el_cursors = [], el_next = 0\<rparr>)"
proof -
  let ?l = "\<lparr>el_events = [], el_cursors = [], el_next = 0\<rparr>"
  have init: "init_bridge = bridge_of ?l" by (simp add: init_bridge_def bridge_of_def)
  have "log_ok ?l" by (simp add: log_ok_def)
  from run_actions_simulates [OF this, of as] show ?thesis unfolding init by (simp only: fst_conv)
qed

section \<open>The runner's publishers\<close>

text \<open>The in-memory publisher: \<open>publish\<close> appends, \<open>drain\<close> takes everything.\<close>

definition buffer_publish :: "'e \<Rightarrow> ('e list, unit) op" where
  "buffer_publish e = modify (\<lambda>es. es @ [e])"

definition buffer_drain :: "('e list, 'e list) op" where
  "buffer_drain = bindm (gets id) (\<lambda>es. thenm (modify (\<lambda>_. [])) (ret es))"

fun workstation_event_value :: "workstation_event_type \<Rightarrow> string" where
  "workstation_event_value WsCREATED = ''workstation.created''"
| "workstation_event_value WsUPDATED = ''workstation.updated''"
| "workstation_event_value WsRELEASED = ''workstation.released''"
| "workstation_event_value WsSTATE_CHANGED = ''workstation.state_changed''"
| "workstation_event_value WsERROR = ''workstation.error''"
| "workstation_event_value WsRECYCLED = ''workstation.recycled''"

text \<open>A frame of the event stream; \<open>dumps\<close> is the JSON encoder.\<close>

definition sse_frame :: "(workstation_event \<Rightarrow> string) \<Rightarrow> workstation_event \<Rightarrow> string" where
  "sse_frame dumps e = ''event: '' @ workstation_event_value (we_type e) @ [CHR 10] @ ''data: '' @ dumps e @ [CHR 10, CHR 10]"

end
