(* ===== verification/Gateway_Control.thy ===== *)
theory Gateway_Control
  imports Gateway_Auth Gateway_Registries Runner_Registry_Props Vnc_Overrides Event_Bridge
begin

text \<open>
  The gateway application (\<open>services/gateway/app/main.py\<close>, \<open>config.py\<close>, \<open>services/discovery.py\<close>,
  \<open>routers/sessions.py\<close>, \<open>routers/workstations.py\<close>, \<open>routers/events.py\<close>): its settings, the session commands
  it relays to runners, the discovery of runners and the maintenance of its registries.
\<close>

declare map_of_eq_Some_iff [simp del] Some_eq_map_of_iff [simp del]

section \<open>Settings\<close>

text \<open>
  \<open>sl_float\<close> is \<open>float\<close> on a text, \<open>None\<close> for its \<open>ValueError\<close>, and \<open>sl_nonpositive\<close> the test \<open>x <= 0\<close>;
  \<open>sl_json\<close> decodes JSON and \<open>sl_runner\<close> reads the fields of a runner.
\<close>

record settings_libs =
  sl_float :: "string \<Rightarrow> string option"
  sl_nonpositive :: "string \<Rightarrow> bool"
  sl_json :: "string \<Rightarrow> pyval option"
  sl_runner :: "(string, pyval) dict \<Rightarrow> runner res"

record gateway_settings =
  gs_mode :: string
  gs_endpoint :: "string option"
  gs_interval :: string
  gs_runners :: "runner list"
  gs_jwks_url :: string
  gs_ttl :: int
  gs_secret :: string
  gs_trust :: trust_settings

definition validate_runner_item :: "((string, pyval) dict \<Rightarrow> runner res) \<Rightarrow> (string, pyval) dict \<Rightarrow> runner res" where
  "validate_runner_item reader d = res_bind (reader d) validate_runner"

fun read_runner_items ::
  "((string, pyval) dict \<Rightarrow> runner res) \<Rightarrow> exn \<Rightarrow> pyval list \<Rightarrow> runner list res" where
  "read_runner_items reader not_object [] = Inr []"
| "read_runner_items reader not_object (PDict d # items) =
     res_bind (validate_runner_item reader d) (\<lambda>r.
     res_bind (read_runner_items reader not_object items) (\<lambda>rs. Inr (r # rs)))"
| "read_runner_items reader not_object (item # items) = Inl not_object"

definition parse_runners :: "settings_libs \<Rightarrow> string option \<Rightarrow> runner list res" where
  "parse_runners libs raw = (case raw of None \<Rightarrow> Inr []
     | Some r \<Rightarrow> if r = [] then Inr [] else (case sl_json libs r of
         None \<Rightarrow> Inl (ValueError ''RUNNERS must contain valid JSON'')
       | Some (PList items) \<Rightarrow>
           read_runner_items (sl_runner libs) (ValueError ''Runner definitions must be JSON objects'') items
       | Some _ \<Rightarrow> Inl (ValueError ''RUNNERS must be a JSON array of runner objects'')))"

definition env_get :: "(string, string) dict \<Rightarrow> string \<Rightarrow> string \<Rightarrow> string" where
  "env_get env k d = (case map_of env k of None \<Rightarrow> d | Some v \<Rightarrow> v)"

definition gateway_settings_from_env :: "settings_libs \<Rightarrow> (string, string) dict \<Rightarrow> gateway_settings res" where
  "gateway_settings_from_env libs env =
     res_bind (case py_int (env_get env ''VNC_TOKEN_TTL_SEC'' ''300'') of
       None \<Rightarrow> Inl (ValueError ''invalid literal for int()'') | Some i \<Rightarrow> Inr i) (\<lambda>ttl.
     res_bind (ensure (0 < ttl) (ValueError ''VNC_TOKEN_TTL_SEC must be between 1 and 300 seconds'')) (\<lambda>_.
     res_bind (ensure (ttl \<le> 300) (ValueError ''VNC_TOKEN_TTL_SEC must be between 1 and 300 seconds'')) (\<lambda>_.
     res_bind (case sl_float libs (env_get env ''DISCOVERY_POLL_INTERVAL_SEC'' ''10.0'') of
       None \<Rightarrow> Inl (ValueError ''could not convert string to float'') | Some x \<Rightarrow> Inr x) (\<lambda>interval.
     res_bind (ensure (\<not> sl_nonpositive libs interval)
       (ValueError ''DISCOVERY_POLL_INTERVAL_SEC must be a positive number'')) (\<lambda>_.
     res_bind (parse_runners libs (map_of env ''RUNNERS'')) (\<lambda>runners.
     res_bind (parse_trusted_cidrs (map_of env ''GATEWAY_TRUSTED_CIDRS'')) (\<lambda>cidrs.
     Inr \<lparr>gs_mode = env_get env ''DISCOVERY_MODE'' ''static'', gs_endpoint = map_of env ''DISCOVERY_ENDPOINT'',
       gs_interval = interval, gs_runners = runners,
       gs_jwks_url = env_get env ''JWT_JWKS_URL'' ''http://localhost/.well-known/jwks.json'', gs_ttl = ttl,
       gs_secret = env_get env ''VNC_TOKEN_SECRET'' ''dev-secret'',
       gs_trust = \<lparr>tr_cidrs = cidrs, tr_header = (case map_of env ''GATEWAY_TRUSTED_HEADER'' of None \<Rightarrow> None
         | Some h \<Rightarrow> if strip h = [] then None else Some (strip h))\<rparr>\<rparr>)))))))"

section \<open>The application\<close>

text \<open>
  The state: the registries, the event bridge, the runners the discovery knows (a set, kept as a list
  of distinct ids), the authenticator, and what the outside saw: the requests sent to runners, the
  codes WebSockets were closed with, how often the clock was read and how many event ids were drawn.
\<close>

record gateway =
  gw_sessions :: session_registry
  gw_runners :: runner_registry
  gw_workstations :: workstation_registry
  gw_bridge :: "session_event bridge"
  gw_known :: "string list"
  gw_auth :: authenticator
  gw_sent :: "http_request list"
  gw_closed :: "(nat \<times> string) list"
  gw_ticks :: nat
  gw_events :: nat

type_synonym 'a gateway_op = "(gateway, 'a) op"

datatype backend = StaticBackend "runner list" | HttpBackend url

datatype relay_outcome = Relayed | RelayFailed bool

text \<open>
  Around it: the runners and the discovery endpoint as one server, the readers of their JSON, the
  clock by reading, pydantic's URLs, the JWT encoder, and the WebSocket relay to a target, which may
  fail with the client still connected or already disconnected.
\<close>

record gateway_env =
  ge_server :: http_server
  ge_reader :: field_reader
  ge_runner_reader :: "(string, pyval) dict \<Rightarrow> runner res"
  ge_health_reader :: "pyval \<Rightarrow> health_payload res"
  ge_clock :: "nat \<Rightarrow> int"
  ge_any_url :: "string \<Rightarrow> url res"
  ge_encode :: jwt_encode
  ge_tokens :: token_service
  ge_auth :: auth_env
  ge_trust :: trust_settings
  ge_backend :: backend
  ge_relay :: "string \<Rightarrow> relay_outcome"

definition build_backend :: "gateway_settings \<Rightarrow> backend res" where
  "build_backend st = (let mode = lower (gs_mode st) in
     if mode = ''static'' then Inr (StaticBackend (gs_runners st))
     else if mode = ''http'' then (case gs_endpoint st of
         Some e \<Rightarrow> if e = [] then Inl (ValueError ''DISCOVERY_ENDPOINT must be set for http discovery'')
           else Inr (HttpBackend e)
       | None \<Rightarrow> Inl (ValueError ''DISCOVERY_ENDPOINT must be set for http discovery''))
     else Inl (ValueError (''Unsupported discovery_mode: '' @ gs_mode st)))"

definition init_gateway :: "runner list \<Rightarrow> gateway" where
  "init_gateway runners = \<lparr>gw_sessions = [], gw_runners = init_runners runners, gw_workstations = [],
     gw_bridge = init_bridge, gw_known = [], gw_auth = make_authenticator, gw_sent = [], gw_closed = [],
     gw_ticks = 0, gw_events = 0\<rparr>"

text \<open>\<open>create_app\<close>: it fails on a bad secret, lifetime or discovery mode.\<close>

definition create_app :: "gateway_settings \<Rightarrow> (gateway \<times> token_service \<times> backend) res" where
  "create_app st =
     res_bind (make_token_service (gs_secret st) (gs_ttl st) ''camou-gateway'') (\<lambda>tokens.
     res_bind (build_backend st) (\<lambda>backend.
     Inr (init_gateway (gs_runners st), tokens, backend)))"

abbreviation on_sessions :: "'a registry_op \<Rightarrow> 'a gateway_op" where
  "on_sessions \<equiv> zoom gw_sessions (\<lambda>d g. g\<lparr>gw_sessions := d\<rparr>)"

abbreviation on_runners :: "'a runner_op \<Rightarrow> 'a gateway_op" where
  "on_runners \<equiv> zoom gw_runners (\<lambda>d g. g\<lparr>gw_runners := d\<rparr>)"

abbreviation on_workstations :: "'a workstation_op \<Rightarrow> 'a gateway_op" where
  "on_workstations \<equiv> zoom gw_workstations (\<lambda>d g. g\<lparr>gw_workstations := d\<rparr>)"

abbreviation on_bridge :: "(session_event bridge, 'a) op \<Rightarrow> 'a gateway_op" where
  "on_bridge \<equiv> zoom gw_bridge (\<lambda>d g. g\<lparr>gw_bridge := d\<rparr>)"

abbreviation on_wire :: "'a http_op \<Rightarrow> 'a gateway_op" where
  "on_wire \<equiv> zoom gw_sent (\<lambda>d g. g\<lparr>gw_sent := d\<rparr>)"

definition read_clock :: "gateway_env \<Rightarrow> int gateway_op" where
  "read_clock env = bindm (gets gw_ticks) (\<lambda>n. thenm (modify (\<lambda>g. g\<lparr>gw_ticks := Suc n\<rparr>)) (ret (ge_clock env n)))"

definition draw_event_id :: "nat gateway_op" where
  "draw_event_id = bindm (gets gw_events) (\<lambda>n. thenm (modify (\<lambda>g. g\<lparr>gw_events := Suc n\<rparr>)) (ret n))"

definition not_found :: "string \<Rightarrow> 'a gateway_op \<Rightarrow> 'a gateway_op" where
  "not_found detail m = catchm m (\<lambda>e. if e = KeyError then raise (HTTPException 404 detail) else raise e)"

section \<open>Sessions as clients see them\<close>

definition enrich_session ::
  "gateway_env \<Rightarrow> session \<Rightarrow> runner option \<Rightarrow> authenticated_user \<Rightarrow> session gateway_op" where
  "enrich_session env s r user =
     bindm (lift_res (case r of
         None \<Rightarrow> Inr (s_vnc s)
       | Some r \<Rightarrow> apply_vnc_overrides (ge_any_url env) r (s_vnc s) (uuid_str (s_id s)))) (\<lambda>details.
     case details of
       None \<Rightarrow> ret s
     | Some d \<Rightarrow>
         bindm (if vd_token d = None
           then bindm (read_clock env) (\<lambda>now. lift_res
             (enrich_vnc_details (ge_encode env) (ge_tokens env) now d (uuid_str (s_id s)) (Some (au_subject user))))
           else ret d) (\<lambda>d'.
         ret (if s_vnc s = Some d' then s else s\<lparr>s_vnc := Some d'\<rparr>)))"

text \<open>The runners met so far are cached; an empty runner id has no runner.\<close>

fun enrich_each ::
  "gateway_env \<Rightarrow> authenticated_user \<Rightarrow> (string, runner option) dict \<Rightarrow> session list \<Rightarrow> session list gateway_op" where
  "enrich_each env user cache [] = ret []"
| "enrich_each env user cache (s # ss) =
     bindm (if s_runner_id s = [] then ret (None, cache)
       else (case map_of cache (s_runner_id s) of
         Some r \<Rightarrow> ret (r, cache)
       | None \<Rightarrow> bindm (on_runners (get_runner (s_runner_id s))) (\<lambda>r.
           ret (r, AList.update (s_runner_id s) r cache)))) (\<lambda>(r, cache).
     bindm (on_runners (resolve_session_ws_public (s_id s))) (\<lambda>public_ws.
     bindm (enrich_session env
       (if public_ws = None \<or> s_ws_public_endpoint s = public_ws then s else s\<lparr>s_ws_public_endpoint := public_ws\<rparr>)
       r user) (\<lambda>x.
     bindm (enrich_each env user cache ss) (\<lambda>xs. ret (x # xs)))))"

definition enrich_registry_sessions :: "gateway_env \<Rightarrow> authenticated_user \<Rightarrow> session list \<Rightarrow> session list gateway_op" where
  "enrich_registry_sessions env user ss = enrich_each env user [] ss"

definition assign_public_ws_endpoint :: "session \<Rightarrow> string option gateway_op" where
  "assign_public_ws_endpoint s = on_runners (register_session_ws_endpoint (s_id s) (s_runner_id s) (s_ws_endpoint s))"

definition with_public_ws :: "session \<Rightarrow> string option \<Rightarrow> session" where
  "with_public_ws s public_ws = (case public_ws of None \<Rightarrow> s | Some _ \<Rightarrow> s\<lparr>s_ws_public_endpoint := public_ws\<rparr>)"

definition publish_session_event :: "gateway_env \<Rightarrow> session \<Rightarrow> session_event_type \<Rightarrow> unit gateway_op" where
  "publish_session_event env s ty =
     bindm (read_clock env) (\<lambda>now.
     bindm draw_event_id (\<lambda>i.
     bindm (lift_res (validate_session_event \<lparr>ev_id = i, ev_type = ty, ev_session = s,
       ev_occurred_at = Aware now, ev_reason = None\<rparr>)) (\<lambda>e.
     on_bridge (publish_event e))))"

definition final_event :: "session \<Rightarrow> session_event_type" where
  "final_event s = (if s_status s = Some DEAD then EvENDED else EvUPDATED)"

section \<open>Commands relayed to runners\<close>

text \<open>A failed call to the runner is answered with 502 and the text of its error.\<close>

definition relayed :: "'a gateway_op \<Rightarrow> 'a gateway_op" where
  "relayed m = catchm m (\<lambda>e. case e of RunnerCommandError t \<Rightarrow> raise (HTTPException 502 t) | _ \<Rightarrow> raise e)"

definition choose_runner :: "create_command \<Rightarrow> runner gateway_op" where
  "choose_runner c = (case cc_runner_id c of
     Some rid \<Rightarrow> bindm (on_runners (get_runner rid)) (\<lambda>r. case r of
         None \<Rightarrow> raise (HTTPException 404 ''Runner not found'') | Some r \<Rightarrow> ret r)
   | None \<Rightarrow>
       bindm (on_runners (select_next (\<not> cc_headless c) True)) (\<lambda>r. case r of
         Some r \<Rightarrow> ret r
       | None \<Rightarrow> bindm (on_runners (select_next (\<not> cc_headless c) False)) (\<lambda>r. case r of
           Some r \<Rightarrow> ret r
         | None \<Rightarrow> raise (HTTPException 503 ''No healthy runners available''))))"

definition execute_create_command ::
  "gateway_env \<Rightarrow> authenticated_user \<Rightarrow> create_command \<Rightarrow> session gateway_op" where
  "execute_create_command env user c =
     bindm (choose_runner c) (\<lambda>r.
     bindm (relayed (on_wire (client_create (ge_reader env) (ge_server env) r c))) (\<lambda>s.
     bindm (assign_public_ws_endpoint s) (\<lambda>public_ws.
     bindm (on_sessions (registry_upsert (with_public_ws s public_ws))) (\<lambda>stored.
     bindm (enrich_session env stored (Some r) user) (\<lambda>x.
     thenm (publish_session_event env x EvCREATED) (ret x))))))"

text \<open>The stored session and its runner, or the refusal of the command.\<close>

definition session_and_runner :: "nat \<Rightarrow> (session \<times> runner) gateway_op" where
  "session_and_runner sid =
     bindm (not_found ''Session not found'' (on_sessions (registry_get sid))) (\<lambda>current.
     bindm (on_runners (get_runner (s_runner_id current))) (\<lambda>r. case r of
       None \<Rightarrow> raise (HTTPException 503 ''Runner unavailable'') | Some r \<Rightarrow> ret (current, r)))"

definition execute_update_command ::
  "gateway_env \<Rightarrow> authenticated_user \<Rightarrow> nat \<Rightarrow> update_command \<Rightarrow> session gateway_op" where
  "execute_update_command env user sid c =
     bindm (session_and_runner sid) (\<lambda>(_, r).
     bindm (relayed (on_wire (client_update (ge_reader env) (ge_server env) r sid c))) (\<lambda>s.
     bindm (assign_public_ws_endpoint s) (\<lambda>public_ws.
     bindm (on_sessions (registry_upsert (with_public_ws s public_ws))) (\<lambda>stored.
     bindm (enrich_session env stored (Some r) user) (\<lambda>x.
     thenm (publish_session_event env x (final_event x)) (ret x))))))"

definition execute_delete_command :: "gateway_env \<Rightarrow> authenticated_user \<Rightarrow> nat \<Rightarrow> session gateway_op" where
  "execute_delete_command env user sid =
     bindm (session_and_runner sid) (\<lambda>(_, r).
     bindm (relayed (on_wire (client_delete (ge_reader env) (ge_server env) r sid))) (\<lambda>s.
     bindm (assign_public_ws_endpoint s) (\<lambda>public_ws.
     bindm (enrich_session env (with_public_ws s public_ws) (Some r) user) (\<lambda>x.
     thenm (on_sessions (registry_delete sid))
     (thenm (on_runners (drop_session_ws_endpoint sid))
     (thenm (publish_session_event env x (final_event x)) (ret x)))))))"

section \<open>Sessions\<close>

definition list_sessions :: "gateway_env \<Rightarrow> authenticated_user \<Rightarrow> session list gateway_op" where
  "list_sessions env user = bindm (on_sessions registry_list) (enrich_registry_sessions env user)"

definition register_session :: "gateway_env \<Rightarrow> authenticated_user \<Rightarrow> session \<Rightarrow> session gateway_op" where
  "register_session env user s =
     bindm (assign_public_ws_endpoint s) (\<lambda>public_ws.
     bindm (on_runners (get_runner (s_runner_id s))) (\<lambda>r.
     bindm (enrich_session env (with_public_ws s public_ws) r user) (\<lambda>x.
     thenm (catchm (thenm (on_sessions (registry_add (with_public_ws s public_ws))) (ret ())) (\<lambda>e. case e of
         ValueError m \<Rightarrow> raise (HTTPException 409 m) | _ \<Rightarrow> raise e))
     (thenm (publish_session_event env x EvCREATED) (ret x)))))"

text \<open>\<open>enriched[0]\<close>.\<close>

definition enrich_one :: "gateway_env \<Rightarrow> authenticated_user \<Rightarrow> session \<Rightarrow> session gateway_op" where
  "enrich_one env user s = bindm (enrich_registry_sessions env user [s]) (\<lambda>xs. ret (hd xs))"

definition get_session :: "gateway_env \<Rightarrow> authenticated_user \<Rightarrow> nat \<Rightarrow> session gateway_op" where
  "get_session env user sid =
     bindm (not_found ''Session not found'' (on_sessions (registry_get sid))) (enrich_one env user)"

definition delete_session :: "gateway_env \<Rightarrow> nat \<Rightarrow> unit gateway_op" where
  "delete_session env sid =
     bindm (not_found ''Session not found''
       (bindm (on_sessions (registry_get sid)) (\<lambda>s.
        thenm (on_sessions (registry_delete sid))
        (thenm (on_runners (drop_session_ws_endpoint sid)) (ret s))))) (\<lambda>s.
     bindm (if s_status s = Some DEAD then ret s
       else bindm (read_clock env) (\<lambda>now. ret (s\<lparr>s_status := Some DEAD, s_ended_at := Some (Aware now)\<rparr>))) (\<lambda>x.
     publish_session_event env x EvENDED))"

definition update_proxy :: "gateway_env \<Rightarrow> authenticated_user \<Rightarrow> nat \<Rightarrow> proxy_settings \<Rightarrow> session gateway_op" where
  "update_proxy env user sid proxy =
     bindm (not_found ''Session not found'' (on_sessions (registry_update_proxy sid proxy))) (\<lambda>s.
     bindm (enrich_one env user s) (\<lambda>x.
     thenm (publish_session_event env x EvUPDATED) (ret x)))"

text \<open>An aware timestamp is its instant, so \<open>astimezone(UTC)\<close> changes nothing.\<close>

definition touch_session ::
  "gateway_env \<Rightarrow> authenticated_user \<Rightarrow> nat \<Rightarrow> datetime option \<Rightarrow> session gateway_op" where
  "touch_session env user sid timestamp =
     (if (case timestamp of Some t \<Rightarrow> \<not> is_aware t | None \<Rightarrow> False)
      then raise (HTTPException 400 ''Timestamp must include timezone information'')
      else
        bindm (if timestamp = None then read_clock env else ret 0) (\<lambda>now.
        bindm (not_found ''Session not found'' (on_sessions (registry_touch (Aware now) sid timestamp))) (\<lambda>s.
        bindm (enrich_one env user s) (\<lambda>x.
        thenm (publish_session_event env x EvUPDATED) (ret x)))))"

text \<open>The relay of a client's WebSocket to the runner: the code and reason it is closed with, if any.\<close>

definition close_client :: "nat \<Rightarrow> string \<Rightarrow> unit gateway_op" where
  "close_client code reason = modify (\<lambda>g. g\<lparr>gw_closed := gw_closed g @ [(code, reason)]\<rparr>)"

abbreviation on_upgrade :: "(ws_connection, 'a) op \<Rightarrow> 'a gateway_op" where
  "on_upgrade \<equiv> zoom (\<lambda>g. \<lparr>wc_auth = gw_auth g, wc_closed = gw_closed g\<rparr>)
     (\<lambda>w g. g\<lparr>gw_auth := wc_auth w, gw_closed := wc_closed w\<rparr>)"

definition proxy_session_websocket :: "gateway_env \<Rightarrow> caller \<Rightarrow> nat \<Rightarrow> string option gateway_op" where
  "proxy_session_websocket env c sid =
     bindm (read_clock env) (\<lambda>now.
     bindm (attempt (on_upgrade (authenticate_websocket (ge_auth env) (ge_trust env) now c))) (\<lambda>user. case user of
       Inl e \<Rightarrow> (case e of AuthenticationError _ \<Rightarrow> ret None | _ \<Rightarrow> raise e)
     | Inr _ \<Rightarrow>
         bindm (attempt (on_sessions (registry_get sid))) (\<lambda>found. case found of
           Inl _ \<Rightarrow> thenm (close_client 1008 ''Session not found'') (ret None)
         | Inr _ \<Rightarrow>
             bindm (on_runners (resolve_session_ws_target sid)) (\<lambda>target. case target of
               None \<Rightarrow> thenm (close_client 1011 ''Session is missing an upstream endpoint'') (ret None)
             | Some t \<Rightarrow> (case ge_relay env t of
                   Relayed \<Rightarrow> ret (Some t)
                 | RelayFailed disconnected \<Rightarrow>
                     thenm (whenm (\<not> disconnected) (close_client 1011 ''WebSocket relay failure'')) (ret (Some t)))))))"

text \<open>The event routes: a published event goes out as it came; a stream replays the latest event.\<close>

definition post_event :: "session_event \<Rightarrow> unit gateway_op" where
  "post_event e = on_bridge (publish_event e)"

definition open_stream :: "nat gateway_op" where
  "open_stream = on_bridge (subscribe True)"

definition get_workstation :: "string \<Rightarrow> workstation_record gateway_op" where
  "get_workstation wid = not_found ''Workstation not found'' (on_workstations (workstation_get wid))"

text \<open>Every HTTP route first settles who its caller is; the clock is read for the token's expiry.\<close>

definition routed :: "gateway_env \<Rightarrow> caller \<Rightarrow> (authenticated_user \<Rightarrow> 'a gateway_op) \<Rightarrow> 'a gateway_op" where
  "routed env c handler =
     bindm (read_clock env) (\<lambda>now.
     bindm (zoom gw_auth (\<lambda>a g. g\<lparr>gw_auth := a\<rparr>) (get_current_user (ge_auth env) (ge_trust env) now c)) handler)"

section \<open>Discovery\<close>

definition discover :: "gateway_env \<Rightarrow> runner list gateway_op" where
  "discover env = (case ge_backend env of
     StaticBackend runners \<Rightarrow> ret runners
   | HttpBackend endpoint \<Rightarrow>
       bindm (on_wire (send (ge_server env) \<lparr>rq_base = endpoint, rq_method = ''GET'', rq_path = [], rq_json = None\<rparr>))
         (\<lambda>answer. case answer of
           NoAnswer m \<Rightarrow> raise (OtherError m)
         | Answer code body \<Rightarrow>
             if \<not> is_success code then raise (OtherError ''HTTPStatusError'')
             else (case body of
               None \<Rightarrow> raise (ValueError ''JSONDecodeError'')
             | Some (PList items) \<Rightarrow> lift_res (read_runner_items (ge_runner_reader env)
                 (ValueError ''Runner discovery payload must contain objects'') items)
             | Some _ \<Rightarrow> raise (ValueError ''Runner discovery endpoint must return a JSON array''))))"

record sync_result =
  sy_added :: "string list"
  sy_updated :: "string list"
  sy_removed :: "string list"

definition sessions_for_runners :: "string list \<Rightarrow> session list gateway_op" where
  "sessions_for_runners rids =
     bindm (on_sessions registry_list) (\<lambda>ss. ret (filter (\<lambda>s. s_runner_id s \<in> set rids) ss))"

definition handle_removed_runners :: "string list \<Rightarrow> unit gateway_op" where
  "handle_removed_runners removed =
     bindm (sessions_for_runners removed) (\<lambda>ss.
     thenm (for_each ss (\<lambda>s. on_runners (drop_session_ws_endpoint (s_id s))))
     (for_each removed (\<lambda>rid. thenm (on_runners (remove_runner rid)) (ret ()))))"

definition refresh :: "gateway_env \<Rightarrow> sync_result gateway_op" where
  "refresh env =
     bindm (discover env) (\<lambda>runners.
     bindm (gets gw_known) (\<lambda>known.
     thenm (for_each runners (\<lambda>r. thenm (on_runners (upsert_runner r)) (ret ())))
     (let observed = remdups (map r_id runners);
          removed = filter (\<lambda>rid. rid \<notin> set observed) known
      in thenm (modify (\<lambda>g. g\<lparr>gw_known := observed\<rparr>))
         (thenm (whenm (removed \<noteq> []) (handle_removed_runners removed))
         (ret \<lparr>sy_added = filter (\<lambda>rid. rid \<notin> set known) observed,
            sy_updated = filter (\<lambda>rid. rid \<in> set known) observed, sy_removed = removed\<rparr>)))))"

text \<open>\<open>for session in sessions: ...\<close>, collecting the ids it removed.\<close>

fun purge_each :: "string list \<Rightarrow> session list \<Rightarrow> nat list gateway_op" where
  "purge_each removed [] = ret []"
| "purge_each removed (s # ss) =
     (if s_runner_id s \<in> set removed then
        bindm (catchm (thenm (on_sessions (registry_delete (s_id s))) (ret [s_id s]))
          (\<lambda>e. if e = KeyError then ret [] else raise e)) (\<lambda>gone.
        thenm (catchm (on_runners (drop_session_ws_endpoint (s_id s))) (\<lambda>e. if e = KeyError then ret () else raise e))
        (bindm (purge_each removed ss) (\<lambda>rest. ret (gone @ rest))))
      else purge_each removed ss)"

definition purge_sessions_for_missing_runners :: "string list \<Rightarrow> nat list gateway_op" where
  "purge_sessions_for_missing_runners removed =
     (if removed = [] then ret []
      else bindm (on_sessions registry_list) (\<lambda>ss. purge_each removed ss))"

definition probe_runner :: "gateway_env \<Rightarrow> runner \<Rightarrow> unit gateway_op" where
  "probe_runner env r =
     bindm (read_clock env) (\<lambda>now.
     bindm (on_wire (send (ge_server env) \<lparr>rq_base = r_base_url r, rq_method = ''GET'', rq_path = ''/health'', rq_json = None\<rparr>))
       (\<lambda>answer.
     thenm (on_runners (probe r (Aware now) (case answer of
         NoAnswer _ \<Rightarrow> None
       | Answer code body \<Rightarrow> if \<not> is_success code then None
           else Some (case body of None \<Rightarrow> Inl (ValueError ''JSONDecodeError'') | Some v \<Rightarrow> ge_health_reader env v))))
     (ret ())))"

section \<open>Maintenance\<close>

definition maintenance_body :: "gateway_env \<Rightarrow> unit gateway_op" where
  "maintenance_body env =
     bindm (refresh env) (\<lambda>result.
     bindm (on_runners list_runners) (\<lambda>runners.
     thenm (for_each runners (probe_runner env))
     (thenm (purge_sessions_for_missing_runners (sy_removed result)) (ret ()))))"

text \<open>One round of the loop: a failure is logged and the next round comes after the pause.\<close>

definition maintenance_iteration :: "gateway_env \<Rightarrow> unit gateway_op" where
  "maintenance_iteration env = suppress (maintenance_body env)"

definition restore_session :: "runner \<Rightarrow> session \<Rightarrow> unit gateway_op" where
  "restore_session r s =
     (if s_runner_id s \<noteq> [] \<and> s_runner_id s \<noteq> r_id r then ret ()
      else thenm (on_sessions (registry_upsert s))
        (thenm (on_runners (register_session_ws_endpoint (s_id s) (r_id r) (s_ws_endpoint s))) (ret ())))"

definition restore_runner :: "gateway_env \<Rightarrow> runner \<Rightarrow> unit gateway_op" where
  "restore_runner env r =
     (if \<not> r_healthy r then ret ()
      else bindm (attempt (on_wire (client_list (ge_reader env) (ge_server env) r))) (\<lambda>listed. case listed of
          Inl e \<Rightarrow> (case e of RunnerCommandError _ \<Rightarrow> ret () | _ \<Rightarrow> raise e)
        | Inr ss \<Rightarrow> for_each ss (restore_session r)))"

definition restore_runner_sessions :: "gateway_env \<Rightarrow> runner list \<Rightarrow> unit gateway_op" where
  "restore_runner_sessions env runners = for_each runners (restore_runner env)"

text \<open>The start of the lifespan, before the maintenance loop.\<close>

definition startup :: "gateway_env \<Rightarrow> unit gateway_op" where
  "startup env =
     bindm (refresh env) (\<lambda>initial.
     thenm (purge_sessions_for_missing_runners (sy_removed initial))
     (bindm (on_runners list_runners) (\<lambda>runners. restore_runner_sessions env runners)))"

end
