(* ===== verification/Gateway_Control_Props.thy ===== *)
theory Gateway_Control_Props
  imports Gateway_Control
begin

text \<open>
  The gateway's invariant over every route and maintenance round, what a round of maintenance leaves
  behind, and what the commands do on each outcome.
\<close>

declare map_of_eq_Some_iff [simp del] Some_eq_map_of_iff [simp del]

section \<open>The invariant\<close>

text \<open>The registries keep their invariants, and every runner the discovery knows is registered.\<close>

definition gateway_ok :: "gateway \<Rightarrow> bool" where
  "gateway_ok g = (registry_ok (gw_sessions g) \<and> runners_ok (gw_runners g) \<and> distinct (gw_known g) \<and>
     set (gw_known g) \<subseteq> keys (rr_runners (gw_runners g)))"

text \<open>An operation of the runner registry that keeps its invariant and forgets no runner.\<close>

definition growing :: "'a runner_op \<Rightarrow> bool" where
  "growing m = (\<forall>s. runners_ok s \<longrightarrow> runners_ok (snd (m s)) \<and>
     keys (rr_runners s) \<subseteq> keys (rr_runners (snd (m s))))"

lemma growingI:
  "(\<And>s. runners_ok s \<Longrightarrow> runners_ok (snd (m s))) \<Longrightarrow>
    (\<And>s. keys (rr_runners s) \<subseteq> keys (rr_runners (snd (m s)))) \<Longrightarrow> growing m"
  by (simp add: growing_def)

lemma keeps_on_runners [keep_rules]: "growing m \<Longrightarrow> keeps gateway_ok (on_runners m)"
  by (rule keepsI) (fastforce simp: gateway_ok_def growing_def zoom_def)

lemma keeps_on_sessions [keep_rules]: "keeps registry_ok m \<Longrightarrow> keeps gateway_ok (on_sessions m)"
  by (rule keepsI) (simp add: gateway_ok_def zoom_def keepsD)

lemma keeps_elsewhere [keep_rules]:
  "keeps gateway_ok (on_workstations m1)" "keeps gateway_ok (on_bridge m2)" "keeps gateway_ok (on_wire m3)"
  "keeps gateway_ok (on_upgrade m4)" "keeps gateway_ok (zoom gw_auth (\<lambda>a g. g\<lparr>gw_auth := a\<rparr>) m5)"
  "keeps gateway_ok (read_clock env)" "keeps gateway_ok draw_event_id" "keeps gateway_ok (close_client code reason)"
  by (rule keepsI; simp add: gateway_ok_def zoom_def read_clock_def draw_event_id_def close_client_def op_run)+

lemma growing_ops [keep_rules]:
  "growing (upsert_runner r)" "growing (get_runner rid)" "growing list_runners"
  "growing (register_session_ws_endpoint sid rid target)" "growing (resolve_session_ws_target sid)"
  "growing (resolve_session_ws_public sid)" "growing (drop_session_ws_endpoint sid)"
  "growing (select_next vnc healthy)" "growing (probe r now response)"
proof -
  show "growing (upsert_runner r)" by (rule growingI) (simp_all add: upsert_runner_ok, auto simp: upsert_runner_run)
  show "growing (get_runner rid)" "growing (resolve_session_ws_target sid)" "growing (resolve_session_ws_public sid)"
    by (simp_all add: growing_def get_runner_def resolve_session_ws_target_def resolve_session_ws_public_def op_run)
  show "growing list_runners" by (auto simp: growing_def list_runners_def op_run lift_res_def bindm_def)
  show "growing (register_session_ws_endpoint sid rid target)"
    by (rule growingI) (simp add: register_ok, auto simp: register_run split: sum.split)
  show "growing (drop_session_ws_endpoint sid)"
    by (auto simp: growing_def drop_session_ws_endpoint_def runners_ok_def op_run)
  show "growing (select_next vnc healthy)"
    by (rule growingI) (simp add: select_next_ok,
      auto simp: select_next_def bindm_def gets_def lift_res_def ret_def modify_def thenm_def split: sum.split option.split)
  have health: "keys (rr_runners s) \<subseteq> keys (rr_runners (snd (record_health rid h s)))" for rid h s
    by (auto simp: record_health_run split: option.split)
  then show "growing (probe r now response)"
    by (intro growingI) (simp add: probe_ok, auto simp: probe_def op_run bindm_def thenm_def lift_res_def
        case_prod_beta split: option.split sum.split)
qed

lemma keeps_registry_ops [keep_rules]:
  "keeps registry_ok (registry_add s)" "keeps registry_ok (registry_upsert s)" "keeps registry_ok (registry_delete sid)"
  "keeps registry_ok (registry_update_proxy sid proxy)" "keeps registry_ok (registry_touch now sid timestamp)"
  "keeps registry_ok registry_list" "keeps registry_ok (registry_get sid)"
  by (simp_all add: keeps_wpI registry_ops_ok) (simp_all add: registry_list_def registry_get_def keep_rules)

lemma keeps_not_found [keep_rules]: "keeps I m \<Longrightarrow> keeps I (not_found detail m)"
  unfolding not_found_def by (intro keep_rules)

lemma keeps_relayed [keep_rules]: "keeps I m \<Longrightarrow> keeps I (relayed m)"
proof -
  have "keeps I (case e of RunnerCommandError t \<Rightarrow> raise (HTTPException 502 t) | _ \<Rightarrow> raise e)" for e
    by (cases e) (simp_all add: keeps_pure)
  then show "keeps I m \<Longrightarrow> keeps I (relayed m)" unfolding relayed_def by (intro keep_rules)
qed

lemma keeps_enrich_session [keep_rules]: "keeps gateway_ok (enrich_session env s r user)"
  unfolding enrich_session_def by (intro keep_rules)

lemma keeps_enrich_each [keep_rules]: "keeps gateway_ok (enrich_each env user cache ss)"
  by (induction env user cache ss rule: enrich_each.induct) (auto intro!: keep_rules)

lemma keeps_publish_session_event [keep_rules]: "keeps gateway_ok (publish_session_event env s ty)"
  unfolding publish_session_event_def by (intro keep_rules)

lemma keeps_exn_cases:
  "(\<And>m. keeps I (f m)) \<Longrightarrow> keeps I g \<Longrightarrow> keeps I (case e of AuthenticationError m \<Rightarrow> f m | _ \<Rightarrow> g)"
  "(\<And>m. keeps I (f m)) \<Longrightarrow> keeps I g \<Longrightarrow> keeps I (case e of ValueError m \<Rightarrow> f m | _ \<Rightarrow> g)"
  "(\<And>m. keeps I (f m)) \<Longrightarrow> keeps I g \<Longrightarrow> keeps I (case e of RunnerCommandError m \<Rightarrow> f m | _ \<Rightarrow> g)"
  by (cases e; simp)+

lemma keeps_handlers [keep_rules]:
  "keeps gateway_ok (execute_create_command env user c)"
  "keeps gateway_ok (execute_update_command env user sid uc)"
  "keeps gateway_ok (execute_delete_command env user sid)"
  "keeps gateway_ok (list_sessions env user)" "keeps gateway_ok (register_session env user s)"
  "keeps gateway_ok (get_session env user sid)" "keeps gateway_ok (delete_session env sid)"
  "keeps gateway_ok (update_proxy env user sid proxy)" "keeps gateway_ok (touch_session env user sid timestamp)"
  "keeps gateway_ok (proxy_session_websocket env caller sid)"
  unfolding execute_create_command_def execute_update_command_def execute_delete_command_def list_sessions_def
    register_session_def get_session_def delete_session_def update_proxy_def touch_session_def
    proxy_session_websocket_def choose_runner_def session_and_runner_def assign_public_ws_endpoint_def
    enrich_one_def enrich_registry_sessions_def
  by (auto intro!: keep_rules keeps_exn_cases split: relay_outcome.split)

section \<open>Operations lifted through the registries\<close>

lemma wp_for_each_zoom:
  assumes "\<And>s. p (g s) s = s" "\<And>t s. g (p t s) = t" "\<And>t u s. p u (p t s) = p u s"
  shows "wp (for_each xs (\<lambda>x. zoom g p (f x))) Q E s =
    wp (for_each xs f) (\<lambda>u t. Q u (p t s)) (\<lambda>e t. E e (p t s)) (g s)"
proof (induction xs arbitrary: s)
  case (Cons x xs)
  then show ?case by (simp add: wp_thenm wp_zoom assms)
qed (simp add: wp_ops assms)

lemma zoom_then_ret: "thenm (zoom g p m) (ret u) = zoom g p (thenm m (ret u))"
  by (rule ext) (simp add: zoom_def thenm_def bindm_def ret_def split: prod.split sum.split)

lemma wp_for_each_runners:
  "wp (for_each xs (\<lambda>x. on_runners (f x))) Q E g =
    wp (for_each xs f) (\<lambda>u t. Q u (g\<lparr>gw_runners := t\<rparr>)) (\<lambda>e t. E e (g\<lparr>gw_runners := t\<rparr>)) (gw_runners g)"
  by (rule wp_for_each_zoom) simp_all

lemma wp_upsert_runner: "wp (upsert_runner r) Q E s = Q r (snd (upsert_runner r s))"
  by (simp add: wp_def upsert_runner_run)

lemma wp_drop_endpoint:
  "wp (drop_session_ws_endpoint sid) Q E t = Q () (t\<lparr>rr_ws_bindings := AList.delete sid (rr_ws_bindings t)\<rparr>)"
  by (simp only: drop_session_ws_endpoint_def wp_ops)

section \<open>Registering and forgetting runners\<close>

lemma upserts_wp:
  "runners_ok s \<Longrightarrow> wp (for_each rs (\<lambda>r. thenm (upsert_runner r) (ret ())))
    (\<lambda>_ t. runners_ok t \<and> keys (rr_runners t) = keys (rr_runners s) \<union> r_id ` set rs \<and>
       rr_ws_bindings t = rr_ws_bindings s) (\<lambda>_ _. False) s"
proof (induction rs arbitrary: s)
  case Nil
  then show ?case by (simp add: wp_ops)
next
  case (Cons r rs)
  let ?t = "snd (upsert_runner r s)"
  have t: "runners_ok ?t" "keys (rr_runners ?t) = insert (r_id r) (keys (rr_runners s))"
    "rr_ws_bindings ?t = rr_ws_bindings s"
    using upsert_runner_ok [OF Cons.prems, of r] by (simp_all add: upsert_runner_run)
  have "wp (for_each rs (\<lambda>r. thenm (upsert_runner r) (ret ())))
    (\<lambda>_ u. runners_ok u \<and> keys (rr_runners u) = keys (rr_runners s) \<union> r_id ` set (r # rs) \<and>
       rr_ws_bindings u = rr_ws_bindings s) (\<lambda>_ _. False) ?t"
    by (rule wp_mono [OF Cons.IH [OF t(1)]]) (auto simp: t(2,3))
  then show ?case by (simp only: for_each.simps wp_thenm wp_ops wp_upsert_runner)
qed

text \<open>Which bindings survive when the runners \<open>rids\<close> go.\<close>

definition bindings_without :: "string set \<Rightarrow> (nat \<Rightarrow> ws_binding option) \<Rightarrow> nat \<Rightarrow> ws_binding option" where
  "bindings_without rids m sid = (case m sid of None \<Rightarrow> None
     | Some b \<Rightarrow> if wb_runner_id b \<in> rids then None else Some b)"

lemma removes_wp:
  "runners_ok s \<Longrightarrow> distinct rids \<Longrightarrow> set rids \<subseteq> keys (rr_runners s) \<Longrightarrow>
    wp (for_each rids (\<lambda>rid. thenm (remove_runner rid) (ret ())))
      (\<lambda>_ t. runners_ok t \<and> keys (rr_runners t) = keys (rr_runners s) - set rids \<and>
         map_of (rr_ws_bindings t) = bindings_without (set rids) (map_of (rr_ws_bindings s))) (\<lambda>_ _. False) s"
proof (induction rids arbitrary: s)
  case Nil
  have "bindings_without {} m = m" for m by (rule ext) (simp add: bindings_without_def split: option.split)
  with Nil show ?case by (simp add: wp_ops)
next
  case (Cons rid rids)
  have "rid \<in> keys (rr_runners s)" using Cons.prems(3) by simp
  then obtain r where r: "map_of (rr_runners s) rid = Some r" unfolding keys_map_of ..
  obtain t where run: "remove_runner rid s = (Inr (Some r), t)" using r by (simp add: remove_runner_run)
  have ok: "dict_ok (rr_ws_bindings s)" "distinct (rr_order s)" using Cons.prems(1) by (simp_all add: runners_ok_def)
  note forgets = remove_runner_forgets [OF r ok run]
  have t: "runners_ok t" using remove_runner_ok [OF Cons.prems(1), of rid] run by simp
  have ks: "keys (rr_runners t) = keys (rr_runners s) - {rid}"
    using forgets(2) by (simp add: dom_map_of_conv_image_fst [symmetric])
  have b: "bindings_without (set rids) (map_of (rr_ws_bindings t)) =
      bindings_without (set (rid # rids)) (map_of (rr_ws_bindings s))"
    by (rule ext) (auto simp: bindings_without_def forgets(4) split: option.split)
  have "wp (for_each rids (\<lambda>rid. thenm (remove_runner rid) (ret ())))
      (\<lambda>_ u. runners_ok u \<and> keys (rr_runners u) = keys (rr_runners s) - set (rid # rids) \<and>
         map_of (rr_ws_bindings u) = bindings_without (set (rid # rids)) (map_of (rr_ws_bindings s))) (\<lambda>_ _. False) t"
    using Cons.prems(2,3) ks
    by (intro wp_mono [OF Cons.IH [OF t]]) (auto simp: b)
  moreover have "wp (remove_runner rid) Q E s = Q (Some r) t" for Q E by (simp add: wp_def run)
  ultimately show ?case by (simp only: for_each.simps wp_thenm wp_ops)
qed

lemma drops_wp:
  "wp (for_each ss (\<lambda>s. drop_session_ws_endpoint (s_id s)))
    (\<lambda>_ u. u = t\<lparr>rr_ws_bindings := fold AList.delete (map s_id ss) (rr_ws_bindings t)\<rparr>) (\<lambda>_ _. False) t"
proof (induction ss arbitrary: t)
  case (Cons s ss)
  show ?case
    using Cons.IH [of "t\<lparr>rr_ws_bindings := AList.delete (s_id s) (rr_ws_bindings t)\<rparr>"]
    by (simp add: wp_thenm wp_drop_endpoint)
qed (simp add: wp_ops)

section \<open>Discovery\<close>

text \<open>The bindings that survive a discovery which lost the runners \<open>rids\<close>.\<close>

definition surviving_bindings :: "string set \<Rightarrow> gateway \<Rightarrow> nat \<Rightarrow> ws_binding option" where
  "surviving_bindings rids g sid =
     (if \<exists>s. map_of (gw_sessions g) sid = Some s \<and> s_runner_id s \<in> rids then None
      else bindings_without rids (map_of (rr_ws_bindings (gw_runners g))) sid)"

lemma sessions_of_runners:
  assumes "registry_ok d"
  shows "s_id ` {s \<in> snd ` set d. s_runner_id s \<in> rids} = {sid. \<exists>s. map_of d sid = Some s \<and> s_runner_id s \<in> rids}"
proof -
  have d: "dict_ok d" "\<And>i s. map_of d i = Some s \<Longrightarrow> s_id s = i" using assms by (auto simp: registry_ok_def)
  show ?thesis
    unfolding dict_values [OF d(1)] using d(2) by (auto simp: ran_def image_iff)
qed

lemma handle_removed_wp:
  assumes "registry_ok (gw_sessions g)" and "runners_ok (gw_runners g)" and "distinct rids"
    and "set rids \<subseteq> keys (rr_runners (gw_runners g))"
  shows "wp (handle_removed_runners rids)
    (\<lambda>_ h. \<exists>t. h = g\<lparr>gw_runners := t\<rparr> \<and> runners_ok t \<and> keys (rr_runners t) = keys (rr_runners (gw_runners g)) - set rids \<and>
       map_of (rr_ws_bindings t) = surviving_bindings (set rids) g) (\<lambda>_ _. False) g"
proof -
  let ?ss = "filter (\<lambda>s. s_runner_id s \<in> set rids) (map snd (gw_sessions g))"
  let ?s = "gw_runners g"
  let ?t = "?s\<lparr>rr_ws_bindings := fold AList.delete (map s_id ?ss) (rr_ws_bindings ?s)\<rparr>"
  have t: "runners_ok ?t" using assms(2) by (simp add: runners_ok_def dict_ok_fold_delete)
  have ids: "set (map s_id ?ss) = {sid. \<exists>s. map_of (gw_sessions g) sid = Some s \<and> s_runner_id s \<in> set rids}"
    using sessions_of_runners [OF assms(1), of "set rids"] by auto
  have b: "bindings_without (set rids) (map_of (rr_ws_bindings ?t)) = surviving_bindings (set rids) g"
  proof
    fix sid
    show "bindings_without (set rids) (map_of (rr_ws_bindings ?t)) sid = surviving_bindings (set rids) g sid"
      unfolding bindings_without_def surviving_bindings_def
      by (auto simp: map_of_fold_delete ids simp del: set_map split: option.split)
  qed
  have "wp (for_each rids (\<lambda>rid. thenm (remove_runner rid) (ret ())))
      (\<lambda>_ u. runners_ok u \<and> keys (rr_runners u) = keys (rr_runners ?s) - set rids \<and>
         map_of (rr_ws_bindings u) = surviving_bindings (set rids) g) (\<lambda>_ _. False) ?t"
    using assms(3,4) by (intro wp_mono [OF removes_wp [OF t]]) (auto simp: b [symmetric])
  then show ?thesis
    unfolding handle_removed_runners_def sessions_for_runners_def registry_list_def
    by (simp add: wp_bindm wp_ops wp_zoom wp_thenm zoom_then_ret wp_for_each_runners)
      (rule wp_mono [OF drops_wp], auto elim!: wp_mono)
qed

definition lost :: "runner list \<Rightarrow> gateway \<Rightarrow> string list" where
  "lost runners g = filter (\<lambda>rid. rid \<notin> r_id ` set runners) (gw_known g)"

lemma discover_frame: "\<exists>r l. discover env g = (r, g\<lparr>gw_sent := l\<rparr>)"
proof (cases "ge_backend env")
  case (StaticBackend runners)
  then show ?thesis by (auto simp: discover_def op_run intro: exI [where x = "gw_sent g"])
next
  case (HttpBackend endpoint)
  let ?rq = "\<lparr>rq_base = endpoint, rq_method = ''GET'', rq_path = [], rq_json = None\<rparr>"
  have "wp (discover env) (\<lambda>_ h. \<exists>l. h = g\<lparr>gw_sent := l\<rparr>) (\<lambda>_ h. \<exists>l. h = g\<lparr>gw_sent := l\<rparr>) g"
    using HttpBackend
    by (auto simp: discover_def wp_bindm wp_zoom wp_send wp_ops wp_if wp_option
        split: http_answer.split option.split pyval.split sum.split)
  then show ?thesis by (cases "discover env g"; cases "fst (discover env g)") (auto simp: wp_def)
qed

lemma refresh_wp:
  assumes "gateway_ok g"
  shows "wp (refresh env)
    (\<lambda>r h. \<exists>runners l u. discover env g = (Inr runners, g\<lparr>gw_sent := l\<rparr>) \<and> sy_removed r = lost runners g \<and>
       h = g\<lparr>gw_sent := l, gw_known := remdups (map r_id runners), gw_runners := u\<rparr> \<and> runners_ok u \<and>
       keys (rr_runners u) = keys (rr_runners (gw_runners g)) \<union> r_id ` set runners - set (lost runners g) \<and>
       map_of (rr_ws_bindings u) = surviving_bindings (set (lost runners g)) g)
    (\<lambda>_ h. \<exists>l. h = g\<lparr>gw_sent := l\<rparr>) g"
proof -
  obtain r l where run: "discover env g = (r, g\<lparr>gw_sent := l\<rparr>)" using discover_frame by blast
  have ok: "registry_ok (gw_sessions g)" "runners_ok (gw_runners g)" "distinct (gw_known g)"
    "set (gw_known g) \<subseteq> keys (rr_runners (gw_runners g))" using assms by (simp_all add: gateway_ok_def)
  show ?thesis
  proof (cases r)
    case (Inl e)
    then show ?thesis using run by (simp add: refresh_def wp_bindm) (auto simp: wp_def)
  next
    case (Inr runners)
    let ?lost = "lost runners g"
    have removed: "filter (\<lambda>rid. rid \<notin> set (remdups (map r_id runners))) (gw_known g) = ?lost"
      by (simp add: lost_def)
    let ?post = "\<lambda>_ h. \<exists>u. h = g\<lparr>gw_sent := l, gw_known := remdups (map r_id runners), gw_runners := u\<rparr> \<and> runners_ok u \<and>
       keys (rr_runners u) = keys (rr_runners (gw_runners g)) \<union> r_id ` set runners - set ?lost \<and>
       map_of (rr_ws_bindings u) = surviving_bindings (set ?lost) g"
    have forget: "wp (whenm (?lost \<noteq> []) (handle_removed_runners ?lost)) ?post (\<lambda>_ _. False)
        (g\<lparr>gw_sent := l, gw_known := remdups (map r_id runners), gw_runners := t\<rparr>)"
      if t: "runners_ok t" "keys (rr_runners t) = keys (rr_runners (gw_runners g)) \<union> r_id ` set runners"
        "rr_ws_bindings t = rr_ws_bindings (gw_runners g)" for t
    proof (cases "?lost = []")
      case True
      have "bindings_without {} m = m" for m by (rule ext) (simp add: bindings_without_def split: option.split)
      then have "map_of (rr_ws_bindings t) = surviving_bindings {} g"
        by (intro ext) (simp add: surviving_bindings_def t(3))
      with True t show ?thesis by (auto simp: wp_whenm)
    next
      case False
      let ?h = "g\<lparr>gw_sent := l, gw_known := remdups (map r_id runners), gw_runners := t\<rparr>"
      have sub: "distinct ?lost" "set ?lost \<subseteq> keys (rr_runners (gw_runners ?h))"
        using ok t(2) by (auto simp: lost_def)
      have "surviving_bindings (set ?lost) ?h = surviving_bindings (set ?lost) g"
        by (rule ext) (auto simp: surviving_bindings_def t(3))
      moreover have "registry_ok (gw_sessions ?h)" "runners_ok (gw_runners ?h)" using ok(1) t(1) by simp_all
      ultimately show ?thesis
        using False t by (simp add: wp_whenm) (rule wp_mono [OF handle_removed_wp [OF _ _ sub]], auto)
    qed
    have "wp (for_each runners (\<lambda>r. thenm (on_runners (upsert_runner r)) (ret ())))
        (\<lambda>_. wp (modify (\<lambda>g. g\<lparr>gw_known := remdups (map r_id runners)\<rparr>))
          (\<lambda>_. wp (whenm (?lost \<noteq> []) (handle_removed_runners ?lost)) ?post (\<lambda>_ _. False)) (\<lambda>_ _. False))
        (\<lambda>_ _. False) (g\<lparr>gw_sent := l\<rparr>)"
    proof -
      have swap: "g\<lparr>gw_sent := l\<rparr>\<lparr>gw_runners := t\<rparr>\<lparr>gw_known := remdups (map r_id runners)\<rparr> =
          g\<lparr>gw_sent := l, gw_known := remdups (map r_id runners), gw_runners := t\<rparr>" for t by simp
      show ?thesis
        unfolding zoom_then_ret wp_for_each_runners wp_ops swap
        by (intro wp_mono [OF upserts_wp]) (use ok(2) in \<open>auto intro!: forget\<close>)
    qed
    then have tail: "wp (thenm (for_each runners (\<lambda>r. thenm (on_runners (upsert_runner r)) (ret ())))
        (thenm (modify (\<lambda>g. g\<lparr>gw_known := remdups (map r_id runners)\<rparr>))
          (thenm (whenm (?lost \<noteq> []) (handle_removed_runners ?lost)) (ret x))))
        (\<lambda>y h. y = x \<and> ?post () h) (\<lambda>_ _. False) (g\<lparr>gw_sent := l\<rparr>)" for x
      unfolding wp_thenm wp_ops by (auto elim!: wp_mono)
    have disc: "wp (discover env) Q E g = Q runners (g\<lparr>gw_sent := l\<rparr>)" for Q E by (simp add: wp_def run Inr)
    have known: "gw_known (g\<lparr>gw_sent := l\<rparr>) = gw_known g" by simp
    show ?thesis
      unfolding refresh_def wp_bindm disc wp_ops known Let_def removed
      by (rule wp_mono [OF tail]) (use run Inr in auto)
  qed
qed

section \<open>Probing and purging\<close>

text \<open>A probe changes health records only.\<close>

definition probed :: "gateway \<Rightarrow> gateway \<Rightarrow> bool" where
  "probed g h = (gw_sessions h = gw_sessions g \<and> gw_known h = gw_known g \<and>
     (runners_ok (gw_runners g) \<longrightarrow> runners_ok (gw_runners h)) \<and>
     keys (rr_runners (gw_runners h)) = keys (rr_runners (gw_runners g)) \<and>
     rr_ws_bindings (gw_runners h) = rr_ws_bindings (gw_runners g))"

lemma probed_refl: "probed g g"
  by (simp add: probed_def)

lemma probed_trans: "probed g h \<Longrightarrow> probed h k \<Longrightarrow> probed g k"
  by (simp add: probed_def)

lemma probe_wp:
  "wp (probe r now response) (\<lambda>_ u. (runners_ok s \<longrightarrow> runners_ok u) \<and> keys (rr_runners u) = keys (rr_runners s) \<and>
      rr_ws_bindings u = rr_ws_bindings s) (\<lambda>_ u. u = s) s"
proof -
  have health: "wp (record_health rid h) (\<lambda>_ u. (runners_ok s \<longrightarrow> runners_ok u) \<and> keys (rr_runners u) = keys (rr_runners s) \<and>
      rr_ws_bindings u = rr_ws_bindings s) (\<lambda>_ u. u = s) s" for rid h
    using record_health_ok [of s rid h]
    by (auto simp: wp_def record_health_run insert_absorb map_of_Some_keys split: option.splits)
  show ?thesis
    unfolding probe_def
    by (auto simp: wp_simps intro: wp_mono [OF health] split: option.split sum.split)
qed

lemma probe_runner_wp: "wp (probe_runner env r) (\<lambda>_ h. probed g h) (\<lambda>_ h. probed g h) g"
  unfolding probe_runner_def read_clock_def
  by (simp add: wp_bindm wp_thenm wp_ops wp_zoom wp_send)
    (rule wp_mono [OF probe_wp], simp_all add: probed_def)

lemma probes_wp: "probed g h \<Longrightarrow> wp (for_each rs (probe_runner env)) (\<lambda>_. probed g) (\<lambda>_. probed g) h"
proof (induction rs arbitrary: h)
  case (Cons r rs)
  show ?case
    unfolding for_each.simps wp_thenm
    by (rule wp_mono [OF probe_runner_wp [of env r h]]) (auto intro: probed_trans [OF Cons.prems] Cons.IH)
qed (simp add: wp_ops)

abbreviation doomed :: "string list \<Rightarrow> session list \<Rightarrow> nat list" where
  "doomed removed ss \<equiv> map s_id (filter (\<lambda>s. s_runner_id s \<in> set removed) ss)"

lemma purge_each_wp:
  "wp (purge_each removed ss)
    (\<lambda>_ h. h = g\<lparr>gw_sessions := fold AList.delete (doomed removed ss) (gw_sessions g),
       gw_runners := (gw_runners g)\<lparr>rr_ws_bindings := fold AList.delete (doomed removed ss) (rr_ws_bindings (gw_runners g))\<rparr>\<rparr>)
    (\<lambda>_ _. False) g"
proof (induction ss arbitrary: g)
  case Nil
  then show ?case by (simp add: wp_ops)
next
  case (Cons s ss)
  have absent: "AList.delete i d = d" if "map_of d i = None" for i and d :: session_registry
    using that by (simp add: map_of_None_keys delete_id)
  show ?case
  proof (cases "s_runner_id s \<in> set removed")
    case False
    then show ?thesis using Cons.IH [of g] by simp
  next
    case True
    let ?h = "g\<lparr>gw_sessions := AList.delete (s_id s) (gw_sessions g),
       gw_runners := (gw_runners g)\<lparr>rr_ws_bindings := AList.delete (s_id s) (rr_ws_bindings (gw_runners g))\<rparr>\<rparr>"
    show ?thesis
      using True Cons.IH [of ?h] absent [of "gw_sessions g" "s_id s"]
      by (cases "map_of (gw_sessions g) (s_id s)")
        (auto simp: wp_bindm wp_thenm wp_catchm wp_zoom wp_ops wp_option wp_drop_endpoint registry_delete_def elim!: wp_mono)
  qed
qed

section \<open>The invariant holds in every reachable state\<close>

lemma keeps_discovery [keep_rules]:
  "keeps gateway_ok (refresh env)" "keeps gateway_ok (purge_sessions_for_missing_runners removed)"
  "keeps gateway_ok (probe_runner env r)" "keeps gateway_ok (restore_runner_sessions env rs)"
proof -
  show "keeps gateway_ok (refresh env)"
  proof (rule keeps_wpI, rule wp_mono [OF refresh_wp])
    fix g r h
    assume g: "gateway_ok g" and "\<exists>runners l u. discover env g = (Inr runners, g\<lparr>gw_sent := l\<rparr>) \<and> sy_removed r = lost runners g \<and>
       h = g\<lparr>gw_sent := l, gw_known := remdups (map r_id runners), gw_runners := u\<rparr> \<and> runners_ok u \<and>
       keys (rr_runners u) = keys (rr_runners (gw_runners g)) \<union> r_id ` set runners - set (lost runners g) \<and>
       map_of (rr_ws_bindings u) = surviving_bindings (set (lost runners g)) g"
    then obtain runners l u where h: "h = g\<lparr>gw_sent := l, gw_known := remdups (map r_id runners), gw_runners := u\<rparr>"
      "runners_ok u" "keys (rr_runners u) = keys (rr_runners (gw_runners g)) \<union> r_id ` set runners - set (lost runners g)"
      by blast
    moreover have "r_id ` set runners \<inter> set (lost runners g) = {}" by (auto simp: lost_def)
    ultimately show "gateway_ok h" using g by (auto simp: gateway_ok_def)
  qed (auto simp: gateway_ok_def)
  show "keeps gateway_ok (probe_runner env r)" unfolding probe_runner_def by (intro keep_rules)
  have "keeps gateway_ok (purge_each removed ss)" for ss
    by (induction removed ss rule: purge_each.induct) (auto intro!: keep_rules)
  then show "keeps gateway_ok (purge_sessions_for_missing_runners removed)"
    unfolding purge_sessions_for_missing_runners_def by (intro keep_rules)
  show "keeps gateway_ok (restore_runner_sessions env rs)"
    unfolding restore_runner_sessions_def restore_runner_def restore_session_def
    by (auto intro!: keep_rules keeps_exn_cases)
qed

inductive gateway_step :: "gateway_env \<Rightarrow> gateway \<Rightarrow> gateway \<Rightarrow> bool" for env where
  gw_create: "routed env c (\<lambda>user. execute_create_command env user cmd) g = (r1, h) \<Longrightarrow> gateway_step env g h"
| gw_update: "routed env c (\<lambda>user. execute_update_command env user sid upd) g = (r1, h) \<Longrightarrow> gateway_step env g h"
| gw_delete: "routed env c (\<lambda>user. execute_delete_command env user sid) g = (r1, h) \<Longrightarrow> gateway_step env g h"
| gw_list: "routed env c (list_sessions env) g = (r2, h) \<Longrightarrow> gateway_step env g h"
| gw_register: "routed env c (\<lambda>user. register_session env user s) g = (r1, h) \<Longrightarrow> gateway_step env g h"
| gw_get: "routed env c (\<lambda>user. get_session env user sid) g = (r1, h) \<Longrightarrow> gateway_step env g h"
| gw_remove: "routed env c (\<lambda>_. delete_session env sid) g = (r3, h) \<Longrightarrow> gateway_step env g h"
| gw_proxy: "routed env c (\<lambda>user. update_proxy env user sid proxy) g = (r1, h) \<Longrightarrow> gateway_step env g h"
| gw_touch: "routed env c (\<lambda>user. touch_session env user sid t) g = (r1, h) \<Longrightarrow> gateway_step env g h"
| gw_websocket: "proxy_session_websocket env c sid g = (r4, h) \<Longrightarrow> gateway_step env g h"
| gw_post_event: "routed env c (\<lambda>_. post_event e) g = (r3, h) \<Longrightarrow> gateway_step env g h"
| gw_stream: "routed env c (\<lambda>_. open_stream) g = (r5, h) \<Longrightarrow> gateway_step env g h"
| gw_list_workstations: "routed env c (\<lambda>_. on_workstations workstation_list) g = (r6, h) \<Longrightarrow> gateway_step env g h"
| gw_get_workstation: "routed env c (\<lambda>_. get_workstation wid) g = (r7, h) \<Longrightarrow> gateway_step env g h"
| gw_upsert_workstation: "routed env c (\<lambda>_. on_workstations (upsert_metadata meta)) g = (r7, h) \<Longrightarrow> gateway_step env g h"
| gw_workstation_event: "routed env c (\<lambda>_. on_workstations (apply_event we)) g = (r7, h) \<Longrightarrow> gateway_step env g h"
| gw_startup: "startup env g = (r3, h) \<Longrightarrow> gateway_step env g h"
| gw_maintain: "maintenance_iteration env g = (r3, h) \<Longrightarrow> gateway_step env g h"

definition gateway_init :: "gateway \<Rightarrow> bool" where
  "gateway_init g = (\<exists>rs. distinct (map r_id rs) \<and> g = init_gateway rs)"

lemma keeps_routed: "(\<And>user. keeps gateway_ok (handler user)) \<Longrightarrow> keeps gateway_ok (routed env c handler)"
  unfolding routed_def by (intro keep_rules)

lemma gateway_step_ok: "gateway_ok g \<Longrightarrow> gateway_step env g h \<Longrightarrow> gateway_ok h"
proof (erule gateway_step.cases; simp only:; elim keeps_run [rotated 2])
qed (auto intro!: keeps_routed keep_rules simp: post_event_def open_stream_def get_workstation_def startup_def maintenance_iteration_def maintenance_body_def)

interpretation gateway: transition_invariant gateway_init "gateway_step env" gateway_ok for env
proof unfold_locales
  fix g assume "gateway_init g"
  then obtain rs where "distinct (map r_id rs)" "g = init_gateway rs" by (auto simp: gateway_init_def)
  then have "runners_ok (gw_runners g)" using runners_ok_init by (auto simp: runners_init_def init_gateway_def)
  with \<open>g = init_gateway rs\<close> show "gateway_ok g" by (simp add: gateway_ok_def init_gateway_def registry_ok_def)
qed (rule gateway_step_ok)

section \<open>A round of maintenance\<close>

text \<open>What a round leaves: \<open>h\<close> is \<open>g\<close> without the lost runners and all that belongs to them.\<close>

definition forgotten :: "gateway_env \<Rightarrow> gateway \<Rightarrow> gateway \<Rightarrow> bool" where
  "forgotten env g h = (\<exists>runners l. discover env g = (Inr runners, g\<lparr>gw_sent := l\<rparr>) \<and>
    keys (rr_runners (gw_runners h)) = keys (rr_runners (gw_runners g)) \<union> r_id ` set runners - set (lost runners g) \<and>
    gw_known h = remdups (map r_id runners) \<and>
    (\<forall>sid. map_of (gw_sessions h) sid = (case map_of (gw_sessions g) sid of None \<Rightarrow> None
       | Some s \<Rightarrow> if s_runner_id s \<in> set (lost runners g) then None else Some s)) \<and>
    map_of (rr_ws_bindings (gw_runners h)) = surviving_bindings (set (lost runners g)) g)"

text \<open>The state between the refresh and the purge: the sessions are untouched, the runners and bindings gone.\<close>

definition refreshed :: "runner list \<Rightarrow> gateway \<Rightarrow> gateway \<Rightarrow> bool" where
  "refreshed runners g k = (gw_sessions k = gw_sessions g \<and>
    keys (rr_runners (gw_runners k)) = keys (rr_runners (gw_runners g)) \<union> r_id ` set runners - set (lost runners g) \<and>
    gw_known k = remdups (map r_id runners) \<and>
    map_of (rr_ws_bindings (gw_runners k)) = surviving_bindings (set (lost runners g)) g)"

lemma purge_after_refresh:
  assumes "registry_ok (gw_sessions g)" and run: "discover env g = (Inr runners, g\<lparr>gw_sent := l\<rparr>)" and k: "refreshed runners g k"
  shows "wp (purge_sessions_for_missing_runners (lost runners g)) (\<lambda>_. forgotten env g) (\<lambda>_ _. True) k"
proof -
  have ids: "set (doomed (lost runners g) (map snd (gw_sessions g))) =
      {sid. \<exists>s. map_of (gw_sessions g) sid = Some s \<and> s_runner_id s \<in> set (lost runners g)}"
    using sessions_of_runners [OF assms(1), of "set (lost runners g)"] by auto
  note k = k [unfolded refreshed_def]
  show ?thesis
  proof (cases "lost runners g = []")
    case True
    then show ?thesis
      using run k
      by (auto simp: forgotten_def purge_sessions_for_missing_runners_def wp_ops split: option.split intro!: exI)
  next
    case False
    show ?thesis
      unfolding purge_sessions_for_missing_runners_def registry_list_def
      using False run
      by (simp add: wp_bindm wp_zoom wp_ops)
        (rule wp_mono [OF purge_each_wp], auto simp: forgotten_def map_of_fold_delete ids k surviving_bindings_def
          simp del: set_map split: option.split intro!: exI ext)
  qed
qed

lemma probes_then_purge:
  assumes "registry_ok (gw_sessions g)" and "discover env g = (Inr runners, g\<lparr>gw_sent := l\<rparr>)" and "refreshed runners g k"
  shows "wp (for_each rs (probe_runner env))
    (\<lambda>_. wp (thenm (purge_sessions_for_missing_runners (lost runners g)) (ret ())) (\<lambda>_. forgotten env g) (\<lambda>_ _. True)) (\<lambda>_ _. True) k"
proof (rule wp_mono [OF probes_wp [OF probed_refl]], goal_cases)
  case (1 _ t)
  with assms show ?case
    unfolding wp_thenm wp_ops by (intro purge_after_refresh) (simp_all add: probed_def refreshed_def)
qed simp

text \<open>
  C17: After a round of maintenance that ran to its end, the registered runners are those that were
  registered and those the discovery reports, but for the lost ones, which the discovery knew and
  no longer reports; no session of a lost runner is stored, no WebSocket is bound to one or to a session
  of one, and the discovery knows the runners it reported. All other sessions and bindings are as
  before.
\<close>

theorem maintenance_forgets_lost_runners:
  assumes "reachable gateway_init (gateway_step env) g" and "maintenance_body env g = (Inr u, h)"
  shows "\<exists>runners l. discover env g = (Inr runners, g\<lparr>gw_sent := l\<rparr>) \<and>
    (\<forall>rid. map_of (rr_runners (gw_runners h)) rid \<noteq> None \<longleftrightarrow>
       (map_of (rr_runners (gw_runners g)) rid \<noteq> None \<or> rid \<in> r_id ` set runners) \<and> rid \<notin> set (lost runners g)) \<and>
    gw_known h = remdups (map r_id runners) \<and>
    (\<forall>sid. map_of (gw_sessions h) sid = (case map_of (gw_sessions g) sid of None \<Rightarrow> None
       | Some s \<Rightarrow> if s_runner_id s \<in> set (lost runners g) then None else Some s)) \<and>
    map_of (rr_ws_bindings (gw_runners h)) = surviving_bindings (set (lost runners g)) g"
proof -
  have inv: "gateway_ok g" by (rule gateway.reachable_inv [OF assms(1)])
  then have ok: "registry_ok (gw_sessions g)" by (simp add: gateway_ok_def)
  have "wp (maintenance_body env) (\<lambda>_. forgotten env g) (\<lambda>_ _. True) g"
    unfolding maintenance_body_def wp_bindm [of "refresh env"]
  proof (rule wp_mono [OF refresh_wp [OF inv]], goal_cases)
    case (1 r k)
    then obtain runners l v where k: "discover env g = (Inr runners, g\<lparr>gw_sent := l\<rparr>)" "sy_removed r = lost runners g"
      "k = g\<lparr>gw_sent := l, gw_known := remdups (map r_id runners), gw_runners := v\<rparr>"
      "keys (rr_runners v) = keys (rr_runners (gw_runners g)) \<union> r_id ` set runners - set (lost runners g)"
      "map_of (rr_ws_bindings v) = surviving_bindings (set (lost runners g)) g" by blast
    have "wp list_runners Q (\<lambda>_ _. True) s \<longleftrightarrow> (\<forall>rs. runners_at (rr_runners s) (rr_order s) = Inr rs \<longrightarrow> Q rs s)" for Q s
      by (auto simp: list_runners_def wp_bindm wp_ops split: sum.split)
    then show ?case
      by (simp add: wp_bindm wp_zoom wp_thenm wp_ops k(2))
        (simp add: k(3) probes_then_purge [OF ok k(1)] refreshed_def k(4,5))
  qed simp
  from wp_run [OF this assms(2)] have f: "forgotten env g h" by simp
  have reg: "map_of (rr_runners (gw_runners x)) rid \<noteq> None \<longleftrightarrow> rid \<in> keys (rr_runners (gw_runners x))" for x rid
    by (simp add: map_of_None_keys)
  show ?thesis
    unfolding reg using f unfolding forgotten_def
  proof (elim exE conjE, goal_cases)
    case (1 runners l)
    then have "\<forall>rid. rid \<in> keys (rr_runners (gw_runners h)) \<longleftrightarrow>
       (rid \<in> keys (rr_runners (gw_runners g)) \<or> rid \<in> r_id ` set runners) \<and> rid \<notin> set (lost runners g)"
      by blast
    with 1 show ?case by (intro exI [of _ runners] exI [of _ l] conjI)
  qed
qed

section \<open>Commands\<close>

text \<open>Which runner a create command goes to.\<close>

definition chosen :: "create_command \<Rightarrow> runner_registry \<Rightarrow> runner option" where
  "chosen c s = (case cc_runner_id c of
     Some rid \<Rightarrow> map_of (rr_runners s) rid
   | None \<Rightarrow> (case eligible (\<not> cc_headless c) True s @ eligible (\<not> cc_headless c) False s of
       [] \<Rightarrow> None | r # _ \<Rightarrow> Some r))"

lemma wp_select_next:
  assumes "runners_ok s"
  shows "wp (select_next vnc healthy) (\<lambda>r t. t = s\<lparr>rr_cursor := rr_cursor t\<rparr> \<and>
      (case eligible vnc healthy s of [] \<Rightarrow> r = None \<and> t = s | x # _ \<Rightarrow> r = Some x)) (\<lambda>_ _. False) s"
  using select_next_run [OF assms, of vnc healthy]
  by (cases "eligible vnc healthy s") (auto simp: wp_def)

text \<open>Choosing moves the cursor at most, and not when there is no runner to choose.\<close>

lemma choose_runner_wp:
  assumes "runners_ok (gw_runners g)"
  shows "wp (choose_runner c)
    (\<lambda>r h. chosen c (gw_runners g) = Some r \<and> h = g\<lparr>gw_runners := (gw_runners g)\<lparr>rr_cursor := rr_cursor (gw_runners h)\<rparr>\<rparr>)
    (\<lambda>e h. chosen c (gw_runners g) = None \<and> h = g \<and> e = (if cc_runner_id c = None
       then HTTPException 503 ''No healthy runners available'' else HTTPException 404 ''Runner not found'')) g"
proof (cases "cc_runner_id c")
  case (Some rid)
  then show ?thesis
    by (auto simp: choose_runner_def chosen_def get_runner_def wp_bindm wp_zoom wp_ops split: option.split)
next
  case None
  let ?s = "gw_runners g" and ?vnc = "\<not> cc_headless c"
  show ?thesis
  proof (cases "eligible ?vnc True ?s")
    case (Cons x xs)
    with None show ?thesis
      by (simp add: choose_runner_def wp_bindm wp_zoom)
        (rule wp_mono [OF wp_select_next [OF assms]], auto simp: wp_ops chosen_def)
  next
    case Nil
    have second: "wp (select_next ?vnc False)
        (\<lambda>r t. wp (case r of Some r \<Rightarrow> ret r | None \<Rightarrow> raise (HTTPException 503 ''No healthy runners available''))
          (\<lambda>r h. chosen c ?s = Some r \<and> h = g\<lparr>gw_runners := ?s\<lparr>rr_cursor := rr_cursor (gw_runners h)\<rparr>\<rparr>)
          (\<lambda>e h. chosen c ?s = None \<and> h = g \<and> e = HTTPException 503 ''No healthy runners available'') (g\<lparr>gw_runners := t\<rparr>))
        (\<lambda>_ _. False) ?s"
      using None Nil
      by (intro wp_mono [OF wp_select_next [OF assms]])
        (auto simp: wp_ops chosen_def split: list.splits option.split)
    with None Nil show ?thesis
      by (simp add: choose_runner_def wp_bindm wp_zoom)
        (rule wp_mono [OF wp_select_next [OF assms]], auto simp: wp_bindm wp_zoom elim: wp_mono)
  qed
qed

text \<open>A client's copy of a session: only the VNC details differ, and they carry a token.\<close>

lemma enrich_vnc_details_token:
  "enrich_vnc_details encode ts now d sid subject = Inr d' \<Longrightarrow> vd_token d' \<noteq> None"
  by (auto simp: enrich_vnc_details_def issue_def Let_def split: if_splits)

lemma enrich_session_wp:
  "wp (enrich_session env s r user)
    (\<lambda>x h. x = s\<lparr>s_vnc := s_vnc x\<rparr> \<and> (\<forall>d. s_vnc x = Some d \<longrightarrow> vd_token d \<noteq> None) \<and> h = g\<lparr>gw_ticks := gw_ticks h\<rparr>)
    (\<lambda>_ h. gw_sent h = gw_sent g \<and> gw_sessions h = gw_sessions g \<and> gw_runners h = gw_runners g \<and>
       gw_bridge h = gw_bridge g) g"
proof -
  have some: "apply_vnc_overrides any_url r None sid = Inr None"
    "apply_vnc_overrides any_url r (Some d) sid \<noteq> Inr None" for any_url r d sid
    by (auto simp: apply_vnc_overrides_def Let_def split: if_splits)
  show ?thesis
    unfolding enrich_session_def read_clock_def
    by (auto simp: wp_simps some dest: enrich_vnc_details_token split: option.split sum.split)
qed

lemma publish_session_event_wp:
  "wp (publish_session_event env s ty)
    (\<lambda>_ h. case eb_latest (gw_bridge h) of None \<Rightarrow> False | Some e \<Rightarrow> ev_session e = s \<and> ev_type e = ty \<and>
       gw_bridge h = snd (publish_event e (gw_bridge g)) \<and> gw_sent h = gw_sent g \<and> gw_sessions h = gw_sessions g \<and>
       gw_runners h = gw_runners g)
    (\<lambda>_ h. gw_bridge h = gw_bridge g \<and> gw_sent h = gw_sent g \<and> gw_sessions h = gw_sessions g \<and>
       gw_runners h = gw_runners g) g"
proof -
  have valid: "validate_session_event e = Inr e' \<Longrightarrow> e' = e" for e e'
    by (auto simp: validate_session_event_def split: if_splits)
  show ?thesis
    unfolding publish_session_event_def read_clock_def draw_event_id_def publish_event_def
    by (auto simp: wp_simps op_run dest!: valid split: sum.split)
qed

lemma relayed_wp:
  assumes "wp m Q (\<lambda>e h. (\<exists>t. e = RunnerCommandError t) \<and> E h) g"
  shows "wp (relayed m) Q (\<lambda>e h. (\<exists>t. e = HTTPException 502 t) \<and> E h) g"
  unfolding relayed_def wp_catchm by (rule wp_mono [OF assms]) (auto simp: wp_ops)

text \<open>What a command leaves alone unless the runner answered with a session.\<close>

definition untouched :: "gateway \<Rightarrow> gateway \<Rightarrow> bool" where
  "untouched g h = (gw_sessions h = gw_sessions g \<and> rr_runners (gw_runners h) = rr_runners (gw_runners g) \<and>
     rr_ws_bindings (gw_runners h) = rr_ws_bindings (gw_runners g) \<and> gw_bridge h = gw_bridge g)"

definition create_request :: "runner \<Rightarrow> create_command \<Rightarrow> http_request" where
  "create_request r c = \<lparr>rq_base = r_base_url r, rq_method = ''POST'', rq_path = ''/sessions'',
     rq_json = Some (create_payload c)\<rparr>"

text \<open>The WebSocket binding of a session the runner answered with, and the public endpoint it gives.\<close>

definition has_endpoint :: "session \<Rightarrow> bool" where
  "has_endpoint s = (s_ws_endpoint s \<noteq> None \<and> s_ws_endpoint s \<noteq> Some [])"

definition bound :: "session \<Rightarrow> gateway \<Rightarrow> string option \<Rightarrow> gateway \<Rightarrow> bool" where
  "bound s g public h = (rr_runners (gw_runners h) = rr_runners (gw_runners g) \<and>
     (if has_endpoint s
      then \<exists>p. format_id (uuid_str (s_id s)) (rr_ws_template (gw_runners g)) = Inr p \<and> public = Some p \<and>
        map_of (rr_ws_bindings (gw_runners h)) = (map_of (rr_ws_bindings (gw_runners g)))
          (s_id s \<mapsto> \<lparr>wb_runner_id = s_runner_id s, wb_target = the (s_ws_endpoint s), wb_public = p\<rparr>)
      else public = None \<and>
        map_of (rr_ws_bindings (gw_runners h)) = (map_of (rr_ws_bindings (gw_runners g)))(s_id s := None)))"

lemma assign_wp:
  "wp (assign_public_ws_endpoint s)
    (\<lambda>p h. h = g\<lparr>gw_runners := gw_runners h\<rparr> \<and> bound s g p h)
    (\<lambda>e h. h = g \<and> has_endpoint s \<and> format_id (uuid_str (s_id s)) (rr_ws_template (gw_runners g)) = Inl e) g"
  unfolding assign_public_ws_endpoint_def
  by (auto simp: wp_def zoom_def register_run bound_def has_endpoint_def split: sum.split)

lemma client_create_wp:
  "wp (on_wire (client_create reader server r c))
    (\<lambda>s h. h = g\<lparr>gw_sent := gw_sent g @ [create_request r c]\<rparr> \<and>
       (\<exists>d. server (gw_sent g) (create_request r c) = Answer 201 (Some (PDict d)) \<and> model_validate reader d = Inr s))
    (\<lambda>e h. (\<exists>t. e = RunnerCommandError t) \<and> h = g\<lparr>gw_sent := gw_sent g @ [create_request r c]\<rparr>) g"
  unfolding client_create_def wp_zoom create_request_def
  by (rule wp_mono [OF request_session_wp]) auto

text \<open>
  Storing the runner's answer and announcing it, the common end of the create and update commands: the
  session stored, the client's copy, and what is left when the command raises on the way.
\<close>

definition public_session :: "session \<Rightarrow> string option \<Rightarrow> session" where
  "public_session s p = (if p = None then s else s\<lparr>s_ws_public_endpoint := p\<rparr>)"

definition filed :: "session \<Rightarrow> gateway \<Rightarrow> session \<Rightarrow> gateway \<Rightarrow> bool" where
  "filed s g stored h = (\<exists>p. bound s g p h \<and> sanitize_session (public_session s p) = Inr stored \<and>
     session_token_free stored \<and> map_of (gw_sessions h) = (map_of (gw_sessions g))(s_id s \<mapsto> stored))"

definition mirrored :: "session \<Rightarrow> session \<Rightarrow> session_event_type \<Rightarrow> gateway \<Rightarrow> gateway \<Rightarrow> bool" where
  "mirrored s x ty g h = (\<exists>stored e. filed s g stored h \<and> x = stored\<lparr>s_vnc := s_vnc x\<rparr> \<and>
     (\<forall>v. s_vnc x = Some v \<longrightarrow> vd_token v \<noteq> None) \<and>
     ev_session e = x \<and> ev_type e = ty \<and> gw_bridge h = snd (publish_event e (gw_bridge g)))"

definition broke_off :: "session \<Rightarrow> gateway \<Rightarrow> exn \<Rightarrow> gateway \<Rightarrow> bool" where
  "broke_off s g e h = (gw_bridge h = gw_bridge g \<and>
     (untouched g h \<and> has_endpoint s \<and> format_id (uuid_str (s_id s)) (rr_ws_template (gw_runners g)) = Inl e \<or>
      (\<exists>p. bound s g p h \<and> gw_sessions h = gw_sessions g \<and> sanitize_session (public_session s p) = Inl e) \<or>
      (\<exists>stored. filed s g stored h)))"

lemma file_session_fails:
  "wp (file_session sid s) (\<lambda>x t. t = AList.update sid x d \<and> sanitize_session s = Inr x)
    (\<lambda>e t. t = d \<and> sanitize_session s = Inl e) d"
  by (simp add: file_session_def wp_bindm wp_thenm wp_ops split: sum.split)

lemma filed_frame:
  "filed s g stored k \<Longrightarrow> gw_sessions h = gw_sessions k \<Longrightarrow> gw_runners h = gw_runners k \<Longrightarrow> filed s g stored h"
  unfolding filed_def bound_def by (elim exE conjE, intro exI conjI) simp_all

lemma announce_wp:
  assumes k: "filed s g stored k" "gw_sent k = gw_sent g" "gw_bridge k = gw_bridge g"
  shows "wp (bindm (enrich_session env stored r user) (\<lambda>x. thenm (publish_session_event env x (ty x)) (ret x)))
    (\<lambda>x h. gw_sent h = gw_sent g \<and> mirrored s x (ty x) g h) (\<lambda>e h. gw_sent h = gw_sent g \<and> broke_off s g e h) k"
  unfolding wp_bindm wp_thenm wp_ops
proof (rule wp_mono [OF enrich_session_wp], goal_cases)
  case (1 x j)
  then obtain v n where x: "x = stored\<lparr>s_vnc := v\<rparr>" "\<forall>d. v = Some d \<longrightarrow> vd_token d \<noteq> None" and j: "j = k\<lparr>gw_ticks := n\<rparr>"
    by blast
  show ?case
  proof (rule wp_mono [OF publish_session_event_wp], goal_cases)
    case (1 _ h)
    then obtain e where "ev_session e = x" "ev_type e = ty x" "gw_bridge h = snd (publish_event e (gw_bridge g))"
      and h: "gw_sent h = gw_sent g" "gw_sessions h = gw_sessions k" "gw_runners h = gw_runners k"
      using k by (auto simp: j split: option.splits)
    moreover have "filed s g stored h" using filed_frame [OF k(1) h(2,3)] .
    ultimately show ?case using x unfolding mirrored_def by (intro conjI exI [of _ stored] exI [of _ e]) simp_all
  next
    case (2 e h)
    then have "filed s g stored h" using filed_frame [OF k(1)] by (simp add: j)
    with 2 k show ?case by (auto simp: broke_off_def j)
  qed
next
  case (2 e h)
  then have "filed s g stored h" using filed_frame [OF k(1)] by simp
  with 2 k show ?case by (auto simp: broke_off_def)
qed

lemma mirror_wp:
  "wp (bindm (assign_public_ws_endpoint s) (\<lambda>public_ws.
       bindm (on_sessions (registry_upsert (with_public_ws s public_ws))) (\<lambda>stored.
       bindm (enrich_session env stored r user) (\<lambda>x.
       thenm (publish_session_event env x (ty x)) (ret x)))))
    (\<lambda>x h. gw_sent h = gw_sent g \<and> mirrored s x (ty x) g h) (\<lambda>e h. gw_sent h = gw_sent g \<and> broke_off s g e h) g"
  unfolding wp_bindm [of "assign_public_ws_endpoint s"]
proof (rule wp_mono [OF assign_wp], goal_cases)
  case (1 p h)
  then obtain u where h: "h = g\<lparr>gw_runners := u\<rparr>" and b: "bound s g p h" by blast
  have pub: "with_public_ws s p = public_session s p"
    by (cases p) (simp_all add: with_public_ws_def public_session_def)
  have sid: "s_id (public_session s p) = s_id s" by (simp add: public_session_def)
  show ?case
    unfolding wp_bindm [of "on_sessions _"] wp_zoom registry_upsert_def pub sid
  proof (rule wp_mono [OF file_session_fails], goal_cases)
    case (1 stored t)
    then have "filed s g stored (h\<lparr>gw_sessions := t\<rparr>)"
      using b sanitize_session_free(1) by (auto simp: filed_def bound_def h)
    then show ?case by (rule announce_wp) (simp_all add: h)
  next
    case (2 e t)
    then have "bound s g p (h\<lparr>gw_sessions := t\<rparr>)" using b by (simp add: bound_def)
    with 2 show ?case by (auto simp: broke_off_def h)
  qed
qed (auto simp: broke_off_def untouched_def)


section \<open>The properties at work\<close>

text \<open>
  A discovery endpoint that reports the runners \<open>a\<close> and \<open>b\<close>, and only \<open>a\<close> when it is asked again;
  \<open>b\<close> has a session, and \<open>a\<close> creates one when told to.
\<close>

definition demo_reader :: field_reader where
  "demo_reader d = (case map_of d ''runner_id'' of
     Some (PStr rid) \<Rightarrow> Inr (demo_registry_session\<lparr>s_id := length d, s_runner_id := rid,
       s_ws_endpoint := Some ''ws://runner/1''\<rparr>)
   | _ \<Rightarrow> Inl (ValueError ''runner_id''))"

definition demo_server :: http_server where
  "demo_server sent rq =
     (if rq_base rq = ''http://discovery''
      then Answer 200 (Some (PList (map (\<lambda>x. PDict [(''id'', PStr x)]) (if sent = [] then [''a'', ''b''] else [''a'']))))
      else if rq_method rq = ''POST'' then Answer 201 (Some (PDict [(''runner_id'', PStr ''a''), (''id'', PInt 8)]))
      else if rq_base rq = ''http://b'' \<and> rq_path rq = ''/sessions''
      then Answer 200 (Some (PList [PDict [(''runner_id'', PStr ''b'')]]))
      else NoAnswer ''connection refused'')"

definition demo_gateway :: gateway_env where
  "demo_gateway = \<lparr>ge_server = demo_server, ge_reader = demo_reader,
     ge_runner_reader = (\<lambda>d. case map_of d ''id'' of
         Some (PStr x) \<Rightarrow> Inr (demo_fleet_runner x True\<lparr>r_base_url := ''http://'' @ x\<rparr>)
       | _ \<Rightarrow> Inl (ValueError ''id'')),
     ge_health_reader = (\<lambda>_. Inl (ValueError ''health'')), ge_clock = (\<lambda>_. 60000000), ge_any_url = Inr,
     ge_encode = (\<lambda>_ secret. ''header.claims.'' @ secret), ge_tokens = \<lparr>ts_secret = ''k'', ts_ttl = 60, ts_issuer = ''camou-gateway''\<rparr>,
     ge_auth = demo_auth_env, ge_trust = demo_trust, ge_backend = HttpBackend ''http://discovery'',
     ge_relay = (\<lambda>_. Relayed)\<rparr>"

definition demo_started :: gateway where
  "demo_started = snd (startup demo_gateway (init_gateway []))"

lemma demo_started_reachable: "reachable gateway_init (gateway_step demo_gateway) demo_started"
proof (rule reach_step)
  show "reachable gateway_init (gateway_step demo_gateway) (init_gateway [])"
    by (rule reach_init) (simp add: gateway_init_def exI [where x = "[]"])
  have "startup demo_gateway (init_gateway []) = (fst (startup demo_gateway (init_gateway [])), demo_started)"
    by (simp add: demo_started_def)
  then show "gateway_step demo_gateway (init_gateway []) demo_started" by (rule gw_startup)
qed

lemma demo_maintenance:
  "fst (maintenance_body demo_gateway demo_started) = Inr ()"
  "fst (discover demo_gateway demo_started) = Inr [demo_fleet_runner ''a'' True\<lparr>r_base_url := ''http://a''\<rparr>]"
  "gw_known demo_started = [''a'', ''b'']"
  "map_option s_runner_id (map_of (gw_sessions demo_started) 1) = Some ''b''"
  by code_simp+

lemma maintenance_forgets_lost_runners_witness:
  "\<exists>h. maintenance_body demo_gateway demo_started = (Inr (), h) \<and>
     map_option s_runner_id (map_of (gw_sessions demo_started) 1) = Some ''b'' \<and> map_of (gw_sessions h) 1 = None \<and>
     map_of (rr_runners (gw_runners h)) ''b'' = None \<and> map_of (rr_ws_bindings (gw_runners h)) 1 = None"
proof -
  obtain h where h: "maintenance_body demo_gateway demo_started = (Inr (), h)"
    using demo_maintenance(1) by (metis prod.collapse)
  from maintenance_forgets_lost_runners [OF demo_started_reachable h]
  obtain runners l where run: "discover demo_gateway demo_started = (Inr runners, demo_started\<lparr>gw_sent := l\<rparr>)"
    and gone: "\<forall>rid \<in> set (lost runners demo_started). map_of (rr_runners (gw_runners h)) rid = None"
    and sessions: "\<forall>sid. map_of (gw_sessions h) sid = (case map_of (gw_sessions demo_started) sid of None \<Rightarrow> None
       | Some s \<Rightarrow> if s_runner_id s \<in> set (lost runners demo_started) then None else Some s)"
    and bound: "map_of (rr_ws_bindings (gw_runners h)) = surviving_bindings (set (lost runners demo_started)) demo_started"
    by blast
  have "runners = [demo_fleet_runner ''a'' True\<lparr>r_base_url := ''http://a''\<rparr>]" using run demo_maintenance(2) by simp
  then have lost: "set (lost runners demo_started) = {''b''}"
    by (simp add: lost_def demo_maintenance(3) demo_fleet_runner_def)
  obtain s where s: "map_of (gw_sessions demo_started) 1 = Some s" "s_runner_id s = ''b''"
    using demo_maintenance(4) by auto
  have "map_of (gw_sessions h) 1 = None" using sessions s lost by simp
  moreover have "map_of (rr_runners (gw_runners h)) ''b'' = None" using gone lost by simp
  moreover have "map_of (rr_ws_bindings (gw_runners h)) 1 = None"
    unfolding bound surviving_bindings_def using s lost by auto
  ultimately show ?thesis using h demo_maintenance(4) by blast
qed

definition demo_create :: create_command where
  "demo_create = \<lparr>cc_runner_id = Some ''a'', cc_browser_name = ''camoufox'', cc_region = ''eu'', cc_proxy_id = None,
     cc_headless = False, cc_start_url = None\<rparr>"

abbreviation demo_alice :: authenticated_user where
  "demo_alice \<equiv> \<lparr>au_subject = ''alice'', au_email = None\<rparr>"

lemma demo_chosen:
  "chosen demo_create (gw_runners demo_started) = Some (demo_fleet_runner ''a'' True\<lparr>r_base_url := ''http://a''\<rparr>)"
  "chosen (demo_create\<lparr>cc_runner_id := Some ''c''\<rparr>) (gw_runners demo_started) = None"
  by code_simp+


end
