(* ===== verification/Worker_Queue.thy ===== *)
theory Worker_Queue
  imports Core_Models
begin

text \<open>
  The worker's jobs (\<open>services/camoufox_worker/worker/jobs.py\<close>) and its queue consumer
  (\<open>worker/queue.py\<close>): profile toggles in the environment, the registry of completed idempotency keys,
  the in-memory queue, and the consumer that executes, retries and drops messages.
\<close>

declare map_of_eq_Some_iff [simp del] Some_eq_map_of_iff [simp del]

section \<open>Jobs and results\<close>

record job =
  jb_url :: url
  jb_http_proxy :: "string option"
  jb_https_proxy :: "string option"
  jb_socks_proxy :: "string option"
  jb_timeout_sec :: int
  jb_url_source :: string

text \<open>
  The fields of a job as they are given; \<open>http_url\<close> validates and normalises the URL. The source text is
  kept before that, and is the normalised URL only when there was none.
\<close>

definition make_job ::
  "(string \<Rightarrow> url res) \<Rightarrow> string \<Rightarrow> string option \<times> string option \<times> string option \<Rightarrow> int \<Rightarrow> string \<Rightarrow> job res" where
  "make_job http_url raw_url proxies timeout url_source =
     (let source = (if url_source = [] then raw_url else url_source); (http, https, socks) = proxies in
      res_bind (http_url raw_url) (\<lambda>url.
        Inr \<lparr>jb_url = url, jb_http_proxy = http, jb_https_proxy = https, jb_socks_proxy = socks,
          jb_timeout_sec = timeout, jb_url_source = (if source = [] then url else source)\<rparr>))"

datatype job_status = JobSUCCESS | JobFAILURE | JobABORTED

fun job_status_value :: "job_status \<Rightarrow> string" where
  "job_status_value JobSUCCESS = ''success''"
| "job_status_value JobFAILURE = ''failure''"
| "job_status_value JobABORTED = ''aborted''"

record job_error =
  je_type :: string
  je_message :: string
  je_details :: "string option"

text \<open>
  Durations are whole microseconds. A metric is a number, a text, a boolean or null.
\<close>

record job_metrics =
  jm_duration :: int
  jm_extra :: "(string, pyval) dict"

record job_result =
  jr_job :: job
  jr_status :: job_status
  jr_ok :: bool
  jr_started_at :: datetime
  jr_finished_at :: datetime
  jr_metrics :: job_metrics
  jr_title :: "string option"
  jr_error :: "job_error option"

definition metric_value :: "pyval \<Rightarrow> bool" where
  "metric_value v = (case v of PList _ \<Rightarrow> False | PDict _ \<Rightarrow> False | _ \<Rightarrow> True)"

definition validate_job_metrics :: "job_metrics \<Rightarrow> job_metrics res" where
  "validate_job_metrics m =
     (if jm_duration m < 0 then Inl (ValueError ''Input should be greater than or equal to 0'')
      else if \<exists>v \<in> snd ` set (jm_extra m). \<not> metric_value v
      then Inl (ValueError ''Input should be a valid metric'')
      else Inr m)"

definition validate_temporal_bounds :: "job_result \<Rightarrow> job_result res" where
  "validate_temporal_bounds r =
     res_bind (dt_less (jr_finished_at r) (jr_started_at r)) (\<lambda>early.
     if early then Inl (ValueError ''finished_at must be greater than or equal to started_at'')
     else if jr_ok r \<noteq> (jr_status r = JobSUCCESS)
     then Inl (ValueError ''ok must reflect whether the status equals success'')
     else Inr r)"

definition make_job_result :: "job_result \<Rightarrow> job_result res" where
  "make_job_result r = res_bind (validate_job_metrics (jr_metrics r)) (\<lambda>_. validate_temporal_bounds r)"

section \<open>Profile toggles\<close>

fun parse_chunks :: "(string, string) dict \<Rightarrow> string list \<Rightarrow> (string, string) dict" where
  "parse_chunks toggles [] = toggles"
| "parse_chunks toggles (chunk # chunks) =
     (let (k, _, v) = partition_at (CHR ''='') (strip chunk); key = strip k;
          val = (if v = [] then ''1'' else strip v)
      in parse_chunks (if strip chunk = [] \<or> key = [] then toggles else AList.update key val toggles) chunks)"

definition parse_profile_toggles :: "string option \<Rightarrow> (string, string) dict" where
  "parse_profile_toggles raw = (case raw of None \<Rightarrow> []
     | Some r \<Rightarrow> if r = [] then [] else parse_chunks [] (split_on (CHR '','') r))"

definition load_default_profile_toggles :: "(string, string) dict \<Rightarrow> (string, string) dict" where
  "load_default_profile_toggles env = parse_profile_toggles (map_of env ''WORKER_PROFILE_TOGGLES'')"

definition upper_char :: "char \<Rightarrow> char" where
  "upper_char c = (let n = (of_char c :: nat) in if 97 \<le> n \<and> n \<le> 122 then char_of (n - 32) else c)"

definition upper :: "string \<Rightarrow> string" where
  "upper = map upper_char"

type_synonym environ = "(string, string) dict"
type_synonym toggles = "(string, pyval) dict"

text \<open>\<open>os.environ[k] = v\<close> refuses a name with an equals sign, and a null character in either.\<close>

definition setenv :: "string \<Rightarrow> string \<Rightarrow> (environ, unit) op" where
  "setenv k v = (if CHR ''='' \<in> set k \<or> CHR 0x00 \<in> set k \<or> CHR 0x00 \<in> set v
     then raise (ValueError ''illegal environment variable name'') else modify (AList.update k v))"

definition normalized_toggles :: "toggles \<Rightarrow> environ" where
  "normalized_toggles toggles =
     fold (\<lambda>(k, v). AList.update (''CAMOUFOX_TUMBLER_'' @ upper k) (py_str v)) toggles []"

definition restore_env :: "string \<times> string option \<Rightarrow> (environ, unit) op" where
  "restore_env = (\<lambda>(k, original). case original of
     None \<Rightarrow> modify (AList.delete k) | Some v \<Rightarrow> setenv k v)"

section \<open>Messages and the queue\<close>

record queue_message =
  qm_job :: job
  qm_mode :: string
  qm_max_attempts :: int
  qm_key :: "string option"
  qm_ttl :: int
  qm_metadata :: "(string, pyval) dict"
  qm_toggles :: toggles

definition validate_message :: "queue_message \<Rightarrow> queue_message res" where
  "validate_message m =
     (let mode = lower (qm_mode m) in
      if mode \<notin> {''native'', ''orchestrator''} then Inl (ValueError ''mode must be native or orchestrator'')
      else if qm_max_attempts m < 1 \<or> qm_ttl m < 1
      then Inl (ValueError ''Input should be greater than or equal to 1'')
      else Inr (m\<lparr>qm_mode := mode\<rparr>))"

record envelope =
  en_tag :: string
  en_message :: queue_message
  en_attempt :: int

text \<open>
  The worker: its queue and the deliveries in flight, the completed keys with their expiry, the process
  environment, the counters by mode (and status or reason), the depth gauge; and what it did: the jobs
  run, the pauses taken, how often the monotonic clock was read. Times are in microseconds.
\<close>

record run =
  rn_message :: queue_message
  rn_toggles :: toggles
  rn_environ :: environ

record worker =
  wk_queue :: "envelope list"
  wk_inflight :: "(string, envelope) dict"
  wk_completed :: "(string, int) dict"
  wk_environ :: environ
  wk_executions :: "(string \<times> string, nat) dict"
  wk_retries :: "(string, nat) dict"
  wk_drops :: "(string \<times> string, nat) dict"
  wk_depth :: nat
  wk_runs :: "run list"
  wk_pauses :: "int list"
  wk_ticks :: nat

type_synonym 'a worker_op = "(worker, 'a) op"

text \<open>
  Around the consumer: the executors, whose outcome may depend on everything run before, the default
  toggles, the timeouts, and the monotonic clock by reading.
\<close>

record worker_env =
  wv_executor :: "run list \<Rightarrow> run \<Rightarrow> job_result res"
  wv_defaults :: toggles
  wv_receive_timeout :: int
  wv_idle_sleep :: int
  wv_clock :: "nat \<Rightarrow> int"

definition bump :: "'k \<Rightarrow> ('k, nat) dict \<Rightarrow> ('k, nat) dict" where
  "bump k d = AList.update k (Suc (case map_of d k of None \<Rightarrow> 0 | Some n \<Rightarrow> n)) d"

definition monotonic :: "worker_env \<Rightarrow> int worker_op" where
  "monotonic env = bindm (gets wk_ticks) (\<lambda>n. thenm (modify (\<lambda>w. w\<lparr>wk_ticks := Suc n\<rparr>)) (ret (wv_clock env n)))"

definition pause :: "int \<Rightarrow> unit worker_op" where
  "pause t = modify (\<lambda>w. w\<lparr>wk_pauses := wk_pauses w @ [t]\<rparr>)"

text \<open>The in-memory backend. Tags are numbered by how many messages it holds, so they may repeat.\<close>

definition enqueue :: "queue_message \<Rightarrow> int \<Rightarrow> envelope worker_op" where
  "enqueue m n =
     bindm (gets (\<lambda>w. \<lparr>en_tag = ''msg-'' @ nat_str (length (wk_queue w) + length (wk_inflight w) + 1),
       en_message = m, en_attempt = n\<rparr>)) (\<lambda>e.
     thenm (modify (\<lambda>w. w\<lparr>wk_queue := wk_queue w @ [e]\<rparr>)) (ret e))"

definition receive :: "int \<Rightarrow> envelope option worker_op" where
  "receive timeout =
     bindm (gets wk_queue) (\<lambda>q. case q of
       [] \<Rightarrow> thenm (whenm (timeout \<noteq> 0) (pause timeout)) (ret None)
     | e # es \<Rightarrow> thenm (modify (\<lambda>w. w\<lparr>wk_queue := es, wk_inflight := AList.update (en_tag e) e (wk_inflight w)\<rparr>))
         (ret (Some e)))"

definition ack :: "envelope \<Rightarrow> unit worker_op" where
  "ack e = modify (\<lambda>w. w\<lparr>wk_inflight := AList.delete (en_tag e) (wk_inflight w)\<rparr>)"

definition requeue :: "envelope \<Rightarrow> unit worker_op" where
  "requeue e = modify (\<lambda>w. w\<lparr>wk_inflight := AList.delete (en_tag e) (wk_inflight w),
     wk_queue := wk_queue w @ [e\<lparr>en_attempt := en_attempt e + 1\<rparr>]\<rparr>)"

definition reject :: "envelope \<Rightarrow> unit worker_op" where
  "reject e = modify (\<lambda>w. w\<lparr>wk_inflight := AList.delete (en_tag e) (wk_inflight w)\<rparr>)"

section \<open>Idempotency\<close>

definition purge_completed :: "worker_env \<Rightarrow> unit worker_op" where
  "purge_completed env = bindm (monotonic env) (\<lambda>now.
     modify (\<lambda>w. w\<lparr>wk_completed := filter (\<lambda>(_, expires). \<not> expires \<le> now) (wk_completed w)\<rparr>))"

definition is_completed :: "worker_env \<Rightarrow> string \<Rightarrow> bool worker_op" where
  "is_completed env key = thenm (purge_completed env) (gets (\<lambda>w. map_of (wk_completed w) key \<noteq> None))"

definition mark_completed :: "worker_env \<Rightarrow> string \<Rightarrow> int \<Rightarrow> unit worker_op" where
  "mark_completed env key ttl =
     thenm (purge_completed env)
     (bindm (monotonic env) (\<lambda>now.
       modify (\<lambda>w. w\<lparr>wk_completed := AList.update key (now + ttl * 1000000) (wk_completed w)\<rparr>)))"

section \<open>The consumer\<close>

definition update_queue_depth :: "unit worker_op" where
  "update_queue_depth = modify (\<lambda>w. w\<lparr>wk_depth := length (wk_queue w)\<rparr>)"

definition count_execution :: "queue_message \<Rightarrow> job_status \<Rightarrow> unit worker_op" where
  "count_execution m status =
     modify (\<lambda>w. w\<lparr>wk_executions := bump (qm_mode m, job_status_value status) (wk_executions w)\<rparr>)"

text \<open>
  \<open>with apply_profile_toggles(toggles)\<close>: the variables are set, one by one, the body runs, and whatever
  happened they are put back.
\<close>

abbreviation on_environ :: "(environ, 'a) op \<Rightarrow> 'a worker_op" where
  "on_environ \<equiv> zoom wk_environ (\<lambda>v w. w\<lparr>wk_environ := v\<rparr>)"

definition apply_profile_toggles :: "toggles \<Rightarrow> 'a worker_op \<Rightarrow> 'a worker_op" where
  "apply_profile_toggles toggles body =
     (let normalized = normalized_toggles toggles in
      bindm (gets (\<lambda>w. map (\<lambda>(k, _). (k, map_of (wk_environ w) k)) normalized)) (\<lambda>previous.
      finallym
        (thenm (for_each normalized (\<lambda>(k, v). on_environ (setenv k v))) body)
        (for_each previous (\<lambda>p. on_environ (restore_env p)))))"

text \<open>The executor's run is remembered with the environment it saw.\<close>

definition run_executor :: "worker_env \<Rightarrow> queue_message \<Rightarrow> toggles \<Rightarrow> job_result worker_op" where
  "run_executor env m toggles =
     bindm (gets wk_runs) (\<lambda>runs.
     bindm (gets (\<lambda>w. \<lparr>rn_message = m, rn_toggles = toggles, rn_environ = wk_environ w\<rparr>)) (\<lambda>r.
     thenm (modify (\<lambda>w. w\<lparr>wk_runs := wk_runs w @ [r]\<rparr>)) (lift_res (wv_executor env runs r))))"

definition execute_message :: "worker_env \<Rightarrow> envelope \<Rightarrow> job_result worker_op" where
  "execute_message env e =
     (let m = en_message e; toggles = dict_merge (wv_defaults env) (qm_toggles m) in
      bindm (attempt (apply_profile_toggles toggles (run_executor env m toggles))) (\<lambda>outcome. case outcome of
        Inl x \<Rightarrow> thenm (count_execution m JobFAILURE) (raise x)
      | Inr r \<Rightarrow> thenm (count_execution m (jr_status r)) (ret r)))"

definition handle_success :: "worker_env \<Rightarrow> envelope \<Rightarrow> unit worker_op" where
  "handle_success env e =
     thenm (ack e)
     (case qm_key (en_message e) of
        None \<Rightarrow> ret ()
      | Some key \<Rightarrow> whenm (key \<noteq> []) (mark_completed env key (qm_ttl (en_message e))))"

definition handle_failure :: "envelope \<Rightarrow> unit worker_op" where
  "handle_failure e =
     (let m = en_message e in
      if qm_max_attempts m \<le> en_attempt e
      then thenm (reject e)
        (modify (\<lambda>w. w\<lparr>wk_drops := bump (qm_mode m, ''max_attempts'') (wk_drops w)\<rparr>))
      else thenm (modify (\<lambda>w. w\<lparr>wk_retries := bump (qm_mode m) (wk_retries w)\<rparr>)) (requeue e))"

definition poll_once :: "worker_env \<Rightarrow> bool worker_op" where
  "poll_once env =
     bindm (receive (wv_receive_timeout env)) (\<lambda>received.
     thenm update_queue_depth
     (case received of
        None \<Rightarrow> ret False
      | Some e \<Rightarrow>
          bindm (case qm_key (en_message e) of
              None \<Rightarrow> ret False
            | Some key \<Rightarrow> if key = [] then ret False else is_completed env key) (\<lambda>skip.
          if skip then thenm (ack e) (ret True)
          else bindm (attempt (execute_message env e)) (\<lambda>outcome. case outcome of
              Inl _ \<Rightarrow> thenm (handle_failure e) (ret True)
            | Inr r \<Rightarrow> if jr_ok r then thenm (handle_success env e) (ret True)
                else thenm (handle_failure e) (ret True)))))"

text \<open>
  \<open>run\<close>: the consumer polls until a stop event is set and nothing was processed; \<open>stop n\<close> says whether it
  is set after poll \<open>n\<close>. \<open>None\<close>: it still runs after the polls given.
\<close>

fun run_consumer :: "worker_env \<Rightarrow> (nat \<Rightarrow> bool) \<Rightarrow> nat \<Rightarrow> nat \<Rightarrow> nat option worker_op" where
  "run_consumer env stop n 0 = ret None"
| "run_consumer env stop n (Suc fuel) =
     bindm (poll_once env) (\<lambda>processed.
       if stop n \<and> \<not> processed then ret (Some n)
       else thenm (whenm (\<not> processed) (pause (wv_idle_sleep env))) (run_consumer env stop (Suc n) fuel))"

end
