(* ===== verification/Worker_Queue_Props.thy ===== *)
theory Worker_Queue_Props
  imports Worker_Queue
begin

text \<open>
  What the consumer guarantees: the environment is as before after every message, the queue drains
  within the attempts its messages have left, and a completed idempotency key is not run again before
  its time is over.
\<close>

declare map_of_eq_Some_iff [simp del] Some_eq_map_of_iff [simp del]

section \<open>The environment is put back\<close>

definition settable :: "string \<Rightarrow> string \<Rightarrow> bool" where
  "settable k v = (CHR ''='' \<notin> set k \<and> CHR 0x00 \<notin> set k \<and> CHR 0x00 \<notin> set v)"

text \<open>The variables of a process have names and values that can be set.\<close>

definition environ_ok :: "environ \<Rightarrow> bool" where
  "environ_ok v = (\<forall>k x. map_of v k = Some x \<longrightarrow> settable k x)"

lemma wp_setenv: "wp (setenv k v) Q E s = (if settable k v then Q () (AList.update k v s)
    else E (ValueError ''illegal environment variable name'') s)"
  by (auto simp: setenv_def settable_def wp_simps)

lemma wp_restore_env:
  "wp (restore_env (k, original)) Q E s = (case original of None \<Rightarrow> Q () (AList.delete k s)
     | Some v \<Rightarrow> if settable k v then Q () (AList.update k v s)
         else E (ValueError ''illegal environment variable name'') s)"
  by (simp add: restore_env_def wp_setenv wp_ops split: option.split)

text \<open>Two environments that agree outside some names.\<close>

definition agree_outside :: "string set \<Rightarrow> environ \<Rightarrow> environ \<Rightarrow> bool" where
  "agree_outside K s t = (\<forall>k. k \<notin> K \<longrightarrow> map_of t k = map_of s k)"

lemma sets_wp:
  "agree_outside K s0 s \<Longrightarrow> keys xs \<subseteq> K \<Longrightarrow>
    wp (for_each xs (\<lambda>(k, v). setenv k v)) (\<lambda>_. agree_outside K s0) (\<lambda>_. agree_outside K s0) s"
proof (induction xs arbitrary: s)
  case Nil
  then show ?case by (simp add: wp_ops)
next
  case (Cons x xs)
  obtain k v where x: "x = (k, v)" by (cases x)
  have "agree_outside K s0 (AList.update k v s)" "agree_outside K s0 s"
    using Cons.prems by (auto simp: agree_outside_def x)
  then show ?case
    using Cons.IH [of "AList.update k v s"] Cons.prems(2) by (simp add: x wp_thenm wp_setenv)
qed

lemma restores_wp:
  assumes "environ_ok s0"
  shows "agree_outside (set ks) s0 s \<Longrightarrow>
    wp (for_each (map (\<lambda>k. (k, map_of s0 k)) ks) restore_env) (\<lambda>_ t. map_of t = map_of s0) (\<lambda>_ _. False) s"
proof (induction ks arbitrary: s)
  case Nil
  then show ?case by (auto simp: wp_ops agree_outside_def)
next
  case (Cons k ks)
  have "map_of s0 k = Some v \<Longrightarrow> settable k v" for v using assms by (simp add: environ_ok_def)
  moreover have "map_of s0 k = None \<Longrightarrow> agree_outside (set ks) s0 (AList.delete k s)"
    "map_of s0 k = Some v \<Longrightarrow> agree_outside (set ks) s0 (AList.update k v s)" for v
    using Cons.prems by (auto simp: agree_outside_def)
  ultimately show ?case
    using Cons.IH
    by (cases "map_of s0 k") (auto simp only: list.map for_each.simps wp_thenm wp_restore_env option.case if_True)
qed

lemma wp_for_each_environ:
  "wp (for_each xs (\<lambda>x. on_environ (f x))) Q E w =
    wp (for_each xs f) (\<lambda>u t. Q u (w\<lparr>wk_environ := t\<rparr>)) (\<lambda>e t. E e (w\<lparr>wk_environ := t\<rparr>)) (wk_environ w)"
proof (induction xs arbitrary: w)
  case (Cons x xs)
  then show ?case by (simp add: wp_thenm wp_zoom)
qed (simp add: wp_ops)

text \<open>
  The body sees an environment that differs in the toggles only; afterwards every variable is as it
  was, whether the toggles could be set, and whether the body returned or raised.
\<close>

lemma apply_profile_toggles_wp:
  assumes ok: "environ_ok (wk_environ w)"
    and body: "\<And>v. agree_outside (keys (normalized_toggles toggles)) (wk_environ w) v \<Longrightarrow>
      wp body (\<lambda>x u. wk_environ u = v \<and> (\<forall>t. map_of t = map_of (wk_environ w) \<longrightarrow> Q x (u\<lparr>wk_environ := t\<rparr>)))
        (\<lambda>e u. wk_environ u = v \<and> (\<forall>t. map_of t = map_of (wk_environ w) \<longrightarrow> E e (u\<lparr>wk_environ := t\<rparr>)))
        (w\<lparr>wk_environ := v\<rparr>)"
    and stop: "\<And>e t. map_of t = map_of (wk_environ w) \<Longrightarrow> E e (w\<lparr>wk_environ := t\<rparr>)"
  shows "wp (apply_profile_toggles toggles body) Q E w"
proof -
  let ?n = "normalized_toggles toggles" and ?v = "wk_environ w"
  have previous: "map (\<lambda>(k, _). (k, map_of ?v k)) ?n = map (\<lambda>k. (k, map_of ?v k)) (map fst ?n)" by (simp add: case_prod_beta)
  have restore: "wp (for_each (map (\<lambda>(k, _). (k, map_of ?v k)) ?n) (\<lambda>p. on_environ (restore_env p))) (\<lambda>_. P) F u"
    if "agree_outside (keys ?n) ?v (wk_environ u)" "\<And>t. map_of t = map_of ?v \<Longrightarrow> P (u\<lparr>wk_environ := t\<rparr>)" for P F u
    unfolding wp_for_each_environ previous
    by (rule wp_mono [OF restores_wp [OF ok]]) (use that in auto)
  have sets: "(\<lambda>(k, v). on_environ (setenv k v)) = (\<lambda>x. on_environ (case x of (k, v) \<Rightarrow> setenv k v))" by auto
  have "agree_outside (keys ?n) ?v ?v" by (simp add: agree_outside_def)
  from sets_wp [OF this order_refl]
  have "wp (for_each ?n (\<lambda>x. case x of (k, v) \<Rightarrow> setenv k v))
      (\<lambda>_ v. wp body (\<lambda>x. wp (for_each (map (\<lambda>(k, _). (k, map_of ?v k)) ?n) (\<lambda>p. on_environ (restore_env p))) (\<lambda>_. Q x) E)
        (\<lambda>e. wp (for_each (map (\<lambda>(k, _). (k, map_of ?v k)) ?n) (\<lambda>p. on_environ (restore_env p))) (\<lambda>_. E e) E)
        (w\<lparr>wk_environ := v\<rparr>))
      (\<lambda>e v. wp (for_each (map (\<lambda>(k, _). (k, map_of ?v k)) ?n) (\<lambda>p. on_environ (restore_env p))) (\<lambda>_. E e) E
        (w\<lparr>wk_environ := v\<rparr>)) ?v"
  proof (rule wp_mono)
    fix u v assume v: "agree_outside (keys ?n) ?v v"
    show "wp body (\<lambda>x. wp (for_each (map (\<lambda>(k, _). (k, map_of ?v k)) ?n) (\<lambda>p. on_environ (restore_env p))) (\<lambda>_. Q x) E)
        (\<lambda>e. wp (for_each (map (\<lambda>(k, _). (k, map_of ?v k)) ?n) (\<lambda>p. on_environ (restore_env p))) (\<lambda>_. E e) E)
        (w\<lparr>wk_environ := v\<rparr>)"
      by (rule wp_mono [OF body [OF v]]) (use v in \<open>auto intro!: restore\<close>)
  qed (auto intro!: restore stop)
  then show ?thesis
    unfolding apply_profile_toggles_def Let_def wp_bindm wp_ops wp_finallym wp_thenm sets wp_for_each_environ [of ?n] .
qed

section \<open>One message\<close>

text \<open>Running a message touches neither the queue nor the completed keys, and leaves at most one run.\<close>

definition after_run :: "queue_message \<Rightarrow> worker \<Rightarrow> worker \<Rightarrow> bool" where
  "after_run m w u = (wk_queue u = wk_queue w \<and> wk_inflight u = wk_inflight w \<and> wk_completed u = wk_completed w \<and>
     wk_ticks u = wk_ticks w \<and> map_of (wk_environ u) = map_of (wk_environ w) \<and>
     (\<exists>rs. wk_runs u = wk_runs w @ rs \<and> length rs \<le> 1 \<and> (\<forall>r \<in> set rs. rn_message r = m)))"

lemma execute_message_wp:
  assumes "environ_ok (wk_environ w)"
  shows "wp (execute_message env e)
    (\<lambda>res u. after_run (en_message e) w u \<and> (\<exists>r. wk_runs u = wk_runs w @ [r] \<and> wv_executor env (wk_runs w) r = Inr res))
    (\<lambda>_ u. after_run (en_message e) w u) w"
proof -
  let ?m = "en_message e" and ?t = "dict_merge (wv_defaults env) (qm_toggles (en_message e))"
  have "wp (apply_profile_toggles ?t (run_executor env ?m ?t))
    (\<lambda>res u. after_run ?m w u \<and> (\<exists>r. wk_runs u = wk_runs w @ [r] \<and> wv_executor env (wk_runs w) r = Inr res))
    (\<lambda>_ u. after_run ?m w u) w"
    by (rule apply_profile_toggles_wp [OF assms])
      (auto simp: run_executor_def wp_simps after_run_def split: sum.split)
  then show ?thesis
    unfolding execute_message_def Let_def count_execution_def wp_bindm wp_attempt
    by (rule wp_mono) (auto simp: wp_simps after_run_def)
qed

text \<open>The runs a message has left: one at least, even past its last attempt.\<close>

definition budget :: "envelope \<Rightarrow> nat" where
  "budget e = nat (max 1 (qm_max_attempts (en_message e) - en_attempt e + 1))"

definition budgets :: "worker \<Rightarrow> nat" where
  "budgets w = sum_list (map budget (wk_queue w))"

definition polled :: "worker \<Rightarrow> worker \<Rightarrow> bool \<Rightarrow> bool" where
  "polled w u b = (map_of (wk_environ u) = map_of (wk_environ w) \<and>
     (\<exists>rs. wk_runs u = wk_runs w @ rs \<and> length rs + budgets u \<le> budgets w) \<and>
     (\<forall>t. map_of (wk_inflight w) t = None \<longrightarrow> map_of (wk_inflight u) t = None) \<and>
     (b \<longrightarrow> budgets u < budgets w) \<and> (\<not> b \<longrightarrow> wk_queue w = [] \<and> wk_queue u = []))"

lemma budget_pos: "0 < budget e"
  by (simp add: budget_def)

text \<open>Whatever becomes of the message at the head of the queue, the poll made progress.\<close>

lemma polled_run:
  assumes "after_run (en_message e) v u" and "wk_queue w = e # wk_queue v"
    and "wk_inflight v = AList.update (en_tag e) e (wk_inflight w)" "wk_environ v = wk_environ w" "wk_runs v = wk_runs w"
    and "wk_inflight t = AList.delete (en_tag e) (wk_inflight u)" "wk_environ t = wk_environ u" "wk_runs t = wk_runs u"
    and "wk_queue t = wk_queue u \<or> en_attempt e < qm_max_attempts (en_message e) \<and>
      wk_queue t = wk_queue u @ [e\<lparr>en_attempt := en_attempt e + 1\<rparr>]"
  shows "polled w t True"
  using assms budget_pos [of e]
  by (auto simp: after_run_def polled_def budgets_def budget_def split: if_splits)

lemma purge_wp: "wp (purge_completed env) Q E w =
    Q () (w\<lparr>wk_ticks := Suc (wk_ticks w),
      wk_completed := filter (\<lambda>(_, expires). \<not> expires \<le> wv_clock env (wk_ticks w)) (wk_completed w)\<rparr>)"
  by (simp add: purge_completed_def monotonic_def wp_simps)

lemma wp_receive:
  "wp (receive timeout) Q E w = (case wk_queue w of
     [] \<Rightarrow> Q None (if timeout \<noteq> 0 then w\<lparr>wk_pauses := wk_pauses w @ [timeout]\<rparr> else w)
   | e # es \<Rightarrow> Q (Some e) (w\<lparr>wk_queue := es, wk_inflight := AList.update (en_tag e) e (wk_inflight w)\<rparr>))"
  by (simp add: receive_def pause_def wp_simps split: list.split)

lemma wp_is_completed:
  "wp (is_completed env key) Q E w = (let u = w\<lparr>wk_ticks := Suc (wk_ticks w),
      wk_completed := filter (\<lambda>(_, expires). \<not> expires \<le> wv_clock env (wk_ticks w)) (wk_completed w)\<rparr>
    in Q (map_of (wk_completed u) key \<noteq> None) u)"
  by (simp add: is_completed_def wp_thenm purge_wp wp_ops Let_def)

lemma wp_mark_completed:
  "wp (mark_completed env key ttl) Q E w = Q () (w\<lparr>wk_ticks := Suc (Suc (wk_ticks w)),
      wk_completed := AList.update key (wv_clock env (Suc (wk_ticks w)) + ttl * 1000000)
        (filter (\<lambda>(_, expires). \<not> expires \<le> wv_clock env (wk_ticks w)) (wk_completed w))\<rparr>)"
  by (simp add: mark_completed_def monotonic_def wp_thenm wp_bindm purge_wp wp_ops)

text \<open>An unexpired entry of key \<open>k\<close>, and what a poll does to it while its time is not over.\<close>

definition remembered :: "worker_env \<Rightarrow> string \<Rightarrow> int \<Rightarrow> worker \<Rightarrow> worker \<Rightarrow> bool" where
  "remembered env k x w u = (wk_ticks w \<le> wk_ticks u \<and>
     (map_of (wk_completed w) k = Some x \<longrightarrow> (\<forall>i. wk_ticks w \<le> i \<and> i < wk_ticks u \<longrightarrow> wv_clock env i < x) \<longrightarrow>
       map_of (wk_completed u) k = Some x \<and>
       (\<exists>rs. wk_runs u = wk_runs w @ rs \<and> (\<forall>r \<in> set rs. qm_key (rn_message r) \<noteq> Some k))))"

lemma map_of_unexpired:
  "map_of d k = Some x \<Longrightarrow> now < x \<Longrightarrow> map_of (filter (\<lambda>(_, expires). \<not> expires \<le> now) d) k = Some (x :: int)"
  by (induction d) auto

lemma poll_once_wp:
  assumes "environ_ok (wk_environ w)" and "k \<noteq> []"
  shows "wp (poll_once env) (\<lambda>b u. polled w u b \<and> remembered env k x w u) (\<lambda>_ _. False) w"
proof (cases "wk_queue w")
  case Nil
  then show ?thesis
    by (auto simp: poll_once_def receive_def update_queue_depth_def pause_def wp_simps polled_def remembered_def budgets_def)
next
  case (Cons e es)
  let ?r = "w\<lparr>wk_queue := es, wk_inflight := AList.update (en_tag e) e (wk_inflight w), wk_depth := length es\<rparr>"
  let ?m = "en_message e"
  have fresh: "budgets w = budget e + sum_list (map budget es)" by (simp add: budgets_def Cons)
  have run: "wp (bindm (attempt (execute_message env e)) (\<lambda>outcome. case outcome of
              Inl _ \<Rightarrow> thenm (handle_failure e) (ret True)
            | Inr r \<Rightarrow> if jr_ok r then thenm (handle_success env e) (ret True)
                else thenm (handle_failure e) (ret True)))
      (\<lambda>b u. polled w u b \<and> remembered env k x w u) (\<lambda>_ _. False) v"
    if v: "v = ?r\<lparr>wk_ticks := t, wk_completed := c\<rparr>" and t: "wk_ticks w \<le> t"
      and c: "map_of (wk_completed w) k = Some x \<Longrightarrow> (\<forall>i. wk_ticks w \<le> i \<and> i < t \<longrightarrow> wv_clock env i < x) \<Longrightarrow>
        map_of c k = Some x \<and> qm_key ?m \<noteq> Some k" for v t c
  proof -
    have ok: "environ_ok (wk_environ v)" using assms(1) v by simp
    have kept: "remembered env k x w u'"
      if u: "after_run ?m v u" and u': "wk_runs u' = wk_runs u" "wk_ticks u \<le> wk_ticks u'"
        and c': "map_of (wk_completed u) k = Some x \<Longrightarrow> (\<forall>i. wk_ticks u \<le> i \<and> i < wk_ticks u' \<longrightarrow> wv_clock env i < x) \<Longrightarrow>
          qm_key ?m \<noteq> Some k \<Longrightarrow> map_of (wk_completed u') k = Some x" for u u'
      unfolding remembered_def
    proof (intro conjI impI)
      show "wk_ticks w \<le> wk_ticks u'" using u u'(2) v t by (simp add: after_run_def)
      assume k: "map_of (wk_completed w) k = Some x" "\<forall>i. wk_ticks w \<le> i \<and> i < wk_ticks u' \<longrightarrow> wv_clock env i < x"
      have tu: "wk_ticks u = t" "wk_completed u = c" using u v by (simp_all add: after_run_def)
      have "map_of c k = Some x \<and> qm_key ?m \<noteq> Some k" using k u'(2) tu by (intro c) auto
      with k tu t show "map_of (wk_completed u') k = Some x" by (intro c') auto
      from u v u'(1) obtain rs where "wk_runs u' = wk_runs w @ rs" "\<forall>r \<in> set rs. rn_message r = ?m"
        by (auto simp: after_run_def)
      with \<open>map_of c k = Some x \<and> qm_key ?m \<noteq> Some k\<close>
      show "\<exists>rs. wk_runs u' = wk_runs w @ rs \<and> (\<forall>r \<in> set rs. qm_key (rn_message r) \<noteq> Some k)" by auto
    qed
    have fail: "wp (thenm (handle_failure e) (ret True)) (\<lambda>b u. polled w u b \<and> remembered env k x w u) (\<lambda>_ _. False) u"
      if u: "after_run ?m v u" for u
      using polled_run [OF u, of w] kept [OF u] v Cons
      by (auto simp: handle_failure_def Let_def reject_def requeue_def wp_simps)
    have succeed: "wp (thenm (handle_success env e) (ret True)) (\<lambda>b u. polled w u b \<and> remembered env k x w u) (\<lambda>_ _. False) u"
      if u: "after_run ?m v u" for u
      using polled_run [OF u, of w] kept [OF u] v Cons
      by (auto simp: handle_success_def ack_def wp_simps wp_mark_completed map_of_unexpired split: option.split)
    show ?thesis
      unfolding wp_bindm wp_attempt
      by (rule wp_mono [OF execute_message_wp [OF ok]]) (auto intro!: fail succeed)
  qed
  let ?X = "bindm (attempt (execute_message env e)) (\<lambda>outcome. case outcome of
              Inl _ \<Rightarrow> thenm (handle_failure e) (ret True)
            | Inr r \<Rightarrow> if jr_ok r then thenm (handle_success env e) (ret True)
                else thenm (handle_failure e) (ret True))"
  let ?post = "\<lambda>b u. polled w u b \<and> remembered env k x w u"
  have branch: "wp (bindm (case qm_key ?m of None \<Rightarrow> ret False
        | Some key \<Rightarrow> if key = [] then ret False else is_completed env key)
      (\<lambda>skip. if skip then thenm (ack e) (ret True) else ?X)) ?post (\<lambda>_ _. False) ?r"
  proof (cases "qm_key ?m = None \<or> qm_key ?m = Some []")
    case True
    have "wp ?X ?post (\<lambda>_ _. False) ?r"
      by (rule run [where t = "wk_ticks w" and c = "wk_completed w"]) (use True assms(2) in auto)
    with True show ?thesis by (auto simp: wp_bindm wp_ops)
  next
    case False
    then obtain key where key: "qm_key ?m = Some key" "key \<noteq> []" by auto
    let ?c = "filter (\<lambda>(_, expires). \<not> expires \<le> wv_clock env (wk_ticks w)) (wk_completed w)"
    let ?v = "?r\<lparr>wk_ticks := Suc (wk_ticks w), wk_completed := ?c\<rparr>"
    have live: "map_of ?c k = Some x" if "map_of (wk_completed w) k = Some x" "wv_clock env (wk_ticks w) < x"
      using that by (rule map_of_unexpired)
    show ?thesis
    proof (cases "map_of ?c key")
      case None
      have "wp ?X ?post (\<lambda>_ _. False) ?v"
      proof (rule run [OF refl])
        assume "map_of (wk_completed w) k = Some x" "\<forall>i. wk_ticks w \<le> i \<and> i < Suc (wk_ticks w) \<longrightarrow> wv_clock env i < x"
        then have "map_of ?c k = Some x" by (intro live) auto
        with None key show "map_of ?c k = Some x \<and> qm_key ?m \<noteq> Some k" by auto
      qed simp
      with None key show ?thesis by (simp add: wp_bindm wp_is_completed Let_def)
    next
      case (Some y)
      have "remembered env k x w (?v\<lparr>wk_inflight := AList.delete (en_tag e) (wk_inflight ?v)\<rparr>)"
        using live by (auto simp: remembered_def)
      moreover have "polled w (?v\<lparr>wk_inflight := AList.delete (en_tag e) (wk_inflight ?v)\<rparr>) True"
        using fresh budget_pos [of e] by (auto simp: polled_def budgets_def)
      ultimately show ?thesis using Some key by (simp add: wp_bindm wp_is_completed Let_def wp_thenm wp_ops ack_def)
    qed
  qed
  from branch show ?thesis
    unfolding poll_once_def update_queue_depth_def wp_bindm [of "receive _"] wp_receive Cons list.case wp_thenm [of "modify _"]
      wp_ops option.case by simp
qed

section \<open>The queue drains\<close>

lemma environ_ok_cong: "map_of v = map_of u \<Longrightarrow> environ_ok v = environ_ok u"
  by (simp add: environ_ok_def)

lemma poll_once_run:
  assumes "environ_ok (wk_environ w)" and "k \<noteq> []"
  obtains b u where "poll_once env w = (Inr b, u)" "polled w u b" "remembered env k x w u" "environ_ok (wk_environ u)"
proof -
  obtain r u where run: "poll_once env w = (r, u)" by (cases "poll_once env w")
  from wp_run [OF poll_once_wp [OF assms, where x = x] run] obtain b where b: "r = Inr b" "polled w u b" "remembered env k x w u"
    by (cases r) auto
  then have "map_of (wk_environ u) = map_of (wk_environ w)" by (simp add: polled_def)
  with assms(1) have "environ_ok (wk_environ u)" using environ_ok_cong by blast
  with run b that show ?thesis by blast
qed

definition drained :: "worker \<Rightarrow> worker \<Rightarrow> bool" where
  "drained w u = (wk_queue u = [] \<and> map_of (wk_environ u) = map_of (wk_environ w) \<and>
     (\<forall>t. map_of (wk_inflight w) t = None \<longrightarrow> map_of (wk_inflight u) t = None) \<and>
     (\<exists>rs. wk_runs u = wk_runs w @ rs \<and> length rs \<le> budgets w))"

lemma drained_polled: "polled w v b \<Longrightarrow> drained v u \<Longrightarrow> drained w u"
  by (auto simp: polled_def drained_def)

lemma polled_pause: "polled w u b \<Longrightarrow> polled w (u\<lparr>wk_pauses := ps\<rparr>) b"
  by (simp add: polled_def budgets_def)

lemma run_consumer_returns:
  "environ_ok (wk_environ w) \<Longrightarrow> (\<And>i. N \<le> i \<Longrightarrow> stop i) \<Longrightarrow> N - n + budgets w < fuel \<Longrightarrow>
    \<exists>i u. run_consumer env stop n fuel w = (Inr (Some i), u) \<and> drained w u"
proof (induction fuel arbitrary: n w)
  case 0
  then show ?case by simp
next
  case (Suc fuel)
  obtain b v where v: "poll_once env w = (Inr b, v)" "polled w v b" "environ_ok (wk_environ v)"
    by (rule poll_once_run [OF Suc.prems(1), of "''k''" env 0]) auto
  show ?case
  proof (cases "stop n \<and> \<not> b")
    case True
    with v(2) have "drained w v" by (auto simp: polled_def drained_def budgets_def)
    with True v(1) show ?thesis by (simp add: bindm_def op_run)
  next
    case False
    let ?v = "if b then v else v\<lparr>wk_pauses := wk_pauses v @ [wv_idle_sleep env]\<rparr>"
    have p: "polled w ?v b" using v(2) by (cases b) (simp_all add: polled_pause)
    have "N - Suc n + budgets ?v < fuel"
    proof (cases b)
      case True
      then have "budgets v < budgets w" using v(2) by (simp add: polled_def)
      with True Suc.prems(3) show ?thesis by simp
    next
      case f: False
      then have "n < N" using False Suc.prems(2) [of n] by (cases "N \<le> n") auto
      moreover have "budgets ?v = 0" using f p by (simp add: polled_def budgets_def)
      ultimately show ?thesis using Suc.prems(3) by simp
    qed
    moreover have "environ_ok (wk_environ ?v)" using v(3) by simp
    ultimately obtain i u where u: "run_consumer env stop (Suc n) fuel ?v = (Inr (Some i), u)" "drained ?v u"
      using Suc.IH [of ?v "Suc n"] Suc.prems(2) by blast
    have "run_consumer env stop n (Suc fuel) w = run_consumer env stop (Suc n) fuel ?v"
      using False v(1) by (auto simp: bindm_def thenm_def whenm_def pause_def op_run)
    with u drained_polled [OF p] show ?thesis by auto
  qed
qed

text \<open>
  C25: The consumer comes to an end and leaves nothing behind: once it is told to stop, from poll \<open>N\<close> on,
  it returns after at most as many further polls as its messages have attempts left, whatever the
  executors do and whenever it is asked. Then the queue is empty, nothing new is in flight, every
  environment variable is as it was, and no more runs were started than attempts were left.
\<close>

theorem consumer_drains_its_queue:
  assumes "environ_ok (wk_environ w)" and "\<And>i. N \<le> i \<Longrightarrow> stop i" and "N + budgets w < fuel"
  shows "\<exists>i u. run_consumer env stop 0 fuel w = (Inr (Some i), u) \<and> wk_queue u = [] \<and>
    map_of (wk_environ u) = map_of (wk_environ w) \<and>
    (\<forall>t. map_of (wk_inflight w) t = None \<longrightarrow> map_of (wk_inflight u) t = None) \<and>
    (\<exists>rs. wk_runs u = wk_runs w @ rs \<and> length rs \<le> budgets w)"
  using run_consumer_returns [of w N stop 0 fuel env] assms unfolding drained_def by simp

section \<open>Idempotency\<close>

fun poll_times :: "worker_env \<Rightarrow> nat \<Rightarrow> unit worker_op" where
  "poll_times env 0 = ret ()"
| "poll_times env (Suc n) = thenm (poll_once env) (poll_times env n)"

lemma poll_times_remember:
  assumes "k \<noteq> []"
  shows "environ_ok (wk_environ w) \<Longrightarrow> \<exists>u. poll_times env n w = (Inr (), u) \<and> remembered env k x w u"
proof (induction n arbitrary: w)
  case 0
  show ?case by (simp add: remembered_def op_run)
next
  case (Suc n)
  obtain b v where v: "poll_once env w = (Inr b, v)" "remembered env k x w v" "environ_ok (wk_environ v)"
    using poll_once_run [OF Suc.prems assms, of env x] by blast
  from Suc.IH [OF v(3)] obtain u where u: "poll_times env n v = (Inr (), u)" "remembered env k x v u" by blast
  have "remembered env k x w u" using v(2) u(2) unfolding remembered_def by fastforce
  with v(1) u(1) show ?case by (simp add: thenm_def bindm_def)
qed

text \<open>A successful run files its key until its lifetime is over.\<close>

lemma success_marks:
  assumes "qm_key (en_message e) = Some k" and "k \<noteq> []"
  shows "wp (handle_success env e) (\<lambda>_ u. map_of (wk_completed u) k =
      Some (wv_clock env (wk_ticks u - 1) + qm_ttl (en_message e) * 1000000)) (\<lambda>_ _. False) w"
  using assms by (simp add: handle_success_def ack_def wp_simps wp_mark_completed)

text \<open>
  C26: A job is not done twice: once a message with an idempotency key was handled as a success, no run of
  a message with the same key is started, however often the queue is polled and whatever it holds, as
  long as the clock shows less than the time of that success plus the lifetime of the key.
\<close>

theorem completed_key_is_not_run_again:
  assumes "qm_key (en_message e) = Some k" and "k \<noteq> []" and "environ_ok (wk_environ w)"
    and "handle_success env e w = (Inr u, v)"
    and "x = wv_clock env (wk_ticks v - 1) + qm_ttl (en_message e) * 1000000"
    and "poll_times env n v = (r, t)" and "\<And>i. wk_ticks v \<le> i \<Longrightarrow> i < wk_ticks t \<Longrightarrow> wv_clock env i < x"
  shows "r = Inr () \<and> (\<exists>rs. wk_runs t = wk_runs v @ rs \<and> (\<forall>r \<in> set rs. qm_key (rn_message r) \<noteq> Some k))"
proof -
  have "map_of (wk_completed v) k = Some x"
    using wp_run [OF success_marks [OF assms(1,2), of env w] assms(4)] assms(5) by simp
  moreover have "wk_environ v = wk_environ w"
    using assms(4) by (auto simp: handle_success_def ack_def mark_completed_def purge_completed_def monotonic_def whenm_def
        bindm_def thenm_def modify_def gets_def ret_def split: option.splits if_splits)
  moreover obtain t' where "poll_times env n v = (Inr (), t')" "remembered env k x v t'"
    using poll_times_remember [OF assms(2), of v env n x] assms(3) calculation by auto
  ultimately show ?thesis using assms(6,7) by (auto simp: remembered_def)
qed

section \<open>The properties at work\<close>

definition demo_job :: job where
  "demo_job = \<lparr>jb_url = ''https://example.com/'', jb_http_proxy = None, jb_https_proxy = None, jb_socks_proxy = None,
     jb_timeout_sec = 60, jb_url_source = ''https://example.com''\<rparr>"

definition demo_message :: "int \<Rightarrow> queue_message" where
  "demo_message attempts = \<lparr>qm_job = demo_job, qm_mode = ''native'', qm_max_attempts = attempts, qm_key = Some ''k'', qm_ttl = 1,
     qm_metadata = [], qm_toggles = [(''trace'', PInt 1)]\<rparr>"

text \<open>An executor that fails the first run and succeeds afterwards.\<close>

definition demo_worker_env :: worker_env where
  "demo_worker_env = \<lparr>wv_executor = (\<lambda>runs r. if runs = [] then Inl (OtherError ''crashed'')
       else Inr \<lparr>jr_job = demo_job, jr_status = JobSUCCESS, jr_ok = True, jr_started_at = Aware 0, jr_finished_at = Aware 1,
         jr_metrics = \<lparr>jm_duration = 1, jm_extra = []\<rparr>, jr_title = None, jr_error = None\<rparr>),
     wv_defaults = [], wv_receive_timeout = 1, wv_idle_sleep = 1, wv_clock = int\<rparr>"

definition demo_worker :: worker where
  "demo_worker = \<lparr>wk_queue = [\<lparr>en_tag = ''msg-1'', en_message = demo_message 3, en_attempt = 1\<rparr>,
       \<lparr>en_tag = ''msg-2'', en_message = demo_message 1, en_attempt = 1\<rparr>],
     wk_inflight = [], wk_completed = [], wk_environ = [(''HOME'', ''/root'')], wk_executions = [], wk_retries = [],
     wk_drops = [], wk_depth = 0, wk_runs = [], wk_pauses = [], wk_ticks = 0\<rparr>"

lemma demo_environ_ok: "environ_ok (wk_environ demo_worker)"
  by (auto simp: environ_ok_def demo_worker_def settable_def split: if_splits)

lemma consumer_drains_its_queue_witness:
  "\<exists>i u. run_consumer demo_worker_env (\<lambda>i. 2 \<le> i) 0 7 demo_worker = (Inr (Some i), u) \<and> wk_queue u = [] \<and>
     map_of (wk_environ u) ''HOME'' = Some ''/root''"
proof -
  have "budgets demo_worker = 4" by code_simp
  then show ?thesis
    using consumer_drains_its_queue [of demo_worker 2 "\<lambda>i. 2 \<le> i" 7 demo_worker_env] demo_environ_ok
    by (auto simp: demo_worker_def)
qed

definition demo_done :: worker where
  "demo_done = snd (handle_success demo_worker_env (hd (wk_queue demo_worker)) demo_worker)"

lemma demo_done_run:
  "handle_success demo_worker_env (hd (wk_queue demo_worker)) demo_worker = (Inr (), demo_done)"
  "wk_ticks demo_done = 2" "length (wk_queue demo_done) = 2"
  by code_simp+

lemma demo_done_polls: "wk_ticks (snd (poll_times demo_worker_env 2 demo_done)) = 4"
  by code_simp

text \<open>Both queued messages carry the completed key: two polls start no run.\<close>

lemma completed_key_is_not_run_again_witness:
  "\<exists>t rs. poll_times demo_worker_env 2 demo_done = (Inr (), t) \<and> wk_runs t = wk_runs demo_done @ rs \<and>
     (\<forall>r \<in> set rs. qm_key (rn_message r) \<noteq> Some ''k'')"
proof -
  obtain r t where run: "poll_times demo_worker_env 2 demo_done = (r, t)" by (cases "poll_times demo_worker_env 2 demo_done")
  have ticks: "wk_ticks t = 4" using demo_done_polls run by simp
  have "qm_key (en_message (hd (wk_queue demo_worker))) = Some ''k''" "qm_ttl (en_message (hd (wk_queue demo_worker))) = 1"
    by (simp_all add: demo_worker_def demo_message_def)
  with completed_key_is_not_run_again [OF _ _ demo_environ_ok demo_done_run(1) refl run, of "''k''"] show ?thesis
    using run ticks by (auto simp: demo_done_run(2) demo_worker_env_def)
qed

end
