(* ===== verification/Worker_Orchestrator.thy ===== *)
theory Worker_Orchestrator
  imports Worker_Queue Runner_Client
begin

text \<open>
  The worker's orchestrated jobs (\<open>services/camoufox_worker/worker/runner_orch.py\<close>): requests to the
  gateway with retries, polling a session until it is ready, and the job that creates a session, uses
  it and deletes it again; with the executor that runs it for the queue (\<open>worker/queue.py\<close>).
\<close>

declare map_of_eq_Some_iff [simp del] Some_eq_map_of_iff [simp del]

section \<open>State and surroundings\<close>

text \<open>
  What a job did so far: the requests sent, the sleeps taken (microseconds), how many clock readings, and
  the extra metrics collected. Around it: the gateway, the two clocks by reading, and the settings every
  call of the job is given.
\<close>

record orch =
  oc_sent :: "http_request list"
  oc_sleeps :: "int list"
  oc_ticks :: nat
  oc_extra :: "(string, pyval) dict"

record orch_env =
  oe_base :: url
  oe_server :: http_server
  oe_perf :: "nat \<Rightarrow> int"
  oe_now :: "nat \<Rightarrow> datetime"
  oe_iso :: "datetime \<Rightarrow> string"
  oe_float :: "int \<Rightarrow> string"
  oe_retries :: int
  oe_backoff :: int
  oe_poll_interval :: int
  oe_poll_timeout :: int

type_synonym 'a orch_op = "(orch, 'a) op"

abbreviation on_gateway :: "'a http_op \<Rightarrow> 'a orch_op" where
  "on_gateway \<equiv> zoom oc_sent (\<lambda>v w. w\<lparr>oc_sent := v\<rparr>)"

definition tick :: "nat orch_op" where
  "tick = bindm (gets oc_ticks) (\<lambda>n. thenm (modify (\<lambda>w. w\<lparr>oc_ticks := Suc n\<rparr>)) (ret n))"

definition perf_counter :: "orch_env \<Rightarrow> int orch_op" where
  "perf_counter env = bindm tick (\<lambda>n. ret (oe_perf env n))"

definition utc_now :: "orch_env \<Rightarrow> datetime orch_op" where
  "utc_now env = bindm tick (\<lambda>n. ret (oe_now env n))"

definition orch_sleep :: "int \<Rightarrow> unit orch_op" where
  "orch_sleep t = modify (\<lambda>w. w\<lparr>oc_sleeps := oc_sleeps w @ [t]\<rparr>)"

definition put_extra :: "string \<Rightarrow> pyval \<Rightarrow> unit orch_op" where
  "put_extra k v = modify (\<lambda>w. w\<lparr>oc_extra := AList.update k v (oc_extra w)\<rparr>)"

section \<open>Requests with retries\<close>

definition retry_status_codes :: "nat set" where
  "retry_status_codes = {500, 502, 503, 504}"

definition gateway_request :: "orch_env \<Rightarrow> string \<Rightarrow> string \<Rightarrow> pyval option \<Rightarrow> http_request" where
  "gateway_request env verb path json =
     \<lparr>rq_base = oe_base env, rq_method = verb, rq_path = path, rq_json = json\<rparr>"

text \<open>
  \<open>_request_with_retry\<close>: \<open>request_loop env rq expected k n\<close> is the loop before request number \<open>n\<close>, with
  \<open>k\<close> requests left by the bound \<open>attempt <= retries\<close>. The loop leaves through a return or an exception in
  its last round, so the assertion after it is reached only when the number of retries is negative.
\<close>

fun request_loop :: "orch_env \<Rightarrow> http_request \<Rightarrow> nat set \<Rightarrow> nat \<Rightarrow> nat \<Rightarrow> pyval option orch_op" where
  "request_loop env rq expected 0 n = raise AssertionError"
| "request_loop env rq expected (Suc k) n =
     bindm (on_gateway (send (oe_server env) rq)) (\<lambda>answer. case answer of
       Answer code body \<Rightarrow>
         if code \<in> expected then ret body
         else if code < 400 then raise (GatewayRequestError
           (''Unexpected status '' @ nat_str code @ '' for '' @ rq_method rq @ '' '' @ rq_path rq))
         else if code \<in> retry_status_codes \<and> 0 < k
         then thenm (orch_sleep (oe_backoff env * 2 ^ n)) (request_loop env rq expected k (Suc n))
         else raise (GatewayRequestError (''Gateway rejected '' @ rq_method rq @ '' '' @ rq_path rq @
           '' with status '' @ nat_str code))
     | NoAnswer m \<Rightarrow>
         if 0 < k then thenm (orch_sleep (oe_backoff env * 2 ^ n)) (request_loop env rq expected k (Suc n))
         else raise (GatewayRequestError (''Failed to execute '' @ rq_method rq @ '' '' @ rq_path rq @
           '': '' @ m)))"

definition request_with_retry ::
  "orch_env \<Rightarrow> string \<Rightarrow> string \<Rightarrow> pyval option \<Rightarrow> nat set \<Rightarrow> pyval option orch_op" where
  "request_with_retry env verb path json expected =
     request_loop env (gateway_request env verb path json) expected (nat (oe_retries env + 1)) 0"

text \<open>\<open>response.json()\<close>.\<close>

definition response_json :: "pyval option \<Rightarrow> pyval orch_op" where
  "response_json body = (case body of None \<Rightarrow> raise (ValueError ''Expecting value'') | Some v \<Rightarrow> ret v)"

definition orch_create_session :: "orch_env \<Rightarrow> (string, pyval) dict \<Rightarrow> pyval orch_op" where
  "orch_create_session env payload =
     bindm (request_with_retry env ''POST'' ''/sessions/commands'' (Some (PDict payload)) {201}) response_json"

definition orch_update_session_proxy :: "orch_env \<Rightarrow> string \<Rightarrow> (string, pyval) dict \<Rightarrow> pyval orch_op" where
  "orch_update_session_proxy env sid proxy =
     bindm (request_with_retry env ''POST'' (''/sessions/'' @ sid @ ''/proxy'') (Some (PDict proxy)) {200})
       response_json"

definition orch_touch_session :: "orch_env \<Rightarrow> string \<Rightarrow> datetime option \<Rightarrow> pyval orch_op" where
  "orch_touch_session env sid timestamp =
     bindm (case timestamp of Some t \<Rightarrow> ret t | None \<Rightarrow> utc_now env) (\<lambda>t.
     bindm (request_with_retry env ''POST'' (''/sessions/'' @ sid @ ''/touch'')
       (Some (PDict [(''timestamp'', PStr (oe_iso env t))])) {200}) response_json)"

definition orch_delete_session :: "orch_env \<Rightarrow> string \<Rightarrow> unit orch_op" where
  "orch_delete_session env sid =
     bindm (request_with_retry env ''DELETE'' (''/sessions/'' @ sid) None {204, 404}) (\<lambda>_. ret ())"

definition tuple_repr :: "string list \<Rightarrow> string" where
  "tuple_repr xs = ''('' @ join_with '', '' (map repr_string xs) @ (if length xs = 1 then '','' else []) @ '')''"

text \<open>
  \<open>poll_session_status\<close> counts its requests from one; \<open>None\<close>: still polling after the rounds given.
\<close>

fun poll_loop :: "orch_env \<Rightarrow> string \<Rightarrow> string list \<Rightarrow> int \<Rightarrow> nat \<Rightarrow> nat \<Rightarrow>
    ((string, pyval) dict \<times> nat) option orch_op" where
  "poll_loop env sid targets start attempts 0 = ret None"
| "poll_loop env sid targets start attempts (Suc fuel) =
     bindm (request_with_retry env ''GET'' (''/sessions/'' @ sid) None {200}) (\<lambda>body.
     bindm (response_json body) (\<lambda>payload. case payload of
       PDict d \<Rightarrow>
         if upper (py_str (case map_of d ''status'' of None \<Rightarrow> PStr [] | Some v \<Rightarrow> v)) \<in> set (map upper targets)
         then ret (Some (d, Suc attempts))
         else bindm (perf_counter env) (\<lambda>now.
           if oe_poll_timeout env \<le> now - start
           then raise (AsyncTimeoutError (''Timed out after '' @ oe_float env (oe_poll_timeout env) @
             ''s waiting for status in '' @ tuple_repr targets))
           else thenm (orch_sleep (oe_poll_interval env))
             (poll_loop env sid targets start (Suc attempts) fuel))
     | _ \<Rightarrow> raise (OtherError ''AttributeError'')))"

definition poll_session_status :: "orch_env \<Rightarrow> string \<Rightarrow> string list \<Rightarrow> nat \<Rightarrow>
    ((string, pyval) dict \<times> nat) option orch_op" where
  "poll_session_status env sid targets fuel =
     bindm (perf_counter env) (\<lambda>start. poll_loop env sid targets start 0 fuel)"

section \<open>The job\<close>

definition job_to_proxy_payload :: "job \<Rightarrow> (string, pyval) dict" where
  "job_to_proxy_payload j = concat (map (\<lambda>(k, v). case v of None \<Rightarrow> [] | Some s \<Rightarrow> if s = [] then [] else [(k, PStr s)])
     [(''http'', jb_http_proxy j), (''https'', jb_https_proxy j), (''socks'', jb_socks_proxy j)])"

definition job_ttl :: "job \<Rightarrow> int option \<Rightarrow> int" where
  "job_ttl j idle_ttl = max 30 (min (case idle_ttl of Some t \<Rightarrow> t | None \<Rightarrow> jb_timeout_sec j) 3600)"

definition job_to_session_payload :: "job \<Rightarrow> int option \<Rightarrow> (string, pyval) dict" where
  "job_to_session_payload j idle_ttl =
     [(''browser'', PStr ''camoufox''), (''headless'', PBool True), (''idle_ttl_seconds'', PInt (job_ttl j idle_ttl)),
      (''start_url'', PStr (jb_url_source j)), (''labels'', PDict [(''worker_mode'', PStr ''orchestrator'')]),
      (''metadata'', PDict [(''job_timeout_sec'', PInt (jb_timeout_sec j))])] @
     (if job_to_proxy_payload j = [] then [] else [(''proxy'', PDict (job_to_proxy_payload j))])"

text \<open>The id of the session the gateway created: an empty one, like none, means no session to look after.\<close>

definition opened_session :: "pyval \<Rightarrow> string option res" where
  "opened_session v = (case v of
     PDict d \<Rightarrow> Inr (case get_or_none d ''id'' of PNone \<Rightarrow> None | x \<Rightarrow> if py_str x = [] then None else Some (py_str x))
   | _ \<Rightarrow> Inl (OtherError ''AttributeError''))"

definition open_session :: "orch_env \<Rightarrow> job \<Rightarrow> int option \<Rightarrow> string option orch_op" where
  "open_session env j idle_ttl =
     bindm (orch_create_session env (job_to_session_payload j idle_ttl)) (\<lambda>v. lift_res (opened_session v))"

text \<open>\<open>if "last_seen_at" in touched\<close>, on whatever JSON value came back.\<close>

definition note_touched :: "pyval \<Rightarrow> unit orch_op" where
  "note_touched v = (case v of
     PDict d \<Rightarrow> (case map_of d ''last_seen_at'' of None \<Rightarrow> ret () | Some x \<Rightarrow> put_extra ''touched_at'' x)
   | PList vs \<Rightarrow> if PStr ''last_seen_at'' \<in> set vs then raise TypeError else ret ()
   | PStr s \<Rightarrow> if contains ''last_seen_at'' s then raise TypeError else ret ()
   | _ \<Rightarrow> raise TypeError)"

text \<open>What is done with an open session; \<open>False\<close>: still polling after the rounds given.\<close>

definition watch_session :: "orch_env \<Rightarrow> string \<Rightarrow> nat \<Rightarrow> bool orch_op" where
  "watch_session env sid fuel =
     bindm (poll_session_status env sid [''READY''] fuel) (\<lambda>polled. case polled of
        None \<Rightarrow> ret False
      | Some (d, attempts) \<Rightarrow>
          thenm (put_extra ''poll_attempts'' (PInt (int attempts)))
          (thenm (put_extra ''session_status'' (get_or_none d ''status''))
          (thenm (put_extra ''last_seen_at'' (get_or_none d ''last_seen_at''))
          (bindm (orch_touch_session env sid None) (\<lambda>touched.
           thenm (note_touched touched) (ret True))))))"

definition use_session :: "orch_env \<Rightarrow> job \<Rightarrow> string \<Rightarrow> nat \<Rightarrow> bool orch_op" where
  "use_session env j sid fuel =
     thenm (put_extra ''session_id'' (PStr sid))
     (thenm (whenm (job_to_proxy_payload j \<noteq> [])
       (bindm (orch_update_session_proxy env sid (job_to_proxy_payload j)) (\<lambda>_. ret ())))
     (watch_session env sid fuel))"

definition job_failure :: "string \<Rightarrow> string \<Rightarrow> job_error" where
  "job_failure t m = \<lparr>je_type = t, je_message = m, je_details = None\<rparr>"

text \<open>The \<open>except\<close> clauses: the errors that end the job as a failure; any other goes on.\<close>

fun caught :: "exn \<Rightarrow> job_error res" where
  "caught (AsyncTimeoutError m) = Inr (job_failure ''TimeoutError'' m)"
| "caught (GatewayRequestError m) = Inr (job_failure ''GatewayRequestError'' m)"
| "caught e = Inl e"

text \<open>The \<open>finally\<close> clause with a session: the error the job ends with, if any.\<close>

definition close_session :: "orch_env \<Rightarrow> string \<Rightarrow> job_error option \<Rightarrow> job_error option orch_op" where
  "close_session env sid err =
     bindm (attempt (orch_delete_session env sid)) (\<lambda>outcome. case outcome of
       Inr _ \<Rightarrow> ret err
     | Inl e \<Rightarrow> (case e of
         GatewayRequestError m \<Rightarrow> thenm (put_extra ''cleanup_error'' (PStr m))
           (ret (Some (case err of None \<Rightarrow> job_failure ''GatewayRequestError'' m | Some x \<Rightarrow> x)))
       | _ \<Rightarrow> raise e))"

text \<open>The result: the status is a failure exactly when there is an error.\<close>

definition finish_job :: "orch_env \<Rightarrow> job \<Rightarrow> datetime \<Rightarrow> int \<Rightarrow> job_error option \<Rightarrow> job_result orch_op" where
  "finish_job env j started_at started err =
     bindm (utc_now env) (\<lambda>finished_at.
     bindm (perf_counter env) (\<lambda>now.
     bindm (gets oc_extra) (\<lambda>extra.
     lift_res (make_job_result
       \<lparr>jr_job = j, jr_status = (if err = None then JobSUCCESS else JobFAILURE), jr_ok = (err = None),
        jr_started_at = started_at, jr_finished_at = finished_at,
        jr_metrics = \<lparr>jm_duration = now - started, jm_extra = extra\<rparr>, jr_title = None, jr_error = err\<rparr>))))"

text \<open>With a session: it is used, and deleted whatever happened.\<close>

definition run_with_session ::
  "orch_env \<Rightarrow> job \<Rightarrow> nat \<Rightarrow> string \<Rightarrow> (job_error option \<Rightarrow> job_result orch_op) \<Rightarrow> job_result option orch_op" where
  "run_with_session env j fuel sid finish =
     bindm (attempt (use_session env j sid fuel)) (\<lambda>used. case used of
       Inr ended \<Rightarrow> if \<not> ended then ret None
         else bindm (bindm (close_session env sid None) finish) (\<lambda>r. ret (Some r))
     | Inl e \<Rightarrow> (case caught e of
         Inl e \<Rightarrow> bindm (close_session env sid None) (\<lambda>_. raise e)
       | Inr err \<Rightarrow> bindm (bindm (close_session env sid (Some err)) finish) (\<lambda>r. ret (Some r))))"

definition run_orchestrated_job :: "orch_env \<Rightarrow> job \<Rightarrow> int option \<Rightarrow> nat \<Rightarrow> job_result option orch_op" where
  "run_orchestrated_job env j idle_ttl fuel =
     bindm (utc_now env) (\<lambda>started_at.
     bindm (perf_counter env) (\<lambda>started.
     thenm (modify (\<lambda>w. w\<lparr>oc_extra := [(''mode'', PStr ''orchestrator'')]\<rparr>))
     (bindm (attempt (open_session env j idle_ttl)) (\<lambda>opened. case opened of
        Inr (Some sid) \<Rightarrow> run_with_session env j fuel sid (finish_job env j started_at started)
      | Inr None \<Rightarrow> bindm (finish_job env j started_at started None) (\<lambda>r. ret (Some r))
      | Inl e \<Rightarrow> (case caught e of
          Inl e \<Rightarrow> raise e
        | Inr err \<Rightarrow> bindm (finish_job env j started_at started (Some err)) (\<lambda>r. ret (Some r)))))))"

section \<open>The executor of the queue\<close>

text \<open>
  \<open>connect\<close> gives the gateway behind a base URL for the bearer of a token, \<open>to_float\<close> reads seconds as
  microseconds; ten seconds, three retries and half a second of backoff are the defaults of the client.
\<close>

definition first_truthy :: "pyval option \<Rightarrow> string option \<Rightarrow> string option" where
  "first_truthy given fallback = (case given of
     Some v \<Rightarrow> if truthy v then Some (py_str v) else fallback | None \<Rightarrow> fallback)"

definition setting :: "(string, pyval) dict \<Rightarrow> string \<Rightarrow> environ \<Rightarrow> string \<Rightarrow> string \<Rightarrow> pyval" where
  "setting metadata k env variable d = (case map_of metadata k of
     Some v \<Rightarrow> v
   | None \<Rightarrow> (case map_of env variable of Some s \<Rightarrow> PStr s | None \<Rightarrow> PFloat d))"

definition default_orchestrator_executor ::
  "(string \<Rightarrow> string \<Rightarrow> http_server) \<Rightarrow> (pyval \<Rightarrow> int res) \<Rightarrow> environ \<Rightarrow> orch_env \<Rightarrow> job \<Rightarrow> (string, pyval) dict \<Rightarrow> nat \<Rightarrow>
    job_result option orch_op" where
  "default_orchestrator_executor connect to_float vars env j metadata fuel =
     (case (first_truthy (map_of metadata ''gateway_url'') (map_of vars ''GATEWAY_URL''),
            first_truthy (map_of metadata ''gateway_token'') (map_of vars ''GATEWAY_TOKEN'')) of
        (Some base, Some token) \<Rightarrow>
          if base = [] \<or> token = []
          then raise (OtherError ''Gateway URL and token are required for orchestrator mode'')
          else
            bindm (lift_res (to_float (setting metadata ''poll_timeout'' vars ''WORKER_POLL_TIMEOUT'' ''90.0''))) (\<lambda>timeout.
            bindm (lift_res (to_float (setting metadata ''poll_interval'' vars ''WORKER_POLL_INTERVAL'' ''1.0''))) (\<lambda>interval.
            run_orchestrated_job (env\<lparr>oe_base := base, oe_server := connect base token, oe_poll_timeout := timeout,
              oe_poll_interval := interval, oe_retries := 3, oe_backoff := 500000\<rparr>) j None fuel))
      | _ \<Rightarrow> raise (OtherError ''Gateway URL and token are required for orchestrator mode''))"

end
