(* ===== verification/Worker_Orchestrator_Props.thy ===== *)
theory Worker_Orchestrator_Props
  imports Worker_Orchestrator
begin

text \<open>
  What an orchestrated job does to the gateway: how often a request is repeated and after which sleeps,
  that a job comes to an end and leaves no session behind, and that the gateway refuses the session it
  asks for.
\<close>

declare map_of_eq_Some_iff [simp del] Some_eq_map_of_iff [simp del]

section \<open>One request with its retries\<close>

text \<open>
  \<open>nth_answer env rq s i\<close>: what the gateway says when the request is sent for the time \<open>i\<close> (from zero) and
  only it was sent since \<open>s\<close>.
\<close>

definition nth_answer :: "orch_env \<Rightarrow> http_request \<Rightarrow> orch \<Rightarrow> nat \<Rightarrow> http_answer" where
  "nth_answer env rq s i = oe_server env (oc_sent s @ replicate i rq) rq"

fun accepted :: "nat set \<Rightarrow> http_answer \<Rightarrow> bool" where
  "accepted expected (Answer code _) = (code \<in> expected)"
| "accepted expected (NoAnswer _) = False"

fun transient :: "nat set \<Rightarrow> http_answer \<Rightarrow> bool" where
  "transient expected (Answer code _) = (code \<in> retry_status_codes - expected)"
| "transient expected (NoAnswer _) = True"

lemma not_transient_accepted [simp]: "accepted ex a \<Longrightarrow> \<not> transient ex a"
  by (cases a) auto

text \<open>\<open>m\<close> times the request, all but the last with a transient failure, each followed by the doubled sleep.\<close>

definition repeated :: "orch_env \<Rightarrow> http_request \<Rightarrow> nat set \<Rightarrow> nat \<Rightarrow> nat \<Rightarrow> orch \<Rightarrow> orch \<Rightarrow> bool" where
  "repeated env rq expected n m s t \<longleftrightarrow>
     0 < m \<and> oc_sent t = oc_sent s @ replicate m rq \<and>
     oc_sleeps t = oc_sleeps s @ map (\<lambda>i. oe_backoff env * 2 ^ (n + i)) [0..<m - 1] \<and>
     oc_ticks t = oc_ticks s \<and> oc_extra t = oc_extra s \<and>
     (\<forall>i < m - 1. transient expected (nth_answer env rq s i))"

lemma repeated_once: "oc_sent t = oc_sent s @ [rq] \<Longrightarrow> oc_sleeps t = oc_sleeps s \<Longrightarrow> oc_ticks t = oc_ticks s \<Longrightarrow>
    oc_extra t = oc_extra s \<Longrightarrow> repeated env rq expected n 1 s t"
  by (simp add: repeated_def)

lemma repeated_more:
  assumes "repeated env rq expected (Suc n) m s' t" and "transient expected (nth_answer env rq s 0)"
    and "oc_sent s' = oc_sent s @ [rq]" "oc_sleeps s' = oc_sleeps s @ [oe_backoff env * 2 ^ n]"
    and "oc_ticks s' = oc_ticks s" "oc_extra s' = oc_extra s"
  shows "repeated env rq expected n (Suc m) s t"
proof -
  obtain k where m: "m = Suc k"
    using assms(1) by (cases m) (auto simp: repeated_def)
  have "map (\<lambda>i. oe_backoff env * 2 ^ (n + i)) [0..<Suc k] =
      oe_backoff env * 2 ^ n # map (\<lambda>i. oe_backoff env * 2 ^ (Suc n + i)) [0..<k]"
    by (simp add: upt_conv_Cons map_Suc_upt [symmetric] comp_def del: upt_Suc)
  moreover have "transient expected (nth_answer env rq s i)" if "i < Suc k" for i
    using that assms by (cases i) (auto simp: repeated_def nth_answer_def m)
  ultimately show ?thesis
    using assms by (auto simp: repeated_def m)
qed

lemma last_answer_more:
  "oc_sent s' = oc_sent s @ [rq] \<Longrightarrow> 0 < m \<Longrightarrow> nth_answer env rq s' (m - 1) = nth_answer env rq s m"
  by (cases m) (simp_all add: nth_answer_def)

lemma request_loop_wp:
  "0 < k \<Longrightarrow> wp (request_loop env rq expected k n)
    (\<lambda>body t. \<exists>m \<le> k. repeated env rq expected n m s t \<and>
       (\<exists>code \<in> expected. nth_answer env rq s (m - 1) = Answer code body))
    (\<lambda>e t. \<exists>m \<le> k. repeated env rq expected n m s t \<and> (\<exists>msg. e = GatewayRequestError msg) \<and>
       \<not> accepted expected (nth_answer env rq s (m - 1)) \<and>
       (transient expected (nth_answer env rq s (m - 1)) \<longrightarrow> m = k)) s"
proof (induction k arbitrary: n s)
  case (Suc k)
  define u where "u = s\<lparr>oc_sent := oc_sent s @ [rq]\<rparr>"
  define v where "v = u\<lparr>oc_sleeps := oc_sleeps u @ [oe_backoff env * 2 ^ n]\<rparr>"
  have u: "oc_sent u = oc_sent s @ [rq]" "oc_sleeps u = oc_sleeps s" "oc_ticks u = oc_ticks s"
    "oc_extra u = oc_extra s"
    by (simp_all add: u_def)
  have v: "oc_sent v = oc_sent s @ [rq]" "oc_sleeps v = oc_sleeps s @ [oe_backoff env * 2 ^ n]"
    "oc_ticks v = oc_ticks s" "oc_extra v = oc_extra s"
    by (simp_all add: v_def u)
  have once: "repeated env rq expected n 1 s u"
    by (rule repeated_once) (simp_all add: u)
  define a where "a = nth_answer env rq s 0"
  have again: "wp (request_loop env rq expected k (Suc n))
    (\<lambda>body t. \<exists>m \<le> Suc k. repeated env rq expected n m s t \<and>
       (\<exists>code \<in> expected. nth_answer env rq s (m - 1) = Answer code body))
    (\<lambda>e t. \<exists>m \<le> Suc k. repeated env rq expected n m s t \<and> (\<exists>msg. e = GatewayRequestError msg) \<and>
       \<not> accepted expected (nth_answer env rq s (m - 1)) \<and>
       (transient expected (nth_answer env rq s (m - 1)) \<longrightarrow> m = Suc k)) v"
    if "transient expected a" "0 < k"
  proof (rule wp_mono [OF Suc.IH [OF that(2)]], goal_cases)
    case (1 body t)
    then obtain m where m: "m \<le> k" "repeated env rq expected (Suc n) m v t"
      "\<exists>code \<in> expected. nth_answer env rq v (m - 1) = Answer code body" by blast
    then have "0 < m" by (simp add: repeated_def)
    then show ?case
      using m repeated_more [OF m(2) that(1) [unfolded a_def] v] last_answer_more [OF v(1) \<open>0 < m\<close>, of env]
      by (intro exI [of _ "Suc m"]) simp
  next
    case (2 e t)
    then obtain m where m: "m \<le> k" "repeated env rq expected (Suc n) m v t"
      "\<exists>msg. e = GatewayRequestError msg" "\<not> accepted expected (nth_answer env rq v (m - 1))"
      "transient expected (nth_answer env rq v (m - 1)) \<longrightarrow> m = k" by blast
    then have "0 < m" by (simp add: repeated_def)
    then show ?case
      using m repeated_more [OF m(2) that(1) [unfolded a_def] v] last_answer_more [OF v(1) \<open>0 < m\<close>, of env]
      by (intro exI [of _ "Suc m"]) simp
  qed
  have first: "oe_server env (oc_sent s) rq = a"
    by (simp add: a_def nth_answer_def)
  show ?case
  proof (cases a)
    case (NoAnswer msg)
    then have "transient expected a" by simp
    show ?thesis
    proof (cases "0 < k")
      case True
      then show ?thesis
        using again [OF \<open>transient expected a\<close> True] first NoAnswer
        by (simp add: wp_simps orch_sleep_def u_def v_def)
    next
      case False
      then show ?thesis
        using once first NoAnswer a_def
        by (simp add: wp_simps u_def [symmetric]) (rule exI [of _ 1], simp)
    qed
  next
    case (Answer code body)
    show ?thesis
    proof (cases "code \<in> expected")
      case True
      then show ?thesis
        using once first Answer a_def
        by (simp add: wp_simps u_def [symmetric]) (rule exI [of _ 1], simp)
    next
      case outside: False
      show ?thesis
      proof (cases "400 \<le> code \<and> code \<in> retry_status_codes \<and> 0 < k")
        case True
        then show ?thesis
          using again first Answer outside by (simp add: wp_simps orch_sleep_def u_def v_def)
      next
        case False
        have "code \<in> retry_status_codes \<Longrightarrow> 400 \<le> code"
          by (auto simp: retry_status_codes_def)
        with False have "\<not> code < 400 \<Longrightarrow> \<not> (code \<in> retry_status_codes \<and> 0 < k)"
          and "code \<in> retry_status_codes \<Longrightarrow> k = 0" by auto
        then show ?thesis
          using once first Answer a_def outside
          by (auto simp add: wp_simps u_def [symmetric] intro!: exI [of _ "Suc 0"])
      qed
    qed
  qed
qed simp

lemma request_with_retry_wp:
  assumes "0 \<le> oe_retries env"
  shows "wp (request_with_retry env verb path json expected)
    (\<lambda>body t. \<exists>m. int m \<le> oe_retries env + 1 \<and> repeated env (gateway_request env verb path json) expected 0 m s t \<and>
       (\<exists>code \<in> expected. nth_answer env (gateway_request env verb path json) s (m - 1) = Answer code body))
    (\<lambda>e t. \<exists>m. int m \<le> oe_retries env + 1 \<and> repeated env (gateway_request env verb path json) expected 0 m s t \<and>
       (\<exists>msg. e = GatewayRequestError msg) \<and>
       \<not> accepted expected (nth_answer env (gateway_request env verb path json) s (m - 1)) \<and>
       (transient expected (nth_answer env (gateway_request env verb path json) s (m - 1)) \<longrightarrow>
          int m = oe_retries env + 1)) s"
  unfolding request_with_retry_def
  by (rule wp_mono [OF request_loop_wp])
    (use assms in \<open>force simp: le_nat_iff nat_eq_iff2\<close>)+

section \<open>Calls about a session\<close>

text \<open>
  From \<open>s\<close> to \<open>t\<close> the job sent at most \<open>k\<close> requests with their retries, each about the session and none
  of them its deletion.
\<close>

definition session_request :: "orch_env \<Rightarrow> string \<Rightarrow> http_request \<Rightarrow> bool" where
  "session_request env sid rq \<longleftrightarrow> rq_base rq = oe_base env \<and> rq_method rq \<in> {''GET'', ''POST''} \<and>
     rq_path rq \<in> {''/sessions/'' @ sid, ''/sessions/'' @ sid @ ''/proxy'', ''/sessions/'' @ sid @ ''/touch''}"

definition works :: "orch_env \<Rightarrow> string \<Rightarrow> nat \<Rightarrow> orch \<Rightarrow> orch \<Rightarrow> bool" where
  "works env sid k s t \<longleftrightarrow> (\<exists>work. oc_sent t = oc_sent s @ work \<and> (\<forall>rq \<in> set work. session_request env sid rq) \<and>
     int (length work) \<le> int k * (oe_retries env + 1))"

lemma works_refl: "0 \<le> oe_retries env \<Longrightarrow> oc_sent t = oc_sent s \<Longrightarrow> works env sid k s t"
  by (auto simp: works_def)

lemma works_trans: "works env sid k s t \<Longrightarrow> works env sid l t u \<Longrightarrow> works env sid (k + l) s u"
  unfolding works_def by (elim exE conjE) (rule_tac x = "work @ worka" in exI, auto simp: algebra_simps)

lemma works_repeated: "repeated env rq expected n m s t \<Longrightarrow> int m \<le> oe_retries env + 1 \<Longrightarrow>
    session_request env sid rq \<Longrightarrow> works env sid (Suc 0) s t"
  by (auto simp: works_def repeated_def)

lemma repeated_ticks: "repeated env rq expected n m s t \<Longrightarrow> oc_ticks t = oc_ticks s"
  by (simp add: repeated_def)

lemma works_request:
  assumes "0 \<le> oe_retries env" and "session_request env sid (gateway_request env verb path json)"
  shows "wp (request_with_retry env verb path json expected)
    (\<lambda>body t. works env sid (Suc 0) s t \<and> oc_ticks t = oc_ticks s) (\<lambda>_. works env sid (Suc 0) s) s"
  by (rule wp_mono [OF request_with_retry_wp [OF assms(1)]])
    (use assms(2) in \<open>auto intro: works_repeated dest: repeated_ticks\<close>)

text \<open>Nothing but clocks, sleeps and notes: no request.\<close>

lemma quiet:
  "wp (tick) (\<lambda>n t. n = oc_ticks s \<and> t = s\<lparr>oc_ticks := Suc n\<rparr>) (\<lambda>_ _. False) s"
  by (simp add: tick_def wp_simps)

lemma wp_clocks [wp_simps]:
  "wp (perf_counter env) Q E s = Q (oe_perf env (oc_ticks s)) (s\<lparr>oc_ticks := Suc (oc_ticks s)\<rparr>)"
  "wp (utc_now env) Q' E' s = Q' (oe_now env (oc_ticks s)) (s\<lparr>oc_ticks := Suc (oc_ticks s)\<rparr>)"
  "wp (orch_sleep d) Q2 E2 s = Q2 () (s\<lparr>oc_sleeps := oc_sleeps s @ [d]\<rparr>)"
  "wp (put_extra k x) Q3 E3 s = Q3 () (s\<lparr>oc_extra := AList.update k x (oc_extra s)\<rparr>)"
  by (simp_all add: perf_counter_def utc_now_def orch_sleep_def put_extra_def tick_def wp_simps)

lemma wp_response_json [wp_simps]:
  "wp (response_json body) Q E s = (case body of None \<Rightarrow> E (ValueError ''Expecting value'') s | Some v \<Rightarrow> Q v s)"
  by (cases body) (simp_all add: response_json_def wp_simps)

text \<open>The session was seen ready: a poll after \<open>s\<close> was answered with an object whose status is \<open>READY\<close>.\<close>

definition ready :: "(string, pyval) dict \<Rightarrow> bool" where
  "ready d \<longleftrightarrow> upper (py_str (case map_of d ''status'' of None \<Rightarrow> PStr [] | Some v \<Rightarrow> v)) = ''READY''"

definition seen_ready :: "orch_env \<Rightarrow> string \<Rightarrow> http_request list \<Rightarrow> http_request list \<Rightarrow> bool" where
  "seen_ready env sid l l' \<longleftrightarrow> (\<exists>before after d. l' = l @ before @ gateway_request env ''GET'' (''/sessions/'' @ sid) None # after \<and>
     oe_server env (l @ before) (gateway_request env ''GET'' (''/sessions/'' @ sid) None) = Answer 200 (Some (PDict d)) \<and> ready d)"

lemma seen_ready_earlier: "seen_ready env sid (l @ l0) l' \<Longrightarrow> seen_ready env sid l l'"
  unfolding seen_ready_def by (metis append.assoc)

lemma seen_ready_later: "seen_ready env sid l l' \<Longrightarrow> seen_ready env sid l (l' @ l0)"
  unfolding seen_ready_def by (metis append.assoc append_Cons)

lemma seen_ready_works: "works env sid k s t \<Longrightarrow> seen_ready env sid (oc_sent t) l' \<Longrightarrow> seen_ready env sid (oc_sent s) l'"
  by (auto simp: works_def intro: seen_ready_earlier)

lemma seen_ready_then: "seen_ready env sid l (oc_sent s) \<Longrightarrow> works env sid k s t \<Longrightarrow> seen_ready env sid l (oc_sent t)"
  by (auto simp: works_def intro: seen_ready_later)

lemma poll_request:
  assumes "0 \<le> oe_retries env"
  shows "wp (request_with_retry env ''GET'' (''/sessions/'' @ sid) None {200})
    (\<lambda>body t. works env sid (Suc 0) s t \<and> oc_ticks t = oc_ticks s \<and>
       (\<forall>d. body = Some (PDict d) \<longrightarrow> ready d \<longrightarrow> seen_ready env sid (oc_sent s) (oc_sent t)))
    (\<lambda>_. works env sid (Suc 0) s) s"
proof -
  define rq where "rq = gateway_request env ''GET'' (''/sessions/'' @ sid) None"
  have rq: "session_request env sid rq"
    by (simp add: rq_def session_request_def gateway_request_def)
  show ?thesis
    unfolding rq_def [symmetric]
  proof (rule wp_mono [OF request_with_retry_wp [OF assms, where s = s]], goal_cases)
    case (1 body t)
    then obtain m where m: "int m \<le> oe_retries env + 1" "repeated env rq {200} 0 m s t"
      "nth_answer env rq s (m - 1) = Answer 200 body"
      unfolding rq_def by blast
    then obtain k where k: "m = Suc k" by (cases m) (auto simp: repeated_def)
    have "seen_ready env sid (oc_sent s) (oc_sent t)" if "body = Some (PDict d)" "ready d" for d
      unfolding seen_ready_def rq_def [symmetric]
      using m(2,3) that by (intro exI [of _ "replicate k rq"] exI [of _ "[]"] exI [of _ d])
        (auto simp: repeated_def k nth_answer_def replicate_append_same)
    then show ?case
      using works_repeated [OF m(2) m(1) rq] repeated_ticks [OF m(2)] by auto
  next
    case (2 e t)
    then show ?case using rq works_repeated unfolding rq_def by blast
  qed
qed

lemma upper_ready [simp]: "upper ''READY'' = ''READY''"
  by code_simp

lemma ready_iff: "upper (py_str (case map_of d ''status'' of None \<Rightarrow> PStr [] | Some v \<Rightarrow> v)) = ''READY'' \<longleftrightarrow> ready d"
  by (simp add: ready_def)

lemma works_Suc: "0 \<le> oe_retries env \<Longrightarrow> works env sid k s t \<Longrightarrow> k \<le> l \<Longrightarrow> works env sid l s t"
proof -
  assume "0 \<le> oe_retries env" "works env sid k s t" "k \<le> l"
  then have "int k * (oe_retries env + 1) \<le> int l * (oe_retries env + 1)"
    by (intro mult_right_mono) auto
  with \<open>works env sid k s t\<close> show ?thesis
    by (force simp: works_def)
qed

lemma works_next: "works env sid (Suc 0) s t \<Longrightarrow> oc_sent u = oc_sent t \<Longrightarrow> works env sid k u v \<Longrightarrow> works env sid (Suc k) s v"
  using works_trans [of env sid 1 s t k v] by (simp add: works_def)

lemma poll_loop_wp:
  assumes R: "0 \<le> oe_retries env"
  shows "wp (poll_loop env sid [''READY''] start a fuel)
    (\<lambda>r t. works env sid fuel s t \<and>
       (r \<noteq> None \<longrightarrow> seen_ready env sid (oc_sent s) (oc_sent t)) \<and>
       (r = None \<longrightarrow> fuel = 0 \<or> oe_perf env (oc_ticks s + fuel - 1) - start < oe_poll_timeout env))
    (\<lambda>_. works env sid fuel s) s"
proof (induction fuel arbitrary: s a)
  case 0
  then show ?case by (simp add: wp_simps works_refl [OF R])
next
  case (Suc fuel)
  have more: "works env sid (Suc fuel) s t" if "works env sid (Suc 0) s t" for t
    using works_Suc [OF R that] by simp
  have again: "wp (poll_loop env sid [''READY''] start (Suc a) fuel)
      (\<lambda>r t. works env sid (Suc fuel) s t \<and>
         (r \<noteq> None \<longrightarrow> seen_ready env sid (oc_sent s) (oc_sent t)) \<and>
         (r = None \<longrightarrow> oe_perf env (oc_ticks s + fuel) - start < oe_poll_timeout env))
      (\<lambda>_. works env sid (Suc fuel) s) v"
    if w: "works env sid (Suc 0) s u" and v: "oc_sent v = oc_sent u" "oc_ticks v = Suc (oc_ticks s)"
      and early: "oe_perf env (oc_ticks s) - start < oe_poll_timeout env" for u v
  proof (rule wp_mono [OF Suc.IH [of "Suc a" v]], goal_cases)
    case (1 r t)
    have "fuel = 0 \<or> oc_ticks v + fuel - 1 = oc_ticks s + fuel"
      using v(2) by auto
    moreover have "r \<noteq> None \<Longrightarrow> seen_ready env sid (oc_sent s) (oc_sent t)"
      using 1 seen_ready_works [OF w] v(1) by auto
    ultimately show ?case
      using 1 works_next [OF w v(1)] early by auto
  next
    case (2 e t)
    then show ?case using works_next [OF w v(1)] by blast
  qed
  show ?case
    unfolding poll_loop.simps wp_bindm
  proof (rule wp_mono [OF poll_request [OF R]], goal_cases)
    case (1 body u)
    show ?case
    proof (cases "\<exists>d. body = Some (PDict d)")
      case True
      then obtain d where d: "body = Some (PDict d)" by blast
      show ?thesis
      proof (cases "ready d")
        case True
        then show ?thesis
          using 1 d more by (simp add: wp_simps ready_iff)
      next
        case False
        then show ?thesis
          using 1 d more again [of u] by (auto simp: wp_simps ready_iff works_def)
      qed
    next
      case False
      then show ?thesis
        using 1 more by (cases body) (auto simp: wp_simps split: pyval.split)
    qed
  next
    case (2 e t)
    then show ?case by (rule more)
  qed
qed

text \<open>
  The clock makes progress: \<open>fuel\<close> readings take it past the polling timeout.
\<close>

definition clock_advances :: "orch_env \<Rightarrow> nat \<Rightarrow> bool" where
  "clock_advances env fuel \<longleftrightarrow> 0 < fuel \<and>
     (\<forall>i. oe_poll_timeout env \<le> oe_perf env (i + fuel) - oe_perf env i)"

lemma poll_session_status_wp:
  assumes R: "0 \<le> oe_retries env" and C: "clock_advances env fuel"
  shows "wp (poll_session_status env sid [''READY''] fuel)
    (\<lambda>r t. works env sid fuel s t \<and> r \<noteq> None \<and> seen_ready env sid (oc_sent s) (oc_sent t))
    (\<lambda>_. works env sid fuel s) s"
proof -
  define u where "u = s\<lparr>oc_ticks := Suc (oc_ticks s)\<rparr>"
  have u: "works env sid k u t \<longleftrightarrow> works env sid k s t" "oc_sent u = oc_sent s" for k t
    by (simp_all add: works_def u_def)
  have late: "\<not> oe_perf env (oc_ticks u + fuel - 1) - oe_perf env (oc_ticks s) < oe_poll_timeout env"
    using C by (auto simp: clock_advances_def u_def not_less)
  show ?thesis
    unfolding poll_session_status_def
    by (simp only: wp_simps u_def [symmetric], rule wp_mono [OF poll_loop_wp [OF R]])
      (use u late C in \<open>auto simp: clock_advances_def\<close>)
qed

lemma watch_session_wp:
  assumes R: "0 \<le> oe_retries env" and C: "clock_advances env fuel" and u: "works env sid 1 s u"
  shows "wp (watch_session env sid fuel)
    (\<lambda>ended t. ended \<and> works env sid (fuel + 2) s t \<and> seen_ready env sid (oc_sent s) (oc_sent t))
    (\<lambda>_. works env sid (fuel + 2) s) u"
  unfolding watch_session_def wp_bindm
proof (rule wp_mono [OF poll_session_status_wp [OF R C]], goal_cases)
  case (1 polled v)
  then obtain d attempts where p: "polled = Some (d, attempts)" by auto
  have sv: "works env sid (1 + fuel) s v"
    using works_trans [OF u] 1 by blast
  have seen: "seen_ready env sid (oc_sent s) (oc_sent v)"
    using 1 seen_ready_works [OF u] by blast
  have touch: "wp (bindm (request_with_retry env ''POST'' (''/sessions/'' @ sid @ ''/touch'') body {200}) response_json)
      (\<lambda>x. wp (thenm (note_touched x) (ret True))
         (\<lambda>ended t. ended \<and> works env sid (fuel + 2) s t \<and> seen_ready env sid (oc_sent s) (oc_sent t))
         (\<lambda>_. works env sid (fuel + 2) s)) (\<lambda>_. works env sid (fuel + 2) s) w"
    if w: "oc_sent w = oc_sent v" for body w
    unfolding wp_bindm
  proof (rule wp_mono [OF works_request [OF R, where sid = sid]], goal_cases)
    case 1
    then show ?case by (simp add: session_request_def gateway_request_def)
  next
    case (2 b t)
    have vt: "works env sid 1 v t"
      using 2 w by (simp add: works_def)
    then have st: "works env sid (fuel + 2) s t"
      using works_trans [OF sv vt] by (simp add: numeral_2_eq_2)
    have same: "works env sid (fuel + 2) s t'" "seen_ready env sid (oc_sent s) (oc_sent t')"
      if "oc_sent t' = oc_sent t" for t'
      using st seen_ready_then [OF seen vt] that by (auto simp: works_def)
    show ?case
      using same by (cases b) (auto simp: wp_simps note_touched_def split: pyval.split option.split)
  next
    case (3 e t)
    then have vt: "works env sid 1 v t"
      using w by (simp add: works_def)
    show ?case
      using works_trans [OF sv vt] by (simp add: numeral_2_eq_2)
  qed
  show ?case
    unfolding p orch_touch_session_def
    using touch by (simp add: wp_simps)
next
  case (2 e t)
  then have "works env sid (1 + fuel) s t"
    using works_trans [OF u] by blast
  then show ?case
    using works_Suc [OF R] by fastforce
qed

lemma use_session_wp:
  assumes R: "0 \<le> oe_retries env" and C: "clock_advances env fuel"
  shows "wp (use_session env j sid fuel)
    (\<lambda>ended t. ended \<and> works env sid (fuel + 2) s t \<and> seen_ready env sid (oc_sent s) (oc_sent t))
    (\<lambda>_. works env sid (fuel + 2) s) s"
proof (cases "job_to_proxy_payload j = []")
  case True
  have "works env sid 1 s (s\<lparr>oc_extra := x\<rparr>)" for x
    by (rule works_refl [OF R]) simp
  then show ?thesis
    by (simp add: use_session_def wp_simps True watch_session_wp [OF R C, simplified])
next
  case False
  show ?thesis
    unfolding use_session_def wp_thenm orch_update_session_proxy_def wp_bindm wp_whenm wp_clocks
      if_P [OF False]
  proof (rule wp_mono [OF works_request [OF R, where sid = sid]], goal_cases)
    case 1
    then show ?case by (simp add: session_request_def gateway_request_def)
  next
    case (2 b t)
    then have w: "works env sid 1 s t" by (simp add: works_def)
    show ?case
      using watch_session_wp [OF R C w] works_Suc [OF R w]
      by (cases b) (simp_all add: wp_simps)
  next
    case (3 e t)
    then have w: "works env sid 1 s t" by (simp add: works_def)
    show ?case
      using works_Suc [OF R w] by simp
  qed
qed

section \<open>The whole job\<close>

abbreviation delete_request :: "orch_env \<Rightarrow> string \<Rightarrow> http_request" where
  "delete_request env sid \<equiv> gateway_request env ''DELETE'' (''/sessions/'' @ sid) None"

abbreviation create_request :: "orch_env \<Rightarrow> job \<Rightarrow> int option \<Rightarrow> http_request" where
  "create_request env j ttl \<equiv>
     gateway_request env ''POST'' ''/sessions/commands'' (Some (PDict (job_to_session_payload j ttl)))"

text \<open>The session the answer to a creation names, if it names one.\<close>

fun created :: "http_answer \<Rightarrow> string option" where
  "created (Answer code b) = (if code \<noteq> 201 then None else case b of None \<Rightarrow> None | Some v \<Rightarrow>
     (case opened_session v of Inr (Some sid) \<Rightarrow> Some sid | _ \<Rightarrow> None))"
| "created (NoAnswer _) = None"

lemma created_other: "\<not> accepted {201} a \<Longrightarrow> created a = None"
  by (cases a) auto

lemma open_session_wp:
  assumes R: "0 \<le> oe_retries env"
  shows "wp (open_session env j ttl)
    (\<lambda>v t. \<exists>m. int m \<le> oe_retries env + 1 \<and> 0 < m \<and> oc_sent t = oc_sent s @ replicate m (create_request env j ttl) \<and>
       v = created (nth_answer env (create_request env j ttl) s (m - 1)))
    (\<lambda>e t. \<exists>m. int m \<le> oe_retries env + 1 \<and> 0 < m \<and> oc_sent t = oc_sent s @ replicate m (create_request env j ttl) \<and>
       created (nth_answer env (create_request env j ttl) s (m - 1)) = None) s"
  unfolding open_session_def orch_create_session_def wp_bindm
proof (rule wp_mono [OF request_with_retry_wp [OF R, where s = s]], goal_cases)
  case (1 b t)
  then obtain m where m: "int m \<le> oe_retries env + 1" "repeated env (create_request env j ttl) {201} 0 m s t"
    "nth_answer env (create_request env j ttl) s (m - 1) = Answer 201 b"
    by blast
  have sent: "0 < m" "oc_sent t = oc_sent s @ replicate m (create_request env j ttl)"
    using m(2) by (simp_all add: repeated_def)
  show ?case
  proof (cases b)
    case None
    then show ?thesis
      using m(1,3) sent by (auto simp: wp_simps intro!: exI [of _ m])
  next
    case (Some v)
    then show ?thesis
      using m(1,3) sent
      by (cases "opened_session v") (auto simp: wp_simps split: option.split intro!: exI [of _ m])
  qed
next
  case (2 e t)
  then obtain m where m: "int m \<le> oe_retries env + 1" "repeated env (create_request env j ttl) {201} 0 m s t"
    "\<not> accepted {201} (nth_answer env (create_request env j ttl) s (m - 1))"
    by blast
  then show ?case
    using created_other [OF m(3)] by (auto simp: repeated_def intro!: exI [of _ m])
qed

text \<open>The session was deleted, with retries: \<open>gone\<close> says whether the gateway agreed in the end.\<close>

definition deleted :: "orch_env \<Rightarrow> string \<Rightarrow> http_request list \<Rightarrow> http_request list \<Rightarrow> bool \<Rightarrow> bool" where
  "deleted env sid l l' gone \<longleftrightarrow> (\<exists>m. 0 < m \<and> int m \<le> oe_retries env + 1 \<and> l' = l @ replicate m (delete_request env sid) \<and>
     (gone \<longleftrightarrow> accepted {204, 404} (oe_server env (l @ replicate (m - 1) (delete_request env sid)) (delete_request env sid))))"

lemma close_session_wp:
  assumes R: "0 \<le> oe_retries env"
  shows "wp (close_session env sid err)
    (\<lambda>r t. \<exists>gone. deleted env sid (oc_sent s) (oc_sent t) gone \<and> (r = None \<longleftrightarrow> err = None \<and> gone)) (\<lambda>_ _. False) s"
  unfolding close_session_def orch_delete_session_def wp_bindm wp_attempt
proof (rule wp_mono [OF request_with_retry_wp [OF R, where s = s]], goal_cases)
  case (1 b t)
  then have "deleted env sid (oc_sent s) (oc_sent t) True"
    by (force simp: deleted_def repeated_def nth_answer_def)
  then show ?case by (auto simp: wp_simps)
next
  case (2 e t)
  then have "deleted env sid (oc_sent s) (oc_sent t) False" and "\<exists>msg. e = GatewayRequestError msg"
    by (force simp: deleted_def repeated_def nth_answer_def)+
  then show ?case by (auto simp: wp_simps)
qed

lemma finish_job_wp:
  "wp (finish_job env j at started err)
    (\<lambda>r t. oc_sent t = oc_sent s \<and> (jr_ok r \<longleftrightarrow> err = None)) (\<lambda>_ t. oc_sent t = oc_sent s) s"
  by (auto simp: finish_job_def wp_simps make_job_result_def validate_temporal_bounds_def
      split: sum.split if_splits)

lemma run_with_session_wp:
  assumes R: "0 \<le> oe_retries env" and C: "clock_advances env fuel"
  shows "wp (run_with_session env j fuel sid (finish_job env j at started))
    (\<lambda>r t. \<exists>u gone. works env sid (fuel + 2) s u \<and> deleted env sid (oc_sent u) (oc_sent t) gone \<and>
       (\<exists>res. r = Some res \<and> (jr_ok res \<longrightarrow> seen_ready env sid (oc_sent s) (oc_sent u) \<and> gone)))
    (\<lambda>_ t. \<exists>u gone. works env sid (fuel + 2) s u \<and> deleted env sid (oc_sent u) (oc_sent t) gone) s"
proof -
  have close: "wp (bindm (close_session env sid err) (finish_job env j at started))
      (\<lambda>res t. \<exists>gone. deleted env sid (oc_sent u) (oc_sent t) gone \<and> (jr_ok res \<longrightarrow> err = None \<and> gone))
      (\<lambda>_ t. \<exists>gone. deleted env sid (oc_sent u) (oc_sent t) gone) u" for err u
    unfolding wp_bindm
    by (rule wp_mono [OF close_session_wp [OF R]], rule wp_mono [OF finish_job_wp]) auto
  define Q where "Q = (\<lambda>(r::job_result option) (t::orch). \<exists>u gone. works env sid (fuel + 2) s u \<and> deleted env sid (oc_sent u) (oc_sent t) gone \<and>
       (\<exists>res. r = Some res \<and> (jr_ok res \<longrightarrow> seen_ready env sid (oc_sent s) (oc_sent u) \<and> gone)))"
  define E where "E = (\<lambda>(_::exn) (t::orch). \<exists>u gone. works env sid (fuel + 2) s u \<and> deleted env sid (oc_sent u) (oc_sent t) gone)"
  have closed: "wp (bindm (bindm (close_session env sid err) (finish_job env j at started)) (\<lambda>r. ret (Some r))) Q E u"
    if "works env sid (fuel + 2) s u" "err = None \<longrightarrow> seen_ready env sid (oc_sent s) (oc_sent u)" for err u
    unfolding wp_bindm [of "bindm (close_session env sid err) (finish_job env j at started)"]
    by (rule wp_mono [OF close]) (use that in \<open>auto simp: wp_simps Q_def E_def\<close>)
  have raised: "wp (bindm (close_session env sid None) (\<lambda>_. raise e)) Q E u"
    if "works env sid (fuel + 2) s u" for e u
    unfolding wp_bindm
    by (rule wp_mono [OF close_session_wp [OF R]]) (use that in \<open>auto simp: wp_simps E_def\<close>)
  show ?thesis
    unfolding run_with_session_def wp_bindm [of "attempt _"] wp_attempt Q_def [symmetric] E_def [symmetric]
    by (rule wp_mono [OF use_session_wp [OF R C]])
      (auto simp: wp_sum closed [simplified] raised [simplified] split: sum.split)
qed

text \<open>
  What a job leaves at the gateway: it asks for a session, and when the answer names one, it works with
  it and deletes it; \<open>ok\<close> needs the session seen ready, and gone.
\<close>

definition cleans_up :: "orch_env \<Rightarrow> job \<Rightarrow> int option \<Rightarrow> nat \<Rightarrow> http_request list \<Rightarrow> http_request list \<Rightarrow> bool \<Rightarrow> bool" where
  "cleans_up env j ttl fuel l l' ok \<longleftrightarrow> (\<exists>m. 0 < m \<and> int m \<le> oe_retries env + 1 \<and>
     (let rq = create_request env j ttl; opened = l @ replicate m rq in
      case created (oe_server env (l @ replicate (m - 1) rq) rq) of
        None \<Rightarrow> l' = opened
      | Some sid \<Rightarrow> \<exists>work gone. (\<forall>rq \<in> set work. session_request env sid rq) \<and>
          int (length work) \<le> int (fuel + 2) * (oe_retries env + 1) \<and>
          deleted env sid (opened @ work) l' gone \<and>
          (ok \<longrightarrow> seen_ready env sid opened (opened @ work) \<and> gone)))"

lemma cleans_up_none:
  "0 < m \<Longrightarrow> int m \<le> oe_retries env + 1 \<Longrightarrow> created (nth_answer env (create_request env j ttl) s (m - 1)) = None \<Longrightarrow>
    l = oc_sent s @ replicate m (create_request env j ttl) \<Longrightarrow> cleans_up env j ttl fuel (oc_sent s) l ok"
  unfolding cleans_up_def by (intro exI [of _ m]) (simp add: nth_answer_def Let_def)

lemma cleans_up_some:
  "0 < m \<Longrightarrow> int m \<le> oe_retries env + 1 \<Longrightarrow> created (nth_answer env (create_request env j ttl) s (m - 1)) = Some sid \<Longrightarrow>
    oc_sent u = oc_sent s @ replicate m (create_request env j ttl) \<Longrightarrow> works env sid (fuel + 2) u v \<Longrightarrow>
    deleted env sid (oc_sent v) l gone \<Longrightarrow> (ok \<longrightarrow> seen_ready env sid (oc_sent u) (oc_sent v) \<and> gone) \<Longrightarrow>
    cleans_up env j ttl fuel (oc_sent s) l ok"
  unfolding cleans_up_def works_def
  by (elim exE conjE, rule exI [of _ m])
    (simp add: nth_answer_def Let_def, rule_tac x = work in exI, simp, rule exI [of _ gone], simp)

lemma finish_and_return:
  "wp (bindm (finish_job env j at started err) (\<lambda>r. ret (Some r)))
    (\<lambda>r t. \<exists>res. r = Some res \<and> oc_sent t = oc_sent s) (\<lambda>_ t. oc_sent t = oc_sent s) s"
  unfolding wp_bindm by (rule wp_mono [OF finish_job_wp]) (auto simp: wp_simps)

lemma run_orchestrated_job_wp:
  assumes R: "0 \<le> oe_retries env" and C: "clock_advances env fuel"
  shows "wp (run_orchestrated_job env j ttl fuel)
    (\<lambda>r t. \<exists>res. r = Some res \<and> cleans_up env j ttl fuel (oc_sent s) (oc_sent t) (jr_ok res))
    (\<lambda>_ t. cleans_up env j ttl fuel (oc_sent s) (oc_sent t) False) s"
proof -
  define Q where "Q = (\<lambda>(r::job_result option) (t::orch). \<exists>res. r = Some res \<and> cleans_up env j ttl fuel (oc_sent s) (oc_sent t) (jr_ok res))"
  define E where "E = (\<lambda>(_::exn) (t::orch). cleans_up env j ttl fuel (oc_sent s) (oc_sent t) False)"
  define u where "u = s\<lparr>oc_ticks := Suc (Suc (oc_ticks s)), oc_extra := [(''mode'', PStr ''orchestrator'')]\<rparr>"
  have u: "oc_sent u = oc_sent s" "nth_answer env rq u = nth_answer env rq s" for rq
    by (auto simp: u_def nth_answer_def)
  have unopened: "wp (bindm (finish_job env j at started err) (\<lambda>r. ret (Some r))) Q E v"
    if "\<And>ok. cleans_up env j ttl fuel (oc_sent s) (oc_sent v) ok" for v at started err
    by (rule wp_mono [OF finish_and_return]) (use that in \<open>auto simp: Q_def E_def\<close>)
  have session: "wp (run_with_session env j fuel sid (finish_job env j at started)) Q E v"
    if "0 < m" "int m \<le> oe_retries env + 1" "created (nth_answer env (create_request env j ttl) s (m - 1)) = Some sid"
      "oc_sent v = oc_sent s @ replicate m (create_request env j ttl)" for v at started sid m
    by (rule wp_mono [OF run_with_session_wp [OF R C]])
      (use cleans_up_some [OF that] in \<open>auto simp: Q_def E_def\<close>)
  have run: "wp (bindm (attempt (open_session env j ttl)) (\<lambda>opened. case opened of
        Inr (Some sid) \<Rightarrow> run_with_session env j fuel sid (finish_job env j at started)
      | Inr None \<Rightarrow> bindm (finish_job env j at started None) (\<lambda>r. ret (Some r))
      | Inl e \<Rightarrow> (case caught e of
          Inl e \<Rightarrow> raise e
        | Inr err \<Rightarrow> bindm (finish_job env j at started (Some err)) (\<lambda>r. ret (Some r))))) Q E u" for at started
    unfolding wp_bindm [of "attempt _"] wp_attempt
  proof (rule wp_mono [OF open_session_wp [OF R]], goal_cases)
    case (1 v t)
    then obtain m where m: "0 < m" "int m \<le> oe_retries env + 1"
      "oc_sent t = oc_sent s @ replicate m (create_request env j ttl)"
      "created (nth_answer env (create_request env j ttl) s (m - 1)) = v"
      unfolding u by blast
    show ?case
    proof (cases v)
      case None
      then have clean: "cleans_up env j ttl fuel (oc_sent s) (oc_sent t) ok" for ok
        using cleans_up_none m by blast
      show ?thesis
        unfolding None sum.case option.case by (rule unopened) (rule clean)
    next
      case (Some sid)
      then show ?thesis
        using session [OF m(1,2) _ m(3)] m(4) by simp
    qed
  next
    case (2 e t)
    then obtain m where m: "0 < m" "int m \<le> oe_retries env + 1"
      "oc_sent t = oc_sent s @ replicate m (create_request env j ttl)"
      "created (nth_answer env (create_request env j ttl) s (m - 1)) = None"
      unfolding u by blast
    then have clean: "cleans_up env j ttl fuel (oc_sent s) (oc_sent t) ok" for ok
      using cleans_up_none by blast
    show ?case
    proof (cases "caught e")
      case (Inl x)
      then show ?thesis using clean by (simp add: wp_ops E_def)
    next
      case (Inr err)
      show ?thesis unfolding Inr sum.case by (rule unopened) (rule clean)
    qed
  qed
  have ticks: "oc_ticks (s\<lparr>oc_ticks := Suc (oc_ticks s)\<rparr>) = Suc (oc_ticks s)"
    and after: "s\<lparr>oc_ticks := Suc (oc_ticks s)\<rparr>\<lparr>oc_ticks := Suc (Suc (oc_ticks s))\<rparr>
      \<lparr>oc_extra := [(''mode'', PStr ''orchestrator'')]\<rparr> = u"
    by (simp_all add: u_def)
  show ?thesis
    unfolding Q_def [symmetric] E_def [symmetric] run_orchestrated_job_def wp_bindm [of "utc_now env"]
      wp_bindm [of "perf_counter env"] wp_thenm [of "modify _"] wp_clocks wp_ops(4) ticks after
    by (rule run)
qed

text \<open>
  C11: A job cleans up after itself. Whatever the gateway answers, when the clock advances the job comes to
  an end; when the gateway named a session for it, every later request is about that session, and the
  last ones, one to \<open>retries + 1\<close>, ask for its deletion, also when the job ends in an exception. A
  job without a session sends nothing more. With a session the job is reported as a success only
  when the session was seen \<open>READY\<close> and the deletion was answered 204 or 404.
\<close>

theorem orchestrated_job_cleans_up:
  assumes "0 \<le> oe_retries env" and "clock_advances env fuel"
    and "run_orchestrated_job env j ttl fuel s = (r, t)"
  shows "r \<noteq> Inr None \<and>
    cleans_up env j ttl fuel (oc_sent s) (oc_sent t) (\<exists>res. r = Inr (Some res) \<and> jr_ok res)"
  using wp_run [OF run_orchestrated_job_wp [OF assms(1,2)] assms(3)] by (cases r) auto

text \<open>
  C27: The schedule of a request. It is sent between one and \<open>retries + 1\<close> times. Every answer before the
  last is a transport failure or one of 500, 502, 503, 504, and is followed by a sleep that starts at the
  backoff and doubles. The call returns the body of an expected answer; otherwise it raises
  \<open>GatewayRequestError\<close>, on a transient failure only after all its retries.
\<close>

theorem retries_follow_schedule:
  assumes "0 \<le> oe_retries env" and "request_with_retry env verb path json expected s = (r, t)"
  shows "\<exists>m. 1 \<le> m \<and> int m \<le> oe_retries env + 1 \<and>
    oc_sent t = oc_sent s @ replicate m (gateway_request env verb path json) \<and>
    oc_sleeps t = oc_sleeps s @ map (\<lambda>i. oe_backoff env * 2 ^ i) [0..<m - 1] \<and>
    (\<forall>i < m - 1. transient expected (nth_answer env (gateway_request env verb path json) s i)) \<and>
    (let final = nth_answer env (gateway_request env verb path json) s (m - 1) in
     case r of
       Inr body \<Rightarrow> \<exists>code \<in> expected. final = Answer code body
     | Inl e \<Rightarrow> (\<exists>msg. e = GatewayRequestError msg) \<and> \<not> accepted expected final \<and>
         (transient expected final \<longrightarrow> int m = oe_retries env + 1))"
  using wp_run [OF request_with_retry_wp [OF assms(1)] assms(2)]
  by (cases r) (auto simp: repeated_def Let_def Suc_le_eq)

section \<open>The gateway refuses the job's session\<close>

text \<open>
  \<open>validates_commands\<close>: to \<open>POST /sessions/commands\<close> the gateway answers 422 when the body is not a
  \<open>SessionCreateCommand\<close> (FastAPI's answer to a body that does not validate).
\<close>

definition validates_commands ::
  "(string \<Rightarrow> url res) \<Rightarrow> (pyval \<Rightarrow> bool res) \<Rightarrow> url \<Rightarrow> http_server \<Rightarrow> bool" where
  "validates_commands any_url as_bool base server \<longleftrightarrow>
     (\<forall>l d e. parse_create_command any_url as_bool d = Inl e \<longrightarrow>
       (\<exists>b. server l \<lparr>rq_base = base, rq_method = ''POST'', rq_path = ''/sessions/commands'', rq_json = Some (PDict d)\<rparr> =
          Answer 422 b))"

lemma payload_refused:
  "parse_create_command any_url as_bool (job_to_session_payload j ttl) =
     Inl (ValueError ''Extra inputs are not permitted'')"
proof -
  have "\<exists>k \<in> keys (job_to_session_payload j ttl). k \<notin> set create_fields"
    by (simp add: job_to_session_payload_def create_fields_def)
  then show ?thesis
    by (simp add: parse_create_command_def)
qed

lemma refused_request:
  assumes "0 \<le> oe_retries env" and "validates_commands any_url as_bool (oe_base env) (oe_server env)"
  shows "wp (open_session env j ttl) Q
    (\<lambda>e t. t = s\<lparr>oc_sent := oc_sent s @ [create_request env j ttl]\<rparr> \<and>
       e = GatewayRequestError ''Gateway rejected POST /sessions/commands with status 422'') s"
proof -
  obtain k where k: "nat (oe_retries env + 1) = Suc k"
    using assms(1) by (cases "nat (oe_retries env + 1)") auto
  obtain b where b: "oe_server env (oc_sent s) (create_request env j ttl) = Answer 422 b"
    using assms(2) payload_refused [of any_url as_bool j ttl]
    unfolding validates_commands_def gateway_request_def by blast
  have "nat_str 422 = ''422''"
    by code_simp
  with b show ?thesis
    by (simp add: open_session_def orch_create_session_def request_with_retry_def k wp_simps
        retry_status_codes_def gateway_request_def)
qed

text \<open>
  C40: No orchestrated job can succeed against the gateway it was written for. A gateway that validates the
  command bodies refuses every session such a job asks for: its payload has fields that
  \<open>SessionCreateCommand\<close> forbids. The job then sends that one request, without a retry, and ends as a
  failure.
\<close>

theorem orchestrated_jobs_are_refused:
  assumes "0 \<le> oe_retries env" and "validates_commands any_url as_bool (oe_base env) (oe_server env)"
    and "run_orchestrated_job env j ttl fuel s = (r, t)"
  shows "oc_sent t = oc_sent s @ [create_request env j ttl] \<and>
    (\<forall>res. r = Inr (Some res) \<longrightarrow> jr_status res = JobFAILURE \<and>
       jr_error res = Some (job_failure ''GatewayRequestError''
         ''Gateway rejected POST /sessions/commands with status 422''))"
proof -
  let ?e = "GatewayRequestError ''Gateway rejected POST /sessions/commands with status 422''"
  have finish: "wp (bindm (finish_job env j at started (Some err)) (\<lambda>r. ret (Some r)))
      (\<lambda>r t. oc_sent t = oc_sent u \<and> (\<forall>res. r = Some res \<longrightarrow> jr_status res = JobFAILURE \<and> jr_error res = Some err))
      (\<lambda>_ t. oc_sent t = oc_sent u) u" for at started err u
    by (auto simp: finish_job_def wp_simps make_job_result_def validate_temporal_bounds_def
        split: sum.split if_splits)
  have "wp (run_orchestrated_job env j ttl fuel)
      (\<lambda>r t. oc_sent t = oc_sent s @ [create_request env j ttl] \<and>
         (\<forall>res. r = Some res \<longrightarrow> jr_status res = JobFAILURE \<and> jr_error res = Some (job_failure ''GatewayRequestError''
           ''Gateway rejected POST /sessions/commands with status 422'')))
      (\<lambda>_ t. oc_sent t = oc_sent s @ [create_request env j ttl]) s"
    unfolding run_orchestrated_job_def wp_bindm [of "utc_now env"] wp_bindm [of "perf_counter env"]
      wp_thenm [of "modify _"] wp_clocks wp_ops(4) wp_bindm [of "attempt _"] wp_attempt
    by (rule wp_mono [OF refused_request [OF assms(1,2), where Q = "\<lambda>_ _. False"]], simp)
      (simp, rule wp_mono [OF finish], simp_all)
  from wp_run [OF this assms(3)] show ?thesis
    by (cases r) auto
qed

section \<open>At a concrete gateway\<close>

text \<open>
  A gateway that is unavailable at first, then opens the session \<open>s1\<close>, which is ready; and one that
  validates the command bodies.
\<close>

definition demo_gateway :: http_server where
  "demo_gateway sent rq =
     (if sent = [] then Answer 503 None
      else if rq_method rq = ''DELETE'' then Answer 204 None
      else if rq_method rq = ''GET'' then Answer 200 (Some (PDict [(''status'', PStr ''ready'')]))
      else if rq_path rq = ''/sessions/commands'' then Answer 201 (Some (PDict [(''id'', PStr ''s1'')]))
      else Answer 200 (Some (PDict [])))"

definition strict_gateway :: http_server where
  "strict_gateway sent rq = (case rq_json rq of
     Some (PDict d) \<Rightarrow> (case parse_create_command Inr (\<lambda>_. Inr True) d of
         Inl _ \<Rightarrow> Answer 422 None | Inr _ \<Rightarrow> Answer 201 (Some (PDict [(''id'', PStr ''s1'')])))
   | _ \<Rightarrow> Answer 404 None)"

definition demo_orch_env :: "http_server \<Rightarrow> orch_env" where
  "demo_orch_env server = \<lparr>oe_base = ''http://gateway'', oe_server = server, oe_perf = (\<lambda>n. int n * 1000000),
     oe_now = (\<lambda>n. Aware (int n * 1000000)), oe_iso = (\<lambda>_. ''2025-01-01T00:00:00+00:00''), oe_float = int_str,
     oe_retries = 1, oe_backoff = 500000, oe_poll_interval = 1000000, oe_poll_timeout = 2000000\<rparr>"

definition demo_job :: job where
  "demo_job = \<lparr>jb_url = ''https://example.com/'', jb_http_proxy = None, jb_https_proxy = None, jb_socks_proxy = None,
     jb_timeout_sec = 60, jb_url_source = ''https://example.com''\<rparr>"

definition demo_orch :: orch where
  "demo_orch = \<lparr>oc_sent = [], oc_sleeps = [], oc_ticks = 0, oc_extra = []\<rparr>"

lemma demo_clock: "clock_advances (demo_orch_env server) 2"
  by (simp add: clock_advances_def demo_orch_env_def)

lemma orchestrated_job_cleans_up_witness:
  "let (r, t) = run_orchestrated_job (demo_orch_env demo_gateway) demo_job None 2 demo_orch in
     map rq_method (oc_sent t) = [''POST'', ''POST'', ''GET'', ''POST'', ''DELETE''] \<and> r \<noteq> Inr None \<and>
     cleans_up (demo_orch_env demo_gateway) demo_job None 2 [] (oc_sent t) (\<exists>res. r = Inr (Some res) \<and> jr_ok res)"
proof -
  let ?p = "run_orchestrated_job (demo_orch_env demo_gateway) demo_job None 2 demo_orch"
  have "map rq_method (oc_sent (snd ?p)) = [''POST'', ''POST'', ''GET'', ''POST'', ''DELETE'']"
    by code_simp
  moreover have "oe_retries (demo_orch_env demo_gateway) = 1" "oc_sent demo_orch = []"
    by (simp_all add: demo_orch_env_def demo_orch_def)
  ultimately show ?thesis
    using orchestrated_job_cleans_up [of "demo_orch_env demo_gateway" 2 demo_job None demo_orch "fst ?p" "snd ?p"]
    by (simp add: demo_clock split_beta)
qed

lemma retries_follow_schedule_witness:
  "let p = request_with_retry (demo_orch_env demo_gateway) ''DELETE'' ''/sessions/s1'' None {204, 404} demo_orch in
     \<exists>m. 1 \<le> m \<and> int m \<le> 2 \<and>
       oc_sent (snd p) = replicate m (delete_request (demo_orch_env demo_gateway) ''s1'') \<and>
       oc_sleeps (snd p) = map (\<lambda>i. 500000 * 2 ^ i) [0..<m - 1]"
proof -
  let ?p = "request_with_retry (demo_orch_env demo_gateway) ''DELETE'' ''/sessions/s1'' None {204, 404} demo_orch"
  have "oe_retries (demo_orch_env demo_gateway) = 1" "oc_sent demo_orch = []" "oc_sleeps demo_orch = []"
    "oe_backoff (demo_orch_env demo_gateway) = 500000"
    by (simp_all add: demo_orch_env_def demo_orch_def)
  then show ?thesis
    using retries_follow_schedule [of "demo_orch_env demo_gateway" "''DELETE''" "''/sessions/s1''" None "{204, 404}" demo_orch
      "fst ?p" "snd ?p"]
    by (auto simp: Let_def)
qed

lemma strict_gateway_validates: "validates_commands Inr (\<lambda>_. Inr True) base strict_gateway"
  by (simp add: validates_commands_def strict_gateway_def)

lemma orchestrated_jobs_are_refused_witness:
  "oc_sent (snd (run_orchestrated_job (demo_orch_env strict_gateway) demo_job None 2 demo_orch)) =
     [create_request (demo_orch_env strict_gateway) demo_job None]"
proof -
  let ?p = "run_orchestrated_job (demo_orch_env strict_gateway) demo_job None 2 demo_orch"
  have "oe_retries (demo_orch_env strict_gateway) = 1" "oc_sent demo_orch = []"
    "oe_server (demo_orch_env strict_gateway) = strict_gateway"
    by (simp_all add: demo_orch_env_def demo_orch_def)
  then show ?thesis
    using orchestrated_jobs_are_refused [of "demo_orch_env strict_gateway" Inr "\<lambda>_. Inr True" demo_job None 2 demo_orch
      "fst ?p" "snd ?p"] strict_gateway_validates
    by simp
qed

end
