(* ===== verification/Runner_Settings.thy ===== *)
theory Runner_Settings
  imports Session_Manager
begin

text \<open>
  The runner's configuration: \<open>services/runner/app/config/settings.py\<close> reads the environment into a
  dictionary of raw values and validates it, \<open>config/warm_pool.py\<close> reads the file of the warm pool.
  The VNC controller and the session manager get their parameters from it.
\<close>

declare map_of_eq_Some_iff [simp del] Some_eq_map_of_iff [simp del]

section \<open>The settings\<close>

record runner_settings =
  rs_runner_id :: string
  rs_camoufox_path :: string
  rs_event_endpoint :: "url option"
  rs_slot_limit :: int
  rs_warm_pool_config_path :: "string option"
  rs_warm_pool_mode :: warm_mode
  rs_vnc_enabled :: bool
  rs_vnc_http_base_url :: url
  rs_vnc_ws_base_url :: url
  rs_vnc_display_min :: int
  rs_vnc_display_max :: int
  rs_vnc_port_min :: int
  rs_vnc_port_max :: int
  rs_vnc_ws_port_min :: int
  rs_vnc_ws_port_max :: int
  rs_vnc_resolution :: string
  rs_vnc_web_assets_path :: "string option"
  rs_vnc_startup_timeout :: int
  rs_vnc_token_ttl :: int
  rs_proxy_enabled :: bool
  rs_proxy_http_base_url :: "url option"
  rs_proxy_https_base_url :: "url option"
  rs_proxy_socks_base_url :: "url option"
  rs_browser_prefs_path :: "string option"
  rs_prewarm_navigation :: bool
  rs_start_url :: "url option"
  rs_start_url_wait_ms :: int
  rs_prewarm_history :: int
  rs_required_flags :: "(string, string) dict"

text \<open>
  What reading relies on outside the program: pydantic's URLs, the text of a \<open>Path\<close>, \<open>float\<close> of a text
  (in microseconds) and \<open>json.loads\<close>.
\<close>

record config_libs =
  cl_any_url :: "string \<Rightarrow> url res"
  cl_path :: "string \<Rightarrow> string"
  cl_float :: "string \<Rightarrow> int res"
  cl_json :: "string \<Rightarrow> pyval res"

section \<open>Reading the environment\<close>

definition stringify_flag_value :: "pyval \<Rightarrow> string" where
  "stringify_flag_value v = (case v of PBool b \<Rightarrow> if b then ''1'' else ''0'' | _ \<Rightarrow> py_str v)"

fun collect_flags :: "(string, string) dict \<Rightarrow> (string \<times> pyval) list \<Rightarrow> (string, string) dict" where
  "collect_flags flags [] = flags"
| "collect_flags flags ((k, v) # items) =
     collect_flags (if strip k = [] \<or> v = PNone then flags
       else AList.update (strip k) (stringify_flag_value v) flags) items"

text \<open>
  A reader gives the raw value of a variable that is set, or nothing when the field keeps its default.
\<close>

type_synonym env_reader = "string \<Rightarrow> pyval option res"

definition read_text :: env_reader where
  "read_text s = Inr (Some (PStr s))"

definition read_int :: env_reader where
  "read_int s = (case py_int s of None \<Rightarrow> Inl (ValueError ''invalid literal for int()'') | Some i \<Rightarrow> Inr (Some (PInt i)))"

definition read_bool :: "string set \<Rightarrow> env_reader" where
  "read_bool yes s = Inr (Some (PBool (lower s \<in> yes)))"

definition read_optional :: "(string \<Rightarrow> string) \<Rightarrow> env_reader" where
  "read_optional f s = Inr (Some (if strip s = [] then PNone else PStr (f (strip s))))"

definition read_mode :: env_reader where
  "read_mode s = Inr (if lower (strip s) = [] then None else Some (PStr (lower (strip s))))"

definition read_float :: "config_libs \<Rightarrow> env_reader" where
  "read_float libs s = res_bind (cl_float libs s) (\<lambda>x. Inr (Some (PInt x)))"

definition read_flags :: "config_libs \<Rightarrow> env_reader" where
  "read_flags libs s =
     (if strip s = [] then Inr None
      else (case cl_json libs (strip s) of
        Inr (PDict d) \<Rightarrow> Inr (Some (PDict (map (\<lambda>(k, v). (k, PStr v)) (collect_flags [] d))))
      | _ \<Rightarrow> Inl (ValueError ''BROWSER_REQUIRED_FLAGS must be a JSON object'')))"

abbreviation yes_words :: "string set" where
  "yes_words \<equiv> {''1'', ''true'', ''yes''}"

text \<open>The variables in the order they are read, with the field each one sets.\<close>

definition env_fields :: "config_libs \<Rightarrow> (string \<times> string \<times> env_reader) list" where
  "env_fields libs =
     [(''RUNNER_ID'', ''runner_id'', read_text),
      (''CAMOUFOX_PATH'', ''camoufox_path'', read_text \<circ> cl_path libs),
      (''EVENT_ENDPOINT'', ''event_endpoint'', read_text),
      (''SLOT_LIMIT'', ''slot_limit'', read_int),
      (''WARM_POOL_CONFIG_PATH'', ''warm_pool_config_path'', read_optional (cl_path libs)),
      (''WARM_POOL_MODE'', ''warm_pool_mode'', read_mode),
      (''VNC_ENABLED'', ''vnc_enabled'', read_bool yes_words),
      (''VNC_HTTP_BASE_URL'', ''vnc_http_base_url'', read_text),
      (''VNC_WS_BASE_URL'', ''vnc_ws_base_url'', read_text),
      (''VNC_TOKEN_TTL_SECONDS'', ''vnc_token_ttl_seconds'', read_int),
      (''VNC_DISPLAY_MIN'', ''vnc_display_min'', read_int),
      (''VNC_DISPLAY_MAX'', ''vnc_display_max'', read_int),
      (''VNC_PORT_MIN'', ''vnc_port_min'', read_int),
      (''VNC_PORT_MAX'', ''vnc_port_max'', read_int),
      (''VNC_WS_PORT_MIN'', ''vnc_ws_port_min'', read_int),
      (''VNC_WS_PORT_MAX'', ''vnc_ws_port_max'', read_int),
      (''VNC_RESOLUTION'', ''vnc_resolution'', read_text),
      (''VNC_WEB_ASSETS_PATH'', ''vnc_web_assets_path'', read_text \<circ> cl_path libs),
      (''VNC_STARTUP_TIMEOUT_SECONDS'', ''vnc_startup_timeout_seconds'', read_float libs),
      (''PROXY_ENABLED'', ''proxy_enabled'', read_bool yes_words),
      (''PROXY_HTTP_BASE_URL'', ''proxy_http_base_url'', read_text),
      (''PROXY_HTTPS_BASE_URL'', ''proxy_https_base_url'', read_text),
      (''PROXY_SOCKS_BASE_URL'', ''proxy_socks_base_url'', read_text),
      (''BROWSER_PREFS_PATH'', ''browser_prefs_path'', read_optional (cl_path libs)),
      (''PREWARM_NAVIGATION'', ''prewarm_navigation'', read_bool (insert ''on'' yes_words)),
      (''START_URL'', ''start_url'', read_optional id),
      (''START_URL_WAIT_MS'', ''start_url_wait_ms'', read_int),
      (''PREWARM_FAILURE_HISTORY_SIZE'', ''prewarm_failure_history_size'', read_int),
      (''BROWSER_REQUIRED_FLAGS'', ''browser_required_flags'', read_flags libs)]"

fun read_env :: "(string, string) dict \<Rightarrow> (string \<times> string \<times> env_reader) list \<Rightarrow> (string, pyval) dict \<Rightarrow> (string, pyval) dict res" where
  "read_env env [] source = Inr source"
| "read_env env ((variable, field, reader) # rest) source =
     (case map_of env variable of
        None \<Rightarrow> read_env env rest source
      | Some raw \<Rightarrow> res_bind (reader raw) (\<lambda>v.
          read_env env rest (case v of None \<Rightarrow> source | Some x \<Rightarrow> AList.update field x source)))"

section \<open>Validation\<close>

text \<open>
  Pydantic's fields, on the raw values the readers give (a value of another type is an error). A default
  is taken as it stands.
\<close>

definition get_field :: "(string, pyval) dict \<Rightarrow> string \<Rightarrow> 'a \<Rightarrow> (pyval \<Rightarrow> 'a res) \<Rightarrow> 'a res" where
  "get_field d k default_value parse = (case map_of d k of None \<Rightarrow> Inr default_value | Some v \<Rightarrow> parse v)"

definition invalid :: "'a res" where
  "invalid = Inl (ValueError ''validation error for RunnerSettings'')"

fun text_value :: "pyval \<Rightarrow> string res" where
  "text_value (PStr s) = Inr s"
| "text_value _ = invalid"

fun int_between :: "int \<Rightarrow> int \<Rightarrow> pyval \<Rightarrow> int res" where
  "int_between lo hi (PInt i) = (if lo \<le> i \<and> i \<le> hi then Inr i else invalid)"
| "int_between lo hi _ = invalid"

fun int_from :: "int \<Rightarrow> pyval \<Rightarrow> int res" where
  "int_from lo (PInt i) = (if lo \<le> i then Inr i else invalid)"
| "int_from lo _ = invalid"

fun bool_value :: "pyval \<Rightarrow> bool res" where
  "bool_value (PBool b) = Inr b"
| "bool_value _ = invalid"

fun optional :: "(pyval \<Rightarrow> 'a res) \<Rightarrow> pyval \<Rightarrow> 'a option res" where
  "optional parse PNone = Inr None"
| "optional parse v = res_bind (parse v) (\<lambda>x. Inr (Some x))"

fun url_value :: "config_libs \<Rightarrow> pyval \<Rightarrow> url res" where
  "url_value libs (PStr s) = cl_any_url libs s"
| "url_value libs _ = invalid"

fun nonempty_text :: "pyval \<Rightarrow> string res" where
  "nonempty_text (PStr s) = (if s = [] then invalid else Inr s)"
| "nonempty_text _ = invalid"

fun mode_value :: "pyval \<Rightarrow> warm_mode res" where
  "mode_value (PStr s) = (if s = ''warm-only'' then Inr WARM_ONLY else if s = ''cold-only'' then Inr COLD_ONLY
     else if s = ''hybrid'' then Inr HYBRID else invalid)"
| "mode_value _ = invalid"

fun text_items :: "(string \<times> pyval) list \<Rightarrow> (string, string) dict res" where
  "text_items [] = Inr []"
| "text_items ((k, v) # items) = res_bind (text_value v) (\<lambda>s. res_bind (text_items items) (\<lambda>d. Inr ((k, s) # d)))"

fun text_dict :: "pyval \<Rightarrow> (string, string) dict res" where
  "text_dict (PDict d) = text_items d"
| "text_dict _ = invalid"

definition validate_vnc_ranges :: "runner_settings \<Rightarrow> runner_settings res" where
  "validate_vnc_ranges s =
     (if rs_vnc_display_max s < rs_vnc_display_min s then Inl (ValueError ''vnc_display_min must be <= vnc_display_max'')
      else if rs_vnc_port_max s < rs_vnc_port_min s then Inl (ValueError ''vnc_port_min must be <= vnc_port_max'')
      else if rs_vnc_ws_port_max s < rs_vnc_ws_port_min s then Inl (ValueError ''vnc_ws_port_min must be <= vnc_ws_port_max'')
      else
        (let display_span = rs_vnc_display_max s - rs_vnc_display_min s + 1;
             vnc_span = rs_vnc_port_max s - rs_vnc_port_min s + 1;
             ws_span = rs_vnc_ws_port_max s - rs_vnc_ws_port_min s + 1
         in if min display_span (min vnc_span ws_span) \<le> 0
            then Inl (ValueError ''VNC resource ranges must include at least one value'') else Inr s))"

definition validate_runner_settings :: "config_libs \<Rightarrow> (string, pyval) dict \<Rightarrow> runner_settings res" where
  "validate_runner_settings libs d =
     res_bind (get_field d ''runner_id'' ''runner-local'' nonempty_text) (\<lambda>rid.
     res_bind (get_field d ''camoufox_path'' ''/usr/bin/camoufox'' text_value) (\<lambda>camoufox.
     res_bind (get_field d ''event_endpoint'' None (optional (url_value libs))) (\<lambda>endpoint.
     res_bind (get_field d ''slot_limit'' 4 (int_from 1)) (\<lambda>slots.
     res_bind (get_field d ''warm_pool_config_path'' None (optional text_value)) (\<lambda>config.
     res_bind (get_field d ''warm_pool_mode'' HYBRID mode_value) (\<lambda>mode.
     res_bind (get_field d ''vnc_enabled'' True bool_value) (\<lambda>vnc.
     res_bind (get_field d ''vnc_http_base_url'' ''http://127.0.0.1:8060/vnc'' (url_value libs)) (\<lambda>http_base.
     res_bind (get_field d ''vnc_ws_base_url'' ''ws://127.0.0.1:8060/vnc'' (url_value libs)) (\<lambda>ws_base.
     res_bind (get_field d ''vnc_display_min'' 100 (int_between 1 1024)) (\<lambda>dmin.
     res_bind (get_field d ''vnc_display_max'' 199 (int_between 1 1024)) (\<lambda>dmax.
     res_bind (get_field d ''vnc_port_min'' 5900 (int_between 1024 65535)) (\<lambda>pmin.
     res_bind (get_field d ''vnc_port_max'' 5999 (int_between 1024 65535)) (\<lambda>pmax.
     res_bind (get_field d ''vnc_ws_port_min'' 6900 (int_between 1024 65535)) (\<lambda>wmin.
     res_bind (get_field d ''vnc_ws_port_max'' 6999 (int_between 1024 65535)) (\<lambda>wmax.
     res_bind (get_field d ''vnc_resolution'' ''1920x1080x24'' text_value) (\<lambda>resolution.
     res_bind (get_field d ''vnc_web_assets_path'' (Some ''/usr/share/novnc'') (optional text_value)) (\<lambda>assets.
     res_bind (get_field d ''vnc_startup_timeout_seconds'' 5000000 (int_between 1 30000000)) (\<lambda>timeout.
     res_bind (get_field d ''vnc_token_ttl_seconds'' 120 (int_between 1 300)) (\<lambda>ttl.
     res_bind (get_field d ''proxy_enabled'' False bool_value) (\<lambda>proxy.
     res_bind (get_field d ''proxy_http_base_url'' None (optional (url_value libs))) (\<lambda>http_proxy.
     res_bind (get_field d ''proxy_https_base_url'' None (optional (url_value libs))) (\<lambda>https_proxy.
     res_bind (get_field d ''proxy_socks_base_url'' None (optional (url_value libs))) (\<lambda>socks_proxy.
     res_bind (get_field d ''browser_prefs_path'' None (optional text_value)) (\<lambda>prefs.
     res_bind (get_field d ''prewarm_navigation'' False bool_value) (\<lambda>prewarm.
     res_bind (get_field d ''start_url'' None (optional (url_value libs))) (\<lambda>start.
     res_bind (get_field d ''start_url_wait_ms'' 0 (int_from 0)) (\<lambda>wait_ms.
     res_bind (get_field d ''prewarm_failure_history_size'' 5 (int_between 1 50)) (\<lambda>history.
     res_bind (get_field d ''browser_required_flags'' [] text_dict) (\<lambda>flags.
     validate_vnc_ranges \<lparr>rs_runner_id = rid, rs_camoufox_path = camoufox, rs_event_endpoint = endpoint,
       rs_slot_limit = slots, rs_warm_pool_config_path = config, rs_warm_pool_mode = mode, rs_vnc_enabled = vnc,
       rs_vnc_http_base_url = http_base, rs_vnc_ws_base_url = ws_base, rs_vnc_display_min = dmin,
       rs_vnc_display_max = dmax, rs_vnc_port_min = pmin, rs_vnc_port_max = pmax, rs_vnc_ws_port_min = wmin,
       rs_vnc_ws_port_max = wmax, rs_vnc_resolution = resolution, rs_vnc_web_assets_path = assets,
       rs_vnc_startup_timeout = timeout, rs_vnc_token_ttl = ttl, rs_proxy_enabled = proxy,
       rs_proxy_http_base_url = http_proxy, rs_proxy_https_base_url = https_proxy,
       rs_proxy_socks_base_url = socks_proxy, rs_browser_prefs_path = prefs, rs_prewarm_navigation = prewarm,
       rs_start_url = start, rs_start_url_wait_ms = wait_ms, rs_prewarm_history = history,
       rs_required_flags = flags\<rparr>)))))))))))))))))))))))))))))"

definition runner_settings_from_env :: "config_libs \<Rightarrow> (string, string) dict \<Rightarrow> runner_settings res" where
  "runner_settings_from_env libs env =
     res_bind (read_env env (env_fields libs) []) (validate_runner_settings libs)"

section \<open>The warm pool's file\<close>

text \<open>
  The file: it cannot be read, it is not JSON, or it holds a value. An entry may have further keys, of
  which the texts are kept (the pool reads texts from them and nothing else).
\<close>

datatype config_file = Unreadable string | NotJson string | Holds pyval

fun text_list :: "pyval list \<Rightarrow> string list res" where
  "text_list [] = Inr []"
| "text_list (v # vs) = res_bind (text_value v) (\<lambda>s. res_bind (text_list vs) (\<lambda>ss. Inr (s # ss)))"

fun tags_value :: "pyval \<Rightarrow> string list res" where
  "tags_value (PList vs) = text_list vs"
| "tags_value _ = invalid"

definition extra_texts :: "(string, pyval) dict \<Rightarrow> (string, string) dict" where
  "extra_texts d = concat (map (\<lambda>(k, v). case v of
     PStr s \<Rightarrow> if k \<in> {''id'', ''label'', ''tags''} then [] else [(k, s)] | _ \<Rightarrow> []) d)"

fun entry_value :: "pyval \<Rightarrow> workstation_entry res" where
  "entry_value (PDict d) =
     res_bind (case map_of d ''id'' of None \<Rightarrow> invalid | Some v \<Rightarrow> nonempty_text v) (\<lambda>i.
     res_bind (get_field d ''label'' None (optional text_value)) (\<lambda>l.
     res_bind (get_field d ''tags'' [] tags_value) (\<lambda>t.
     Inr \<lparr>wc_id = i, wc_label = l, wc_tags = t, wc_extra = extra_texts d\<rparr>)))"
| "entry_value _ = invalid"

fun entry_list :: "pyval list \<Rightarrow> workstation_entry list res" where
  "entry_list [] = Inr []"
| "entry_list (v # vs) = res_bind (entry_value v) (\<lambda>e. res_bind (entry_list vs) (\<lambda>es. Inr (e # es)))"

fun entries_value :: "pyval \<Rightarrow> workstation_entry list res" where
  "entries_value (PList vs) = entry_list vs"
| "entries_value _ = invalid"

fun validate_warm_pool_config :: "pyval \<Rightarrow> workstation_entry list res" where
  "validate_warm_pool_config (PDict d) =
     res_bind (get_field d ''workstations'' [] entries_value) validate_unique_ids"
| "validate_warm_pool_config _ = invalid"

definition load_warm_pool_config :: "(string \<Rightarrow> config_file) \<Rightarrow> string option \<Rightarrow> workstation_entry list option res" where
  "load_warm_pool_config files path = (case path of
     None \<Rightarrow> Inr None
   | Some p \<Rightarrow> (case files p of
       Unreadable m \<Rightarrow> Inl (OtherError (''failed to read warm pool config from '' @ p @ '': '' @ m))
     | NotJson m \<Rightarrow> Inl (OtherError (''warm pool config at '' @ p @ '' is not valid JSON: '' @ m))
     | Holds v \<Rightarrow> (case validate_warm_pool_config v of
         Inl _ \<Rightarrow> Inl (OtherError (''warm pool config at '' @ p @ '' failed validation''))
       | Inr es \<Rightarrow> Inr (Some es))))"

section \<open>Wiring\<close>

text \<open>
  \<open>get_vnc_controller\<close> and \<open>get_session_manager\<close>: the parameters of the components taken from the
  settings. The startup timeout of the helpers is kept in the environment of the controller, in
  milliseconds.
\<close>

definition vnc_settings :: "runner_settings \<Rightarrow> vnc_env \<Rightarrow> vnc_env" where
  "vnc_settings s env = env\<lparr>ve_display_min := rs_vnc_display_min s, ve_display_max := rs_vnc_display_max s,
     ve_port_min := rs_vnc_port_min s, ve_port_max := rs_vnc_port_max s, ve_ws_port_min := rs_vnc_ws_port_min s,
     ve_ws_port_max := rs_vnc_ws_port_max s, ve_resolution := rs_vnc_resolution s,
     ve_assets := rs_vnc_web_assets_path s, ve_http_base_url := rs_vnc_http_base_url s,
     ve_ws_base_url := rs_vnc_ws_base_url s\<rparr>"

definition get_vnc_controller :: "runner_settings \<Rightarrow> vnc_env \<Rightarrow> vnc_world option" where
  "get_vnc_controller s env =
     (if \<not> rs_vnc_enabled s then None
      else (case init_controller (vnc_settings s env) of Inl _ \<Rightarrow> None | Inr w \<Rightarrow> Some w))"

definition manager_settings :: "runner_settings \<Rightarrow> (string \<Rightarrow> config_file) \<Rightarrow> manager_env \<Rightarrow> manager_env" where
  "manager_settings s files env = env\<lparr>
     me_pool_env := (me_pool_env env)\<lparr>pe_loader := load_warm_pool_config files (rs_warm_pool_config_path s)\<rparr>,
     me_vnc_env := vnc_settings s (me_vnc_env env),
     me_has_pool := True, me_has_vnc := (get_vnc_controller s (me_vnc_env env) \<noteq> None),
     me_runner_id := rs_runner_id s, me_vnc_enabled := rs_vnc_enabled s, me_mode := rs_warm_pool_mode s,
     me_required_flags := rs_required_flags s, me_history := nat (rs_prewarm_history s)\<rparr>"

section \<open>What accepted settings are\<close>

definition settings_ok :: "runner_settings \<Rightarrow> bool" where
  "settings_ok s \<longleftrightarrow> rs_runner_id s \<noteq> [] \<and> 1 \<le> rs_slot_limit s \<and>
     1 \<le> rs_vnc_display_min s \<and> rs_vnc_display_min s \<le> rs_vnc_display_max s \<and> rs_vnc_display_max s \<le> 1024 \<and>
     1024 \<le> rs_vnc_port_min s \<and> rs_vnc_port_min s \<le> rs_vnc_port_max s \<and> rs_vnc_port_max s \<le> 65535 \<and>
     1024 \<le> rs_vnc_ws_port_min s \<and> rs_vnc_ws_port_min s \<le> rs_vnc_ws_port_max s \<and> rs_vnc_ws_port_max s \<le> 65535 \<and>
     1 \<le> rs_vnc_startup_timeout s \<and> rs_vnc_startup_timeout s \<le> 30000000 \<and>
     1 \<le> rs_vnc_token_ttl s \<and> rs_vnc_token_ttl s \<le> 300 \<and> 0 \<le> rs_start_url_wait_ms s \<and>
     1 \<le> rs_prewarm_history s \<and> rs_prewarm_history s \<le> 50"

lemma int_between_Inr: "int_between lo hi v = Inr i \<Longrightarrow> lo \<le> i \<and> i \<le> hi"
  by (cases "(lo, hi, v)" rule: int_between.cases) (auto simp: invalid_def split: if_splits)

lemma int_from_Inr: "int_from lo v = Inr i \<Longrightarrow> lo \<le> i"
  by (cases "(lo, v)" rule: int_from.cases) (auto simp: invalid_def split: if_splits)

lemma nonempty_text_Inr: "nonempty_text v = Inr s \<Longrightarrow> s \<noteq> []"
  by (cases v) (auto simp: invalid_def split: if_splits)

lemma get_field_low: "get_field d k n (int_between lo hi) = Inr i \<Longrightarrow> lo \<le> n \<Longrightarrow> lo \<le> i"
  by (auto simp: get_field_def dest: int_between_Inr split: option.splits)

lemma get_field_high: "get_field d k n (int_between lo hi) = Inr i \<Longrightarrow> n \<le> hi \<Longrightarrow> i \<le> hi"
  by (auto simp: get_field_def dest: int_between_Inr split: option.splits)

lemma get_field_from: "get_field d k n (int_from lo) = Inr i \<Longrightarrow> lo \<le> n \<Longrightarrow> lo \<le> i"
  by (auto simp: get_field_def dest: int_from_Inr split: option.splits)

lemma get_field_text: "get_field d k x nonempty_text = Inr s \<Longrightarrow> x \<noteq> [] \<Longrightarrow> s \<noteq> []"
  by (auto simp: get_field_def dest: nonempty_text_Inr split: option.splits)

lemma validate_vnc_ranges_Inr: "validate_vnc_ranges s = Inr t \<Longrightarrow> t = s \<and>
    rs_vnc_display_min s \<le> rs_vnc_display_max s \<and> rs_vnc_port_min s \<le> rs_vnc_port_max s \<and>
    rs_vnc_ws_port_min s \<le> rs_vnc_ws_port_max s"
  by (auto simp: validate_vnc_ranges_def Let_def split: if_splits)

lemma validate_runner_settings_ok: "validate_runner_settings libs d = Inr s \<Longrightarrow> settings_ok s"
  unfolding validate_runner_settings_def settings_ok_def res_bind_eq_Inr
  by (elim exE conjE, drule validate_vnc_ranges_Inr, elim conjE, hypsubst, simp only: runner_settings.simps, intro conjI)
    (assumption | rule TrueI | (erule get_field_text, simp (no_asm)) | (erule get_field_from, simp (no_asm)) |
      (erule get_field_low, simp (no_asm)) | (erule get_field_high, simp (no_asm)))+

lemma upto_Cons: "lo \<le> hi \<Longrightarrow> \<exists>ns. [lo..hi] = lo # ns" for lo hi :: int
  by (simp add: upto_rec1)

lemma controller_pool:
  "init_controller env = Inr w \<Longrightarrow> vw_pool w = init_vnc_pool [ve_display_min env..ve_display_max env]
     [ve_port_min env..ve_port_max env] [ve_ws_port_min env..ve_ws_port_max env]"
  by (auto simp: init_controller_def Let_def split: if_splits)

text \<open>
  C37: Settings the runner starts with are sound. Whatever the environment says, settings that
  \<open>from_env\<close> returns lie within every documented bound, and a VNC controller built from them can
  allocate: its pool holds all displays and ports of the configured ranges, and acquiring from it gives
  the first of each.
\<close>

theorem settings_from_env_are_sound:
  assumes "runner_settings_from_env libs env = Inr s"
  shows "settings_ok s \<and>
    (\<forall>venv w. get_vnc_controller s venv = Some w \<longrightarrow>
       set (vp_displays (vw_pool w)) = {rs_vnc_display_min s..rs_vnc_display_max s} \<and>
       set (vp_vnc_ports (vw_pool w)) = {rs_vnc_port_min s..rs_vnc_port_max s} \<and>
       set (vp_ws_ports (vw_pool w)) = {rs_vnc_ws_port_min s..rs_vnc_ws_port_max s} \<and>
       fst (acquire (vw_pool w)) = Inr \<lparr>vs_display = rs_vnc_display_min s, vs_vnc_port = rs_vnc_port_min s,
         vs_ws_port = rs_vnc_ws_port_min s\<rparr>)"
proof -
  have ok: "settings_ok s"
    using assms validate_runner_settings_ok by (auto simp: runner_settings_from_env_def)
  have "set (vp_displays (vw_pool w)) = {rs_vnc_display_min s..rs_vnc_display_max s} \<and>
       set (vp_vnc_ports (vw_pool w)) = {rs_vnc_port_min s..rs_vnc_port_max s} \<and>
       set (vp_ws_ports (vw_pool w)) = {rs_vnc_ws_port_min s..rs_vnc_ws_port_max s} \<and>
       fst (acquire (vw_pool w)) = Inr \<lparr>vs_display = rs_vnc_display_min s, vs_vnc_port = rs_vnc_port_min s,
         vs_ws_port = rs_vnc_ws_port_min s\<rparr>"
    if "get_vnc_controller s venv = Some w" for venv w
  proof -
    have "init_controller (vnc_settings s venv) = Inr w"
      using that by (auto simp: get_vnc_controller_def split: if_splits sum.splits)
    from controller_pool [OF this] have pool: "vw_pool w = init_vnc_pool [rs_vnc_display_min s..rs_vnc_display_max s]
        [rs_vnc_port_min s..rs_vnc_port_max s] [rs_vnc_ws_port_min s..rs_vnc_ws_port_max s]"
      by (simp add: vnc_settings_def)
    obtain ds vs ws where "[rs_vnc_display_min s..rs_vnc_display_max s] = rs_vnc_display_min s # ds"
      "[rs_vnc_port_min s..rs_vnc_port_max s] = rs_vnc_port_min s # vs"
      "[rs_vnc_ws_port_min s..rs_vnc_ws_port_max s] = rs_vnc_ws_port_min s # ws"
      using ok upto_Cons unfolding settings_ok_def by metis
    then have "fst (acquire (vw_pool w)) = Inr \<lparr>vs_display = rs_vnc_display_min s, vs_vnc_port = rs_vnc_port_min s,
         vs_ws_port = rs_vnc_ws_port_min s\<rparr>"
      by (simp add: pool acquire_def init_vnc_pool_def Let_def)
    then show ?thesis by (simp add: pool init_vnc_pool_def)
  qed
  with ok show ?thesis by blast
qed

text \<open>A pool loaded from the configured file has unique ids, so a fresh manager may be started.\<close>

lemma validate_warm_pool_config_unique:
  "validate_warm_pool_config v = Inr es \<Longrightarrow> distinct (map wc_id es)"
  by (cases v) (auto simp: validate_unique_ids_ok invalid_def)

lemma load_warm_pool_config_unique:
  "load_warm_pool_config files path = Inr (Some es) \<Longrightarrow> validate_unique_ids es = Inr es"
  by (auto simp: load_warm_pool_config_def validate_unique_ids_ok validate_warm_pool_config_unique
      split: option.splits config_file.splits sum.splits)

lemma manager_settings_loader:
  "pe_loader (me_pool_env (manager_settings s files env)) = Inr (Some es) \<Longrightarrow> validate_unique_ids es = Inr es"
  by (auto simp: manager_settings_def intro: load_warm_pool_config_unique)

definition demo_config_libs :: config_libs where
  "demo_config_libs = \<lparr>cl_any_url = Inr, cl_path = id, cl_float = (\<lambda>_. Inr 1000000), cl_json = (\<lambda>_. Inr (PDict []))\<rparr>"

lemma settings_from_env_are_sound_witness:
  "\<exists>s. runner_settings_from_env demo_config_libs [(''RUNNER_ID'', ''runner-1''), (''VNC_PORT_MAX'', ''5900'')] = Inr s \<and>
     settings_ok s"
proof -
  have port: "py_int ''5900'' = Some 5900"
    by code_simp
  have "\<exists>s. runner_settings_from_env demo_config_libs [(''RUNNER_ID'', ''runner-1''), (''VNC_PORT_MAX'', ''5900'')] = Inr s"
    by (simp add: runner_settings_from_env_def env_fields_def read_text_def read_int_def validate_runner_settings_def
        get_field_def validate_vnc_ranges_def Let_def port)
  then show ?thesis
    using settings_from_env_are_sound by blast
qed

end
