(* ===== verification/Runner_Api.thy ===== *)
theory Runner_Api
  imports Runner_Settings Runner_Client Vnc_Gateway
begin

text \<open>
  The runner's HTTP application (\<open>services/runner/app/main.py\<close>) and its workstation routes
  (\<open>routers/workstations.py\<close>): the bodies it accepts, the handlers over the session manager and the
  warm pool with the errors they turn into answers, the health payload, and the proxy of VNC assets.
\<close>

declare map_of_eq_Some_iff [simp del] Some_eq_map_of_iff [simp del]

section \<open>Bodies\<close>

text \<open>Pydantic's coercions of JSON values, for the types the program does not define.\<close>

record json_readers =
  jl_any_url :: "string \<Rightarrow> url res"
  jl_bool :: "pyval \<Rightarrow> bool res"
  jl_int :: "pyval \<Rightarrow> int res"
  jl_datetime :: "pyval \<Rightarrow> datetime res"
  jl_proxy :: "pyval \<Rightarrow> proxy_settings res"
  jl_vnc :: "pyval \<Rightarrow> vnc_details res"

definition url_of :: "json_readers \<Rightarrow> pyval \<Rightarrow> url res" where
  "url_of rd v = res_bind (as_text v) (jl_any_url rd)"

definition status_of :: "pyval \<Rightarrow> session_status res" where
  "status_of v = res_bind (as_text v) (\<lambda>s.
     if s = ''INIT'' then Inr INIT else if s = ''READY'' then Inr READY
     else if s = ''TERMINATING'' then Inr TERMINATING else if s = ''DEAD'' then Inr DEAD
     else Inl (ValueError ''Input should be a session status''))"

definition wait_of :: "pyval \<Rightarrow> start_url_wait res" where
  "wait_of v = res_bind (as_text v) (\<lambda>s.
     if s = ''none'' then Inr WaitNONE else if s = ''domcontentloaded'' then Inr WaitDOM_CONTENT_LOADED
     else if s = ''load'' then Inr WaitLOAD else Inl (ValueError ''Input should be a wait strategy''))"

definition ttl_of :: "json_readers \<Rightarrow> pyval \<Rightarrow> int res" where
  "ttl_of rd v = res_bind (jl_int rd v) (\<lambda>i.
     if 30 \<le> i \<and> i \<le> 3600 then Inr i else Inl (ValueError ''Input should be between 30 and 3600''))"

definition browser_of :: "pyval \<Rightarrow> string res" where
  "browser_of v = res_bind (as_text v) (\<lambda>s. res_bind (min_length_1 s) (\<lambda>_. Inr s))"

definition metadata_of :: "pyval \<Rightarrow> (string, pyval) dict res" where
  "metadata_of v = (case v of PDict d \<Rightarrow> Inr d | _ \<Rightarrow> Inl (ValueError ''Input should be a valid dictionary''))"

definition labels_of :: "pyval \<Rightarrow> (string, string) dict res" where
  "labels_of v = (case v of PDict d \<Rightarrow> text_items d | _ \<Rightarrow> Inl (ValueError ''Input should be a valid dictionary''))"

lemma text_items_texts [simp]: "text_items (map (\<lambda>(k, v). (k, PStr v)) d) = Inr d"
  by (induction d) auto

text \<open>\<open>SessionCreatePayload\<close>: a field that is not declared is refused.\<close>

definition session_create_fields :: "string list" where
  "session_create_fields = [''status'', ''headless'', ''idle_ttl_seconds'', ''start_url'', ''start_url_wait'', ''browser'',
     ''labels'', ''ws_endpoint'', ''proxy'', ''vnc'', ''vnc_enabled'', ''metadata'']"

definition parse_session_create :: "json_readers \<Rightarrow> (string, pyval) dict \<Rightarrow> create_payload res" where
  "parse_session_create rd d =
     (if \<exists>k \<in> keys d. k \<notin> set session_create_fields then Inl (ValueError ''Extra inputs are not permitted'')
      else
        res_bind (get_field d ''status'' INIT status_of) (\<lambda>status.
        res_bind (get_field d ''headless'' False (jl_bool rd)) (\<lambda>headless.
        res_bind (get_field d ''idle_ttl_seconds'' 300 (ttl_of rd)) (\<lambda>ttl.
        res_bind (get_field d ''start_url'' None (optional (url_of rd))) (\<lambda>start.
        res_bind (get_field d ''start_url_wait'' WaitLOAD wait_of) (\<lambda>wait.
        res_bind (get_field d ''browser'' ''camoufox'' browser_of) (\<lambda>browser.
        res_bind (get_field d ''labels'' [] labels_of) (\<lambda>labels.
        res_bind (get_field d ''ws_endpoint'' None (optional as_text)) (\<lambda>ws.
        res_bind (get_field d ''proxy'' None (optional (jl_proxy rd))) (\<lambda>proxy.
        res_bind (get_field d ''vnc'' None (optional (jl_vnc rd))) (\<lambda>vnc.
        res_bind (get_field d ''vnc_enabled'' None (optional (jl_bool rd))) (\<lambda>enabled.
        res_bind (get_field d ''metadata'' [] metadata_of) (\<lambda>meta.
        Inr \<lparr>cp_status = status, cp_headless = headless, cp_idle_ttl = ttl, cp_start_url = start,
          cp_start_url_wait = wait, cp_browser = browser, cp_labels = labels, cp_ws_endpoint = ws, cp_proxy = proxy,
          cp_vnc = vnc, cp_vnc_enabled = enabled, cp_metadata = meta\<rparr>)))))))))))))"

text \<open>\<open>SessionUpdatePayload\<close>: a field that is absent was not set, null is an explicit null.\<close>

definition set_field :: "(string, pyval) dict \<Rightarrow> string \<Rightarrow> (pyval \<Rightarrow> 'a res) \<Rightarrow> 'a option option res" where
  "set_field d k parse = get_field d k None (\<lambda>v. res_bind (optional parse v) (\<lambda>x. Inr (Some x)))"

definition session_update_fields :: "string list" where
  "session_update_fields = [''status'', ''last_seen_at'', ''ended_at'', ''headless'', ''idle_ttl_seconds'', ''start_url'',
     ''start_url_wait'', ''browser'', ''labels'', ''ws_endpoint'', ''proxy'', ''vnc'', ''vnc_enabled'', ''metadata'', ''reason'']"

definition parse_session_update :: "json_readers \<Rightarrow> (string, pyval) dict \<Rightarrow> update_payload res" where
  "parse_session_update rd d =
     (if \<exists>k \<in> keys d. k \<notin> set session_update_fields then Inl (ValueError ''Extra inputs are not permitted'')
      else
        res_bind (set_field d ''status'' status_of) (\<lambda>status.
        res_bind (set_field d ''last_seen_at'' (jl_datetime rd)) (\<lambda>seen.
        res_bind (set_field d ''ended_at'' (jl_datetime rd)) (\<lambda>ended.
        res_bind (set_field d ''headless'' (jl_bool rd)) (\<lambda>headless.
        res_bind (set_field d ''idle_ttl_seconds'' (ttl_of rd)) (\<lambda>ttl.
        res_bind (set_field d ''start_url'' (url_of rd)) (\<lambda>start.
        res_bind (set_field d ''start_url_wait'' wait_of) (\<lambda>wait.
        res_bind (set_field d ''browser'' browser_of) (\<lambda>browser.
        res_bind (set_field d ''labels'' labels_of) (\<lambda>labels.
        res_bind (set_field d ''ws_endpoint'' as_text) (\<lambda>ws.
        res_bind (set_field d ''proxy'' (jl_proxy rd)) (\<lambda>proxy.
        res_bind (set_field d ''vnc'' (jl_vnc rd)) (\<lambda>vnc.
        res_bind (set_field d ''vnc_enabled'' (jl_bool rd)) (\<lambda>enabled.
        res_bind (set_field d ''metadata'' metadata_of) (\<lambda>meta.
        res_bind (set_field d ''reason'' as_text) (\<lambda>reason.
        Inr \<lparr>up_status = status, up_last_seen_at = seen, up_ended_at = ended, up_headless = headless,
          up_idle_ttl = ttl, up_start_url = start, up_start_url_wait = wait, up_browser = browser, up_labels = labels,
          up_ws_endpoint = ws, up_proxy = proxy, up_vnc = vnc, up_vnc_enabled = enabled, up_metadata = meta,
          up_reason = reason\<rparr>))))))))))))))))"

section \<open>Sessions\<close>

definition missing_session :: "'a manager_op \<Rightarrow> 'a manager_op" where
  "missing_session m = catchm m (\<lambda>e.
     if e = SessionNotFoundError then raise (HTTPException 404 ''session not found'') else raise e)"

definition http_create_session :: "manager_env \<Rightarrow> create_payload \<Rightarrow> session manager_op" where
  "http_create_session env payload = catchm (create_session env payload) (\<lambda>e. case e of
     SessionCapacityError _ \<Rightarrow> raise (HTTPException 429 ''no warm workstations available'') | _ \<Rightarrow> raise e)"

definition http_list_sessions :: "session list manager_op" where
  "http_list_sessions = list_sessions"

definition http_update_session :: "manager_env \<Rightarrow> nat \<Rightarrow> update_payload \<Rightarrow> session manager_op" where
  "http_update_session env sid payload = missing_session (update_session env sid payload)"

definition http_touch_session :: "manager_env \<Rightarrow> nat \<Rightarrow> session manager_op" where
  "http_touch_session env sid = missing_session (touch_session env sid)"

definition http_delete_session :: "manager_env \<Rightarrow> nat \<Rightarrow> session manager_op" where
  "http_delete_session env sid = missing_session (end_session env sid None None)"

section \<open>Health\<close>

text \<open>
  \<open>path_of\<close> is the path of a pydantic URL, \<open>fmt\<close> prints a timestamp. A base URL loses the slash
  pydantic added when it has no path.
\<close>

definition normalise_base_url :: "(url \<Rightarrow> string option) \<Rightarrow> url option \<Rightarrow> pyval" where
  "normalise_base_url path_of u = (case u of
     None \<Rightarrow> PNone
   | Some t \<Rightarrow> if t \<noteq> [] \<and> last t = CHR ''/'' \<and> path_of t \<in> {Some [], Some ''/''} then PStr (butlast t) else PStr t)"

definition isoformat_or_none :: "(datetime \<Rightarrow> string) \<Rightarrow> datetime option \<Rightarrow> pyval" where
  "isoformat_or_none fmt t = (case t of None \<Rightarrow> PNone | Some t \<Rightarrow> PStr (fmt t))"

definition opt_text :: "string option \<Rightarrow> pyval" where
  "opt_text t = (case t of None \<Rightarrow> PNone | Some s \<Rightarrow> PStr s)"

definition warm_pool_payload :: "warm_statistics option \<Rightarrow> pyval" where
  "warm_pool_payload stats = (case stats of
     None \<Rightarrow> PDict [(''enabled'', PBool False), (''total'', PInt 0), (''idle'', PInt 0), (''busy'', PInt 0),
       (''error'', PInt 0), (''draining'', PBool False)]
   | Some w \<Rightarrow> PDict [(''enabled'', PBool (0 < st_total w)), (''total'', PInt (int (st_total w))),
       (''idle'', PInt (int (st_idle w))), (''busy'', PInt (int (st_busy w))), (''error'', PInt (int (st_error w))),
       (''draining'', PBool (st_draining w))])"

definition health ::
  "(url \<Rightarrow> string option) \<Rightarrow> (datetime \<Rightarrow> string) \<Rightarrow> runner_settings \<Rightarrow> manager_env \<Rightarrow> pyval manager_op" where
  "health path_of fmt s env =
     bindm get_metrics (\<lambda>metrics.
     bindm (gets (get_warm_pool_statistics env)) (\<lambda>stats.
     ret (PDict
      [(''status'', PStr ''ok''), (''runner_id'', PStr (rs_runner_id s)), (''camoufox_path'', PStr (rs_camoufox_path s)),
       (''slots'', PDict [(''total'', PInt (rs_slot_limit s)), (''active'', PInt (int (mm_active_sessions metrics))),
          (''available'', PInt (max (rs_slot_limit s - int (mm_active_sessions metrics)) 0))]),
       (''warm_pool'', warm_pool_payload stats),
       (''vnc'', PDict [(''http_base_url'', PStr (rs_vnc_http_base_url s)), (''ws_base_url'', PStr (rs_vnc_ws_base_url s)),
          (''enabled'', PBool (rs_vnc_enabled s))]),
       (''proxy'', PDict [(''enabled'', PBool (rs_proxy_enabled s)),
          (''http_base_url'', normalise_base_url path_of (rs_proxy_http_base_url s)),
          (''https_base_url'', normalise_base_url path_of (rs_proxy_https_base_url s)),
          (''socks_base_url'', normalise_base_url path_of (rs_proxy_socks_base_url s))]),
       (''prewarm'', PDict [(''enabled'', PBool (rs_prewarm_navigation s)), (''start_url'', opt_text (rs_start_url s)),
          (''failures'', PInt (int (length (mm_failures metrics)))), (''last_error'', opt_text (mm_last_error metrics))]),
       (''ttl'', PDict [(''next_expiry_at'', isoformat_or_none fmt (mm_next_expiry metrics)),
          (''reaper'', PDict [(''total_runs'', PInt (int (mm_reaper_runs metrics))),
             (''expired_sessions'', PInt (int (mm_reaper_expired metrics))),
             (''last_run_at'', isoformat_or_none fmt (mm_reaper_last metrics))])])])))"

section \<open>VNC assets\<close>

definition filter_request_headers :: "(string \<times> string) list \<Rightarrow> (string, string) dict" where
  "filter_request_headers headers = fold (\<lambda>(k, v) d.
     if lower k \<in> set hop_by_hop \<or> lower k = ''host'' then d else AList.update k v d) headers []"

definition merge_query_params :: "(string \<times> string) list \<Rightarrow> (string \<times> string) list \<Rightarrow> (string \<times> string) list" where
  "merge_query_params base overrides = filter (\<lambda>(k, _). k \<notin> fst ` set overrides) base @ overrides"

definition build_vnc_upstream_url :: "url \<Rightarrow> string \<Rightarrow> (string \<times> string) list \<Rightarrow> string res" where
  "build_vnc_upstream_url base_url asset_path query =
     res_bind (urlsplit base_url) (\<lambda>parsed.
       let resolved = (if asset_path \<noteq> [] then asset_path else if u_path parsed \<noteq> [] then u_path parsed else ''/'');
           path = (if starts_with ''/'' resolved then resolved else CHR ''/'' # resolved);
           merged = merge_query_params (parse_qsl True (u_query parsed))
             (filter (\<lambda>(k, _). lower k \<noteq> ''token'') query)
       in Inr (urlunsplit \<lparr>u_scheme = u_scheme parsed, u_netloc = u_netloc parsed, u_path = path, u_params = [],
            u_query = urlencode merged, u_fragment = []\<rparr>))"

text \<open>
  The request to the session's local noVNC endpoint; \<open>local\<close> answers it, or fails. The answer's
  headers but the hop-by-hop ones go back to the caller.
\<close>

definition vnc_asset_request :: "session \<Rightarrow> string \<Rightarrow> Vnc_Gateway.http_request \<Rightarrow> upstream_request res" where
  "vnc_asset_request s asset_path r = (case s_vnc s of
     None \<Rightarrow> Inl (HTTPException 404 ''session does not expose VNC assets'')
   | Some details \<Rightarrow> (case vd_http_url details of
       None \<Rightarrow> Inl (HTTPException 404 ''session does not expose VNC assets'')
     | Some u \<Rightarrow> res_bind (build_vnc_upstream_url u asset_path (hq_query r)) (\<lambda>url.
         Inr \<lparr>ur_method = hq_method r, ur_url = url, ur_headers = filter_request_headers (hq_headers r),
              ur_content = None\<rparr>)))"

definition proxy_vnc_assets ::
  "(upstream_request \<Rightarrow> http_response option) \<Rightarrow> nat \<Rightarrow> string \<Rightarrow> Vnc_Gateway.http_request \<Rightarrow> http_response manager_op" where
  "proxy_vnc_assets local sid asset_path r =
     bindm (missing_session (get_session sid)) (\<lambda>s.
     bindm (lift_res (vnc_asset_request s asset_path r)) (\<lambda>request.
     case local request of
       None \<Rightarrow> raise (HTTPException 502 ''failed to fetch VNC asset from local endpoint'')
     | Some answer \<Rightarrow> ret (answer\<lparr>hr_headers := filter_response_headers (hr_headers answer)\<rparr>)))"

section \<open>Workstations\<close>

definition translate_state_error :: "string \<Rightarrow> exn" where
  "translate_state_error message = HTTPException (if contains ''unknown workstation'' (lower message) then 404 else 409) message"

definition workstation_route :: "'a pool_op \<Rightarrow> 'a pool_op" where
  "workstation_route m = catchm m (\<lambda>e. case e of WarmPoolStateError t \<Rightarrow> raise (translate_state_error t) | _ \<Rightarrow> raise e)"

record workstation_reservation_response =
  wr_snapshot :: warm_snapshot
  wr_environment :: "(string, string) dict"

definition serialise_reservation :: "warm_reservation \<Rightarrow> workstation_reservation_response" where
  "serialise_reservation rv = \<lparr>wr_snapshot = rv_snapshot rv, wr_environment = rv_environment rv\<rparr>"

definition http_list_workstations :: "warm_snapshot list pool_op" where
  "http_list_workstations = gets list_slots"

definition reserve_workstation :: "pool_env \<Rightarrow> string option \<Rightarrow> workstation_reservation_response pool_op" where
  "reserve_workstation env wid = bindm (workstation_route (reserve_slot env wid)) (\<lambda>rv. ret (serialise_reservation rv))"

definition mark_workstation_busy :: "pool_env \<Rightarrow> string \<Rightarrow> warm_snapshot pool_op" where
  "mark_workstation_busy env wid = workstation_route (mark_busy env wid)"

definition cancel_workstation_reservation :: "pool_env \<Rightarrow> string \<Rightarrow> warm_snapshot pool_op" where
  "cancel_workstation_reservation env wid = workstation_route (cancel_reservation env wid)"

definition release_workstation :: "pool_env \<Rightarrow> string \<Rightarrow> warm_snapshot pool_op" where
  "release_workstation env wid = workstation_route (release_slot env wid)"

definition restart_workstation :: "pool_env \<Rightarrow> string \<Rightarrow> warm_snapshot pool_op" where
  "restart_workstation env wid = workstation_route (restart_slot env wid)"

definition drain_workstation :: "pool_env \<Rightarrow> string \<Rightarrow> warm_snapshot pool_op" where
  "drain_workstation env wid = workstation_route (drain_slot env wid)"

definition enable_workstation :: "pool_env \<Rightarrow> string \<Rightarrow> warm_snapshot pool_op" where
  "enable_workstation env wid = workstation_route (enable_slot env wid)"

end
