(* ===== verification/Runner_Api_Props.thy ===== *)
theory Runner_Api_Props
  imports Runner_Api Session_Manager_Props Runner_Registry_Props
begin

text \<open>
  The runner's HTTP application next to its callers: the gateway's commands fit the bodies it accepts,
  its health reaches the gateway's registry unchanged, its VNC assets come from the session's own
  endpoint, and the manager's guards hold for the configuration it loads.
\<close>

declare map_of_eq_Some_iff [simp del] Some_eq_map_of_iff [simp del]

section \<open>Start-up\<close>

lemma configured_manager_startable:
  "startable cf (manager_settings st files env) (init_manager (init_pool w None) v)"
  using manager_settings_loader by (simp add: startable_def start_guard_def vacant_def init_manager_def init_pool_def)

section \<open>Commands\<close>

lemma min_length_1_Inr [simp]: "min_length_1 s = Inr x \<longleftrightarrow> s \<noteq> [] \<and> x = ()"
  by (auto simp: min_length_1_def ensure_def)

definition command_labels :: "create_command \<Rightarrow> (string, string) dict" where
  "command_labels c = (''region'', cc_region c) # (case cc_proxy_id c of None \<Rightarrow> [] | Some p \<Rightarrow> [(''proxy_id'', p)])"

lemma parsed_command_browser:
  "parse_create_command any_url as_bool d = Inr c \<Longrightarrow> cc_browser_name c \<noteq> []"
  by (auto simp: parse_create_command_def split: if_splits)

lemma create_payload_fits:
  assumes "cc_browser_name c \<noteq> []" and "\<forall>b. jl_bool rd (PBool b) = Inr b"
    and "\<forall>u. cc_start_url c = Some u \<longrightarrow> jl_any_url rd u = Inr u"
  shows "\<exists>p. create_payload c = PDict p \<and> parse_session_create rd p =
    Inr \<lparr>cp_status = INIT, cp_headless = cc_headless c, cp_idle_ttl = 300, cp_start_url = cc_start_url c,
      cp_start_url_wait = WaitLOAD, cp_browser = cc_browser_name c, cp_labels = command_labels c,
      cp_ws_endpoint = None, cp_proxy = None, cp_vnc = None, cp_vnc_enabled = None, cp_metadata = []\<rparr>"
proof -
  have labels: "labels_of (PDict ((''region'', PStr (cc_region c)) #
      (case cc_proxy_id c of None \<Rightarrow> [] | Some p \<Rightarrow> [(''proxy_id'', PStr p)]))) = Inr (command_labels c)"
    by (cases "cc_proxy_id c") (simp_all add: labels_of_def command_labels_def)
  show ?thesis
    unfolding create_payload_def
    using assms by (cases "cc_start_url c")
      (simp_all add: parse_session_create_def session_create_fields_def get_field_def labels browser_of_def url_of_def)
qed

definition command_update :: "update_command \<Rightarrow> update_payload" where
  "command_update c = no_update\<lparr>up_status := map_option Some (uc_status c), up_headless := map_option Some (uc_headless c),
     up_labels := map_option Some (uc_labels c), up_metadata := map_option Some (uc_metadata c),
     up_reason := map_option Some (uc_reason c)\<rparr>"

lemma status_of_value [simp]: "status_of (PStr (status_value s)) = Inr s"
  by (cases s) (simp_all add: status_of_def)

lemma update_payload_fits:
  assumes "\<forall>b. jl_bool rd (PBool b) = Inr b"
  shows "\<exists>p. update_command_payload c = PDict p \<and> parse_session_update rd p = Inr (command_update c)"
  unfolding update_command_payload_def
  using assms
  by (cases "uc_status c"; cases "uc_headless c"; cases "uc_labels c"; cases "uc_metadata c"; cases "uc_reason c")
    (simp_all add: parse_session_update_def session_update_fields_def set_field_def get_field_def command_update_def
      no_update_def labels_of_def metadata_of_def)

text \<open>
  C23: The gateway and the runner agree on their commands. Every create command the gateway accepts is
  sent as a body the runner accepts, and the session the runner is asked for has the browser, headless
  flag and start URL of the command, its region and proxy as labels, and defaults elsewhere. Every
  update command is sent as a body the runner reads as exactly the fields the command sets, and it is
  one its bookkeeping can handle. (JSON booleans are read as they are, and the start URL the gateway has
  normalised is read back unchanged.)
\<close>

theorem gateway_commands_fit_runner:
  assumes "\<forall>b. jl_bool rd (PBool b) = Inr b"
    and "parse_create_command any_url as_bool d = Inr c"
    and "\<forall>u. cc_start_url c = Some u \<longrightarrow> jl_any_url rd u = Inr u"
  shows "(\<exists>p. create_payload c = PDict p \<and> parse_session_create rd p =
      Inr \<lparr>cp_status = INIT, cp_headless = cc_headless c, cp_idle_ttl = 300, cp_start_url = cc_start_url c,
        cp_start_url_wait = WaitLOAD, cp_browser = cc_browser_name c, cp_labels = command_labels c,
        cp_ws_endpoint = None, cp_proxy = None, cp_vnc = None, cp_vnc_enabled = None, cp_metadata = []\<rparr>) \<and>
    (\<exists>p. update_command_payload u = PDict p \<and> parse_session_update rd p = Inr (command_update u) \<and>
       typed_update (command_update u))"
proof -
  have "typed_update (command_update u)"
    by (simp add: typed_update_def command_update_def no_update_def)
  with create_payload_fits [OF parsed_command_browser [OF assms(2)] assms(1,3)] update_payload_fits [OF assms(1)]
  show ?thesis by blast
qed

section \<open>Health\<close>

text \<open>The gateway's \<open>RunnerHealthPayload\<close>, read from the body of the answer; other keys are ignored.\<close>

definition read_slots :: "json_readers \<Rightarrow> pyval \<Rightarrow> (int option \<times> int option) res" where
  "read_slots rd v = (case v of
     PDict d \<Rightarrow> res_bind (get_field d ''total'' None (optional (jl_int rd))) (\<lambda>tot.
       res_bind (get_field d ''available'' None (optional (jl_int rd))) (\<lambda>available. Inr (tot, available)))
   | _ \<Rightarrow> Inl (ValueError ''Input should be a valid dictionary''))"

definition read_vnc :: "json_readers \<Rightarrow> pyval \<Rightarrow> bool option res" where
  "read_vnc rd v = (case v of
     PDict d \<Rightarrow> get_field d ''enabled'' None (optional (jl_bool rd))
   | _ \<Rightarrow> Inl (ValueError ''Input should be a valid dictionary''))"

definition read_health_payload :: "json_readers \<Rightarrow> pyval \<Rightarrow> health_payload res" where
  "read_health_payload rd v = (case v of
     PDict d \<Rightarrow>
       res_bind (required_field d ''status'') (\<lambda>s. res_bind (as_text s) (\<lambda>status.
       res_bind (required_field d ''runner_id'') (\<lambda>r. res_bind (as_text r) (\<lambda>rid. res_bind (min_length_1 rid) (\<lambda>_.
       res_bind (get_field d ''slots'' None (optional (read_slots rd))) (\<lambda>slots.
       res_bind (get_field d ''vnc'' None (optional (read_vnc rd))) (\<lambda>vnc.
       Inr \<lparr>hp_status = status, hp_runner_id = rid, hp_slots = slots, hp_vnc = vnc\<rparr>)))))))
   | _ \<Rightarrow> Inl (ValueError ''Input should be a valid dictionary''))"

lemma health_read_back:
  assumes "\<forall>b. jl_bool rd (PBool b) = Inr b" and "\<forall>i. jl_int rd (PInt i) = Inr i" and "rs_runner_id st \<noteq> []"
  shows "\<exists>payload. health path_of fmt st env s = (Inr payload, s) \<and> read_health_payload rd payload =
    Inr \<lparr>hp_status = ''ok'', hp_runner_id = rs_runner_id st,
      hp_slots = Some (Some (rs_slot_limit st), Some (max (rs_slot_limit st - int (m_active s)) 0)),
      hp_vnc = Some (Some (rs_vnc_enabled st))\<rparr>"
  using assms
  by (simp add: health_def get_metrics_def op_run read_health_payload_def required_field_def get_field_def
      read_slots_def read_vnc_def)


section \<open>VNC assets\<close>

lemma urlsplit_urlparse:
  assumes "urlsplit s = Inr b"
  shows "\<exists>p. urlparse s = Inr p \<and> u_scheme p = u_scheme b \<and> u_netloc p = u_netloc b \<and> u_query p = u_query b"
    and "no_marks (u_path b)"
proof -
  obtain scheme r1 where s1: "split_scheme (clean_url s) = (scheme, r1)" by force
  obtain netloc r2 where s2: "split_netloc r1 = (netloc, r2)" by force
  obtain r3 f where s3: "split_fragment r2 = (r3, f)" by force
  obtain r4 q where s4: "split_query r3 = (r4, q)" by force
  obtain path ps where s5: "split_params scheme r4 = (path, ps)" by force
  note cut = s1 s2 s3 s4
  show "\<exists>p. urlparse s = Inr p \<and> u_scheme p = u_scheme b \<and> u_netloc p = u_netloc b \<and> u_query p = u_query b"
    using assms by (simp add: urlsplit_def urlparse_def cut s5 split: if_splits) (auto)
  have "no_marks r4"
    using s3 s4 by (auto simp: split_fragment_def split_query_def no_marks_def split: prod.splits if_splits
        dest!: partition_at_parts)
  then show "no_marks (u_path b)"
    using assms by (auto simp: urlsplit_def cut split: if_splits)
qed

lemma filter_request_headers_keys:
  assumes "k \<in> fst ` set (filter_request_headers headers)"
  shows "k \<in> fst ` set headers \<and> lower k \<notin> set hop_by_hop \<and> lower k \<noteq> ''host''"
proof -
  have "fst ` set (fold (\<lambda>(k, v) d. if lower k \<in> set hop_by_hop \<or> lower k = ''host'' then d else AList.update k v d) hs acc)
      \<subseteq> fst ` set acc \<union> {k \<in> fst ` set hs. lower k \<notin> set hop_by_hop \<and> lower k \<noteq> ''host''}" for hs acc
  proof (induction hs arbitrary: acc)
    case (Cons h hs)
    obtain k v where h: "h = (k, v)" by (cases h)
    show ?case
      using Cons [of acc] Cons [of "AList.update k v acc"] by (auto simp: h dom_update)
  qed simp
  from this [of headers "[]"] assms show ?thesis
    by (auto simp: filter_request_headers_def)
qed

text \<open>
  C35: Looking at a session's VNC page never leaves its own endpoint. Whatever path, query and headers
  the caller sends, the URL the runner fetches has the scheme and network location of the session's
  configured VNC URL and the caller's method; no hop-by-hop or host header is passed on; and, for a
  path without query or fragment marks, the query is the configured one with the caller's parameters
  put over it, from which the caller's token has been removed.
\<close>

theorem vnc_assets_stay_local:
  assumes "s_vnc x = Some details" and "vd_http_url details = Some base_url" and "urlparse base_url = Inr base"
    and "u_scheme base \<noteq> []" and "u_netloc base \<noteq> []"
    and "vnc_asset_request x path r = Inr request" and "urlparse (ur_url request) = Inr q"
  shows "u_scheme q = u_scheme base \<and> u_netloc q = u_netloc base \<and> ur_method request = hq_method r \<and>
    (\<forall>k \<in> fst ` set (ur_headers request). lower k \<notin> set hop_by_hop \<and> lower k \<noteq> ''host'') \<and>
    (no_marks path \<longrightarrow> (let sent = filter (\<lambda>(k, _). lower k \<noteq> ''token'') (hq_query r) in
      parse_qsl True (u_query q) =
        filter (\<lambda>(k, _). k \<notin> fst ` set sent) (parse_qsl True (u_query base)) @ sent))"
proof -
  let ?sent = "filter (\<lambda>(k, _). lower k \<noteq> ''token'') (hq_query r)"
  obtain b where b: "urlsplit base_url = Inr b"
    and url: "build_vnc_upstream_url base_url path (hq_query r) = Inr (ur_url request)"
    and rest: "ur_method request = hq_method r" "ur_headers request = filter_request_headers (hq_headers r)"
    using assms(1,2,6) by (auto simp: vnc_asset_request_def build_vnc_upstream_url_def Let_def)
  define resolved where "resolved = (if path \<noteq> [] then path else if u_path b \<noteq> [] then u_path b else ''/'')"
  define u where "u = \<lparr>u_scheme = u_scheme base, u_netloc = u_netloc base,
      u_path = (if starts_with ''/'' resolved then resolved else CHR ''/'' # resolved), u_params = [],
      u_query = urlencode (merge_query_params (parse_qsl True (u_query base)) ?sent), u_fragment = []\<rparr>"
  have same: "u_scheme b = u_scheme base" "u_netloc b = u_netloc base" "u_query b = u_query base"
    using urlsplit_urlparse(1) [OF b] assms(3) by auto
  have printed: "ur_url request = urlunparse u"
    unfolding u_def resolved_def
    using url b by (simp add: build_vnc_upstream_url_def urlunsplit_def same Let_def split del: if_split)
  have q: "u_scheme q = u_scheme base \<and> u_netloc q = u_netloc base"
    using urlparse_netloc_back [of u q] urlparse_parts_ok [OF assms(3)] assms(4,5,7) printed
    by (auto simp: u_def starts_with_def)
  have "parse_qsl True (u_query q) = merge_query_params (parse_qsl True (u_query base)) ?sent" if "no_marks path"
  proof -
    have "no_marks resolved"
      using that urlsplit_urlparse(2) [OF b] by (simp add: resolved_def)
    then have "parts_clean u"
      using urlparse_clean [OF assms(3)] by (simp add: parts_clean_def u_def)
    then have "u_query q = u_query u"
      by (rule urlparse_urlunparse_query) (use assms(7) printed in \<open>auto simp: u_def urlencode_chars\<close>)
    then show ?thesis by (simp add: u_def parse_qsl_urlencode)
  qed
  with q rest filter_request_headers_keys show ?thesis
    by (auto simp: merge_query_params_def Let_def)
qed

section \<open>The properties at work\<close>

definition demo_readers :: json_readers where
  "demo_readers = \<lparr>jl_any_url = Inr,
     jl_bool = (\<lambda>v. case v of PBool b \<Rightarrow> Inr b | _ \<Rightarrow> Inl (ValueError ''Input should be a valid boolean'')),
     jl_int = (\<lambda>v. case v of PInt i \<Rightarrow> Inr i | _ \<Rightarrow> Inl (ValueError ''Input should be a valid integer'')),
     jl_datetime = (\<lambda>_. Inl (ValueError ''Input should be a valid datetime'')),
     jl_proxy = (\<lambda>_. Inl (ValueError ''Input should be a valid proxy'')),
     jl_vnc = (\<lambda>_. Inl (ValueError ''Input should be valid details''))\<rparr>"

lemma demo_readers_simps [simp]:
  "jl_any_url demo_readers u = Inr u" "jl_bool demo_readers (PBool b) = Inr b" "jl_int demo_readers (PInt i) = Inr i"
  by (simp_all add: demo_readers_def)

definition demo_command_body :: "(string, pyval) dict" where
  "demo_command_body = [(''browser_name'', PStr ''camoufox''), (''region'', PStr ''eu''), (''proxy_id'', PStr ''p1''),
     (''start_url'', PStr ''http://example.com/'')]"

lemma gateway_commands_fit_runner_witness:
  "\<exists>c p. parse_create_command Inr (jl_bool demo_readers) demo_command_body = Inr c \<and> create_payload c = PDict p \<and>
     (\<exists>cp. parse_session_create demo_readers p = Inr cp \<and> cp_labels cp = [(''region'', ''eu''), (''proxy_id'', ''p1'')] \<and>
       cp_start_url cp = Some ''http://example.com/'')"
proof -
  define c where "c = \<lparr>cc_runner_id = None, cc_browser_name = ''camoufox'', cc_region = ''eu'', cc_proxy_id = Some ''p1'',
    cc_headless = False, cc_start_url = Some ''http://example.com/''\<rparr>"
  have parsed: "parse_create_command Inr (jl_bool demo_readers) demo_command_body = Inr c"
    by (simp add: parse_create_command_def demo_command_body_def create_fields_def get_or_none_def required_field_def c_def)
  from gateway_commands_fit_runner [OF _ parsed, of demo_readers "\<lparr>uc_status = None, uc_headless = None, uc_labels = None,
      uc_metadata = None, uc_reason = None\<rparr>"] parsed
  show ?thesis by (auto simp: c_def command_labels_def)
qed

lemma demo_settings_loaded:
  "\<exists>s. runner_settings_from_env demo_config_libs [(''RUNNER_ID'', ''a'')] = Inr s \<and>
     rs_runner_id s = ''a'' \<and> rs_slot_limit s = 4 \<and> rs_vnc_enabled s"
  by (simp add: runner_settings_from_env_def env_fields_def read_text_def read_int_def validate_runner_settings_def
      get_field_def validate_vnc_ranges_def Let_def)


definition demo_asset_request :: http_request where
  "demo_asset_request = \<lparr>hq_method = ''GET'', hq_path = [], hq_query = [(''a'', ''2''), (''Token'', ''t'')],
     hq_headers = [(''Host'', ''evil''), (''Accept'', ''x'')], hq_cookies = [], hq_body = []\<rparr>"

lemma vnc_assets_stay_local_witness:
  "\<exists>request q. vnc_asset_request (demo_session []\<lparr>s_vnc := Some demo_details\<rparr>) ''app.js'' demo_asset_request = Inr request \<and>
     ur_url request = ''https://vnc/app.js?token=x&a=2'' \<and> urlparse (ur_url request) = Inr q \<and> u_netloc q = ''vnc'' \<and>
     parse_qsl True (u_query q) = [(''token'', ''x''), (''a'', ''2'')]"
proof -
  let ?x = "demo_session []\<lparr>s_vnc := Some demo_details\<rparr>"
  define request where "request = \<lparr>ur_method = ''GET'', ur_url = ''https://vnc/app.js?token=x&a=2'',
    ur_headers = [(''Accept'', ''x'')], ur_content = None\<rparr>"
  have vnc: "s_vnc ?x = Some demo_details" "vd_http_url demo_details = Some ''https://vnc/view?a=1&token=x''"
    by (simp_all add: demo_details_def)
  define base where "base = \<lparr>u_scheme = ''https'', u_netloc = ''vnc'', u_path = ''/view'', u_params = [],
    u_query = ''a=1&token=x'', u_fragment = []\<rparr>"
  define q where "q = base\<lparr>u_path := ''/app.js'', u_query := ''token=x&a=2''\<rparr>"
  have base: "urlparse ''https://vnc/view?a=1&token=x'' = Inr base" "u_scheme base \<noteq> []" "u_netloc base \<noteq> []"
    unfolding base_def by code_simp+
  have request: "vnc_asset_request ?x ''app.js'' demo_asset_request = Inr request"
    unfolding vnc_asset_request_def vnc request_def option.case by code_simp
  have url: "ur_url request = ''https://vnc/app.js?token=x&a=2''"
    by (simp add: request_def)
  have q: "urlparse (ur_url request) = Inr q"
    unfolding url q_def base_def by code_simp
  have merged: "filter (\<lambda>(k, _). k \<notin> fst ` set (filter (\<lambda>(k, _). lower k \<noteq> ''token'') (hq_query demo_asset_request)))
      (parse_qsl True ''a=1&token=x'') @ filter (\<lambda>(k, _). lower k \<noteq> ''token'') (hq_query demo_asset_request) =
      [(''token'', ''x''), (''a'', ''2'')]" "no_marks ''app.js''"
    by code_simp+
  from vnc_assets_stay_local [OF vnc base request q] show ?thesis
    using request url q merged by (auto simp: Let_def base_def)
qed

end
