(* ===== verification/Ws_Relay.thy ===== *)
theory Ws_Relay
  imports Vnc_Gateway "HOL-Library.Sublist"
begin

text \<open>
  The WebSocket relays: the gateway's (\<open>services/gateway/app/services/runner_ws_proxy.py\<close>), the worker's
  (\<open>services/camoufox_worker/worker/service.py\<close>) and the VNC gateway's
  (\<open>services/vnc-gateway/app/camou_vnc_gateway/proxy.py\<close>). Each runs two tasks, one per direction. A turn is
  one round of a task's loop; what it awaits (a receive, a send, a close) answers as the turn's arguments
  say, and the turns of the two tasks interleave in any order. A cancelled task is one whose await
  raised \<open>CancelledError\<close>, which only happens once the other task has failed.
\<close>

declare map_of_eq_Some_iff [simp del] Some_eq_map_of_iff [simp del]

section \<open>Frames, failures and tasks\<close>

datatype frame = TextFrame string | BinaryFrame "nat list"

record client_message =
  cm_type :: string
  cm_text :: "string option"
  cm_bytes :: "nat list option"
  cm_code :: "int option"

datatype ws_exn =
    ConnectionClosedOK
  | ConnectionClosedError "int option" string
  | WebSocketDisconnect
  | RelayTimeoutError string
  | TimeoutError
  | RuntimeError
  | CancelledError
  | TransportFailure string
  | OtherFailure string

datatype task = Running | Finished | Failed ws_exn

text \<open>
  \<open>TransportFailure\<close> is an \<open>OSError\<close> or a \<open>WebSocketException\<close> other than those of a closed connection.
  A send that raised may or may not have reached its peer.
\<close>

datatype sending = Sent | Raised bool ws_exn

record awaited =
  aw_send :: sending
  aw_close :: "ws_exn option"
  aw_disconnected :: bool

text \<open>
  The state of a relay: what each task has received and sent, and the calls that closed either side
  (the runner's with its code, the client's with code and reason).
\<close>

record relay =
  rl_client_task :: task
  rl_runner_task :: task
  rl_received :: "client_message list"
  rl_forwarded :: "frame list"
  rl_taken :: "frame list"
  rl_delivered :: "frame list"
  rl_runner_closes :: "int option list"
  rl_client_closes :: "(int \<times> string) list"

definition relay_start :: relay where
  "relay_start = \<lparr>rl_client_task = Running, rl_runner_task = Running, rl_received = [], rl_forwarded = [], rl_taken = [],
     rl_delivered = [], rl_runner_closes = [], rl_client_closes = []\<rparr>"

abbreviation is_disconnect :: "client_message \<Rightarrow> bool" where
  "is_disconnect m \<equiv> cm_type m = ''websocket.disconnect''"

definition message_frame :: "client_message \<Rightarrow> frame option" where
  "message_frame m = (case cm_text m of
     Some t \<Rightarrow> Some (TextFrame t)
   | None \<Rightarrow> (case cm_bytes m of Some b \<Rightarrow> Some (BinaryFrame b) | None \<Rightarrow> None))"

section \<open>What the loops do\<close>

text \<open>Forwarding a frame; \<open>fail\<close> says how the task ends when the send raises.\<close>

definition forward_frame :: "(ws_exn \<Rightarrow> relay \<Rightarrow> relay) \<Rightarrow> frame option \<Rightarrow> awaited \<Rightarrow> relay \<Rightarrow> relay" where
  "forward_frame fail f aw s = (case f of
     None \<Rightarrow> s
   | Some x \<Rightarrow> (case aw_send aw of
       Sent \<Rightarrow> s\<lparr>rl_forwarded := rl_forwarded s @ [x]\<rparr>
     | Raised reached e \<Rightarrow> fail e (s\<lparr>rl_forwarded := rl_forwarded s @ (if reached then [x] else [])\<rparr>)))"

definition deliver_frame :: "(ws_exn \<Rightarrow> relay \<Rightarrow> relay) \<Rightarrow> frame \<Rightarrow> awaited \<Rightarrow> relay \<Rightarrow> relay" where
  "deliver_frame fail x aw s = (case aw_send aw of
     Sent \<Rightarrow> s\<lparr>rl_delivered := rl_delivered s @ [x]\<rparr>
   | Raised reached e \<Rightarrow> fail e (s\<lparr>rl_delivered := rl_delivered s @ (if reached then [x] else [])\<rparr>))"

abbreviation client_fails :: "ws_exn \<Rightarrow> relay \<Rightarrow> relay" where
  "client_fails e s \<equiv> s\<lparr>rl_client_task := Failed e\<rparr>"

abbreviation runner_fails :: "ws_exn \<Rightarrow> relay \<Rightarrow> relay" where
  "runner_fails e s \<equiv> s\<lparr>rl_runner_task := Failed e\<rparr>"

text \<open>The client task closes the runner's connection and ends.\<close>

definition close_runner :: "int option \<Rightarrow> awaited \<Rightarrow> relay \<Rightarrow> relay" where
  "close_runner code aw s = s\<lparr>rl_runner_closes := rl_runner_closes s @ [code],
     rl_client_task := (case aw_close aw of None \<Rightarrow> Finished | Some e \<Rightarrow> Failed e)\<rparr>"

text \<open>The runner task closes the client's connection and ends as \<open>done\<close> says, or with what the close raised.\<close>

definition close_client_then :: "int \<Rightarrow> string \<Rightarrow> task \<Rightarrow> awaited \<Rightarrow> relay \<Rightarrow> relay" where
  "close_client_then code reason over aw s = s\<lparr>rl_client_closes := rl_client_closes s @ [(code, reason)],
     rl_runner_task := (case aw_close aw of None \<Rightarrow> over | Some e \<Rightarrow> Failed e)\<rparr>"

subsection \<open>The gateway\<close>

definition gateway_client_turn :: "ws_exn + client_message \<Rightarrow> awaited \<Rightarrow> relay \<Rightarrow> relay" where
  "gateway_client_turn r aw s = (case r of
     Inl e \<Rightarrow> client_fails e s
   | Inr m \<Rightarrow>
       (let s = s\<lparr>rl_received := rl_received s @ [m]\<rparr> in
        if is_disconnect m then close_runner (cm_code m) aw s
        else forward_frame client_fails (message_frame m) aw s))"

text \<open>The loop over the connection ends when the runner closes it normally.\<close>

definition gateway_runner_fails :: "awaited \<Rightarrow> ws_exn \<Rightarrow> relay \<Rightarrow> relay" where
  "gateway_runner_fails aw e s = (case e of
     ConnectionClosedOK \<Rightarrow> close_client_then 1000 [] Finished aw s
   | ConnectionClosedError code reason \<Rightarrow>
       close_client_then (case code of Some c \<Rightarrow> if c = 0 then 1011 else c | None \<Rightarrow> 1011) reason (Failed e) aw s
   | _ \<Rightarrow> runner_fails e s)"

definition gateway_runner_turn :: "ws_exn + frame \<Rightarrow> awaited \<Rightarrow> relay \<Rightarrow> relay" where
  "gateway_runner_turn r aw s = (case r of
     Inl e \<Rightarrow> if e = ConnectionClosedOK then s\<lparr>rl_runner_task := Finished\<rparr> else gateway_runner_fails aw e s
   | Inr x \<Rightarrow> deliver_frame (gateway_runner_fails aw) x aw (s\<lparr>rl_taken := rl_taken s @ [x]\<rparr>))"

subsection \<open>The worker\<close>

definition worker_client_fails :: "awaited \<Rightarrow> ws_exn \<Rightarrow> relay \<Rightarrow> relay" where
  "worker_client_fails aw e s = (if e = WebSocketDisconnect then close_runner None aw s else client_fails e s)"

definition worker_client_turn :: "ws_exn + client_message \<Rightarrow> awaited \<Rightarrow> relay \<Rightarrow> relay" where
  "worker_client_turn r aw s = (case r of
     Inl e \<Rightarrow> worker_client_fails aw e s
   | Inr m \<Rightarrow>
       (let s = s\<lparr>rl_received := rl_received s @ [m]\<rparr> in
        if is_disconnect m then close_runner None aw s
        else forward_frame (worker_client_fails aw) (message_frame m) aw s))"

text \<open>However the loop ends, the client is closed; a \<open>RuntimeError\<close> of that close is suppressed.\<close>

definition worker_runner_ends :: "awaited \<Rightarrow> task \<Rightarrow> relay \<Rightarrow> relay" where
  "worker_runner_ends aw over s = close_client_then 1000 [] over
     (if aw_close aw = Some RuntimeError then aw\<lparr>aw_close := None\<rparr> else aw) s"

definition worker_runner_turn :: "ws_exn + frame \<Rightarrow> awaited \<Rightarrow> relay \<Rightarrow> relay" where
  "worker_runner_turn r aw s = (case r of
     Inl e \<Rightarrow> worker_runner_ends aw (if e = ConnectionClosedOK then Finished else Failed e) s
   | Inr x \<Rightarrow> deliver_frame (\<lambda>e. worker_runner_ends aw (Failed e)) x aw (s\<lparr>rl_taken := rl_taken s @ [x]\<rparr>))"

subsection \<open>The VNC gateway\<close>

definition timeout_as :: "string \<Rightarrow> ws_exn \<Rightarrow> ws_exn" where
  "timeout_as message e = (if e = TimeoutError then RelayTimeoutError message else e)"

definition vnc_client_turn :: "ws_exn + client_message \<Rightarrow> awaited \<Rightarrow> relay \<Rightarrow> relay" where
  "vnc_client_turn r aw s = (case r of
     Inl e \<Rightarrow> client_fails (timeout_as ''Client inactivity timeout'' e) s
   | Inr m \<Rightarrow>
       (let s = s\<lparr>rl_received := rl_received s @ [m]\<rparr> in
        if is_disconnect m then close_runner None aw s
        else forward_frame (\<lambda>e. client_fails (timeout_as ''Runner send timeout'' e)) (message_frame m) aw s))"

fun is_connection_closed :: "ws_exn \<Rightarrow> bool" where
  "is_connection_closed ConnectionClosedOK = True"
| "is_connection_closed (ConnectionClosedError _ _) = True"
| "is_connection_closed _ = False"

definition vnc_runner_turn :: "ws_exn + frame \<Rightarrow> awaited \<Rightarrow> relay \<Rightarrow> relay" where
  "vnc_runner_turn r aw s = (case r of
     Inl e \<Rightarrow>
       if is_connection_closed e then s\<lparr>rl_runner_task := Finished\<rparr>
       else runner_fails (timeout_as ''Upstream inactivity timeout'' e) s
   | Inr x \<Rightarrow>
       (let s = s\<lparr>rl_taken := rl_taken s @ [x]\<rparr> in
        if aw_disconnected aw then s\<lparr>rl_runner_task := Finished\<rparr>
        else deliver_frame (\<lambda>e s. if e = RuntimeError then s\<lparr>rl_runner_task := Finished\<rparr>
               else runner_fails (timeout_as ''Client send timeout'' e) s) x aw s))"

section \<open>The relays as transition systems\<close>

record relay_loops =
  lp_client :: "ws_exn + client_message \<Rightarrow> awaited \<Rightarrow> relay \<Rightarrow> relay"
  lp_runner :: "ws_exn + frame \<Rightarrow> awaited \<Rightarrow> relay \<Rightarrow> relay"

definition gateway_loops :: relay_loops where
  "gateway_loops = \<lparr>lp_client = gateway_client_turn, lp_runner = gateway_runner_turn\<rparr>"

definition worker_loops :: relay_loops where
  "worker_loops = \<lparr>lp_client = worker_client_turn, lp_runner = worker_runner_turn\<rparr>"

definition vnc_loops :: relay_loops where
  "vnc_loops = \<lparr>lp_client = vnc_client_turn, lp_runner = vnc_runner_turn\<rparr>"

text \<open>A task is cancelled once the other one has failed.\<close>

definition failed :: "task \<Rightarrow> bool" where
  "failed t = (case t of Failed e \<Rightarrow> e \<noteq> CancelledError | _ \<Rightarrow> False)"

definition cancelled :: "ws_exn + 'a \<Rightarrow> awaited \<Rightarrow> bool" where
  "cancelled r aw = (r = Inl CancelledError \<or> aw_close aw = Some CancelledError \<or>
     (case aw_send aw of Raised _ e \<Rightarrow> e = CancelledError | Sent \<Rightarrow> False))"

inductive relay_step :: "relay_loops \<Rightarrow> relay \<Rightarrow> relay \<Rightarrow> bool" for loops where
  client_turn: "rl_client_task s = Running \<Longrightarrow> cancelled r aw \<longrightarrow> failed (rl_runner_task s) \<Longrightarrow>
    relay_step loops s (lp_client loops r aw s)"
| runner_turn: "rl_runner_task s = Running \<Longrightarrow> cancelled q aw \<longrightarrow> failed (rl_client_task s) \<Longrightarrow>
    relay_step loops s (lp_runner loops q aw s)"

inductive_cases relay_stepE: "relay_step loops s t"

abbreviation relay_states :: "relay_loops \<Rightarrow> relay \<Rightarrow> bool" where
  "relay_states loops \<equiv> reachable (\<lambda>s. s = relay_start) (relay_step loops)"

section \<open>Every frame once and in order\<close>

definition sent_of :: "client_message list \<Rightarrow> frame list" where
  "sent_of ms = concat (map (\<lambda>m. if is_disconnect m then []
     else case message_frame m of None \<Rightarrow> [] | Some f \<Rightarrow> [f]) ms)"

lemma sent_of_simps [simp]:
  "sent_of [] = []"
  "sent_of (ms @ ns) = sent_of ms @ sent_of ns"
  "is_disconnect m \<Longrightarrow> sent_of [m] = []"
  "\<not> is_disconnect m \<Longrightarrow> sent_of [m] = (case message_frame m of None \<Rightarrow> [] | Some f \<Rightarrow> [f])"
  by (simp_all add: sent_of_def)

text \<open>
  The contract of a loop: a turn leaves the other direction alone, takes at most one message, and
  passes it on if the task goes on, or possibly not if the turn ends it.
\<close>

definition forwards :: "'a list \<Rightarrow> 'b list \<Rightarrow> ('a list \<Rightarrow> 'b list) \<Rightarrow> 'a list \<Rightarrow> 'b list \<Rightarrow> bool \<Rightarrow> bool" where
  "forwards ms fs frames ms' fs' goes_on = (\<exists>m f. ms' = ms @ m \<and> fs' = fs @ f \<and> length m \<le> 1 \<and> prefix f (frames m) \<and>
     (goes_on \<longrightarrow> f = frames m))"

definition client_side :: "relay \<Rightarrow> client_message list \<times> frame list \<times> task \<times> int option list" where
  "client_side s = (rl_received s, rl_forwarded s, rl_client_task s, rl_runner_closes s)"

definition runner_side :: "relay \<Rightarrow> frame list \<times> frame list \<times> task \<times> (int \<times> string) list" where
  "runner_side s = (rl_taken s, rl_delivered s, rl_runner_task s, rl_client_closes s)"

definition ordered :: "relay \<Rightarrow> bool" where
  "ordered s = (prefix (rl_forwarded s) (sent_of (rl_received s)) \<and> prefix (rl_delivered s) (rl_taken s) \<and>
     (rl_client_task s = Running \<longrightarrow> rl_forwarded s = sent_of (rl_received s)) \<and>
     (rl_runner_task s = Running \<longrightarrow> rl_delivered s = rl_taken s) \<and>
     length (sent_of (rl_received s)) \<le> Suc (length (rl_forwarded s)) \<and>
     length (rl_taken s) \<le> Suc (length (rl_delivered s)) \<and>
     (rl_client_task s = Finished \<longrightarrow> rl_runner_closes s \<noteq> []) \<and>
     (rl_client_task s = Failed CancelledError \<longrightarrow> failed (rl_runner_task s)) \<and>
     (rl_runner_task s = Failed CancelledError \<longrightarrow> failed (rl_client_task s)))"

lemma failed_simps [simp]:
  "\<not> failed Running" "\<not> failed Finished" "failed (Failed e) \<longleftrightarrow> e \<noteq> CancelledError"
  by (simp_all add: failed_def)

lemma sent_of_short: "length m \<le> 1 \<Longrightarrow> length (sent_of m) \<le> 1"
  by (cases m) (auto simp: sent_of_def split: option.split)

text \<open>
  What a client task that ended has done, when only a disconnect ends it and closes the runner's
  connection; \<open>code\<close> is the close code for a disconnect message.
\<close>

definition complete :: "(client_message \<Rightarrow> int option) \<Rightarrow> relay \<Rightarrow> bool" where
  "complete code s =
     ((rl_client_task s = Running \<longrightarrow> (\<forall>m \<in> set (rl_received s). \<not> is_disconnect m) \<and> rl_runner_closes s = []) \<and>
     (rl_client_task s = Finished \<longrightarrow> (\<exists>ms m. rl_received s = ms @ [m] \<and> is_disconnect m \<and>
        (\<forall>n \<in> set ms. \<not> is_disconnect n) \<and> rl_forwarded s = sent_of ms \<and> rl_runner_closes s = [code m])))"

locale relay_contract =
  fixes loops :: relay_loops
  assumes client_law: "rl_client_task s = Running \<Longrightarrow> runner_side (lp_client loops r aw s) = runner_side s \<and>
      forwards (rl_received s) (rl_forwarded s) sent_of (rl_received (lp_client loops r aw s))
        (rl_forwarded (lp_client loops r aw s)) (rl_client_task (lp_client loops r aw s) = Running)"
    and client_close_law: "rl_client_task s = Running \<Longrightarrow> rl_client_task (lp_client loops r aw s) = Finished \<Longrightarrow>
      rl_runner_closes (lp_client loops r aw s) \<noteq> []"
    and runner_law: "rl_runner_task s = Running \<Longrightarrow> client_side (lp_runner loops q aw s) = client_side s \<and>
      forwards (rl_taken s) (rl_delivered s) id (rl_taken (lp_runner loops q aw s))
        (rl_delivered (lp_runner loops q aw s)) (rl_runner_task (lp_runner loops q aw s) = Running)"
    and cancel_law: "rl_client_task (lp_client loops r aw s) = Failed CancelledError \<Longrightarrow>
      rl_client_task s = Running \<Longrightarrow> cancelled r aw"
      "rl_runner_task (lp_runner loops q aw s) = Failed CancelledError \<Longrightarrow> rl_runner_task s = Running \<Longrightarrow> cancelled q aw"
begin

lemma ordered_client:
  assumes "ordered s" and "rl_client_task s = Running" and "cancelled r aw \<longrightarrow> failed (rl_runner_task s)"
  shows "ordered (lp_client loops r aw s)"
proof -
  let ?t = "lp_client loops r aw s"
  note law = client_law [OF assms(2), of r aw]
  obtain m f where mf: "rl_received ?t = rl_received s @ m" "rl_forwarded ?t = rl_forwarded s @ f" "length m \<le> 1"
    "prefix f (sent_of m)" "rl_client_task ?t = Running \<longrightarrow> f = sent_of m"
    using law unfolding forwards_def by blast
  have "rl_taken ?t = rl_taken s" "rl_delivered ?t = rl_delivered s" "rl_runner_task ?t = rl_runner_task s"
    using law by (simp_all add: runner_side_def)
  with assms mf sent_of_short [OF mf(3)] client_close_law [OF assms(2)] cancel_law(1) show ?thesis
    by (simp add: ordered_def)
qed

lemma ordered_runner:
  assumes "ordered s" and "rl_runner_task s = Running" and "cancelled q aw \<longrightarrow> failed (rl_client_task s)"
  shows "ordered (lp_runner loops q aw s)"
proof -
  let ?t = "lp_runner loops q aw s"
  note law = runner_law [OF assms(2), of q aw]
  obtain m f where mf: "rl_taken ?t = rl_taken s @ m" "rl_delivered ?t = rl_delivered s @ f" "length m \<le> 1"
    "prefix f m" "rl_runner_task ?t = Running \<longrightarrow> f = m"
    using law unfolding forwards_def id_apply by blast
  have "rl_received ?t = rl_received s" "rl_forwarded ?t = rl_forwarded s" "rl_client_task ?t = rl_client_task s"
    "rl_runner_closes ?t = rl_runner_closes s"
    using law by (simp_all add: client_side_def)
  with assms mf cancel_law(2) show ?thesis by (simp add: ordered_def)
qed

lemma reachable_ordered: "relay_states loops s \<Longrightarrow> ordered s"
proof (induction rule: reachable.induct)
  case (reach_init s)
  then show ?case by (simp add: ordered_def relay_start_def)
next
  case (reach_step s t)
  from reach_step(2) show ?case
    by (cases rule: relay_step.cases) (use reach_step(3) ordered_client ordered_runner in auto)
qed

end

text \<open>The turns that take nothing, that take a message and lose it, and that pass it on.\<close>

lemma forwards_over [simp]:
  "forwards ms fs frames (ms @ [m]) fs False"
  "frames [] = [] \<Longrightarrow> forwards ms fs frames ms fs goes_on"
  by (auto simp: forwards_def)

lemma forwards_turn:
  "prefix f (frames [m]) \<Longrightarrow> (goes_on \<Longrightarrow> f = frames [m]) \<Longrightarrow> forwards ms fs frames (ms @ [m]) (fs @ f) goes_on"
  by (auto simp: forwards_def)

lemma forwards_none:
  "frames [m] = [] \<Longrightarrow> forwards ms fs frames (ms @ [m]) fs goes_on"
  using forwards_turn [of "[]" frames m goes_on ms fs] by simp

lemmas turn_defs = close_runner_def close_client_then_def forward_frame_def deliver_frame_def Let_def
  client_side_def runner_side_def cancelled_def timeout_as_def

lemma gateway_runner_fails_frame [simp]:
  "rl_received (gateway_runner_fails aw e s) = rl_received s" "rl_forwarded (gateway_runner_fails aw e s) = rl_forwarded s"
  "rl_client_task (gateway_runner_fails aw e s) = rl_client_task s"
  "rl_runner_closes (gateway_runner_fails aw e s) = rl_runner_closes s"
  "rl_taken (gateway_runner_fails aw e s) = rl_taken s" "rl_delivered (gateway_runner_fails aw e s) = rl_delivered s"
  "rl_runner_task (gateway_runner_fails aw e s) \<noteq> Running"
  by (cases e; simp add: gateway_runner_fails_def close_client_then_def client_side_def split: option.split)+

lemma gateway_runner_fails_cancelled:
  "rl_runner_task (gateway_runner_fails aw e s) = Failed CancelledError \<Longrightarrow>
    e = CancelledError \<or> aw_close aw = Some CancelledError"
  by (auto simp: gateway_runner_fails_def close_client_then_def split: ws_exn.splits option.splits)

lemmas turn_splits = sum.split_asm option.split_asm sending.split_asm if_split_asm sum.split option.split sending.split

text \<open>
  The gateways' loops keep a stricter contract: the client task ends without failing only on a
  disconnect message, for which it closes the runner's connection, and goes on otherwise.
\<close>

locale strict_relay = relay_contract +
  fixes code :: "client_message \<Rightarrow> int option"
  assumes goes_on_law: "rl_client_task s = Running \<Longrightarrow> rl_client_task (lp_client loops r aw s) = Running \<Longrightarrow>
      \<exists>m. \<not> is_disconnect m \<and> rl_received (lp_client loops r aw s) = rl_received s @ [m] \<and>
        rl_runner_closes (lp_client loops r aw s) = rl_runner_closes s"
    and finish_law: "rl_client_task s = Running \<Longrightarrow> rl_client_task (lp_client loops r aw s) = Finished \<Longrightarrow>
      \<exists>m. is_disconnect m \<and> rl_received (lp_client loops r aw s) = rl_received s @ [m] \<and>
        rl_forwarded (lp_client loops r aw s) = rl_forwarded s \<and>
        rl_runner_closes (lp_client loops r aw s) = rl_runner_closes s @ [code m]"
begin

lemma reachable_complete: "relay_states loops s \<Longrightarrow> complete code s"
proof (induction rule: reachable.induct)
  case (reach_init s)
  then show ?case by (simp add: complete_def relay_start_def)
next
  case (reach_step s t)
  note whole = reachable_ordered [OF reach_step(1), unfolded ordered_def]
  from reach_step(2) show ?case
  proof (cases rule: relay_step.cases)
    case (client_turn r aw)
    have before: "\<forall>m \<in> set (rl_received s). \<not> is_disconnect m" "rl_forwarded s = sent_of (rl_received s)"
      "rl_runner_closes s = []"
      using reach_step(3) whole client_turn(2) by (simp_all add: complete_def)
    have "(\<forall>m \<in> set (rl_received t). \<not> is_disconnect m) \<and> rl_runner_closes t = []" if "rl_client_task t = Running"
      using goes_on_law [OF client_turn(2), of r aw] that before(1,3) client_turn(1) by auto
    moreover have "\<exists>ms m. rl_received t = ms @ [m] \<and> is_disconnect m \<and> (\<forall>n \<in> set ms. \<not> is_disconnect n) \<and>
        rl_forwarded t = sent_of ms \<and> rl_runner_closes t = [code m]" if "rl_client_task t = Finished"
      using finish_law [OF client_turn(2), of r aw] that before client_turn(1) by auto
    ultimately show ?thesis by (simp add: complete_def)
  next
    case (runner_turn q aw)
    with reach_step(3) runner_law [OF runner_turn(2)] show ?thesis
      by (simp add: complete_def client_side_def)
  qed
qed

end

interpretation gateway_relay: strict_relay gateway_loops cm_code
  by unfold_locales
    (auto simp: gateway_loops_def gateway_client_turn_def gateway_runner_turn_def turn_defs
      intro!: forwards_turn forwards_none dest!: gateway_runner_fails_cancelled split: turn_splits)

interpretation worker_relay: relay_contract worker_loops
  by unfold_locales
    (auto simp: worker_loops_def worker_client_turn_def worker_runner_turn_def worker_client_fails_def
      worker_runner_ends_def turn_defs intro!: forwards_turn forwards_none split: turn_splits)

interpretation vnc_relay: strict_relay vnc_loops "\<lambda>_. None"
  by unfold_locales
    (auto simp: vnc_loops_def vnc_client_turn_def vnc_runner_turn_def turn_defs
      intro!: forwards_turn forwards_none split: turn_splits)

section \<open>How a relay ends\<close>

definition relay_over :: "relay \<Rightarrow> bool" where
  "relay_over s = (rl_client_task s \<noteq> Running \<and> rl_runner_task s \<noteq> Running)"

definition task_failures :: "task \<Rightarrow> ws_exn list" where
  "task_failures t = (case t of Failed e \<Rightarrow> if e = CancelledError then [] else [e] | _ \<Rightarrow> [])"

definition failures :: "relay \<Rightarrow> ws_exn list" where
  "failures s = task_failures (rl_client_task s) @ task_failures (rl_runner_task s)"

text \<open>
  What happens to the two connections, each side's events in order: the upstream connection and the
  subprotocol it settled on, the acceptance of the client, the closes. \<open>s\<close> is the relay at its end.
\<close>

datatype tunnel_event =
    Connect ws_connect
  | Accept "string option"
  | CloseRunner "int option"
  | CloseClient int string

definition relay_closes :: "relay \<Rightarrow> tunnel_event list" where
  "relay_closes s = map CloseRunner (rl_runner_closes s) @ map (\<lambda>(code, reason). CloseClient code reason) (rl_client_closes s)"

subsection \<open>The gateway's tunnel\<close>

definition extract_subprotocols :: "string option \<Rightarrow> string list" where
  "extract_subprotocols header = (case header of
     None \<Rightarrow> []
   | Some h \<Rightarrow> if h = [] then [] else filter (\<lambda>s. s \<noteq> []) (map strip (split_on (CHR '','') h)))"

definition not_upstream :: "string list" where
  "not_upstream = [''connection'', ''keep-alive'', ''proxy-authenticate'', ''proxy-authorization'', ''te'', ''trailers'',
     ''transfer-encoding'', ''upgrade'', ''host'', ''sec-websocket-accept'', ''sec-websocket-extensions'', ''sec-websocket-key'',
     ''sec-websocket-protocol'', ''sec-websocket-version'']"

definition filter_upstream_headers :: "(string \<times> string) list \<Rightarrow> (string \<times> string) list" where
  "filter_upstream_headers headers = filter (\<lambda>(k, _). lower k \<notin> set not_upstream) headers"

definition gateway_tunnel ::
  "(ws_connect \<Rightarrow> ws_exn + string option) \<Rightarrow> (string option \<Rightarrow> ws_exn option) \<Rightarrow> relay \<Rightarrow> (string \<times> string) list \<Rightarrow> string \<Rightarrow>
    tunnel_event list \<times> string option" where
  "gateway_tunnel connect accept s headers target =
     (let request = \<lparr>wc_url = target, wc_subprotocols = extract_subprotocols (map_of headers ''sec-websocket-protocol''),
            wc_headers = filter_upstream_headers headers\<rparr>
      in case connect request of
        Inl e \<Rightarrow>
          if e = TimeoutError
          then ([Connect request, CloseClient 1011 ''Upstream connection timed out''], Some ''Timed out connecting to runner'')
          else ([Connect request, CloseClient 1011 ''Failed to connect to runner''], Some ''Failed to connect to runner'')
      | Inr subprotocol \<Rightarrow> (case accept subprotocol of
          Some e \<Rightarrow> ([Connect request, Accept subprotocol, CloseRunner (Some 1011)], Some ''Failed to accept WebSocket client'')
        | None \<Rightarrow> ([Connect request, Accept subprotocol] @ relay_closes s @ [CloseRunner None],
            if failures s \<noteq> [] then Some ''WebSocket relay failed'' else None)))"

subsection \<open>The VNC gateway's tunnel\<close>

text \<open>
  The failures of the task group: timeouts alone are one exception again, anything else leaves as an
  exception group, which none of the handlers around it names. \<open>pick\<close> says which of two failures
  came first. The result is what is closed and what escapes.
\<close>

definition is_relay_timeout :: "ws_exn \<Rightarrow> bool" where
  "is_relay_timeout e = (case e of RelayTimeoutError _ \<Rightarrow> True | _ \<Rightarrow> False)"

definition vnc_handler :: "ws_exn \<Rightarrow> tunnel_event list \<times> ws_exn list" where
  "vnc_handler e = (case e of
     RelayTimeoutError m \<Rightarrow> ([CloseClient 1011 m], [])
   | ConnectionClosedOK \<Rightarrow> ([CloseClient 1000 []], [])
   | ConnectionClosedError _ _ \<Rightarrow> ([CloseClient 1000 []], [])
   | TransportFailure _ \<Rightarrow> ([CloseClient 1011 []], [])
   | TimeoutError \<Rightarrow> ([CloseClient 1011 []], [])
   | _ \<Rightarrow> ([], [e]))"

definition vnc_ending :: "(ws_exn list \<Rightarrow> ws_exn) \<Rightarrow> relay \<Rightarrow> tunnel_event list \<times> ws_exn list" where
  "vnc_ending pick s =
     (if failures s = [] then ([], [])
      else if list_all is_relay_timeout (failures s) then vnc_handler (pick (failures s))
      else ([], failures s))"

definition vnc_tunnel ::
  "(ws_connect \<Rightarrow> ws_exn + string option) \<Rightarrow> (string option \<Rightarrow> ws_exn option) \<Rightarrow> (ws_exn list \<Rightarrow> ws_exn) \<Rightarrow> relay \<Rightarrow>
    runner_proxy \<Rightarrow> Vnc_Gateway.http_request \<Rightarrow> (tunnel_event list \<times> ws_exn list) res" where
  "vnc_tunnel connect accept pick s p r = res_bind (websocket_target p r) (\<lambda>action. Inr (case action of
     WsClose code reason \<Rightarrow> ([CloseClient (int code) reason], [])
   | WsConnect request \<Rightarrow> (case connect request of
       Inl e \<Rightarrow> (case vnc_handler e of (events, escaped) \<Rightarrow> (Connect request # events, escaped))
     | Inr subprotocol \<Rightarrow>
         (case (case accept subprotocol of Some e \<Rightarrow> ([], vnc_handler e) | None \<Rightarrow> (relay_closes s, vnc_ending pick s)) of
           (during, events, escaped) \<Rightarrow>
             ([Connect request, Accept subprotocol] @ during @ [CloseRunner None] @ events, escaped)))))"

subsection \<open>The worker's bridge\<close>

definition worker_handler :: "ws_exn \<Rightarrow> tunnel_event list" where
  "worker_handler e = (if is_connection_closed e \<or> e = WebSocketDisconnect then [CloseClient 1000 []] else [CloseClient 1011 []])"

definition bridge_websocket ::
  "(ws_connect \<Rightarrow> ws_exn + string option) \<Rightarrow> (ws_exn list \<Rightarrow> ws_exn) \<Rightarrow> relay \<Rightarrow> string \<Rightarrow> tunnel_event list" where
  "bridge_websocket connect pick s upstream =
     (let request = \<lparr>wc_url = upstream, wc_subprotocols = [], wc_headers = []\<rparr> in
      Connect request # (case connect request of
        Inl e \<Rightarrow> worker_handler e
      | Inr _ \<Rightarrow> relay_closes s @ [CloseRunner None] @
          (if failures s = [] then [] else worker_handler (pick (failures s)))))"

section \<open>Properties\<close>

text \<open>
  C21: The three relays lose, repeat and reorder nothing. At every moment what a relay has sent to the
  runner is, in order and once, what the client's messages carry, up to at most the one frame whose
  send failed, and all of it while the client's task runs; the same holds of what it has delivered to
  the client. A client task that has ended without failing has closed the runner's connection.
\<close>

theorem relays_keep_every_frame:
  assumes "loops \<in> {gateway_loops, worker_loops, vnc_loops}" and "relay_states loops s"
  shows "prefix (rl_forwarded s) (sent_of (rl_received s)) \<and> length (sent_of (rl_received s)) \<le> length (rl_forwarded s) + 1 \<and>
    prefix (rl_delivered s) (rl_taken s) \<and> length (rl_taken s) \<le> length (rl_delivered s) + 1 \<and>
    (rl_client_task s = Running \<longrightarrow> rl_forwarded s = sent_of (rl_received s)) \<and>
    (rl_runner_task s = Running \<longrightarrow> rl_delivered s = rl_taken s) \<and>
    (rl_client_task s = Finished \<longrightarrow> rl_runner_closes s \<noteq> [])"
proof -
  have "ordered s"
    using assms gateway_relay.reachable_ordered worker_relay.reachable_ordered vnc_relay.reachable_ordered by blast
  then show ?thesis by (simp add: ordered_def)
qed

text \<open>
  C22: A gateway's relay that ends without an error ends because the client left: the client's last
  message is its disconnect, every frame it sent before has been forwarded, and the relay has closed
  the runner's connection once, with the client's own code in the control gateway and without a code
  in the VNC gateway. Otherwise a task has failed.
\<close>

theorem relay_ends_when_client_leaves:
  assumes "loops \<in> {gateway_loops, vnc_loops}" and "relay_states loops s" and "relay_over s" and "failures s = []"
  shows "\<exists>ms m. rl_received s = ms @ [m] \<and> is_disconnect m \<and> (\<forall>n \<in> set ms. \<not> is_disconnect n) \<and>
    rl_forwarded s = sent_of ms \<and>
    (loops = gateway_loops \<longrightarrow> rl_runner_closes s = [cm_code m]) \<and>
    (loops = vnc_loops \<longrightarrow> rl_runner_closes s = [None])"
proof -
  have "ordered s"
    using assms(1,2) gateway_relay.reachable_ordered vnc_relay.reachable_ordered by blast
  then have over: "rl_client_task s = Finished"
    using assms(3,4) by (cases "rl_client_task s"; cases "rl_runner_task s")
      (auto simp: relay_over_def failures_def task_failures_def ordered_def split: if_splits)
  have gateway: "loops = gateway_loops \<Longrightarrow> complete cm_code s" and vnc: "loops = vnc_loops \<Longrightarrow> complete (\<lambda>_. None) s"
    using assms(2) gateway_relay.reachable_complete vnc_relay.reachable_complete by blast+
  from assms(1) obtain ms m where "rl_received s = ms @ [m]" "is_disconnect m" "\<forall>n \<in> set ms. \<not> is_disconnect n"
    "rl_forwarded s = sent_of ms"
    using gateway vnc over unfolding complete_def by blast
  moreover have "loops = gateway_loops \<longrightarrow> rl_runner_closes s = [cm_code (last (rl_received s))]"
    "loops = vnc_loops \<longrightarrow> rl_runner_closes s = [None]"
    using gateway vnc over unfolding complete_def by auto
  ultimately show ?thesis by auto
qed

section \<open>Two endings the handlers miss\<close>

definition demo_message :: "string \<Rightarrow> string option \<Rightarrow> client_message" where
  "demo_message ty txt = \<lparr>cm_type = ty, cm_text = txt, cm_bytes = None, cm_code = Some 1001\<rparr>"

definition all_well :: awaited where
  "all_well = \<lparr>aw_send = Sent, aw_close = None, aw_disconnected = False\<rparr>"

definition demo_text :: client_message where
  "demo_text = demo_message ''websocket.receive'' (Some ''hi'')"

definition demo_bye :: client_message where
  "demo_bye = demo_message ''websocket.disconnect'' None"

lemmas demo_messages = demo_text_def demo_bye_def demo_message_def all_well_def message_frame_def cancelled_def

lemma demo_started: "relay_states loops relay_start"
  by (rule reach_init) simp

lemma demo_client:
  "relay_states loops s \<Longrightarrow> rl_client_task s = Running \<Longrightarrow> relay_states loops (lp_client loops (Inr m) all_well s)"
  by (erule reach_step, erule client_turn) (simp add: all_well_def cancelled_def)

lemma demo_runner_closes:
  "relay_states loops s \<Longrightarrow> rl_runner_task s = Running \<Longrightarrow> relay_states loops (lp_runner loops (Inl ConnectionClosedOK) all_well s)"
  by (erule reach_step, erule runner_turn) (simp add: all_well_def cancelled_def)

text \<open>
  When the runner closes the connection normally, neither gateway tells the client: its connection
  stays open while the other task waits for the client.
\<close>

lemma normal_close_is_not_relayed:
  assumes "loops \<in> {gateway_loops, vnc_loops}"
  shows "\<exists>s. relay_states loops s \<and> rl_runner_task s = Finished \<and> rl_client_task s = Running \<and> rl_client_closes s = []"
  using assms demo_runner_closes [OF demo_started, of loops]
  by (intro exI [of _ "lp_runner loops (Inl ConnectionClosedOK) all_well relay_start"])
    (auto simp: gateway_loops_def vnc_loops_def gateway_runner_turn_def vnc_runner_turn_def relay_start_def)

text \<open>
  A frame sent to a runner that has closed raises \<open>ConnectionClosedOK\<close> in the VNC gateway's client task.
  The group it leaves the task group in is not one of the exceptions handled around it: the client is
  not closed and the group escapes.
\<close>

lemma closed_connection_escapes:
  "\<exists>s. relay_states vnc_loops s \<and> relay_over s \<and> vnc_ending hd s = ([], [ConnectionClosedOK]) \<and> rl_client_closes s = []"
proof -
  let ?s = "lp_runner vnc_loops (Inl ConnectionClosedOK) all_well relay_start"
  let ?t = "lp_client vnc_loops (Inr demo_text) (all_well\<lparr>aw_send := Raised False ConnectionClosedOK\<rparr>) ?s"
  have s: "relay_states vnc_loops ?s" "rl_client_task ?s = Running"
    using demo_runner_closes [OF demo_started, of vnc_loops] by (simp_all add: vnc_loops_def vnc_runner_turn_def relay_start_def)
  then have "relay_states vnc_loops ?t"
    by - (erule reach_step, erule client_turn, simp add: demo_messages)
  then show ?thesis
    by (intro exI [of _ ?t]) (simp add: vnc_loops_def vnc_runner_turn_def vnc_client_turn_def relay_start_def demo_messages
        forward_frame_def timeout_as_def relay_over_def failures_def task_failures_def vnc_ending_def is_relay_timeout_def)
qed

section \<open>The properties at work\<close>

lemma relays_keep_every_frame_witness:
  "\<exists>s. relay_states worker_loops s \<and> rl_received s = [demo_text] \<and> rl_forwarded s = [TextFrame ''hi''] \<and>
     prefix (rl_forwarded s) (sent_of (rl_received s))"
proof -
  let ?s = "lp_client worker_loops (Inr demo_text) all_well relay_start"
  have s: "relay_states worker_loops ?s"
    by (rule demo_client [OF demo_started]) (simp add: relay_start_def)
  have "rl_received ?s = [demo_text]" "rl_forwarded ?s = [TextFrame ''hi'']"
    by (simp_all add: worker_loops_def worker_client_turn_def relay_start_def demo_messages forward_frame_def)
  with s relays_keep_every_frame [of worker_loops, OF _ s] show ?thesis by blast
qed

lemma relay_ends_when_client_leaves_witness:
  "\<exists>s ms. relay_states gateway_loops s \<and> rl_received s = ms @ [demo_bye] \<and> rl_forwarded s = sent_of ms \<and>
     rl_forwarded s = [TextFrame ''hi''] \<and> rl_runner_closes s = [Some 1001]"
proof -
  let ?s = "lp_client gateway_loops (Inr demo_text) all_well relay_start"
  let ?t = "lp_client gateway_loops (Inr demo_bye) all_well ?s"
  let ?u = "lp_runner gateway_loops (Inl ConnectionClosedOK) all_well ?t"
  have run: "rl_client_task ?s = Running" "rl_runner_task ?t = Running" "relay_over ?u" "failures ?u = []"
    "rl_received ?u = [demo_text, demo_bye]" "rl_forwarded ?u = [TextFrame ''hi'']" "rl_runner_closes ?u = [Some 1001]"
    by (simp_all add: gateway_loops_def gateway_client_turn_def gateway_runner_turn_def relay_start_def demo_messages
        forward_frame_def close_runner_def relay_over_def failures_def task_failures_def)
  have "relay_states gateway_loops ?s"
    by (rule demo_client [OF demo_started]) (simp add: relay_start_def)
  then have u: "relay_states gateway_loops ?u"
    by (rule demo_runner_closes [OF demo_client [OF _ run(1)] run(2)])
  from relay_ends_when_client_leaves [of gateway_loops, OF _ u run(3,4)]
  obtain ms m where "rl_received ?u = ms @ [m]" "rl_forwarded ?u = sent_of ms" by auto
  with u run show ?thesis by (intro exI [of _ ?u] exI [of _ ms]) auto
qed

end
