(* ===== verification/Worker_Service.thy ===== *)
theory Worker_Service
  imports Runner_Api Browser_Flags Ws_Relay
begin

text \<open>
  The worker's HTTP service in front of a runner (\<open>config.py\<close>, \<open>models.py\<close>, \<open>runner_client.py\<close> and
  \<open>service.py\<close> of \<open>services/camoufox_worker/worker\<close>): its settings, the requests it accepts, the calls it
  makes to the runner, and its handlers.
\<close>

declare map_of_eq_Some_iff [simp del] Some_eq_map_of_iff [simp del]

section \<open>Settings\<close>

record session_defaults =
  sd_idle_ttl :: int
  sd_headless :: bool
  sd_start_url_wait :: string

record worker_settings =
  ws_host :: string
  ws_port :: int
  ws_shutdown_timeout :: int
  ws_metrics_endpoint :: string
  ws_session_defaults :: session_defaults
  ws_cleanup_interval :: int
  ws_runner_base_url :: url
  ws_supports_vnc :: bool
  ws_browser_required_flags :: "(string, pyval) dict"

definition wait_words :: "string list" where
  "wait_words = [''none'', ''domcontentloaded'', ''load'']"

definition validate_session_defaults :: "session_defaults \<Rightarrow> session_defaults res" where
  "validate_session_defaults d =
     (if sd_idle_ttl d < 30 \<or> 3600 < sd_idle_ttl d then Inl (ValueError ''Input should be between 30 and 3600'')
      else if sd_start_url_wait d \<notin> set wait_words then Inl (ValueError ''String should match the pattern'')
      else Inr d)"

definition validate_worker_settings :: "worker_settings \<Rightarrow> worker_settings res" where
  "validate_worker_settings s =
     res_bind (validate_session_defaults (ws_session_defaults s)) (\<lambda>_.
     if ws_cleanup_interval s \<le> 0 \<or> 3600 < ws_cleanup_interval s
     then Inl (ValueError ''Input should be between 1 and 3600'') else Inr s)"

section \<open>Requests\<close>

text \<open>A field that may be null.\<close>

definition nullable :: "(pyval \<Rightarrow> pyval res) \<Rightarrow> pyval \<Rightarrow> pyval res" where
  "nullable parse v = (if v = PNone then Inr PNone else parse v)"

definition wait_literal :: "pyval \<Rightarrow> pyval res" where
  "wait_literal v = res_bind (as_text v) (\<lambda>s. if s \<in> set wait_words then Inr (PStr s)
     else Inl (ValueError ''Input should be a wait strategy''))"

definition short_text :: "pyval \<Rightarrow> pyval res" where
  "short_text v = res_bind (as_text v) (\<lambda>s. if length s \<le> 1024 then Inr (PStr s)
     else Inl (ValueError ''String should have at most 1024 characters''))"

definition request_fields :: "json_readers \<Rightarrow> (string \<times> (pyval \<Rightarrow> pyval res)) list" where
  "request_fields rd =
     [(''headless'', nullable (\<lambda>v. res_bind (jl_bool rd v) (\<lambda>b. Inr (PBool b)))),
      (''idle_ttl_seconds'', nullable (\<lambda>v. res_bind (ttl_of rd v) (\<lambda>i. Inr (PInt i)))),
      (''start_url'', nullable short_text),
      (''start_url_wait'', nullable wait_literal),
      (''labels'', nullable (\<lambda>v. res_bind (labels_of v) (\<lambda>l. Inr (PDict (as_values l))))),
      (''vnc'', \<lambda>v. res_bind (jl_bool rd v) (\<lambda>b. Inr (PBool b))),
      (''browser_flags'', nullable (\<lambda>v. res_bind (metadata_of v) (\<lambda>d. Inr (PDict d))))]"

text \<open>The fields a body sets, in the order of their declaration (\<open>model_dump(exclude_unset=True)\<close>); others are ignored.\<close>

fun read_fields :: "(string \<times> (pyval \<Rightarrow> pyval res)) list \<Rightarrow> (string, pyval) dict \<Rightarrow> (string, pyval) dict res" where
  "read_fields [] d = Inr []"
| "read_fields ((k, parse) # rest) d = (case map_of d k of
     None \<Rightarrow> read_fields rest d
   | Some v \<Rightarrow> res_bind (parse v) (\<lambda>x. res_bind (read_fields rest d) (\<lambda>r. Inr ((k, x) # r))))"

definition parse_session_request :: "json_readers \<Rightarrow> (string, pyval) dict \<Rightarrow> (string, pyval) dict res" where
  "parse_session_request rd d = read_fields (request_fields rd) d"

definition merge_worker_flags :: "(string, pyval) dict \<Rightarrow> pyval option \<Rightarrow> (string, pyval) dict" where
  "merge_worker_flags mandatory requested = dict_merge (case requested of Some (PDict d) \<Rightarrow> d | _ \<Rightarrow> []) mandatory"

definition worker_create_payload :: "worker_settings \<Rightarrow> (string, pyval) dict \<Rightarrow> (string, pyval) dict" where
  "worker_create_payload s request =
     (let defaults = ws_session_defaults s;
          optional_flags = map_of request ''browser_flags'';
          payload = dict_setdefault ''start_url_wait'' (PStr (sd_start_url_wait defaults))
            (dict_setdefault ''idle_ttl_seconds'' (PInt (sd_idle_ttl defaults))
            (dict_setdefault ''headless'' (PBool (sd_headless defaults))
            (AList.delete ''browser_flags'' request)));
          merged = merge_worker_flags (ws_browser_required_flags s) optional_flags
      in if merged = [] then payload
         else (let metadata = (case map_of payload ''metadata'' of Some (PDict m) \<Rightarrow> m | _ \<Rightarrow> [])
               in AList.update ''metadata'' (PDict (AList.update ''browser_flags'' (PDict merged) metadata)) payload))"

section \<open>Calls to the runner\<close>

datatype call_failure = NoResponse string | BadStatus nat | BadJson

definition runner_call ::
  "http_server \<Rightarrow> worker_settings \<Rightarrow> string \<Rightarrow> string \<Rightarrow> pyval option \<Rightarrow> (call_failure + pyval) http_op" where
  "runner_call server s verb path json =
     bindm (send server \<lparr>rq_base = ws_runner_base_url s, rq_method = verb, rq_path = path, rq_json = json\<rparr>) (\<lambda>answer.
     ret (case answer of
       NoAnswer m \<Rightarrow> Inl (NoResponse m)
     | Answer code body \<Rightarrow>
         if \<not> is_success code then Inl (BadStatus code)
         else (case body of None \<Rightarrow> Inl BadJson | Some v \<Rightarrow> Inr v)))"

definition call_error :: "call_failure \<Rightarrow> exn" where
  "call_error f = (case f of
     NoResponse m \<Rightarrow> OtherError m
   | BadStatus code \<Rightarrow> OtherError (''HTTPStatusError '' @ nat_str code)
   | BadJson \<Rightarrow> ValueError ''Expecting value'')"

text \<open>A call on one session turns a 404 of the runner into one of its own; other failures are raised as they are.\<close>

definition plain_call :: "(call_failure + pyval) http_op \<Rightarrow> pyval http_op" where
  "plain_call m = bindm m (\<lambda>r. case r of Inr v \<Rightarrow> ret v | Inl f \<Rightarrow> raise (call_error f))"

definition session_call :: "(call_failure + pyval) http_op \<Rightarrow> pyval http_op" where
  "session_call m = bindm m (\<lambda>r. case r of
     Inr v \<Rightarrow> ret v
   | Inl f \<Rightarrow> raise (if f = BadStatus 404 then HTTPException 404 ''Session not found'' else call_error f))"

section \<open>Answers\<close>

record session_detail =
  wd_id :: string
  wd_status :: session_status
  wd_created_at :: datetime
  wd_last_seen_at :: datetime
  wd_browser :: string
  wd_headless :: bool
  wd_idle_ttl :: int
  wd_labels :: "(string, string) dict"
  wd_worker_id :: string
  wd_vnc_enabled :: bool
  wd_start_url_wait :: string
  wd_ws_endpoint :: "string option"
  wd_ws_proxy_endpoint :: "string option"
  wd_vnc :: "(string, pyval) dict"

definition item :: "(string, pyval) dict \<Rightarrow> string \<Rightarrow> pyval res" where
  "item d k = (case map_of d k of None \<Rightarrow> Inl KeyError | Some v \<Rightarrow> Inr v)"

definition get_or :: "pyval \<Rightarrow> (string, pyval) dict \<Rightarrow> string \<Rightarrow> pyval" where
  "get_or def d k = (case map_of d k of None \<Rightarrow> def | Some v \<Rightarrow> v)"

definition to_worker_detail :: "json_readers \<Rightarrow> worker_settings \<Rightarrow> string \<Rightarrow> pyval \<Rightarrow> session_detail res" where
  "to_worker_detail rd s worker_id v = (case v of
     PDict d \<Rightarrow>
       res_bind (item d ''id'') (\<lambda>i.
       res_bind (res_bind (item d ''status'') status_of) (\<lambda>status.
       res_bind (item d ''created_at'') (\<lambda>created. res_bind (item d ''last_seen_at'') (\<lambda>seen.
       res_bind (item d ''headless'') (\<lambda>head. res_bind (item d ''idle_ttl_seconds'') (\<lambda>ttl.
       res_bind (as_text i) (\<lambda>sid.
       res_bind (jl_datetime rd created) (\<lambda>created_at. res_bind (jl_datetime rd seen) (\<lambda>last_seen_at.
       res_bind (as_text (get_or (PStr ''camoufox'') d ''browser'')) (\<lambda>browser.
       res_bind (jl_bool rd head) (\<lambda>headless. res_bind (jl_int rd ttl) (\<lambda>idle_ttl.
       res_bind (labels_of (get_or (PDict []) d ''labels'')) (\<lambda>labels.
       res_bind (res_bind (wait_literal (get_or (PStr (sd_start_url_wait (ws_session_defaults s))) d ''start_url_wait'')) as_text) (\<lambda>wait.
       res_bind (optional as_text (get_or PNone d ''ws_endpoint'')) (\<lambda>endpoint.
       res_bind (let n = get_or (PDict []) d ''vnc'' in if truthy n then metadata_of n else Inr []) (\<lambda>vnc.
       Inr \<lparr>wd_id = sid, wd_status = status, wd_created_at = created_at, wd_last_seen_at = last_seen_at, wd_browser = browser,
         wd_headless = headless, wd_idle_ttl = idle_ttl, wd_labels = labels, wd_worker_id = worker_id,
         wd_vnc_enabled = truthy (get_or (PBool False) d ''vnc_enabled''), wd_start_url_wait = wait, wd_ws_endpoint = endpoint,
         wd_ws_proxy_endpoint = (if truthy (get_or PNone d ''ws_endpoint'') then Some (''/sessions/'' @ sid @ ''/ws'') else None),
         wd_vnc = vnc\<rparr>))))))))))))))))
   | _ \<Rightarrow> Inl TypeError)"

section \<open>Handlers\<close>

record worker_app =
  wa_server :: http_server
  wa_settings :: worker_settings
  wa_worker_id :: string
  wa_readers :: json_readers

definition app_call :: "worker_app \<Rightarrow> string \<Rightarrow> string \<Rightarrow> pyval option \<Rightarrow> (call_failure + pyval) http_op" where
  "app_call a = runner_call (wa_server a) (wa_settings a)"

definition app_detail :: "worker_app \<Rightarrow> pyval \<Rightarrow> session_detail res" where
  "app_detail a = to_worker_detail (wa_readers a) (wa_settings a) (wa_worker_id a)"

definition worker_health :: "worker_app \<Rightarrow> (string \<times> (string, string) dict) http_op" where
  "worker_health a = bindm (app_call a ''GET'' ''health'' None) (\<lambda>r.
     let (status, checks) = (case r of
           Inr (PDict d) \<Rightarrow> (get_or (PStr ''unknown'') d ''status'', get_or (PDict []) d ''checks'')
         | _ \<Rightarrow> (PStr ''degraded'', PDict [(''runner'', PStr ''unreachable'')]))
     in lift_res (res_bind (as_text status) (\<lambda>t. res_bind (labels_of checks) (\<lambda>c. Inr (t, c)))))"

fun detail_each :: "worker_app \<Rightarrow> pyval list \<Rightarrow> session_detail list res" where
  "detail_each a [] = Inr []"
| "detail_each a (v # vs) = res_bind (app_detail a v) (\<lambda>x. res_bind (detail_each a vs) (\<lambda>xs. Inr (x # xs)))"

definition worker_list_sessions :: "worker_app \<Rightarrow> session_detail list http_op" where
  "worker_list_sessions a = bindm (plain_call (app_call a ''GET'' ''sessions'' None)) (\<lambda>v.
     lift_res (case v of PList vs \<Rightarrow> detail_each a vs | _ \<Rightarrow> Inl TypeError))"

definition worker_create_session :: "worker_app \<Rightarrow> (string, pyval) dict \<Rightarrow> session_detail http_op" where
  "worker_create_session a request =
     (if map_of request ''vnc'' = Some (PBool True) \<and> \<not> ws_supports_vnc (wa_settings a)
      then raise (HTTPException 400 ''VNC is not supported by this worker'')
      else bindm (plain_call (app_call a ''POST'' ''sessions'' (Some (PDict (worker_create_payload (wa_settings a) request)))))
        (\<lambda>v. lift_res (app_detail a v)))"

definition worker_get_session :: "worker_app \<Rightarrow> string \<Rightarrow> session_detail http_op" where
  "worker_get_session a sid = bindm (session_call (app_call a ''GET'' (''sessions/'' @ sid) None)) (\<lambda>v. lift_res (app_detail a v))"

definition worker_delete_session :: "worker_app \<Rightarrow> string \<Rightarrow> (string \<times> session_status) http_op" where
  "worker_delete_session a sid = bindm (session_call (app_call a ''DELETE'' (''sessions/'' @ sid) None)) (\<lambda>v. lift_res (case v of
     PDict d \<Rightarrow> res_bind (item d ''id'') (\<lambda>i. res_bind (res_bind (item d ''status'') status_of) (\<lambda>status.
       res_bind (as_text i) (\<lambda>t. Inr (t, status))))
   | _ \<Rightarrow> Inl TypeError))"

definition worker_touch_session :: "worker_app \<Rightarrow> string \<Rightarrow> session_detail http_op" where
  "worker_touch_session a sid = bindm (session_call (app_call a ''POST'' (''sessions/'' @ sid @ ''/touch'') None))
     (\<lambda>v. lift_res (app_detail a v))"

text \<open>The client is accepted first; without an endpoint to bridge to it is closed with 1008.\<close>

definition session_websocket ::
  "worker_app \<Rightarrow> (ws_connect \<Rightarrow> ws_exn + string option) \<Rightarrow> (ws_exn list \<Rightarrow> ws_exn) \<Rightarrow> relay \<Rightarrow> string \<Rightarrow> tunnel_event list http_op" where
  "session_websocket a connect pick final sid = bindm (app_call a ''GET'' (''sessions/'' @ sid) None) (\<lambda>r. case r of
     Inl _ \<Rightarrow> ret [Accept None, CloseClient 1008 []]
   | Inr (PDict d) \<Rightarrow>
       (let upstream = get_or PNone d ''ws_endpoint'' in
        if \<not> truthy upstream then ret [Accept None, CloseClient 1008 []]
        else (case upstream of
          PStr u \<Rightarrow> ret (Accept None # bridge_websocket connect pick final u)
        | _ \<Rightarrow> ret [Accept None, CloseClient 1011 []]))
   | Inr _ \<Rightarrow> raise (OtherError ''AttributeError''))"

end
