(* ===== verification/Worker_Service_Props.thy ===== *)
theory Worker_Service_Props
  imports Worker_Service
begin

text \<open>
  The worker's service next to the runner: the session it asks for is one the runner accepts, carries
  the flags the operator requires, and its handlers make one call each.
\<close>

declare map_of_eq_Some_iff [simp del] Some_eq_map_of_iff [simp del]

section \<open>Requests\<close>

lemma read_fields_Cons:
  "read_fields ((k, parse) # rest) d = Inr r \<longleftrightarrow> (map_of d k = None \<and> read_fields rest d = Inr r) \<or>
    (\<exists>v x r'. map_of d k = Some v \<and> parse v = Inr x \<and> read_fields rest d = Inr r' \<and> r = (k, x) # r')"
  by (auto split: option.splits)

lemma read_fields_spec:
  assumes "read_fields fs d = Inr r" and "distinct (map fst fs)"
  shows "keys r \<subseteq> fst ` set fs \<and> dict_ok r \<and>
    (\<forall>k x. map_of r k = Some x \<longrightarrow> (\<exists>p v. map_of fs k = Some p \<and> p v = Inr x))"
  using assms
proof (induction fs arbitrary: r)
  case (Cons f fs)
  obtain k p where f: "f = (k, p)" by force
  note run = Cons.prems(1) [unfolded f read_fields_Cons]
  have k: "k \<notin> fst ` set fs" "distinct (map fst fs)" using Cons.prems(2) by (simp_all add: f)
  from run show ?case
  proof (elim disjE conjE exE)
    assume "read_fields fs d = Inr r"
    note ih = Cons.IH [OF this k(2)]
    then have "k \<notin> keys r" using k(1) by blast
    with ih show ?thesis by (auto simp: f dest: map_of_Some_keys)
  next
    fix v x r'
    assume x: "p v = Inr x" and r': "read_fields fs d = Inr r'" and r: "r = (k, x) # r'"
    note ih = Cons.IH [OF r' k(2)]
    then have "k \<notin> keys r'" using k(1) by blast
    with ih x show ?thesis by (auto simp: f r)
  qed
qed simp

lemma nullable_Inr [simp]: "nullable p v = Inr x \<longleftrightarrow> (v = PNone \<and> x = PNone) \<or> (v \<noteq> PNone \<and> p v = Inr x)"
  by (auto simp: nullable_def)

text \<open>What a request may hold.\<close>

definition request_ok :: "(string, pyval) dict \<Rightarrow> bool" where
  "request_ok r = (dict_ok r \<and>
     keys r \<subseteq> {''headless'', ''idle_ttl_seconds'', ''start_url'', ''start_url_wait'', ''labels'', ''vnc'', ''browser_flags''} \<and>
     (\<forall>x. map_of r ''headless'' = Some x \<longrightarrow> x = PNone \<or> (\<exists>b. x = PBool b)) \<and>
     (\<forall>x. map_of r ''idle_ttl_seconds'' = Some x \<longrightarrow> x = PNone \<or> (\<exists>i. x = PInt i \<and> 30 \<le> i \<and> i \<le> 3600)) \<and>
     (\<forall>x. map_of r ''start_url'' = Some x \<longrightarrow> x = PNone \<or> (\<exists>u. x = PStr u)) \<and>
     (\<forall>x. map_of r ''start_url_wait'' = Some x \<longrightarrow> x = PNone \<or> (\<exists>w \<in> set wait_words. x = PStr w)) \<and>
     (\<forall>x. map_of r ''labels'' = Some x \<longrightarrow> x = PNone \<or> (\<exists>l. x = PDict (as_values l))) \<and>
     (\<forall>x. map_of r ''vnc'' = Some x \<longrightarrow> (\<exists>b. x = PBool b)) \<and>
     (\<forall>x. map_of r ''browser_flags'' = Some x \<longrightarrow> x = PNone \<or> (\<exists>d. x = PDict d)))"

lemma parse_session_request_ok:
  assumes "parse_session_request rd d = Inr r"
  shows "request_ok r"
proof -
  have "distinct (map fst (request_fields rd))" by (simp add: request_fields_def)
  note spec = read_fields_spec [OF assms [unfolded parse_session_request_def] this]
  then have read: "\<exists>p v. map_of (request_fields rd) k = Some p \<and> p v = Inr x" if "map_of r k = Some x" for k x
    using that by blast
  have fields: "map_of (request_fields rd) ''headless'' = Some (nullable (\<lambda>v. res_bind (jl_bool rd v) (\<lambda>b. Inr (PBool b))))"
    "map_of (request_fields rd) ''idle_ttl_seconds'' = Some (nullable (\<lambda>v. res_bind (ttl_of rd v) (\<lambda>i. Inr (PInt i))))"
    "map_of (request_fields rd) ''start_url'' = Some (nullable short_text)"
    "map_of (request_fields rd) ''start_url_wait'' = Some (nullable wait_literal)"
    "map_of (request_fields rd) ''labels'' = Some (nullable (\<lambda>v. res_bind (labels_of v) (\<lambda>l. Inr (PDict (as_values l)))))"
    "map_of (request_fields rd) ''vnc'' = Some (\<lambda>v. res_bind (jl_bool rd v) (\<lambda>b. Inr (PBool b)))"
    "map_of (request_fields rd) ''browser_flags'' = Some (nullable (\<lambda>v. res_bind (metadata_of v) (\<lambda>d. Inr (PDict d))))"
    by (simp_all add: request_fields_def)
  show ?thesis
    unfolding request_ok_def
  proof (intro conjI allI impI)
    show "dict_ok r" and "keys r \<subseteq> {''headless'', ''idle_ttl_seconds'', ''start_url'', ''start_url_wait'', ''labels'', ''vnc'', ''browser_flags''}"
      using spec by (simp_all add: request_fields_def)
  qed (drule read, force simp: fields ttl_of_def short_text_def wait_literal_def split: if_splits)+
qed

section \<open>Required flags\<close>

lemma normalise_into_other:
  "(\<And>k'. k' \<in> keys fs \<Longrightarrow> strip k' \<noteq> k) \<Longrightarrow> map_of (normalise_into acc fs) k = map_of acc k"
  by (induction acc fs rule: normalise_into.induct) (auto simp: Let_def)

lemma normalise_into_lookup:
  assumes "dict_ok fs" and "map_of fs k = Some v" and "v \<noteq> PNone" and "trimmed k"
    and "\<And>k'. k' \<in> keys fs \<Longrightarrow> strip k' = k \<Longrightarrow> k' = k"
  shows "map_of (normalise_into acc fs) k = Some (flag_value v)"
  using assms
proof (induction acc fs rule: normalise_into.induct)
  case (2 acc key w rest)
  show ?case
  proof (cases "key = k")
    case True
    have fresh: "k \<notin> keys rest" using 2(3) True by simp
    have "strip k' \<noteq> k" if "k' \<in> keys rest" for k'
    proof
      assume "strip k' = k"
      then have "k' = k" using 2(7) [of k'] that by simp
      with that fresh show False by blast
    qed
    then have "map_of (normalise_into d rest) k = map_of d k" for d by (rule normalise_into_other)
    then show ?thesis
      using 2(4,5,6) True by (simp add: Let_def trimmed_strip trimmed_def)
  next
    case False
    with 2 show ?thesis by (simp add: Let_def)
  qed
qed simp

lemma merged_over_any:
  assumes "normal_flags d" and "map_of d k = Some v"
  shows "map_of (merge_browser_flags [base, as_values d]) k = Some v"
proof -
  have "as_values d \<noteq> []" using assms(2) by (auto simp: as_values_def)
  with assms show ?thesis
    by (simp add: merge_browser_flags_def normalise_values dict_merge_lookup)
qed

definition requested_flags :: "(string, pyval) dict \<Rightarrow> (string, pyval) dict" where
  "requested_flags request = (case map_of request ''browser_flags'' of Some (PDict d) \<Rightarrow> d | _ \<Rightarrow> [])"

lemma merge_worker_flags_alt:
  "merge_worker_flags m (map_of request ''browser_flags'') = dict_merge (requested_flags request) m"
  by (simp add: merge_worker_flags_def requested_flags_def)

lemma keys_dict_merge: "keys (dict_merge d e) = keys d \<union> keys e"
  by (induction d e rule: dict_merge.induct) auto

lemma required_flag_wins:
  assumes "dict_ok m" and "dict_ok (requested_flags request)" and "map_of m k = Some v" and "v \<noteq> PNone" and "trimmed k"
    and "\<And>k'. k' \<in> keys m \<union> keys (requested_flags request) \<Longrightarrow> strip k' = k \<Longrightarrow> k' = k"
  shows "map_of (fst (resolve_browser_flags env
      [(''browser_flags'', PDict (merge_worker_flags m (map_of request ''browser_flags'')))])) k = Some (flag_value v)"
proof -
  have "map_of (normalise_browser_flags (dict_merge (requested_flags request) m)) k = Some (flag_value v)"
    unfolding normalise_browser_flags_def
    using assms by (intro normalise_into_lookup) (auto simp: dict_merge_lookup keys_dict_merge)
  then show ?thesis
    by (simp add: resolve_browser_flags_def merge_worker_flags_alt merged_over_any Let_def)
qed

section \<open>The payload\<close>

lemma setdefault_lookup:
  "map_of (dict_setdefault k v d) x = (if x = k \<and> map_of d k = None then Some v else map_of d x)"
  by (simp add: dict_setdefault_def)

definition default_of :: "worker_settings \<Rightarrow> string \<Rightarrow> pyval option" where
  "default_of s k = (if k = ''headless'' then Some (PBool (sd_headless (ws_session_defaults s)))
     else if k = ''idle_ttl_seconds'' then Some (PInt (sd_idle_ttl (ws_session_defaults s)))
     else if k = ''start_url_wait'' then Some (PStr (sd_start_url_wait (ws_session_defaults s))) else None)"

lemma payload_lookup:
  assumes "request_ok r"
  shows "map_of (worker_create_payload s r) k =
    (let merged = merge_worker_flags (ws_browser_required_flags s) (map_of r ''browser_flags'') in
     if k = ''metadata'' then if merged = [] then None else Some (PDict [(''browser_flags'', PDict merged)])
     else if k = ''browser_flags'' then None
     else case map_of r k of Some v \<Rightarrow> Some v | None \<Rightarrow> default_of s k)"
proof -
  have "map_of r ''metadata'' = None"
    using assms by (auto simp: request_ok_def map_of_None_keys)
  then show ?thesis
    by (auto simp: worker_create_payload_def Let_def setdefault_lookup default_of_def split: option.splits)
qed

lemma labels_of_as_values [simp]: "labels_of (PDict (as_values l)) = Inr l"
  by (simp add: labels_of_def as_values_def)

lemma payload_keys:
  assumes "request_ok r" and "map_of r ''vnc'' = None"
  shows "k \<in> keys (worker_create_payload s r) \<Longrightarrow> k \<in> set session_create_fields"
proof -
  have r: "keys r \<subseteq> insert ''vnc'' (insert ''browser_flags'' (set session_create_fields))"
    using assms(1) by (auto simp: request_ok_def session_create_fields_def)
  assume "k \<in> keys (worker_create_payload s r)"
  then have "map_of (worker_create_payload s r) k \<noteq> None" by (simp add: map_of_None_keys)
  then have "k \<in> keys r - {''vnc'', ''browser_flags''} \<or> k \<in> {''metadata'', ''headless'', ''idle_ttl_seconds'', ''start_url_wait''}"
    using assms(2) by (auto simp: payload_lookup [OF assms(1)] default_of_def map_of_None_keys map_of_Some_keys Let_def
        split: option.splits if_splits)
  with r show ?thesis by (auto simp: session_create_fields_def)
qed

text \<open>The session the worker asks for, by its request and its defaults.\<close>

definition asked_session :: "json_readers \<Rightarrow> worker_settings \<Rightarrow> (string, pyval) dict \<Rightarrow> create_payload" where
  "asked_session rd s r = (let defaults = ws_session_defaults s;
       merged = merge_worker_flags (ws_browser_required_flags s) (map_of r ''browser_flags'') in
     \<lparr>cp_status = INIT,
      cp_headless = (case map_of r ''headless'' of Some (PBool b) \<Rightarrow> b | _ \<Rightarrow> sd_headless defaults),
      cp_idle_ttl = (case map_of r ''idle_ttl_seconds'' of Some (PInt i) \<Rightarrow> i | _ \<Rightarrow> sd_idle_ttl defaults),
      cp_start_url = (case map_of r ''start_url'' of
        Some (PStr u) \<Rightarrow> (case jl_any_url rd u of Inr w \<Rightarrow> Some w | Inl _ \<Rightarrow> None) | _ \<Rightarrow> None),
      cp_start_url_wait = (let w = (case map_of r ''start_url_wait'' of Some (PStr w) \<Rightarrow> w | _ \<Rightarrow> sd_start_url_wait defaults) in
        if w = ''none'' then WaitNONE else if w = ''domcontentloaded'' then WaitDOM_CONTENT_LOADED else WaitLOAD),
      cp_browser = ''camoufox'',
      cp_labels = (case map_of r ''labels'' of Some v \<Rightarrow> (case labels_of v of Inr l \<Rightarrow> l | Inl _ \<Rightarrow> []) | None \<Rightarrow> []),
      cp_ws_endpoint = None, cp_proxy = None, cp_vnc = None, cp_vnc_enabled = None,
      cp_metadata = (if merged = [] then [] else [(''browser_flags'', PDict merged)])\<rparr>)"

lemma request_cases:
  assumes "request_ok r" and "\<forall>k. map_of r k \<noteq> Some PNone"
  shows "map_of r ''headless'' = None \<or> (\<exists>b. map_of r ''headless'' = Some (PBool b))"
    and "map_of r ''idle_ttl_seconds'' = None \<or> (\<exists>i. map_of r ''idle_ttl_seconds'' = Some (PInt i) \<and> 30 \<le> i \<and> i \<le> 3600)"
    and "map_of r ''start_url'' = None \<or> (\<exists>u. map_of r ''start_url'' = Some (PStr u))"
    and "map_of r ''start_url_wait'' = None \<or> (\<exists>w. map_of r ''start_url_wait'' = Some (PStr w) \<and> w \<in> set wait_words)"
    and "map_of r ''labels'' = None \<or> (\<exists>l. map_of r ''labels'' = Some (PDict (as_values l)))"
    and "map_of r ''status'' = None" "map_of r ''browser'' = None" "map_of r ''ws_endpoint'' = None"
      "map_of r ''proxy'' = None" "map_of r ''vnc_enabled'' = None"
proof -
  note typed = assms(1) [unfolded request_ok_def]
  show "map_of r ''headless'' = None \<or> (\<exists>b. map_of r ''headless'' = Some (PBool b))"
    and "map_of r ''idle_ttl_seconds'' = None \<or> (\<exists>i. map_of r ''idle_ttl_seconds'' = Some (PInt i) \<and> 30 \<le> i \<and> i \<le> 3600)"
    and "map_of r ''start_url'' = None \<or> (\<exists>u. map_of r ''start_url'' = Some (PStr u))"
    and "map_of r ''start_url_wait'' = None \<or> (\<exists>w. map_of r ''start_url_wait'' = Some (PStr w) \<and> w \<in> set wait_words)"
    and "map_of r ''labels'' = None \<or> (\<exists>l. map_of r ''labels'' = Some (PDict (as_values l)))"
    using typed assms(2) by (metis option.exhaust)+
qed (use assms(1) in \<open>auto simp: request_ok_def map_of_None_keys\<close>)

lemmas payload_facts = get_field_def default_of_def asked_session_def Let_def

lemma worker_payload_parses:
  assumes ok: "request_ok r" and set_only: "\<And>k x. map_of r k = Some x \<Longrightarrow> x \<noteq> PNone" and vnc: "map_of r ''vnc'' = None"
    and st: "validate_worker_settings s = Inr s"
    and rd: "\<forall>b. jl_bool rd (PBool b) = Inr b" "\<forall>i. jl_int rd (PInt i) = Inr i"
    and url: "\<And>u. map_of r ''start_url'' = Some (PStr u) \<Longrightarrow> \<exists>w. jl_any_url rd u = Inr w"
  shows "parse_session_create rd (worker_create_payload s r) = Inr (asked_session rd s r)"
proof -
  let ?p = "worker_create_payload s r" and ?a = "asked_session rd s r"
  have "\<forall>k. map_of r k \<noteq> Some PNone" using set_only by blast
  note look = payload_lookup [OF ok] and fields = request_cases [OF ok this]
  have defaults: "30 \<le> sd_idle_ttl (ws_session_defaults s)" "sd_idle_ttl (ws_session_defaults s) \<le> 3600"
    "sd_start_url_wait (ws_session_defaults s) \<in> set wait_words"
    using st by (auto simp: validate_worker_settings_def validate_session_defaults_def split: if_splits)
  have "get_field ?p ''headless'' False (jl_bool rd) = Inr (cp_headless ?a)"
    using fields(1) by (elim disjE exE) (simp_all add: payload_facts look rd(1))
  moreover have "get_field ?p ''idle_ttl_seconds'' 300 (ttl_of rd) = Inr (cp_idle_ttl ?a)"
    using fields(2) defaults by (elim disjE exE conjE) (simp_all add: payload_facts look rd(2) ttl_of_def)
  moreover have "get_field ?p ''start_url'' None (optional (url_of rd)) = Inr (cp_start_url ?a)"
    using fields(3)
  proof (elim disjE exE)
    fix u
    assume u: "map_of r ''start_url'' = Some (PStr u)"
    with url obtain w where "jl_any_url rd u = Inr w" by blast
    with u show ?thesis by (simp add: payload_facts look url_of_def)
  qed (simp add: payload_facts look)
  moreover have "get_field ?p ''start_url_wait'' WaitLOAD wait_of = Inr (cp_start_url_wait ?a)"
    using fields(4) defaults(3) by (elim disjE exE conjE) (auto simp: payload_facts look wait_of_def wait_words_def)
  moreover have "get_field ?p ''labels'' [] labels_of = Inr (cp_labels ?a)"
    using fields(5) by (elim disjE exE) (simp_all add: payload_facts look)
  moreover have "get_field ?p ''metadata'' [] metadata_of = Inr (cp_metadata ?a)"
    by (simp add: payload_facts look metadata_of_def)
  moreover have "\<not> (\<exists>k \<in> keys ?p. k \<notin> set session_create_fields)"
    using payload_keys [OF ok vnc] by blast
  ultimately show ?thesis
    using fields(6-10) vnc
    by (simp add: parse_session_create_def get_field_def look default_of_def Let_def) (simp add: asked_session_def Let_def)
qed

text \<open>A request that sets \<open>vnc\<close>, to whatever value, is one the runner refuses.\<close>

lemma vnc_requests_are_refused:
  assumes "request_ok r" and "map_of r ''vnc'' = Some v" and "\<And>b. \<exists>e. jl_vnc rd (PBool b) = Inl e"
  shows "\<exists>e. parse_session_create rd (worker_create_payload s r) = Inl e"
proof -
  obtain b where "v = PBool b" using assms(1,2) unfolding request_ok_def by blast
  then obtain e where "get_field (worker_create_payload s r) ''vnc'' None (optional (jl_vnc rd)) = Inl e"
    using assms(3) [of b] by (auto simp: get_field_def payload_lookup [OF assms(1)] assms(2) Let_def)
  then have "parse_session_create rd (worker_create_payload s r) \<noteq> Inr cp" for cp
    by (auto simp: parse_session_create_def)
  then show ?thesis
    by (cases "parse_session_create rd (worker_create_payload s r)") auto
qed


text \<open>
  The proviso is needed: the worker merges flags by their exact names and the runner strips the blanks
  afterwards, so a request that asks for the required name and for the same name with a blank keeps the
  value of the latter.
\<close>

lemma required_flag_bypassed:
  "normalise_browser_flags (merge_worker_flags [(''MOZ_SAFE'', PBool True)]
     (Some (PDict [(''MOZ_SAFE'', PBool False), ('' MOZ_SAFE'', PBool False)]))) = [(''MOZ_SAFE'', ''0'')]"
  by code_simp

section \<open>The properties at work\<close>

definition demo_worker_settings :: worker_settings where
  "demo_worker_settings = \<lparr>ws_host = ''0.0.0.0'', ws_port = 8080, ws_shutdown_timeout = 10, ws_metrics_endpoint = ''/metrics'',
     ws_session_defaults = \<lparr>sd_idle_ttl = 300, sd_headless = False, sd_start_url_wait = ''load''\<rparr>, ws_cleanup_interval = 15,
     ws_runner_base_url = ''http://127.0.0.1:8070'', ws_supports_vnc = False,
     ws_browser_required_flags = [(''MOZ_SAFE'', PBool True)]\<rparr>"

definition demo_worker_readers :: json_readers where
  "demo_worker_readers = \<lparr>jl_any_url = Inr,
     jl_bool = (\<lambda>v. case v of PBool b \<Rightarrow> Inr b | _ \<Rightarrow> Inl (ValueError ''Input should be a valid boolean'')),
     jl_int = (\<lambda>v. case v of PInt i \<Rightarrow> Inr i | _ \<Rightarrow> Inl (ValueError ''Input should be a valid integer'')),
     jl_datetime = (\<lambda>_. Inl (ValueError ''Input should be a valid datetime'')),
     jl_proxy = (\<lambda>_. Inl (ValueError ''Input should be a valid proxy'')),
     jl_vnc = (\<lambda>_. Inl (ValueError ''Input should be valid details''))\<rparr>"

definition demo_request :: "(string, pyval) dict" where
  "demo_request = [(''headless'', PBool True), (''browser_flags'', PDict [(''MOZ_SAFE'', PBool False), (''EXTRA'', PStr ''x'')])]"


end
