(* ===== verification/Worker_Native.thy ===== *)
theory Worker_Native
  imports Worker_Queue Py_Netloc
begin

text \<open>
  The worker's native jobs (\<open>services/camoufox_worker/worker/runner_native.py\<close>): a job run in a browser of
  its own, driven through the Camoufox library, whose answers are the environment of a run.
\<close>

declare map_of_eq_Some_iff [simp del] Some_eq_map_of_iff [simp del]

section \<open>Proxy options\<close>

text \<open>An exception is its class name and its text.\<close>

type_synonym fault = "string \<times> string"

record proxy_options =
  po_server :: string
  po_username :: "string option"
  po_password :: "string option"

definition nonempty :: "string option \<Rightarrow> string option" where
  "nonempty v = (case v of Some s \<Rightarrow> if s = [] then None else Some s | None \<Rightarrow> None)"

definition first_nonempty :: "string option list \<Rightarrow> string option" where
  "first_nonempty vs = (case filter (\<lambda>v. v \<noteq> None) (map nonempty vs) of v # _ \<Rightarrow> v | [] \<Rightarrow> None)"

definition as_fault :: "exn \<Rightarrow> fault" where
  "as_fault e = (case e of ValueError m \<Rightarrow> (''ValueError'', m) | _ \<Rightarrow> (''Exception'', []))"

definition build_proxy_options :: "job \<Rightarrow> fault + proxy_options option" where
  "build_proxy_options j = (case first_nonempty [jb_socks_proxy j, jb_https_proxy j, jb_http_proxy j] of
     None \<Rightarrow> Inr None
   | Some p \<Rightarrow> (case urlparse p of
       Inl e \<Rightarrow> Inl (as_fault e)
     | Inr u \<Rightarrow> (case (u_scheme u, nonempty (netloc_hostname (u_netloc u))) of
         (c # scheme, Some host) \<Rightarrow> (case netloc_port (u_netloc u) of
             Inl e \<Rightarrow> Inl (as_fault e)
           | Inr port \<Rightarrow> Inr (Some \<lparr>po_server = (c # scheme) @ ''://'' @ host @
                 (case port of Some n \<Rightarrow> if n \<noteq> 0 then CHR '':'' # int_str n else [] | None \<Rightarrow> []),
               po_username = nonempty (netloc_username (u_netloc u)),
               po_password = nonempty (netloc_password (u_netloc u))\<rparr>))
       | _ \<Rightarrow> Inl (''ValueError'', ''Invalid proxy URL: '' @ p))))"

section \<open>A run\<close>

text \<open>
  What the library and the clocks answer. \<open>nv_perf\<close> is the monotonic clock by reading, in microseconds;
  the last reading is the one after the run.
\<close>

record native_env =
  nv_headless :: "string option"
  nv_enter :: "fault option"
  nv_has_context :: bool
  nv_new_context :: "fault option"
  nv_new_page :: "fault option"
  nv_goto :: "fault option"
  nv_title :: "fault + string"
  nv_exit :: "fault option"
  nv_started_at :: datetime
  nv_finished_at :: datetime
  nv_perf :: "nat \<Rightarrow> int"

datatype native_event =
    BrowserStarted string
  | ContextOpened "proxy_options option"
  | PageOpened "proxy_options option"
  | Goto string int
  | BrowserStopped
  | PageClosed
  | ContextClosed

record native_run =
  nr_events :: "native_event list"
  nr_navigation :: string
  nr_duration :: "int option"
  nr_title :: "string option"
  nr_context :: bool
  nr_page :: bool
  nr_readings :: nat

definition native_start :: native_run where
  "native_start = \<lparr>nr_events = [], nr_navigation = ''not_attempted'', nr_duration = None, nr_title = None,
     nr_context = False, nr_page = False, nr_readings = 1\<rparr>"

definition event :: "native_event \<Rightarrow> native_run \<Rightarrow> native_run" where
  "event e s = s\<lparr>nr_events := nr_events s @ [e]\<rparr>"

definition new_page :: "native_env \<Rightarrow> proxy_options option \<Rightarrow> native_run \<Rightarrow> fault option \<times> native_run" where
  "new_page e opts s = (case nv_new_page e of
     Some f \<Rightarrow> (Some f, s\<lparr>nr_navigation := ''context_failed''\<rparr>)
   | None \<Rightarrow> (None, event (PageOpened opts) (s\<lparr>nr_page := True\<rparr>)))"

definition open_page :: "native_env \<Rightarrow> proxy_options option \<Rightarrow> native_run \<Rightarrow> fault option \<times> native_run" where
  "open_page e opts s =
     (if nv_has_context e
      then (case nv_new_context e of
        Some f \<Rightarrow> (Some f, s\<lparr>nr_navigation := ''context_failed''\<rparr>)
      | None \<Rightarrow> new_page e None (event (ContextOpened opts) (s\<lparr>nr_context := True\<rparr>)))
      else new_page e opts s)"

definition timeout_ms :: "job \<Rightarrow> int" where
  "timeout_ms j = jb_timeout_sec j * 1000"

definition navigate :: "native_env \<Rightarrow> job \<Rightarrow> native_run \<Rightarrow> fault option \<times> native_run" where
  "navigate e j s =
     (let begun = nv_perf e (nr_readings s); s = event (Goto (jb_url_source j) (timeout_ms j)) (s\<lparr>nr_readings := Suc (nr_readings s)\<rparr>)
      in case nv_goto e of
        Some f \<Rightarrow> (Some f, s\<lparr>nr_navigation := ''navigation_failed''\<rparr>)
      | None \<Rightarrow>
          (let s = s\<lparr>nr_navigation := ''success'', nr_duration := Some (nv_perf e (nr_readings s) - begun),
                 nr_readings := Suc (nr_readings s)\<rparr>
           in case nv_title e of Inl f \<Rightarrow> (Some f, s) | Inr t \<Rightarrow> (None, s\<lparr>nr_title := Some t\<rparr>)))"

definition in_browser :: "native_env \<Rightarrow> job \<Rightarrow> native_run \<Rightarrow> fault option \<times> native_run" where
  "in_browser e j s = (case build_proxy_options j of
     Inl f \<Rightarrow> (Some f, s)
   | Inr opts \<Rightarrow> (case open_page e opts s of (Some f, s) \<Rightarrow> (Some f, s) | (None, s) \<Rightarrow> navigate e j s))"

text \<open>The browser is stopped when the \<open>with\<close> block is left, page and context are closed after it.\<close>

definition browse :: "native_env \<Rightarrow> job \<Rightarrow> native_run \<Rightarrow> fault option \<times> native_run" where
  "browse e j s = (case nv_enter e of
     Some f \<Rightarrow> (Some f, s)
   | None \<Rightarrow>
       (case in_browser e j (event (BrowserStarted (case nv_headless e of Some h \<Rightarrow> h | None \<Rightarrow> ''virtual'')) s) of
         (r, s) \<Rightarrow> (case nv_exit e of Some f \<Rightarrow> (Some f, event BrowserStopped s) | None \<Rightarrow> (r, event BrowserStopped s))))"

definition close_all :: "native_run \<Rightarrow> native_run" where
  "close_all s = s\<lparr>nr_events := nr_events s @ (if nr_page s then [PageClosed] else []) @ (if nr_context s then [ContextClosed] else [])\<rparr>"

definition navigation_status :: "fault option \<Rightarrow> native_run \<Rightarrow> string" where
  "navigation_status failure s =
     (if failure \<noteq> None \<and> nr_navigation s = ''not_attempted'' then ''context_failed'' else nr_navigation s)"

text \<open>The metrics of a run; the duration of the navigation is in microseconds.\<close>

definition run_extra :: "job \<Rightarrow> fault option \<Rightarrow> native_run \<Rightarrow> (string, pyval) dict" where
  "run_extra j failure s =
     [(''navigation_status'', PStr (navigation_status failure s)),
      (''navigation_duration_ms'', PInt (case nr_duration s of Some d \<Rightarrow> d | None \<Rightarrow> 0)),
      (''timeout_ms'', PInt (timeout_ms j))] @
     (case failure of Some (cls, _) \<Rightarrow> if cls = [] then [] else [(''exception_type'', PStr cls)] | None \<Rightarrow> [])"

definition run_native_job :: "native_env \<Rightarrow> job \<Rightarrow> job_result res \<times> native_event list" where
  "run_native_job e j = (case browse e j native_start of (failure, s) \<Rightarrow>
     (make_job_result
        \<lparr>jr_job = j, jr_status = (if failure = None then JobSUCCESS else JobFAILURE), jr_ok = (failure = None),
         jr_started_at = nv_started_at e, jr_finished_at = nv_finished_at e,
         jr_metrics = \<lparr>jm_duration = nv_perf e (nr_readings s) - nv_perf e 0, jm_extra = run_extra j failure s\<rparr>,
         jr_title = nr_title s,
         jr_error = (case failure of Some (cls, m) \<Rightarrow> Some \<lparr>je_type = cls, je_message = m, je_details = None\<rparr> | None \<Rightarrow> None)\<rparr>,
      nr_events (close_all s)))"

section \<open>What a run does\<close>

lemmas run_defs = browse_def in_browser_def open_page_def new_page_def navigate_def event_def native_start_def Let_def

lemma browse_outcome:
  assumes "browse e j native_start = (failure, s)"
  shows "(failure = None \<longrightarrow> nr_title s \<noteq> None \<and> nr_navigation s = ''success'' \<and>
      Goto (jb_url_source j) (timeout_ms j) \<in> set (nr_events s)) \<and>
    (nr_navigation s = ''not_attempted'' \<longrightarrow> failure \<noteq> None)"
  using assms
  by (auto simp: run_defs split: option.splits sum.splits if_splits prod.splits) metis+

text \<open>What is opened inside the browser, and what is left to close.\<close>

definition opened :: "native_run \<Rightarrow> native_event list \<Rightarrow> bool" where
  "opened s es = (((\<exists>p. PageOpened p \<in> set es) \<longleftrightarrow> nr_page s) \<and> ((\<exists>p. ContextOpened p \<in> set es) \<longleftrightarrow> nr_context s) \<and>
     length es \<le> 3 \<and> set es \<inter> {BrowserStopped, PageClosed, ContextClosed} = {})"

lemma browse_events:
  assumes "browse e j native_start = (failure, s)"
  shows "(nr_events s = [] \<and> failure \<noteq> None \<and> \<not> nr_page s \<and> \<not> nr_context s) \<or>
    (\<exists>h es. nr_events s = BrowserStarted h # es @ [BrowserStopped] \<and> opened s es)"
  using assms
  by (auto simp: run_defs opened_def split: option.splits sum.splits if_splits prod.splits) metis+

text \<open>
  The steps of a run that can fail, and the failure a run reports: that of the first step that failed,
  except that an exception on leaving the browser replaces one raised inside it.
\<close>

definition native_faults :: "native_env \<Rightarrow> job \<Rightarrow> fault option list" where
  "native_faults e j =
     [nv_enter e, nv_exit e, (case build_proxy_options j of Inl f \<Rightarrow> Some f | Inr _ \<Rightarrow> None),
      (if nv_has_context e then nv_new_context e else None), nv_new_page e, nv_goto e,
      (case nv_title e of Inl f \<Rightarrow> Some f | Inr _ \<Rightarrow> None)]"

definition native_fault :: "native_env \<Rightarrow> job \<Rightarrow> fault option" where
  "native_fault e j = (case filter (\<lambda>f. f \<noteq> None) (native_faults e j) of f # _ \<Rightarrow> f | [] \<Rightarrow> None)"

lemma browse_fault: "fst (browse e j native_start) = native_fault e j"
  by (auto simp: run_defs native_fault_def native_faults_def split: option.splits sum.splits prod.splits)

lemma browse_title:
  "browse e j native_start = (None, s) \<Longrightarrow> nv_title e = Inr (the (nr_title s)) \<and> nr_title s \<noteq> None"
  by (auto simp: run_defs split: option.splits sum.splits prod.splits if_splits)

lemma first_some_None:
  "(case filter (\<lambda>f. f \<noteq> None) fs of f # _ \<Rightarrow> f | [] \<Rightarrow> None) = None \<longleftrightarrow> (\<forall>f \<in> set fs. f = None)"
  for fs :: "'a option list"
  by (induction fs) auto

lemma no_native_fault: "native_fault e j = None \<longleftrightarrow> (\<forall>f \<in> set (native_faults e j). f = None)"
  unfolding native_fault_def by (rule first_some_None)

text \<open>
  C12: A native job reports what happened and leaves nothing open. With clocks that do not run backwards
  a run always gives a result. It is a success exactly when no step failed (starting the browser, reading
  the proxy, opening the context and the page, the navigation, the title, leaving the browser); the
  error it reports otherwise is the one of the step that failed first, or of leaving the browser.
  On success the source URL was visited with the job's timeout and the title is the page's. A browser
  that was started is stopped, and a page or context that was opened is closed, once and after the
  browser; nothing else is closed.
\<close>

theorem native_job_cleans_up:
  assumes "run_native_job e j = (r, events)" and "dt_less (nv_finished_at e) (nv_started_at e) = Inr False"
    and "\<And>n. nv_perf e 0 \<le> nv_perf e n"
  shows "\<exists>result. r = Inr result \<and> jr_job result = j \<and>
    (jr_ok result \<longleftrightarrow> (\<forall>f \<in> set (native_faults e j). f = None)) \<and>
    jr_status result = (if jr_ok result then JobSUCCESS else JobFAILURE) \<and>
    map_option (\<lambda>x. (je_type x, je_message x)) (jr_error result) = native_fault e j \<and>
    (jr_ok result \<longrightarrow> nv_title e = Inr (the (jr_title result)) \<and> jr_title result \<noteq> None \<and> Goto (jb_url_source j) (timeout_ms j) \<in> set events \<and>
       map_of (jm_extra (jr_metrics result)) ''navigation_status'' = Some (PStr ''success'')) \<and>
    ((events = [] \<and> \<not> jr_ok result) \<or>
     (\<exists>h es. events = BrowserStarted h # es @ BrowserStopped #
         (if \<exists>p. PageOpened p \<in> set es then [PageClosed] else []) @
         (if \<exists>p. ContextOpened p \<in> set es then [ContextClosed] else []) \<and>
       set es \<inter> {BrowserStopped, PageClosed, ContextClosed} = {}))"
proof -
  obtain failure s where run: "browse e j native_start = (failure, s)" by force
  have extra: "\<forall>v \<in> snd ` set (run_extra j failure s). metric_value v"
    by (auto simp: run_extra_def metric_value_def split: option.split)
  have status: "map_of (run_extra j failure s) ''navigation_status'' = Some (PStr (navigation_status failure s))"
    by (simp add: run_extra_def)
  from browse_events [OF run]
  have closed: "(nr_events (close_all s) = [] \<and> failure \<noteq> None) \<or>
      (\<exists>h es. nr_events (close_all s) = BrowserStarted h # es @ BrowserStopped #
         (if \<exists>p. PageOpened p \<in> set es then [PageClosed] else []) @
         (if \<exists>p. ContextOpened p \<in> set es then [ContextClosed] else []) \<and>
       set es \<inter> {BrowserStopped, PageClosed, ContextClosed} = {})"
  proof (elim disjE exE conjE)
    fix h es
    assume "nr_events s = BrowserStarted h # es @ [BrowserStopped]" and "opened s es"
    then show ?thesis by (intro disjI2 exI [of _ h] exI [of _ es]) (simp add: close_all_def opened_def)
  qed (simp add: close_all_def)
  have goto: "failure = None \<longrightarrow> Goto (jb_url_source j) (timeout_ms j) \<in> set (nr_events (close_all s))"
    using browse_outcome [OF run] by (auto simp: close_all_def)
  define result where "result = \<lparr>jr_job = j, jr_status = (if failure = None then JobSUCCESS else JobFAILURE),
    jr_ok = (failure = None), jr_started_at = nv_started_at e, jr_finished_at = nv_finished_at e,
    jr_metrics = \<lparr>jm_duration = nv_perf e (nr_readings s) - nv_perf e 0, jm_extra = run_extra j failure s\<rparr>,
    jr_title = nr_title s,
    jr_error = (case failure of Some (cls, m) \<Rightarrow> Some \<lparr>je_type = cls, je_message = m, je_details = None\<rparr> | None \<Rightarrow> None)\<rparr>"
  have "nv_perf e 0 \<le> nv_perf e (nr_readings s)" by (rule assms(3))
  then have "make_job_result result = Inr result"
    using assms(2) extra
    by (auto simp: result_def make_job_result_def validate_job_metrics_def validate_temporal_bounds_def)
  then have r: "r = Inr result" "events = nr_events (close_all s)"
    using assms(1) by (simp_all add: run_native_job_def run result_def)
  have ok: "jr_ok result \<longleftrightarrow> failure = None" "jr_error result = None \<longleftrightarrow> failure = None" "jr_job result = j"
    "jr_title result = nr_title s" "jm_extra (jr_metrics result) = run_extra j failure s"
    by (auto simp: result_def split: option.splits)
  have fault: "failure = native_fault e j" using browse_fault [of e j] run by simp
  have reported: "map_option (\<lambda>x. (je_type x, je_message x)) (jr_error result) = failure"
    "jr_status result = (if jr_ok result then JobSUCCESS else JobFAILURE)"
    by (auto simp: result_def split: option.splits)
  have title: "failure = None \<longrightarrow> nv_title e = Inr (the (nr_title s))" using browse_title run by blast
  have success: "failure = None \<longrightarrow> nr_title s \<noteq> None \<and>
      map_of (run_extra j failure s) ''navigation_status'' = Some (PStr ''success'')"
    using browse_outcome [OF run] unfolding status by (auto simp: navigation_status_def)
  show ?thesis
    unfolding r by (rule exI [of _ result])
      (use ok closed goto success title reported no_native_fault [of e j] in \<open>simp add: fault\<close>)
qed

section \<open>The property at work\<close>

definition demo_native_job :: job where
  "demo_native_job = \<lparr>jb_url = ''https://example.com/'', jb_http_proxy = Some ''http://u:p@proxy:81'', jb_https_proxy = None,
     jb_socks_proxy = Some [], jb_timeout_sec = 30, jb_url_source = ''https://example.com''\<rparr>"

definition demo_native_env :: native_env where
  "demo_native_env = \<lparr>nv_headless = None, nv_enter = None, nv_has_context = True, nv_new_context = None, nv_new_page = None,
     nv_goto = Some (''TimeoutError'', ''late''), nv_title = Inr ''title'', nv_exit = None, nv_started_at = Aware 0,
     nv_finished_at = Aware 5, nv_perf = int\<rparr>"

definition demo_options :: proxy_options where
  "demo_options = \<lparr>po_server = ''http://proxy:81'', po_username = Some ''u'', po_password = Some ''p''\<rparr>"

lemma demo_browse: "browse demo_native_env demo_native_job native_start = (Some (''TimeoutError'', ''late''),
    \<lparr>nr_events = [BrowserStarted ''virtual'', ContextOpened (Some demo_options), PageOpened None,
       Goto ''https://example.com'' 30000, BrowserStopped],
     nr_navigation = ''navigation_failed'', nr_duration = None, nr_title = None, nr_context = True, nr_page = True,
     nr_readings = 2\<rparr>)"
  by code_simp

lemma native_job_cleans_up_witness:
  "\<exists>result. run_native_job demo_native_env demo_native_job =
      (Inr result, [BrowserStarted ''virtual'', ContextOpened (Some demo_options), PageOpened None,
         Goto ''https://example.com'' 30000, BrowserStopped, PageClosed, ContextClosed]) \<and> \<not> jr_ok result \<and>
     map_option je_message (jr_error result) = Some ''late''"
proof -
  obtain r events where run: "run_native_job demo_native_env demo_native_job = (r, events)" by force
  have clocks: "dt_less (nv_finished_at demo_native_env) (nv_started_at demo_native_env) = Inr False"
    "\<And>n. nv_perf demo_native_env 0 \<le> nv_perf demo_native_env n"
    by (simp_all add: demo_native_env_def)
  have events: "events = [BrowserStarted ''virtual'', ContextOpened (Some demo_options), PageOpened None,
      Goto ''https://example.com'' 30000, BrowserStopped, PageClosed, ContextClosed]"
    using run by (simp add: run_native_job_def demo_browse close_all_def)
  have fault: "native_fault demo_native_env demo_native_job = Some (''TimeoutError'', ''late'')"
    using browse_fault [of demo_native_env demo_native_job] by (simp add: demo_browse)
  then have "\<not> (\<forall>f \<in> set (native_faults demo_native_env demo_native_job). f = None)"
    using no_native_fault [of demo_native_env demo_native_job] by simp
  then obtain result where r: "r = Inr result" "\<not> jr_ok result"
      "map_option (\<lambda>x. (je_type x, je_message x)) (jr_error result) = Some (''TimeoutError'', ''late'')"
    using native_job_cleans_up [OF run clocks] unfolding fault by blast
  then show ?thesis using run events by auto
qed

end
