(* ===== verification/Gateway_Routes.thy ===== *)
theory Gateway_Routes
  imports Gateway_Control
begin

text \<open>
  The gateway's remaining routes (\<open>routers/workstations.py\<close>, \<open>routers/runners.py\<close>, \<open>routers/events.py\<close> of
  \<open>services/gateway/app\<close>), the runner's outgoing publishers (\<open>services/runner/app/events.py\<close>), and the
  choice of a metrics backend in the VNC gateway (\<open>metrics.py\<close>).
\<close>

declare map_of_eq_Some_iff [simp del] Some_eq_map_of_iff [simp del]

section \<open>Workstations and runners\<close>

definition http_workstations :: "workstation_record list gateway_op" where
  "http_workstations = on_workstations workstation_list"

definition upsert_workstation :: "workstation_meta \<Rightarrow> workstation_record gateway_op" where
  "upsert_workstation m = on_workstations (upsert_metadata m)"

definition apply_workstation_event :: "workstation_event \<Rightarrow> workstation_record gateway_op" where
  "apply_workstation_event e = on_workstations (apply_event e)"

record runner_status =
  st_runner_id :: string
  st_base_url :: url
  st_runner_state :: runner_state
  st_total_slots :: int
  st_available_slots :: int
  st_healthy :: bool
  st_supports_vnc :: bool
  st_last_heartbeat_at :: "datetime option"
  st_vnc_http_url_template :: "string option"
  st_vnc_ws_url_template :: "string option"
  st_capabilities :: "string list"

definition make_runner_status :: "runner \<Rightarrow> runner_status res" where
  "make_runner_status r = (case r_available_slots r of
     None \<Rightarrow> Inl (ValueError ''Input should be a valid integer'')
   | Some available \<Rightarrow> Inr \<lparr>st_runner_id = r_id r, st_base_url = r_base_url r, st_runner_state = r_state r,
       st_total_slots = r_total_slots r, st_available_slots = available, st_healthy = r_healthy r,
       st_supports_vnc = r_supports_vnc r, st_last_heartbeat_at = r_last_heartbeat_at r,
       st_vnc_http_url_template = r_vnc_http_url_template r, st_vnc_ws_url_template = r_vnc_ws_url_template r,
       st_capabilities = sorted_list_of_set (r_capabilities r)\<rparr>)"

fun status_each :: "runner list \<Rightarrow> runner_status list res" where
  "status_each [] = Inr []"
| "status_each (r # rs) = res_bind (make_runner_status r) (\<lambda>x. res_bind (status_each rs) (\<lambda>xs. Inr (x # xs)))"

definition http_runners :: "runner_status list gateway_op" where
  "http_runners = bindm (on_runners list_runners) (\<lambda>rs. lift_res (status_each rs))"

section \<open>Event streams\<close>

text \<open>A frame of the server-sent stream; \<open>dumps\<close> is the JSON encoder.\<close>

definition stream_frame :: "(session_event \<Rightarrow> string) \<Rightarrow> session_event \<Rightarrow> string" where
  "stream_frame dumps e = ''data: '' @ dumps e @ [CHR 10, CHR 10]"

text \<open>One round of the stream's loop: \<open>None\<close> while it waits.\<close>

definition stream_next :: "(session_event \<Rightarrow> string) \<Rightarrow> nat \<Rightarrow> string option gateway_op" where
  "stream_next dumps q = bindm (on_bridge (next_event q)) (\<lambda>e. ret (map_option (stream_frame dumps) e))"

text \<open>The WebSocket of events: \<open>None\<close> when the upgrade was refused, and else its subscription.\<close>

definition websocket_events :: "gateway_env \<Rightarrow> caller \<Rightarrow> nat option gateway_op" where
  "websocket_events env c =
     bindm (read_clock env) (\<lambda>now.
     bindm (attempt (on_upgrade (authenticate_websocket (ge_auth env) (ge_trust env) now c))) (\<lambda>user. case user of
       Inl e \<Rightarrow> (case e of AuthenticationError _ \<Rightarrow> ret None | _ \<Rightarrow> raise e)
     | Inr _ \<Rightarrow> bindm (on_bridge (subscribe True)) (\<lambda>q. ret (Some q))))"

definition close_stream :: "nat \<Rightarrow> unit gateway_op" where
  "close_stream q = on_bridge (unsubscribe q)"

section \<open>Publishers\<close>

text \<open>\<open>dump\<close> is the event as JSON; the endpoint answers through the server of the client.\<close>

definition http_publish :: "http_server \<Rightarrow> url \<Rightarrow> (session_event \<Rightarrow> pyval) \<Rightarrow> session_event \<Rightarrow> unit http_op" where
  "http_publish server endpoint dump e =
     bindm (send server \<lparr>rq_base = endpoint, rq_method = ''POST'', rq_path = [], rq_json = Some (dump e)\<rparr>) (\<lambda>answer. case answer of
       NoAnswer m \<Rightarrow> raise (OtherError m)
     | Answer code _ \<Rightarrow> if is_success code then ret () else raise (OtherError (''HTTPStatusError '' @ nat_str code)))"

definition callback_publish :: "('e \<Rightarrow> ('s, unit) op) \<Rightarrow> 'e \<Rightarrow> ('s, unit) op" where
  "callback_publish callback e = callback e"

definition websocket_publish :: "(pyval \<Rightarrow> ('s, unit) op) \<Rightarrow> (workstation_event \<Rightarrow> pyval) \<Rightarrow> workstation_event \<Rightarrow> ('s, unit) op" where
  "websocket_publish push dump e =
     push (PDict [(''type'', PStr (workstation_event_value (we_type e))), (''event'', dump e)])"

section \<open>The metrics backend\<close>

text \<open>\<open>path.replace("::", ":")\<close>, and the module and attribute of an import path.\<close>

fun single_colons :: "string \<Rightarrow> string" where
  "single_colons (a # b # s) = (if a = CHR '':'' \<and> b = CHR '':'' then CHR '':'' # single_colons s else a # single_colons (b # s))"
| "single_colons s = s"

definition import_target :: "string \<Rightarrow> (string \<times> string) res" where
  "import_target path = (case rpartition_at (CHR '':'') (single_colons path) of (module, _, attr) \<Rightarrow>
     if module \<noteq> [] then Inr (module, attr)
     else (case rpartition_at (CHR ''.'') path of (module, _, attr) \<Rightarrow>
       if module \<noteq> [] then Inr (module, attr) else Inl (OtherError (''Invalid import string: '' @ path))))"

text \<open>
  What importing finds, after a callable has been called: a registry, an exporter, something else, or a
  failure.
\<close>

datatype imported = FoundRegistry | FoundExporter | FoundOther | ImportFails exn

datatype metrics_choice = PrometheusNew | PrometheusFrom string string | OtlpNoop | OtlpFrom string string

definition resolve_import :: "(string \<Rightarrow> string \<Rightarrow> imported) \<Rightarrow> string \<Rightarrow> (string \<times> string \<times> imported) res" where
  "resolve_import importer path = res_bind (import_target path) (\<lambda>(module, attr).
     case importer module attr of ImportFails e \<Rightarrow> Inl e | x \<Rightarrow> Inr (module, attr, x))"

definition resolve_prometheus_registry :: "(string \<Rightarrow> string \<Rightarrow> imported) \<Rightarrow> string option \<Rightarrow> metrics_choice res" where
  "resolve_prometheus_registry importer path = (case path of
     None \<Rightarrow> Inr PrometheusNew
   | Some p \<Rightarrow> if p = [] then Inr PrometheusNew
       else res_bind (resolve_import importer p) (\<lambda>(module, attr, x).
         if x = FoundRegistry then Inr (PrometheusFrom module attr) else Inl TypeError))"

definition resolve_otlp_exporter :: "(string \<Rightarrow> string \<Rightarrow> imported) \<Rightarrow> string option \<Rightarrow> metrics_choice res" where
  "resolve_otlp_exporter importer path = (case path of
     None \<Rightarrow> Inr OtlpNoop
   | Some p \<Rightarrow> if p = [] then Inr OtlpNoop
       else res_bind (resolve_import importer p) (\<lambda>(module, attr, x).
         if x = FoundExporter then Inr (OtlpFrom module attr) else Inl TypeError))"

definition build_metrics_backend ::
  "(string \<Rightarrow> string \<Rightarrow> imported) \<Rightarrow> string \<Rightarrow> string option \<Rightarrow> string option \<Rightarrow> metrics_choice res" where
  "build_metrics_backend importer kind registry_path exporter_path =
     (if kind = ''prometheus'' then resolve_prometheus_registry importer registry_path
      else if kind = ''otlp'' then resolve_otlp_exporter importer exporter_path
      else Inl (ValueError (''Unsupported metrics backend: '' @ kind)))"

section \<open>What they do\<close>

text \<open>A stream shows what the bridge holds for it, oldest first, and nothing is subscribed on a refused upgrade.\<close>

lemma stream_next_order:
  "map_of (eb_subscribers (gw_bridge g)) q = Some (e # es) \<Longrightarrow>
    fst (stream_next dumps q g) = Inr (Some (stream_frame dumps e)) \<and>
    map_of (eb_subscribers (gw_bridge (snd (stream_next dumps q g)))) q = Some es"
  by (simp add: stream_next_def next_event_def op_defs zoom_def)

lemma refused_upgrade_subscribes_nothing:
  "fst (websocket_events env c g) = Inr None \<Longrightarrow> gw_bridge (snd (websocket_events env c g)) = gw_bridge g"
  by (auto simp: websocket_events_def op_defs read_clock_def zoom_def subscribe_def split: sum.splits prod.splits exn.splits)

text \<open>The name behind the last colon is the attribute, whichever way the colons were doubled.\<close>

lemma import_target_plain:
  assumes "CHR '':'' \<notin> set attr" and "module \<noteq> []" and "CHR '':'' \<notin> set module"
  shows "import_target (module @ CHR '':'' # attr) = Inr (module, attr)"
proof -
  have step: "a \<noteq> CHR '':'' \<Longrightarrow> single_colons (a # s) = a # single_colons s" for a s
    by (cases s) auto
  have plain: "single_colons s = s" if "CHR '':'' \<notin> set s" for s
    using that by (induction s) (auto simp: step)
  have "single_colons (CHR '':'' # attr) = CHR '':'' # attr"
    using assms(1) plain [OF assms(1)] by (cases attr) auto
  then have "single_colons (m @ CHR '':'' # attr) = m @ CHR '':'' # attr" if "CHR '':'' \<notin> set m" for m
    using that by (induction m) (auto simp: step)
  then show ?thesis
    using assms by (simp add: import_target_def rpartition_at_def partition_at_append)
qed

end
