(* ===== verification/Spec2Isabelle.thy ===== *)
theory Spec2Isabelle
  imports Session_Manager_Props Browser_Flags Runner_Registry_Props Vnc_Overrides Vnc_Gateway
    Gateway_Control_Props Worker_Queue_Props Worker_Orchestrator_Props
    Runner_Api_Props Ws_Relay Worker_Service_Props Worker_Native Gateway_Routes
begin

text \<open>
  A verification development of ghost-browsers, a service that runs remote browsers for its users.

  \<^bold>\<open>The program.\<close> A \<^emph>\<open>runner\<close> (\<open>services/runner\<close>) launches browser processes, keeps a warm pool of them
  and offers each session a VNC desktop. A \<^emph>\<open>gateway\<close> (\<open>services/gateway\<close>) authenticates users, chooses a
  runner for each new session, sends it commands over HTTP, keeps registries of runners, sessions and
  workstations, and publishes events. A \<^emph>\<open>VNC gateway\<close> (\<open>services/vnc-gateway\<close>) lets whoever holds a token
  of the gateway reach the desktop of one session. A \<^emph>\<open>worker\<close> (\<open>services/camoufox_worker\<close>) takes jobs from
  a queue and drives sessions through the gateway. \<open>packages/core\<close> holds the data models they share.

  \<^bold>\<open>How the code is modelled.\<close> An operation of a component is a function from the component's state to a
  result and a new state, where the result is an exception or a value (the type \<open>op\<close> of \<open>Prelude\<close>); an
  exception keeps the changes made before it, as in Python. Handlers are written in the order of the
  code with \<open>bindm\<close>, \<open>thenm\<close>, \<open>catchm\<close>, \<open>attempt\<close> and \<open>zoom\<close> (an operation of a part of the state), and
  specified by the weakest precondition \<open>wp\<close>, which has a postcondition for values and one for exceptions.
  A dictionary that keeps its insertion order is an association list with distinct keys (\<open>dict\<close>). What
  a component asks of the outside (the operating system, other servers, clocks, libraries) is a record of
  functions, its environment, indexed by how often it was asked, so every answer it may get is covered.
  Reachable states are the inductive predicate \<open>reachable\<close> over a step relation with one rule for each
  operation.

  \<^bold>\<open>Theories and code.\<close>
  \<^item> \<open>Prelude\<close>, \<open>Interfaces\<close>: exceptions, operations, \<open>wp\<close>, dictionaries, reachability; the contracts
    \<open>transition_invariant\<close>, \<open>lease\<close> (exclusive resources) and \<open>keyed_store\<close> (a registry).
  \<^item> \<open>Py_Values\<close>, \<open>Py_Urls\<close>, \<open>Py_Netloc\<close>, \<open>Py_Ip\<close>: what the code uses of Python's values, \<open>urllib.parse\<close>
    and \<open>ipaddress\<close> (addresses as words), with the round trips of URLs and queries.
  \<^item> \<open>Core_Models\<close>: \<open>packages/core/core/models.py\<close>; \<open>Event_Bridge\<close>: \<open>websocket_bridge.py\<close> and the in-memory
    publishers of \<open>services/runner/app/events.py\<close>.
  \<^item> \<open>Runner_Settings\<close>: \<open>config/settings.py\<close>, \<open>config/warm_pool.py\<close>, \<open>dependencies/session_manager.py\<close>;
    \<open>Browser_Flags\<close>: \<open>browser_flags.py\<close>; \<open>Browser\<close>: \<open>browser.py\<close>; \<open>Warm_Pool\<close>, \<open>Warm_Pool_Inv\<close>,
    \<open>Warm_Pool_Props\<close>: \<open>warm_pool.py\<close>; \<open>Vnc_Pool\<close>, \<open>Vnc_Props\<close>: \<open>vnc.py\<close>; \<open>Session_Manager\<close> and its
    continuations: \<open>session_manager.py\<close>; \<open>Runner_Api\<close>, \<open>Runner_Api_Props\<close>: \<open>main.py\<close> and
    \<open>routers/workstations.py\<close> (all of \<open>services/runner/app\<close>).
  \<^item> \<open>Gateway_Registries\<close>, \<open>Runner_Registry\<close>, \<open>Vnc_Overrides\<close>, \<open>Runner_Client\<close>, \<open>Gateway_Auth\<close>,
    \<open>Gateway_Control\<close> with their properties: the services, security, settings, session routes and
    application of \<open>services/gateway/app\<close>; \<open>Gateway_Routes\<close>: its other routers, the runner's outgoing
    publishers and the choice of the VNC gateway's metrics backend.
  \<^item> \<open>Vnc_Tokens\<close>: the issuer (\<open>services/gateway/app/security/vnc.py\<close>) and the validator (\<open>token.py\<close>);
    \<open>Vnc_Gateway\<close>: \<open>proxy.py\<close>, \<open>routes.py\<close> and \<open>metrics.py\<close> of \<open>services/vnc-gateway\<close>.
  \<^item> \<open>Ws_Relay\<close>: the WebSocket relays of the gateway, the VNC gateway and the worker.
  \<^item> \<open>Worker_Queue\<close>, \<open>Worker_Orchestrator\<close> with their properties: \<open>jobs.py\<close>, \<open>queue.py\<close> and
    \<open>runner_orch.py\<close> of \<open>services/camoufox_worker/worker\<close>; \<open>Worker_Native\<close>: \<open>runner_native.py\<close>;
    \<open>Worker_Service\<close>, \<open>Worker_Service_Props\<close>: \<open>config.py\<close>, \<open>models.py\<close>, \<open>runner_client.py\<close> and \<open>service.py\<close>.

  \<^bold>\<open>What is shown.\<close>
  \<^item> Data: what the validators accept satisfies the relations between the fields, and settings read from
    any environment are within their bounds.
  \<^item> Resources of a runner: no browser process is leaked by a launch, a provisioning, a creation, an end
    or a stop; displays and ports are free or held by one session; slots of the pool move along the edges
    of their state machine; the books of the session manager agree in every reachable state, and a
    creation that raises leaves them as they were; the reaper ends exactly the expired sessions.
  \<^item> Gateway: the registries refine the history of their updates and store no tokens; the selection of
    runners is fair; callers are authenticated; a create command has exactly the listed outcomes; a round
    of maintenance forgets exactly the lost runners.
  \<^item> VNC: a minted token opens its session and nothing else, once if it has a nonce; a request reaches
    only the configured host; gauges count open connections.
  \<^item> Streams: subscribers of the bridge read a log; the relays keep every frame, in order.
  \<^item> Worker: the consumer drains its queue, retries follow their schedule, a completed key is not run
    again, an orchestrated job asks for the deletion of its session, a native one stops and closes what it
    opened.
  \<^item> Composition: the gateway's commands are bodies the runner accepts; what a runner reports is what the
    gateway's registry holds; tokens minted by the gateway are accepted by the VNC gateway; a session
    requested through the worker's service is accepted by the runner and carries the flags the operator
    requires; the gateway refuses the sessions the worker's orchestrator asks for.

  \<^bold>\<open>Bounds and fuel.\<close> Loops over data are structural. The waits of the VNC controller recur on the time
  left, which every poll shortens by its sleep. The polling of an orchestrated job and the loop of the
  queue consumer take a number of rounds; their properties show that a number given by the clock (as many
  readings as take it past the polling timeout) and by the contents of the queue is enough, the result
  then not being the one for exhausted rounds.

  \<^bold>\<open>Granularity.\<close> A section under a lock is one step, and so is a handler of the gateway and an operation
  of the session manager: interleavings at the awaits inside them are not modelled. The tasks of a relay
  interleave turn by turn. Step relations carry two guards: \<open>startable\<close> (the manager is started with a
  pool that is empty and a configuration whose ids are unique, which the loader ensures) and
  \<open>typed_update\<close> (an update sets no field to an explicit null that the bookkeeping reads). Fresh
  identifiers (\<open>uuid4\<close>) are counters; timestamps are microseconds with or without a time zone.

  \<^bold>\<open>Not modelled.\<close> Log lines; the rendering of metrics and the duration histograms; FastAPI's routing
  and pydantic's coercions of JSON (parameters where their result matters); the JOSE library, HTTP and
  WebSocket clients and the Redis and AMQP backends, which only call their client libraries; the endless
  loops around the reaper and the maintenance round, which repeat a modelled step; the Camoufox library,
  whose answers are the environment of a native job; cancellation of tasks outside the relays.
\<close>

end
